(* ===== verification/Prelude.thy ===== *)
theory Prelude
  imports Main "HOL-Library.AList"
begin

text \<open>
  Shared vocabulary of the development: Go's error values and (value, error) results, the
  named collections the component theories fill, and generic lemmas on lists and on
  association lists (the model of Go maps).

  A Go \<open>error\<close> is a chain of wrapped errors. What the program observes of a chain is the set of
  sentinel values \<open>errors.Is\<close> finds in it, the concrete types \<open>errors.As\<close> finds in it (in chain
  order), the kind the Kubernetes API machinery reports (\<open>apierrors.IsNotFound\<close> and its
  siblings) and its text, so a value of \<open>gerr\<close> holds exactly these. An operand that a format
  string prints with \<open>%q\<close> appears between double quotes, without escapes.
\<close>

named_theorems json_simps \<open>evaluation of JSON object access\<close>
named_theorems flight_simps \<open>definitions of the flight registry's operations\<close>
named_theorems strip_defs \<open>definitions of the live-state stripping helpers\<close>

datatype sentinel =
    ErrInvalidNativeID
  | CtxCanceled
  | CtxDeadlineExceeded
  | OsDeadlineExceeded
  | ECONNREFUSED
  | ECONNRESET
  | EPIPE
  | IoEOF
  | IoUnexpectedEOF
  | ErrTransient
  | ErrBrokerUnavailable
  | ErrMintFailed
  | ErrCredentialInternal
  | GenErrTimeout
  | GenErrNoConnection
  | ErrNoOidcBroker
  | ErrReleaseNotFound
  | ErrNoDeployedReleases
  | ErrRefreshServiceStarved
  | ErrWorker nat

datatype econcrete =
    NetOpError (op_timeout: bool)
  | NetDNSError (dns_timeout: bool) (dns_temporary: bool)
  | NetError (net_timeout: bool)
  | SmithyAPIError (smithy_code: string)
  | HTTPStatusError (http_status: int)
  | AzureResponseError (azure_status: int)
  | AzureAuthFailed (identity_status: "int option")
  | OAuthRetrieve (oauth_status: "int option")

datatype apireason =
    ApiNone | ApiNotFound | ApiConflict | ApiTimeout | ApiServerTimeout
  | ApiTooManyRequests | ApiServiceUnavailable | ApiInternalError | ApiNoMatch | ApiOther

datatype gerr = GErr
  (err_is: "sentinel list") (err_as: "econcrete list") (err_api: apireason) (err_msg: string)

type_synonym 'a res = "gerr + 'a"

definition new_error :: "string \<Rightarrow> gerr" where
  "new_error msg = GErr [] [] ApiNone msg"

definition sentinel_error :: "sentinel \<Rightarrow> string \<Rightarrow> gerr" where
  "sentinel_error s msg = GErr [s] [] ApiNone msg"

text \<open>\<open>fmt.Errorf("prefix: %w", err)\<close>: a new text, the same chain.\<close>

definition wrap_error :: "string \<Rightarrow> gerr \<Rightarrow> gerr" where
  "wrap_error msg e = GErr (err_is e) (err_as e) (err_api e) (msg @ '': '' @ err_msg e)"

text \<open>A text between double quotes.\<close>

definition quoted :: "string \<Rightarrow> string" where
  "quoted s = [CHR 0x22] @ s @ [CHR 0x22]"

definition errors_is :: "gerr \<Rightarrow> sentinel \<Rightarrow> bool" where
  "errors_is e s \<longleftrightarrow> s \<in> set (err_is e)"

definition is_api :: "apireason \<Rightarrow> gerr \<Rightarrow> bool" where
  "is_api r e \<longleftrightarrow> err_api e = r"

fun bind_res :: "'a res \<Rightarrow> ('a \<Rightarrow> 'b res) \<Rightarrow> 'b res" where
  "bind_res (Inl e) f = Inl e"
| "bind_res (Inr x) f = f x"

lemma errors_is_new [simp]: "\<not> errors_is (new_error m) s"
  by (simp add: errors_is_def new_error_def)

lemma errors_is_sentinel [simp]: "errors_is (sentinel_error s m) t \<longleftrightarrow> t = s"
  by (simp add: errors_is_def sentinel_error_def)

lemma errors_is_wrap [simp]: "errors_is (wrap_error m e) s \<longleftrightarrow> errors_is e s"
  by (simp add: errors_is_def wrap_error_def)

lemma is_api_wrap [simp]: "is_api r (wrap_error m e) \<longleftrightarrow> is_api r e"
  by (simp add: is_api_def wrap_error_def)

lemma bind_res_Inr_iff:
  "bind_res r f = Inr y \<longleftrightarrow> (\<exists>x. r = Inr x \<and> f x = Inr y)"
  by (cases r) auto

lemma map_fixed_iff: "map f xs = xs \<longleftrightarrow> (\<forall>x \<in> set xs. f x = x)"
  by (induction xs) auto

subsection \<open>Association lists\<close>

text \<open>
  A Go map is an association list with distinct keys; \<open>AList.update\<close> overwrites in place or
  appends, \<open>del_key\<close> is \<open>delete(m, k)\<close>. The order of the list stands for one iteration order.
\<close>

definition del_key :: "'k \<Rightarrow> ('k \<times> 'v) list \<Rightarrow> ('k \<times> 'v) list" where
  "del_key k kvs = filter (\<lambda>kv. fst kv \<noteq> k) kvs"

definition has_key :: "('k \<times> 'v) list \<Rightarrow> 'k \<Rightarrow> bool" where
  "has_key kvs k \<longleftrightarrow> map_of kvs k \<noteq> None"

lemma map_of_del_key [simp]: "map_of (del_key k kvs) = (map_of kvs)(k := None)"
  by (induction kvs) (auto simp: del_key_def fun_eq_iff)

lemma map_of_filter_key:
  "map_of (filter (\<lambda>kv. P (fst kv)) kvs) k = (if P k then map_of kvs k else None)"
  by (induction kvs) auto

lemma keys_del_key [simp]: "fst ` set (del_key k kvs) = fst ` set kvs - {k}"
  by (auto simp: del_key_def image_iff)

lemma distinct_del_key [simp]:
  "distinct (map fst kvs) \<Longrightarrow> distinct (map fst (del_key k kvs))"
  by (simp add: del_key_def distinct_map_filter)

lemma del_key_idem: "map_of kvs k = None \<Longrightarrow> del_key k kvs = kvs"
  by (induction kvs) (auto simp: del_key_def split: if_splits)

lemma del_key_del_key [simp]: "del_key k (del_key k kvs) = del_key k kvs"
  by (simp add: del_key_idem)

lemma set_del_key_subset: "set (del_key k kvs) \<subseteq> set kvs"
  by (auto simp: del_key_def)

lemma has_key_iff [simp]: "has_key kvs k \<longleftrightarrow> k \<in> fst ` set kvs"
  by (auto simp: has_key_def map_of_eq_None_iff)

lemma map_of_map_snd [simp]:
  "map_of (map (\<lambda>(k, v). (k, f k v)) kvs) k = map_option (f k) (map_of kvs k)"
  by (induction kvs) auto

lemma keys_map_snd [simp]: "map fst (map (\<lambda>(k, v). (k, f k v)) kvs) = map fst kvs"
  by (induction kvs) auto

lemma map_of_AList_update [simp]:
  "map_of (AList.update k v kvs) = (map_of kvs)(k \<mapsto> v)"
  by (rule update_conv')

end
