(* ===== verification/Json.thy ===== *)
theory Json
  imports Go_Strings
begin

text \<open>
  Decoded JSON, the \<open>interface{}\<close> values \<open>encoding/json\<close> produces. An object is an
  association list with distinct keys, in some iteration order, and a document handed over as bytes
  is its value. Numbers are the integral ones below \<open>2 ^ 53\<close>, which \<open>float64\<close> holds
  exactly (fractions do not occur in the fields the program inspects). \<open>fmt_v\<close> is \<open>fmt.Sprintf("%v", \<dots>)\<close> on these values.
\<close>

datatype json =
    JNull
  | JBool bool
  | JNum int
  | JStr string
  | JArr "json list"
  | JObj "(string \<times> json) list"

type_synonym jobject = "(string \<times> json) list"

lemma size_json_pair [termination_simp]:
  "(k, v) \<in> set kvs \<Longrightarrow> size v < Suc (size_list (size_prod (\<lambda>_. 0) size) kvs)"
  by (induction kvs) auto

lemma size_json_elem [termination_simp]:
  "v \<in> set vs \<Longrightarrow> size v < Suc (size_list size vs)"
  by (induction vs) auto

lemma json_induct [case_names Null Bool Num Str Arr Obj]:
  assumes "P JNull" "\<And>b. P (JBool b)" "\<And>n. P (JNum n)" "\<And>s. P (JStr s)"
    and arr: "\<And>vs. (\<And>v. v \<in> set vs \<Longrightarrow> P v) \<Longrightarrow> P (JArr vs)"
    and obj: "\<And>kvs. (\<And>k v. (k, v) \<in> set kvs \<Longrightarrow> P v) \<Longrightarrow> P (JObj kvs)"
  shows "P j"
proof (induction j rule: json.induct)
  case (JArr vs)
  then show ?case by (intro arr) auto
next
  case (JObj kvs)
  then show ?case
    by (intro obj) (metis snds.intros snd_conv)
qed (use assms in auto)

text \<open>The type assertions \<open>v.(map[string]interface{})\<close>, \<open>v.([]interface{})\<close> and \<open>v.(string)\<close> on
  a value looked up in an object; the zero value stands for a failed assertion.\<close>

fun as_object :: "json option \<Rightarrow> jobject option" where
  "as_object (Some (JObj kvs)) = Some kvs"
| "as_object _ = None"

fun as_array :: "json option \<Rightarrow> json list option" where
  "as_array (Some (JArr vs)) = Some vs"
| "as_array _ = None"

fun as_string :: "json option \<Rightarrow> string" where
  "as_string (Some (JStr s)) = s"
| "as_string _ = []"

fun is_object :: "json \<Rightarrow> bool" where
  "is_object (JObj _) = True"
| "is_object _ = False"

fun is_string :: "json option \<Rightarrow> bool" where
  "is_string (Some (JStr _)) = True"
| "is_string _ = False"

text \<open>A raw document as bytes: \<open>None\<close> for no bytes, a syntax error, or its value.\<close>

type_synonym raw = "json res option"

fun raw_object :: "raw \<Rightarrow> jobject option" where
  "raw_object (Some (Inr (JObj kvs))) = Some kvs"
| "raw_object _ = None"

lemma raw_object_Some [simp]: "raw_object r = Some kvs \<longleftrightarrow> r = Some (Inr (JObj kvs))"
  by (cases r rule: raw_object.cases) auto

lemma is_string_Some [simp]: "is_string j \<longleftrightarrow> (\<exists>s. j = Some (JStr s))"
  by (cases j rule: is_string.cases) auto

lemma as_object_Some [simp]: "as_object j = Some kvs \<longleftrightarrow> j = Some (JObj kvs)"
  by (cases j rule: as_object.cases) auto

lemma as_array_Some [simp]: "as_array j = Some vs \<longleftrightarrow> j = Some (JArr vs)"
  by (cases j rule: as_array.cases) auto

lemma is_object_iff: "is_object j \<longleftrightarrow> (\<exists>kvs. j = JObj kvs)"
  by (cases j) auto

subsection \<open>Decoding into a struct\<close>

text \<open>\<open>encoding/json\<close>, with the struct's own spelling of the keys: an absent or null field keeps its zero
  value, a value of another type is an error (its text is shortened), reported once every field has been
  decoded. \<open>unmarshal_strings\<close> is a struct whose string fields are listed.\<close>

definition json_type_error :: "string \<Rightarrow> gerr" where
  "json_type_error field = new_error (''json: cannot unmarshal into Go struct field '' @ field)"

definition string_field :: "jobject \<Rightarrow> string \<Rightarrow> bool" where
  "string_field kvs k \<longleftrightarrow> (case map_of kvs k of None \<Rightarrow> True | Some JNull \<Rightarrow> True | Some (JStr _) \<Rightarrow> True | _ \<Rightarrow> False)"

fun unmarshal_strings :: "string list \<Rightarrow> (jobject \<Rightarrow> 'r) \<Rightarrow> json \<Rightarrow> 'r res" where
  "unmarshal_strings names build JNull = Inr (build [])"
| "unmarshal_strings names build (JObj kvs) =
     (case find (\<lambda>k. \<not> string_field kvs k) names of
        Some k \<Rightarrow> Inl (json_type_error k)
      | None \<Rightarrow> Inr (build kvs))"
| "unmarshal_strings names build _ = Inl (json_type_error [])"

lemma unmarshal_strings_object:
  "unmarshal_strings names build (JObj kvs) = Inr r \<longleftrightarrow> r = build kvs \<and> (\<forall>k \<in> set names. string_field kvs k)"
  by (auto split: option.splits simp: find_None_iff find_Some_iff)

subsection \<open>Well-formed values\<close>

fun wf_json :: "json \<Rightarrow> bool" where
  "wf_json (JArr vs) = (\<forall>v \<in> set vs. wf_json v)"
| "wf_json (JObj kvs) = (distinct (map fst kvs) \<and> (\<forall>kv \<in> set kvs. wf_json (snd kv)))"
| "wf_json _ = True"

subsection \<open>Printing with the default verb\<close>

text \<open>A \<open>float64\<close> prints its shortest digits, in exponent form from \<open>1e+06\<close> on.\<close>

definition fmt_float :: "int \<Rightarrow> string" where
  "fmt_float n =
     (let s = show_nat (nat \<bar>n\<bar>); ex = length s - 1;
          body = (if ex < 6 then s
                  else let m = rev (dropWhile (\<lambda>c. c = CHR ''0'') (rev s)) in
                       take 1 m @ (if length m \<le> 1 then [] else ''.'' @ drop 1 m) @ ''e+'' @
                       (if ex < 10 then ''0'' else []) @ show_nat ex)
      in if n < 0 then ''-'' @ body else body)"

fun fmt_v :: "json \<Rightarrow> string" where
  "fmt_v JNull = ''<nil>''"
| "fmt_v (JBool b) = (if b then ''true'' else ''false'')"
| "fmt_v (JNum n) = fmt_float n"
| "fmt_v (JStr s) = s"
| "fmt_v (JArr vs) = ''['' @ join_with '' '' (map fmt_v vs) @ '']''"
| "fmt_v (JObj kvs) =
     ''map['' @ join_with '' '' (map (\<lambda>kv. fst kv @ '':'' @ snd kv)
        (sort_key fst (map (\<lambda>(k, v). (k, fmt_v v)) kvs))) @ '']''"

end
