(* ===== verification/Metadata.thy ===== *)
theory Metadata
  imports Json
begin

text \<open>
  Metadata handling in \<open>pkg/resources/prov\<close>: \<open>normalize.go\<close> (label, annotation and selector maps
  that arrive dot-expanded are collapsed back to flat string maps before a payload is decoded)
  and \<open>ownership.go\<close> (live labels and annotations the desired state no longer declares are
  removed by one merge patch). A raw document is the outcome of parsing it: \<open>None\<close> for no bytes,
  \<open>Some (Inl e)\<close> for a syntax error.
\<close>

subsection \<open>Collapsing dot-expanded maps\<close>

definition string_map_keys :: "string list" where
  "string_map_keys = [''labels'', ''annotations'', ''matchLabels'', ''nodeSelector'']"

definition is_label_selector_shape :: "jobject \<Rightarrow> bool" where
  "is_label_selector_shape m = (has_key m ''matchLabels'' \<or> has_key m ''matchExpressions'')"

definition has_nested_object_value :: "jobject \<Rightarrow> bool" where
  "has_nested_object_value m = list_ex (\<lambda>kv. is_object (snd kv)) m"

definition full_key :: "string \<Rightarrow> string \<Rightarrow> string" where
  "full_key prefix k = (if prefix \<noteq> [] then prefix @ ''.'' @ k else k)"

definition put_all :: "jobject \<Rightarrow> jobject \<Rightarrow> jobject" where
  "put_all src out = fold (\<lambda>kv acc. AList.update (fst kv) (snd kv) acc) src out"

text \<open>\<open>collapse_into\<close> is the loop of \<open>collapseStringMap\<close> with \<open>out\<close> as its accumulator.\<close>

function collapse_into :: "string \<Rightarrow> jobject \<Rightarrow> jobject \<Rightarrow> jobject" where
  "collapse_into prefix [] out = out"
| "collapse_into prefix ((k, v) # kvs) out =
     (let fullKey = full_key prefix k in
      collapse_into prefix kvs
        (case v of
           JObj val \<Rightarrow> put_all (collapse_into fullKey val []) out
         | JStr s \<Rightarrow> AList.update fullKey (JStr s) out
         | JNull \<Rightarrow> AList.update fullKey (JStr []) out
         | _ \<Rightarrow> AList.update fullKey (JStr (fmt_v v)) out))"
  by pat_completeness auto
termination
  by (relation "measure (\<lambda>(prefix, m, out). size_list (size_prod (\<lambda>_. 0) size) m)") auto

definition collapse_string_map :: "jobject \<Rightarrow> string \<Rightarrow> jobject" where
  "collapse_string_map m prefix = collapse_into prefix m []"

text \<open>The two cases of \<open>walkAndFlatten\<close> that rewrite a child.\<close>

definition must_collapse :: "string \<Rightarrow> json \<Rightarrow> bool" where
  "must_collapse k child =
     (case child of
        JObj obj \<Rightarrow>
          k \<in> set string_map_keys \<and> has_nested_object_value obj \<or>
          k = ''selector'' \<and> \<not> is_label_selector_shape obj \<and> has_nested_object_value obj
      | _ \<Rightarrow> False)"

fun collapse_child :: "json \<Rightarrow> json" where
  "collapse_child (JObj obj) = JObj (collapse_string_map obj [])"
| "collapse_child v = v"

fun walk_and_flatten :: "json \<Rightarrow> json" where
  "walk_and_flatten (JObj kvs) =
     JObj (map (\<lambda>(k, child). (k, if must_collapse k child then collapse_child child
                                 else walk_and_flatten child)) kvs)"
| "walk_and_flatten (JArr vs) = JArr (map walk_and_flatten vs)"
| "walk_and_flatten v = v"

definition normalize_metadata :: "json res option \<Rightarrow> json res option" where
  "normalize_metadata raw =
     (case raw of
        None \<Rightarrow> None
      | Some (Inl e) \<Rightarrow> Some (Inl (wrap_error ''normalize: parse json'' e))
      | Some (Inr doc) \<Rightarrow> Some (Inr (walk_and_flatten doc)))"

text \<open>\<open>UnmarshalApplyConfig\<close>: \<open>decode\<close> is the typed \<open>json.Unmarshal\<close> of client-go's type, which
  answers an error for no input.\<close>

definition unmarshal_apply_config :: "(json option \<Rightarrow> 'a res) \<Rightarrow> json res option \<Rightarrow> 'a res" where
  "unmarshal_apply_config decode raw =
     (case normalize_metadata raw of
        None \<Rightarrow> decode None
      | Some (Inl e) \<Rightarrow> Inl e
      | Some (Inr doc) \<Rightarrow> decode (Some doc))"

subsection \<open>Removing undeclared metadata\<close>

definition extra_map_keys :: "jobject \<Rightarrow> jobject option \<Rightarrow> string \<Rightarrow> jobject" where
  "extra_map_keys liveMeta desiredMeta field =
     (case as_object (map_of liveMeta field) of
        None \<Rightarrow> []
      | Some liveField \<Rightarrow>
          (case desiredMeta of
             None \<Rightarrow> []
           | Some dm \<Rightarrow>
               if \<not> has_key dm field then []
               else let desiredField = (case as_object (map_of dm field) of Some d \<Rightarrow> d | None \<Rightarrow> [])
                    in map (\<lambda>kv. (fst kv, JNull))
                         (filter (\<lambda>kv. \<not> has_key desiredField (fst kv)) liveField)))"

text \<open>\<open>toGenericMap\<close> on the marshalled form of a typed object.\<close>

fun to_generic_map :: "json res \<Rightarrow> jobject res" where
  "to_generic_map (Inl e) = Inl e"
| "to_generic_map (Inr (JObj kvs)) = Inr kvs"
| "to_generic_map (Inr JNull) = Inr []"
| "to_generic_map (Inr _) = Inl (new_error ''json: cannot unmarshal into Go value of type map[string]interface {}'')"

text \<open>\<open>patchFn\<close> runs in the state \<open>'s\<close> of the cluster; \<open>None\<close> is a nil error.\<close>

definition reconcile_metadata ::
  "json res \<Rightarrow> json res \<Rightarrow> (string \<Rightarrow> json \<Rightarrow> 's \<Rightarrow> gerr option \<times> 's) \<Rightarrow> 's \<Rightarrow> gerr option \<times> 's" where
  "reconcile_metadata live desired patchFn s =
     (case to_generic_map live of
        Inl e \<Rightarrow> (Some (wrap_error ''failed to marshal live object'' e), s)
      | Inr liveMap \<Rightarrow>
     (case to_generic_map desired of
        Inl e \<Rightarrow> (Some (wrap_error ''failed to marshal desired config'' e), s)
      | Inr desiredMap \<Rightarrow>
     (case as_object (map_of liveMap ''metadata'') of
        None \<Rightarrow> (None, s)
      | Some liveMeta \<Rightarrow>
          let desiredMeta = as_object (map_of desiredMap ''metadata'');
              labels = extra_map_keys liveMeta desiredMeta ''labels'';
              annotations = extra_map_keys liveMeta desiredMeta ''annotations'';
              metaPatch = (if labels \<noteq> [] then [(''labels'', JObj labels)] else []) @
                          (if annotations \<noteq> [] then [(''annotations'', JObj annotations)] else [])
          in if metaPatch = [] then (None, s)
             else patchFn (as_string (map_of liveMeta ''name''))
                    (JObj [(''metadata'', JObj metaPatch)]) s)))"

subsection \<open>Lemmas\<close>

text \<open>The leaves of a nested object with their dotted keys, in iteration order.\<close>

function leaves :: "string \<Rightarrow> jobject \<Rightarrow> (string \<times> string) list" where
  "leaves prefix [] = []"
| "leaves prefix ((k, v) # kvs) =
     (case v of
        JObj val \<Rightarrow> leaves (full_key prefix k) val
      | JStr s \<Rightarrow> [(full_key prefix k, s)]
      | JNull \<Rightarrow> [(full_key prefix k, [])]
      | _ \<Rightarrow> [(full_key prefix k, fmt_v v)]) @ leaves prefix kvs"
  by pat_completeness auto
termination
  by (relation "measure (\<lambda>(prefix, m). size_list (size_prod (\<lambda>_. 0) size) m)") auto

definition str_pairs :: "(string \<times> string) list \<Rightarrow> jobject" where
  "str_pairs = map (\<lambda>(k, s). (k, JStr s))"

lemma str_pairs_simps [simp]:
  "str_pairs [] = []" "str_pairs ((k, s) # xs) = (k, JStr s) # str_pairs xs"
  "str_pairs (xs @ ys) = str_pairs xs @ str_pairs ys" "rev (str_pairs xs) = str_pairs (rev xs)"
  by (simp_all add: str_pairs_def rev_map)

lemma map_of_put_all: "map_of (put_all src out) = map_of out ++ map_of (rev src)"
proof -
  have "map_of (fold (\<lambda>kv acc. AList.update (fst kv) (snd kv) acc) src out) = map_of out ++ map_of (rev src)"
    by (induction src arbitrary: out) (auto simp: map_add_def fun_eq_iff split: option.splits)
  then show ?thesis by (simp add: put_all_def)
qed

lemma distinct_put_all:
  "distinct (map fst out) \<Longrightarrow> distinct (map fst (put_all src out))"
  unfolding put_all_def
  by (induction src arbitrary: out) (auto simp: distinct_update)

lemma distinct_collapse_into:
  "distinct (map fst out) \<Longrightarrow> distinct (map fst (collapse_into prefix m out))"
proof (induction prefix m out rule: collapse_into.induct)
  case (2 prefix k v kvs out)
  then show ?case
    by (cases v) (auto simp: Let_def distinct_put_all distinct_update)
qed simp

lemma map_of_rev_distinct:
  assumes "distinct (map fst xs)"
  shows "map_of (rev xs) = map_of xs"
proof
  fix k
  have "distinct (map fst (rev xs))"
    using assms by (simp add: rev_map [symmetric])
  then have "map_of (rev xs) k = Some v \<longleftrightarrow> map_of xs k = Some v" for v
    using assms by simp
  then show "map_of (rev xs) k = map_of xs k"
    by (metis not_None_eq)
qed

lemma map_of_collapse_into:
  "map_of (collapse_into prefix m out) = map_of out ++ map_of (str_pairs (rev (leaves prefix m)))"
proof (induction prefix m out rule: collapse_into.induct)
  case (2 prefix k v kvs out)
  have inner: "map_of (rev (collapse_into (full_key prefix k) val [])) =
      map_of (collapse_into (full_key prefix k) val [])" for val
    by (intro map_of_rev_distinct distinct_collapse_into) simp
  from 2 show ?case
    by (cases v) (simp_all add: Let_def map_of_put_all inner map_add_def fun_eq_iff split: option.splits)
qed simp

lemma collapse_into_strings:
  assumes "v \<in> snd ` set (collapse_into prefix m [])"
  shows "\<exists>s. v = JStr s"
proof -
  obtain k where "(k, v) \<in> set (collapse_into prefix m [])"
    using assms by auto
  then have "map_of (collapse_into prefix m []) k = Some v"
    using distinct_collapse_into [of "[]"] by simp
  then have "map_of (str_pairs (rev (leaves prefix m))) k = Some v"
    by (simp add: map_of_collapse_into)
  then show ?thesis
    by (auto simp: str_pairs_def dest!: map_of_SomeD)
qed

text \<open>The leaf at a path of keys, and the dotted key of a path.\<close>

fun leaf_text :: "json \<Rightarrow> string option" where
  "leaf_text (JObj _) = None"
| "leaf_text (JStr s) = Some s"
| "leaf_text JNull = Some []"
| "leaf_text v = Some (fmt_v v)"

fun leaf_at :: "jobject \<Rightarrow> string list \<Rightarrow> string option" where
  "leaf_at m [] = None"
| "leaf_at m (k # ks) =
     (case map_of m k of
        None \<Rightarrow> None
      | Some v \<Rightarrow> if ks = [] then leaf_text v
                  else (case v of JObj c \<Rightarrow> leaf_at c ks | _ \<Rightarrow> None))"

definition dotted :: "string \<Rightarrow> string list \<Rightarrow> string" where
  "dotted prefix path = foldl full_key prefix path"

lemma leaf_at_Cons_iff:
  assumes "distinct (map fst ((k, v) # kvs))"
  shows "leaf_at ((k, v) # kvs) path = Some s \<longleftrightarrow>
     (\<exists>ks. path = k # ks \<and> (ks = [] \<and> leaf_text v = Some s \<or>
        (\<exists>c. ks \<noteq> [] \<and> v = JObj c \<and> leaf_at c ks = Some s))) \<or> leaf_at kvs path = Some s"
proof (cases path)
  case (Cons k' ks)
  have "map_of kvs k = None"
    using assms by (simp add: map_of_eq_None_iff)
  then show ?thesis
    using Cons by (cases v) auto
qed simp

lemma set_leaves:
  "wf_json (JObj m) \<Longrightarrow> (key, s) \<in> set (leaves prefix m) \<longleftrightarrow>
     (\<exists>path. leaf_at m path = Some s \<and> key = dotted prefix path)"
proof (induction prefix m rule: leaves.induct)
  case (1 prefix)
  then show ?case
    by (auto elim: leaf_at.elims)
next
  case (2 prefix k v kvs)
  have d: "distinct (map fst ((k, v) # kvs))"
    using "2.prems" by simp
  have rest: "(key, s) \<in> set (leaves prefix kvs) \<longleftrightarrow>
      (\<exists>path. leaf_at kvs path = Some s \<and> key = dotted prefix path)"
    using 2 by simp
  show ?case
  proof (cases v)
    case (JObj val)
    have ne: "leaf_at val ks = Some s \<Longrightarrow> ks \<noteq> []" for ks
      by auto
    have "(key, s) \<in> set (leaves (full_key prefix k) val) \<longleftrightarrow>
        (\<exists>ks. leaf_at val ks = Some s \<and> key = dotted prefix (k # ks))"
      using "2.IH"(1) [OF JObj] "2.prems" JObj by (simp add: dotted_def)
    then show ?thesis
      using JObj rest ne leaf_at_Cons_iff [OF d] by simp blast
  qed (use rest leaf_at_Cons_iff [OF d] in \<open>auto simp: dotted_def\<close>)
qed

lemma map_of_str_pairs: "map_of (str_pairs xs) k = map_option JStr (map_of xs k)"
  by (induction xs) auto

subsection \<open>Properties\<close>

text \<open>The objects that are string maps by the Kubernetes contract, and the normal form
  \<open>UnmarshalApplyConfig\<close> promises to the typed decoders: wherever it occurs, a string map holds
  no object among its values.\<close>

definition string_map_at :: "string \<Rightarrow> jobject \<Rightarrow> bool" where
  "string_map_at k obj \<longleftrightarrow>
     k \<in> {''labels'', ''annotations'', ''matchLabels'', ''nodeSelector''} \<or>
     k = ''selector'' \<and> ''matchLabels'' \<notin> fst ` set obj \<and> ''matchExpressions'' \<notin> fst ` set obj"

fun metadata_flat :: "json \<Rightarrow> bool" where
  "metadata_flat (JObj kvs) =
     list_all (\<lambda>(k, c). metadata_flat c \<and>
       (case c of
          JObj obj \<Rightarrow> string_map_at k obj \<longrightarrow> list_all (\<lambda>kv. \<not> is_object (snd kv)) obj
        | _ \<Rightarrow> True)) kvs"
| "metadata_flat (JArr vs) = list_all metadata_flat vs"
| "metadata_flat v = True"

lemma set_string_map_keys: "set string_map_keys = {''labels'', ''annotations'', ''matchLabels'', ''nodeSelector''}"
  by (simp add: string_map_keys_def)

lemma has_nested_object_value_iff: "has_nested_object_value obj \<longleftrightarrow> \<not> list_all (\<lambda>kv. \<not> is_object (snd kv)) obj"
  by (auto simp: has_nested_object_value_def list_all_iff list_ex_iff)

lemma must_collapse_JObj [simp]:
  "must_collapse k (JObj obj) \<longleftrightarrow> string_map_at k obj \<and> \<not> list_all (\<lambda>kv. \<not> is_object (snd kv)) obj"
  unfolding must_collapse_def string_map_at_def set_string_map_keys has_nested_object_value_iff
    is_label_selector_shape_def json.case has_key_iff
  by argo

lemma must_collapse_other [simp]: "\<not> is_object c \<Longrightarrow> \<not> must_collapse k c"
  by (cases c) (simp_all add: must_collapse_def)

lemma metadata_flat_JObj:
  "metadata_flat (JObj kvs) \<longleftrightarrow> (\<forall>kv \<in> set kvs. metadata_flat (snd kv) \<and> \<not> must_collapse (fst kv) (snd kv))"
proof -
  have "(case c of JObj obj \<Rightarrow> string_map_at k obj \<longrightarrow> list_all (\<lambda>kv. \<not> is_object (snd kv)) obj
        | _ \<Rightarrow> True) \<longleftrightarrow> \<not> must_collapse k c" for k c
    by (cases c) simp_all
  then show ?thesis
    by (auto simp: list_all_iff)
qed

lemma collapse_strings:
  "(k, v) \<in> set (collapse_string_map obj []) \<Longrightarrow> \<exists>s. v = JStr s"
  using collapse_into_strings [of v "[]" obj] by (force simp: collapse_string_map_def)

lemma metadata_flat_collapse:
  "metadata_flat (JObj (collapse_string_map obj [])) \<and> \<not> must_collapse k (JObj (collapse_string_map obj []))"
proof -
  have str: "\<exists>s. snd kv = JStr s" if "kv \<in> set (collapse_string_map obj [])" for kv
    using that collapse_strings [of "fst kv" "snd kv" obj] by simp
  have "metadata_flat (snd kv) \<and> \<not> is_object (snd kv)" if "kv \<in> set (collapse_string_map obj [])" for kv
    using str [OF that] by auto
  then show ?thesis
    by (simp add: metadata_flat_JObj list_all_iff del: metadata_flat.simps)
qed

lemma collapse_child_changes:
  assumes "must_collapse k c" shows "collapse_child c \<noteq> c"
proof (cases "is_object c")
  case True
  then obtain obj where c: "c = JObj obj"
    by (cases c) auto
  then show ?thesis
    using metadata_flat_collapse [of obj k] assms by auto
next
  case False
  then show ?thesis using assms by simp
qed

lemma is_object_walk [simp]: "is_object (walk_and_flatten v) \<longleftrightarrow> is_object v"
  by (cases v) simp_all

lemma is_object_collapse_child [simp]: "is_object (collapse_child v) \<longleftrightarrow> is_object v"
  by (cases v) simp_all

lemma must_collapse_walk [simp]: "must_collapse k (walk_and_flatten c) \<longleftrightarrow> must_collapse k c"
proof (cases c)
  case (JObj obj)
  define obj' where "obj' = map (\<lambda>(k, child). (k, if must_collapse k child then collapse_child child
                                 else walk_and_flatten child)) obj"
  have "fst ` set obj' = fst ` set obj"
    by (force simp: obj'_def)
  then have "string_map_at k obj' \<longleftrightarrow> string_map_at k obj"
    by (simp add: string_map_at_def)
  moreover have "is_object (if must_collapse k c then collapse_child c else walk_and_flatten c) \<longleftrightarrow> is_object c" for k c
    by simp
  then have "list_all (\<lambda>kv. \<not> is_object (snd kv)) obj' \<longleftrightarrow> list_all (\<lambda>kv. \<not> is_object (snd kv)) obj"
    by (simp add: obj'_def list_all_iff split_beta)
  ultimately show ?thesis
    using JObj by (simp add: obj'_def [symmetric])
qed simp_all

lemma metadata_flat_walk: "metadata_flat (walk_and_flatten v)"
proof (induction v rule: json_induct)
  case (Obj kvs)
  have "metadata_flat c' \<and> \<not> must_collapse k c'"
    if kc: "(k, c) \<in> set kvs" and c': "c' = (if must_collapse k c then collapse_child c else walk_and_flatten c)" for k c c'
  proof (cases "must_collapse k c")
    case True
    then have "is_object c" by (rule contrapos_pp) simp
    then obtain obj where "c = JObj obj" by (auto simp: is_object_iff)
    then show ?thesis
      using c' True metadata_flat_collapse [of obj k] by simp
  next
    case False
    then show ?thesis
      using c' Obj.IH [OF kc] by simp
  qed
  then show ?case
    by (force simp: metadata_flat_JObj simp del: metadata_flat.simps)
qed (auto simp: list_all_iff)

lemma walk_fixed_iff: "walk_and_flatten v = v \<longleftrightarrow> metadata_flat v"
proof (induction v rule: json_induct)
  case (Arr vs)
  then show ?case
    by (simp add: map_fixed_iff list_all_iff)
next
  case (Obj kvs)
  let ?f = "\<lambda>(k, c). (k, if must_collapse k c then collapse_child c else walk_and_flatten c)"
  have "?f kv = kv \<longleftrightarrow> metadata_flat (snd kv) \<and> \<not> must_collapse (fst kv) (snd kv)" if "kv \<in> set kvs" for kv
    using Obj.IH [of "fst kv" "snd kv"] that collapse_child_changes [of "fst kv" "snd kv"]
    by (cases kv) simp
  then have "map ?f kvs = kvs \<longleftrightarrow> metadata_flat (JObj kvs)"
    unfolding map_fixed_iff metadata_flat_JObj by blast
  then show ?case
    by (simp del: metadata_flat.simps)
qed simp_all

text \<open>\<open>walkAndFlatten\<close> puts every document in that normal form, and leaves a document
  alone exactly when it is in it already; so a well-formed payload is untouched, and flattening
  twice is flattening once.\<close>

theorem walk_reaches_flat_form:
  "metadata_flat (walk_and_flatten v) \<and> (walk_and_flatten v = v \<longleftrightarrow> metadata_flat v) \<and>
   walk_and_flatten (walk_and_flatten v) = walk_and_flatten v"
  by (simp add: metadata_flat_walk walk_fixed_iff)

text \<open>\<open>collapseStringMap\<close> recovers the map that was dot-expanded: when the dotted keys
  of its leaves are distinct, the result has distinct keys and maps a key to exactly the text of
  the leaf at the path that spells this key, whatever the iteration order of the Go map.\<close>

theorem collapse_recovers_leaves:
  assumes "wf_json (JObj m)" and "distinct (map fst (leaves [] m))"
  shows "distinct (map fst (collapse_string_map m [])) \<and>
     (map_of (collapse_string_map m []) key = Some v \<longleftrightarrow>
        (\<exists>path s. leaf_at m path = Some s \<and> key = dotted [] path \<and> v = JStr s))"
proof
  have "map_of (rev (leaves [] m)) = map_of (leaves [] m)"
    by (rule map_of_rev_distinct [OF assms(2)])
  then have "map_of (collapse_string_map m []) key = map_option JStr (map_of (leaves [] m) key)"
    by (simp add: collapse_string_map_def map_of_collapse_into map_of_str_pairs)
  also have "\<dots> = Some v \<longleftrightarrow> (\<exists>s. (key, s) \<in> set (leaves [] m) \<and> v = JStr s)"
    using map_of_eq_Some_iff [OF assms(2)] by auto
  finally show "map_of (collapse_string_map m []) key = Some v \<longleftrightarrow>
        (\<exists>path s. leaf_at m path = Some s \<and> key = dotted [] path \<and> v = JStr s)"
    using set_leaves [OF assms(1)] by blast
qed (simp add: collapse_string_map_def distinct_collapse_into)

theorem collapse_recovers_leaves_witness:
  "map_of (collapse_string_map
      [(''app'', JObj [(''kubernetes'', JObj [(''io/name'', JStr ''web'')])]), (''tier'', JNum 2)] [])
    ''app.kubernetes.io/name'' = Some (JStr ''web'')"
proof -
  let ?m = "[(''app'', JObj [(''kubernetes'', JObj [(''io/name'', JStr ''web'')])]), (''tier'', JNum 2)]"
  have hyps: "wf_json (JObj ?m)" "distinct (map fst (leaves [] ?m))"
    by code_simp+
  have "leaf_at ?m [''app'', ''kubernetes'', ''io/name''] = Some ''web''"
    "''app.kubernetes.io/name'' = dotted [] [''app'', ''kubernetes'', ''io/name'']"
    by code_simp+
  then show ?thesis
    using collapse_recovers_leaves [OF hyps] by blast
qed

text \<open>The keys of one metadata field, none when it is absent or not an object.\<close>

definition field_keys :: "jobject \<Rightarrow> string \<Rightarrow> string set" where
  "field_keys md field = (case as_object (map_of md field) of Some kvs \<Rightarrow> fst ` set kvs | None \<Rightarrow> {})"

definition undeclared :: "jobject \<Rightarrow> jobject \<Rightarrow> string \<Rightarrow> string set" where
  "undeclared lm dm field =
     (if map_of dm field = None then {} else field_keys lm field - field_keys dm field)"

lemma extra_map_keys_undeclared:
  "fst ` set (extra_map_keys lm (Some dm) field) = undeclared lm dm field"
  "snd ` set (extra_map_keys lm (Some dm) field) \<subseteq> {JNull}"
proof -
  have filt: "fst ` {x \<in> A. P (fst x)} = {k \<in> fst ` A. P k}" for A :: "(string \<times> json) set" and P
    by auto
  show "fst ` set (extra_map_keys lm (Some dm) field) = undeclared lm dm field"
    by (auto simp: extra_map_keys_def undeclared_def field_keys_def has_key_def map_of_eq_None_iff
        image_image filt split: option.splits)
  show "snd ` set (extra_map_keys lm (Some dm) field) \<subseteq> {JNull}"
    by (auto simp: extra_map_keys_def split: option.splits)
qed

text \<open>C25: \<open>ReconcileMetadata\<close> sends a patch only when the live object has a label or an
  annotation in a field the desired state declares and does not list; the patch then names the
  live object and nulls exactly these keys, so declared keys and undeclared fields are never
  touched.\<close>

theorem reconcile_removes_exactly_undeclared:
  assumes "map_of live ''metadata'' = Some (JObj lm)" "map_of desired ''metadata'' = Some (JObj dm)"
  shows "\<exists>labels annotations.
      reconcile_metadata (Inr (JObj live)) (Inr (JObj desired)) patchFn s =
        (if undeclared lm dm ''labels'' = {} \<and> undeclared lm dm ''annotations'' = {} then (None, s)
         else patchFn (as_string (map_of lm ''name''))
           (JObj [(''metadata'', JObj
             ((if labels = [] then [] else [(''labels'', JObj labels)]) @
              (if annotations = [] then [] else [(''annotations'', JObj annotations)])))]) s) \<and>
      fst ` set labels = undeclared lm dm ''labels'' \<and>
      fst ` set annotations = undeclared lm dm ''annotations'' \<and>
      snd ` set labels \<union> snd ` set annotations \<subseteq> {JNull}"
proof (intro exI conjI)
  let ?l = "extra_map_keys lm (Some dm) ''labels''" and ?a = "extra_map_keys lm (Some dm) ''annotations''"
  have "undeclared lm dm f = {} \<longleftrightarrow> extra_map_keys lm (Some dm) f = []" for f
    using extra_map_keys_undeclared(1) [of lm dm f, symmetric] by simp
  then show "reconcile_metadata (Inr (JObj live)) (Inr (JObj desired)) patchFn s =
        (if undeclared lm dm ''labels'' = {} \<and> undeclared lm dm ''annotations'' = {} then (None, s)
         else patchFn (as_string (map_of lm ''name''))
           (JObj [(''metadata'', JObj
             ((if ?l = [] then [] else [(''labels'', JObj ?l)]) @
              (if ?a = [] then [] else [(''annotations'', JObj ?a)])))]) s)"
    using assms by (simp add: reconcile_metadata_def Let_def)
qed (use extra_map_keys_undeclared in \<open>auto\<close>)

theorem reconcile_removes_exactly_undeclared_witness:
  "\<exists>labels annotations.
     reconcile_metadata
       (Inr (JObj [(''metadata'', JObj [(''name'', JStr ''cm''), (''labels'', JObj [(''a'', JStr ''1''), (''b'', JStr ''2'')])])]))
       (Inr (JObj [(''metadata'', JObj [(''name'', JStr ''cm''), (''labels'', JObj [(''a'', JStr ''1'')])])]))
       (\<lambda>n p log. (None, log @ [(n, p)])) [] =
     (None, [(''cm'', JObj [(''metadata'', JObj
        ((if labels = [] then [] else [(''labels'', JObj labels)]) @
         (if annotations = [] then [] else [(''annotations'', JObj annotations)])))])]) \<and>
     fst ` set labels = {''b''} \<and> fst ` set annotations = {}"
proof -
  let ?lm = "[(''name'', JStr ''cm''), (''labels'', JObj [(''a'', JStr ''1''), (''b'', JStr ''2'')])]"
  let ?dm = "[(''name'', JStr ''cm''), (''labels'', JObj [(''a'', JStr ''1'')])]"
  have "undeclared ?lm ?dm ''labels'' = {''b''}" "undeclared ?lm ?dm ''annotations'' = {}"
    by (auto simp: undeclared_def field_keys_def)
  then obtain labels annotations where
    "reconcile_metadata (Inr (JObj [(''metadata'', JObj ?lm)])) (Inr (JObj [(''metadata'', JObj ?dm)]))
       (\<lambda>n p log. (None, log @ [(n, p)])) [] =
     (None, [(''cm'', JObj [(''metadata'', JObj
        ((if labels = [] then [] else [(''labels'', JObj labels)]) @
         (if annotations = [] then [] else [(''annotations'', JObj annotations)])))])])"
    "fst ` set labels = {''b''}" "fst ` set annotations = {}"
    using reconcile_removes_exactly_undeclared
      [of "[(''metadata'', JObj ?lm)]" ?lm "[(''metadata'', JObj ?dm)]" ?dm "\<lambda>n p log. (None, log @ [(n, p)])" "[]"]
    by force
  then show ?thesis
    by (intro exI [of _ labels] exI [of _ annotations] conjI)
qed

end
