(* ===== verification/Native_Id.thy ===== *)
theory Native_Id
  imports Go_Strings
begin

text \<open>
  Identifiers (\<open>pkg/resources/prov/nativeid.go\<close>, \<open>customid.go\<close>, \<open>namespace.go\<close>): the native
  ids of namespaced, cluster-scoped and custom resources, their parsers, and the namespace a
  Create or List works in. A parser's result is \<open>Inl\<close> the error or \<open>Inr\<close> the parts.
\<close>

definition native_id :: "string \<Rightarrow> string \<Rightarrow> string" where
  "native_id namespace name = namespace @ ''/'' @ name"

definition invalid_native_id :: "string \<Rightarrow> gerr" where
  "invalid_native_id msg = sentinel_error ErrInvalidNativeID (''invalid native id: '' @ msg)"

definition parse_namespaced_native_id :: "string \<Rightarrow> (string \<times> string) res" where
  "parse_namespaced_native_id nid =
     (if nid = [] then Inl (invalid_native_id ''empty'')
      else let parts = split_char CHR ''/'' nid in
        if length parts \<noteq> 2
        then Inl (invalid_native_id (''expected exactly one '' @ [CHR 0x27] @ ''/'' @ [CHR 0x27] @
               '' separator, got '' @ itoa (int (length parts)) @ '' segments''))
        else if parts ! 0 = [] then Inl (invalid_native_id ''empty namespace'')
        else if parts ! 1 = [] then Inl (invalid_native_id ''empty name'')
        else Inr (parts ! 0, parts ! 1))"

definition parse_cluster_native_id :: "string \<Rightarrow> string res" where
  "parse_cluster_native_id nid =
     (if nid = [] then Inl (invalid_native_id ''empty'')
      else if CHR ''/'' \<in> set nid
      then Inl (invalid_native_id (''cluster-scoped native id must not contain '' @ [CHR 0x27] @ ''/'' @ [CHR 0x27]))
      else Inr nid)"

text \<open>The deprecated shim: never fails, cuts at the first separator.\<close>

definition parse_native_id :: "string \<Rightarrow> string \<times> string" where
  "parse_native_id nid =
     (let parts = splitn_char 1 CHR ''/'' nid in
      if length parts = 2 then (parts ! 0, parts ! 1) else ([], parts ! 0))"

definition native_id_with_uid :: "string \<Rightarrow> string \<Rightarrow> string" where
  "native_id_with_uid name uid = name @ '':'' @ uid"

definition parse_native_id_with_uid :: "string \<Rightarrow> string \<times> string" where
  "parse_native_id_with_uid nid =
     (let parts = splitn_char 1 CHR '':'' nid in
      if length parts = 2 then (parts ! 0, parts ! 1) else (parts ! 0, []))"

definition custom_resource_id :: "string \<Rightarrow> string \<Rightarrow> string \<Rightarrow> string \<Rightarrow> string" where
  "custom_resource_id apiVersion kind namespace name =
     apiVersion @ ''/'' @ kind @ ''/'' @ namespace @ ''/'' @ name"

definition parse_custom_resource_id :: "string \<Rightarrow> (string \<times> string \<times> string \<times> string) res" where
  "parse_custom_resource_id cid =
     (let parts = split_char CHR ''/'' cid; n = length parts in
      if n < 4
      then Inl (invalid_native_id (''expected <apiVersion>/<kind>/<namespace>/<name>, got '' @
             [CHR 0x22] @ cid @ [CHR 0x22]))
      else let name = parts ! (n - 1);
               namespace = parts ! (n - 2);
               kind = parts ! (n - 3);
               apiVersion = join_with ''/'' (take (n - 3) parts)
           in if apiVersion = [] \<or> kind = [] \<or> name = []
              then Inl (invalid_native_id (''empty apiVersion/kind/name in '' @ [CHR 0x22] @ cid @ [CHR 0x22]))
              else Inr (apiVersion, kind, namespace, name))"

definition resolve_create_namespace :: "string option \<Rightarrow> string \<Rightarrow> string res" where
  "resolve_create_namespace applyConfigNamespace resourceType =
     (case applyConfigNamespace of
        None \<Rightarrow> Inl (new_error (resourceType @ '': metadata.namespace is required for namespaced resources''))
      | Some ns \<Rightarrow>
          if ns = [] then Inl (new_error (resourceType @ '': metadata.namespace is required for namespaced resources''))
          else Inr ns)"

definition resolve_list_namespace :: "(string \<rightharpoonup> string) \<Rightarrow> string \<Rightarrow> string res" where
  "resolve_list_namespace additionalProperties resourceType =
     (case additionalProperties ''namespace'' of
        None \<Rightarrow> Inl (new_error (resourceType @ '': list requires namespace parameter from parent Namespace listParam''))
      | Some ns \<Rightarrow>
          if ns = [] then Inl (new_error (resourceType @ '': list requires namespace parameter from parent Namespace listParam''))
          else Inr ns)"

subsection \<open>Lemmas\<close>

lemma errors_is_invalid [simp]: "errors_is (invalid_native_id m) s \<longleftrightarrow> s = ErrInvalidNativeID"
  by (simp add: invalid_native_id_def)

lemma length_two_conv: "length xs = 2 \<longleftrightarrow> (\<exists>a b. xs = [a, b])"
  by (simp add: numeral_2_eq_2 length_Suc_conv) blast

lemma parse_namespaced_Inr:
  "parse_namespaced_native_id nid = Inr (ns, n) \<longleftrightarrow>
     split_char CHR ''/'' nid = [ns, n] \<and> ns \<noteq> [] \<and> n \<noteq> []"
  by (auto simp: parse_namespaced_native_id_def Let_def length_two_conv split: if_splits)

lemma parse_namespaced_native_id_of [simp]:
  assumes "ns \<noteq> []" "n \<noteq> []" "CHR ''/'' \<notin> set ns" "CHR ''/'' \<notin> set n"
  shows "parse_namespaced_native_id (native_id ns n) = Inr (ns, n)"
  using assms by (simp add: parse_namespaced_Inr native_id_def)

lemma split_char_custom:
  assumes "CHR ''/'' \<notin> set k" "CHR ''/'' \<notin> set ns" "CHR ''/'' \<notin> set n"
  shows "split_char CHR ''/'' (custom_resource_id av k ns n) = split_char CHR ''/'' av @ [k, ns, n]"
  using assms split_char_append [of "CHR ''/''" av "k @ ''/'' @ ns @ ''/'' @ n"]
  by (simp add: custom_resource_id_def)

lemma list_last3:
  "4 \<le> length xs \<Longrightarrow> \<exists>ys a b c. xs = ys @ [a, b, c] \<and> ys \<noteq> []"
proof (induction xs)
  case (Cons x xs)
  show ?case
  proof (cases "4 \<le> length xs")
    case True
    then show ?thesis
      using Cons.IH by (metis append_Cons list.discI)
  next
    case False
    then have "length xs = 3"
      using Cons.prems by simp
    then obtain a b c where "xs = [a, b, c]"
      by (auto simp: numeral_3_eq_3 length_Suc_conv)
    then show ?thesis
      by (metis append_Cons append_Nil list.discI)
  qed
qed simp

lemma parse_custom_parts:
  assumes "split_char CHR ''/'' cid = ys @ [k, ns, n]" and "ys \<noteq> []"
  shows "parse_custom_resource_id cid =
     (if join_with ''/'' ys = [] \<or> k = [] \<or> n = []
      then Inl (invalid_native_id (''empty apiVersion/kind/name in '' @ [CHR 0x22] @ cid @ [CHR 0x22]))
      else Inr (join_with ''/'' ys, k, ns, n))"
proof -
  have "\<not> length ys + 3 < 4"
    using assms(2) by (cases ys) auto
  moreover have "(ys @ [k, ns, n]) ! (length ys + 2) = n" "(ys @ [k, ns, n]) ! (length ys + 1) = ns"
    "(ys @ [k, ns, n]) ! length ys = k"
    by (simp_all add: nth_append)
  ultimately show ?thesis
    using assms(1) by (simp add: parse_custom_resource_id_def Let_def)
qed

lemma parse_custom_short:
  "length (split_char CHR ''/'' cid) < 4 \<Longrightarrow> \<exists>m. parse_custom_resource_id cid = Inl (invalid_native_id m)"
  by (auto simp: parse_custom_resource_id_def Let_def)

lemma join_split_append3:
  assumes "split_char CHR ''/'' cid = ys @ [k, ns, n]" and "ys \<noteq> []"
  shows "cid = custom_resource_id (join_with ''/'' ys) k ns n"
  using join_split_char [of "CHR ''/''" cid] assms
  by (simp add: custom_resource_id_def join_with_append)

subsection \<open>Properties\<close>

text \<open>\<open>ParseNamespacedNativeID\<close> inverts \<open>NativeID\<close> and accepts nothing else: it returns
  \<open>(ns, name)\<close> exactly for the id \<open>ns/name\<close> whose two parts are nonempty and hold no separator,
  so a malformed id never reaches the API server as an empty namespace or name.\<close>

theorem parse_namespaced_iff:
  "parse_namespaced_native_id nid = Inr (ns, n) \<longleftrightarrow>
     nid = native_id ns n \<and> ns \<noteq> [] \<and> n \<noteq> [] \<and> CHR ''/'' \<notin> set ns \<and> CHR ''/'' \<notin> set n"
  by (auto simp: parse_namespaced_Inr split_char_eq_two native_id_def)

text \<open>\<open>ParseCustomResourceID\<close> returns \<open>(apiVersion, kind, namespace, name)\<close> exactly for
  the canonical id of these parts, where only the apiVersion may hold a separator and only the
  namespace may be empty: a round trip in both directions.\<close>

theorem parse_custom_iff:
  "parse_custom_resource_id cid = Inr (av, k, ns, n) \<longleftrightarrow>
     cid = custom_resource_id av k ns n \<and> av \<noteq> [] \<and> k \<noteq> [] \<and> n \<noteq> [] \<and>
     CHR ''/'' \<notin> set k \<and> CHR ''/'' \<notin> set ns \<and> CHR ''/'' \<notin> set n"
  (is "?L \<longleftrightarrow> ?R")
proof
  assume ?L
  then have "\<not> length (split_char CHR ''/'' cid) < 4"
    using parse_custom_short [of cid] by auto
  then obtain ys k' ns' n' where sp: "split_char CHR ''/'' cid = ys @ [k', ns', n']" and ne: "ys \<noteq> []"
    using list_last3 [of "split_char CHR ''/'' cid"] by (meson leI)
  have "k' = k" "ns' = ns" "n' = n" "av = join_with ''/'' ys" "av \<noteq> []" "k \<noteq> []" "n \<noteq> []"
    using \<open>?L\<close> parse_custom_parts [OF sp ne] by (auto split: if_splits)
  moreover have "\<forall>p \<in> {k', ns', n'}. CHR ''/'' \<notin> set p"
    using split_char_parts [of _ "CHR ''/''" cid] sp by auto
  ultimately show ?R
    using join_split_append3 [OF sp ne] by auto
next
  assume R: ?R
  then show ?L
    using parse_custom_parts [OF split_char_custom [of k ns n av]] join_split_char [of "CHR ''/''" av]
    by auto
qed

text \<open>Every rejection of the three strict parsers is the sentinel \<open>ErrInvalidNativeID\<close>,
  so a caller recognises any malformed id with \<open>errors.Is\<close>.\<close>

theorem parse_rejections_are_invalid_id:
  "(\<forall>e. parse_namespaced_native_id nid = Inl e \<longrightarrow> errors_is e ErrInvalidNativeID) \<and>
   (\<forall>e. parse_cluster_native_id nid = Inl e \<longrightarrow> errors_is e ErrInvalidNativeID) \<and>
   (\<forall>e. parse_custom_resource_id nid = Inl e \<longrightarrow> errors_is e ErrInvalidNativeID)"
  by (auto simp: parse_namespaced_native_id_def parse_cluster_native_id_def
      parse_custom_resource_id_def Let_def split: if_splits)

theorem parse_rejections_are_invalid_id_witness:
  "errors_is (invalid_native_id ''empty'') ErrInvalidNativeID"
proof -
  have "parse_namespaced_native_id [] = Inl (invalid_native_id ''empty'')"
    by (simp add: parse_namespaced_native_id_def)
  then show ?thesis
    using parse_rejections_are_invalid_id [of "[]"] by blast
qed

end
