(* ===== verification/Live_State.thy ===== *)
theory Live_State
  imports Metadata Native_Id
begin

text \<open>
  Rendering of a live object (\<open>pkg/resources/prov/livestate.go\<close>, \<open>customlivestate.go\<close>,
  \<open>replicaownership.go\<close>): the typed projection through client-go's apply configurations (a
  parameter: \<open>decode\<close> and \<open>encode\<close>), the removal of server-managed fields, the injection of
  kind, apiVersion and the custom resource identity, and the removal of a replica count that an
  external controller owns. An object the Go code mutates in place is returned updated. A
  document handed over as bytes is its value.
\<close>

definition field_manager :: string where "field_manager = ''formae''"

text \<open>Updating the object below one key in place; nothing happens when the value is no object.\<close>

definition on_object :: "string \<Rightarrow> (jobject \<Rightarrow> jobject) \<Rightarrow> jobject \<Rightarrow> jobject" where
  "on_object key f m =
     (case as_object (map_of m key) of
        Some obj \<Rightarrow> AList.update key (JObj (f obj)) m
      | None \<Rightarrow> m)"

definition del_keys :: "string list \<Rightarrow> jobject \<Rightarrow> jobject" where
  "del_keys ks m = fold del_key ks m"

definition extract_state :: "('api \<Rightarrow> string \<Rightarrow> 'ac res) \<Rightarrow> ('ac \<Rightarrow> json res) \<Rightarrow> 'api \<Rightarrow> json res" where
  "extract_state extractFn encode apiObject =
     (case extractFn apiObject field_manager of
        Inl e \<Rightarrow> Inl (wrap_error ''failed to extract field manager state'' e)
      | Inr extracted \<Rightarrow> encode extracted)"

definition server_managed_meta_fields :: "string list" where
  "server_managed_meta_fields =
     [''uid'', ''resourceVersion'', ''creationTimestamp'', ''generation'', ''deletionGracePeriodSeconds'']"

definition server_managed_annotation_prefixes :: "string list" where
  "server_managed_annotation_prefixes =
     [''deployment.kubernetes.io/'', ''deprecated.daemonset.template.generation'']"

definition server_managed_label_prefixes :: "string list" where
  "server_managed_label_prefixes = [''kubernetes.io/'', ''batch.kubernetes.io/'']"

definition server_managed_label_keys :: "string list" where
  "server_managed_label_keys = [''controller-uid'', ''job-name'']"

definition service_account_mount_prefix :: string where
  "service_account_mount_prefix = ''/var/run/secrets/kubernetes.io/serviceaccount''"

definition container_list_paths :: "string list" where
  "container_list_paths =
     [''spec.containers'', ''spec.initContainers'', ''spec.ephemeralContainers'',
      ''spec.template.spec.containers'', ''spec.template.spec.initContainers'',
      ''spec.template.spec.ephemeralContainers'',
      ''spec.jobTemplate.spec.template.spec.containers'',
      ''spec.jobTemplate.spec.template.spec.initContainers'',
      ''spec.jobTemplate.spec.template.spec.ephemeralContainers'']"

definition pod_spec_paths :: "string list" where
  "pod_spec_paths = [''spec'', ''spec.template.spec'', ''spec.jobTemplate.spec.template.spec'']"

definition is_container_element_path :: "string \<Rightarrow> bool" where
  "is_container_element_path path =
     (\<not> (length path < 2 \<or> drop (length path - 2) path \<noteq> ''[]'') \<and>
      take (length path - 2) path \<in> set container_list_paths)"

definition join_path :: "string \<Rightarrow> string \<Rightarrow> string" where
  "join_path base key = (if base = [] then key else base @ ''.'' @ key)"

subsection \<open>Node rules\<close>

text \<open>An array entry survives unless it is an object whose string field has the prefix.\<close>

definition drop_prefixed :: "string \<Rightarrow> string \<Rightarrow> json list \<Rightarrow> json list" where
  "drop_prefixed field prefix vs =
     filter (\<lambda>v. case v of JObj o' \<Rightarrow> \<not> has_prefix (as_string (map_of o' field)) prefix | _ \<Rightarrow> True) vs"

definition strip_array :: "string \<Rightarrow> (json list \<Rightarrow> json list) \<Rightarrow> jobject \<Rightarrow> jobject" where
  "strip_array key f m =
     (case as_array (map_of m key) of
        None \<Rightarrow> m
      | Some vs \<Rightarrow> if f vs = [] then del_key key m else AList.update key (JArr (f vs)) m)"

definition strip_service_account_volume_mounts :: "jobject \<Rightarrow> jobject" where
  "strip_service_account_volume_mounts obj =
     strip_array ''volumeMounts'' (drop_prefixed ''mountPath'' service_account_mount_prefix) obj"

definition strip_service_account_volumes :: "jobject \<Rightarrow> jobject" where
  "strip_service_account_volumes spec =
     strip_array ''volumes'' (drop_prefixed ''name'' ''kube-api-access-'') spec"

definition strip_map :: "string \<Rightarrow> (string \<Rightarrow> bool) \<Rightarrow> jobject \<Rightarrow> jobject" where
  "strip_map key managed meta =
     (case as_object (map_of meta key) of
        None \<Rightarrow> meta
      | Some m \<Rightarrow>
          let m' = filter (\<lambda>kv. \<not> managed (fst kv)) m
          in if m' = [] then del_key key meta else AList.update key (JObj m') meta)"

definition managed_label :: "string \<Rightarrow> bool" where
  "managed_label key =
     (list_ex (has_prefix key) server_managed_label_prefixes \<or>
      list_ex (\<lambda>exactKey. key = exactKey) server_managed_label_keys)"

definition managed_annotation :: "string \<Rightarrow> bool" where
  "managed_annotation key = list_ex (has_prefix key) server_managed_annotation_prefixes"

definition strip_server_managed_labels :: "jobject \<Rightarrow> jobject" where
  "strip_server_managed_labels meta = strip_map ''labels'' managed_label meta"

definition strip_server_managed_annotations :: "jobject \<Rightarrow> jobject" where
  "strip_server_managed_annotations meta = strip_map ''annotations'' managed_annotation meta"

text \<open>What \<open>stripServerDefaults\<close> does to one object before it visits the children.\<close>

definition strip_node :: "string \<Rightarrow> jobject \<Rightarrow> jobject" where
  "strip_node path m0 =
     (let m1 = (if path \<in> set pod_spec_paths then del_key ''serviceAccount'' m0 else m0);
          m2 = (if is_container_element_path path
                then strip_service_account_volume_mounts (del_key ''imagePullPolicy'' m1) else m1);
          m3 = (if has_key m2 ''labels'' then strip_server_managed_labels m2 else m2)
      in if has_key m3 ''annotations'' then strip_server_managed_annotations m3 else m3)"

abbreviation size_obj :: "jobject \<Rightarrow> nat" where
  "size_obj \<equiv> size_list (size_prod (\<lambda>_. 0) size)"

lemma size_obj_filter: "size_obj (filter P m) \<le> size_obj m"
  by (induction m) auto

lemma size_obj_del_key: "size_obj (del_key k m) \<le> size_obj m"
  by (simp add: del_key_def size_obj_filter)

lemma size_obj_update:
  "map_of m k = Some v \<Longrightarrow> size v' \<le> size v \<Longrightarrow> size_obj (AList.update k v' m) \<le> size_obj m"
  by (induction m) auto

lemma size_list_filter: "size_list size (filter P vs) \<le> size_list size vs"
  by (induction vs) auto

lemma size_obj_strip_map: "size_obj (strip_map k p m) \<le> size_obj m"
  using size_obj_del_key [of k m] size_obj_filter
  by (auto simp: strip_map_def Let_def size_obj_update split: option.splits)

lemma size_obj_strip_array: "size_obj (strip_array k (drop_prefixed f p) m) \<le> size_obj m"
proof (cases "as_array (map_of m k)")
  case (Some vs)
  then have "size_obj (AList.update k (JArr (drop_prefixed f p vs)) m) \<le> size_obj m"
    by (intro size_obj_update) (auto simp: drop_prefixed_def size_list_filter)
  then show ?thesis
    using Some size_obj_del_key [of k m] by (simp add: strip_array_def)
qed (simp add: strip_array_def)

lemma size_obj_if: "size_obj x \<le> n \<Longrightarrow> size_obj y \<le> n \<Longrightarrow> size_obj (if b then x else y) \<le> n"
  by simp

lemma size_obj_strip_node: "size_obj (strip_node path m) \<le> size_obj m"
  unfolding strip_node_def Let_def strip_service_account_volume_mounts_def
    strip_server_managed_labels_def strip_server_managed_annotations_def
  by (intro size_obj_if order_trans [OF size_obj_strip_map] order_trans [OF size_obj_strip_array]
      order_trans [OF size_obj_del_key] order_refl)

lemma size_strip_node_child:
  assumes "(k, v) \<in> set (strip_node path m)"
  shows "size v < Suc (size_obj m)"
proof -
  have "size v \<le> size_obj (strip_node path m)"
    using assms size_json_pair [of k v "strip_node path m"] by simp
  then show ?thesis
    using size_obj_strip_node [of path m] by simp
qed

function strip_server_defaults :: "string \<Rightarrow> json \<Rightarrow> json" where
  "strip_server_defaults path (JObj m) =
     JObj (map (\<lambda>(k, child). (k, strip_server_defaults (join_path path k) child)) (strip_node path m))"
| "strip_server_defaults path (JArr vs) =
     JArr (map (strip_server_defaults (path @ ''[]'')) vs)"
| "strip_server_defaults path JNull = JNull"
| "strip_server_defaults path (JBool b) = JBool b"
| "strip_server_defaults path (JNum n) = JNum n"
| "strip_server_defaults path (JStr s) = JStr s"
  by pat_completeness auto

termination
  by (relation "measure (\<lambda>(path, v). size v)") (auto simp: size_strip_node_child size_json_elem)

subsection \<open>Fields injected by controllers\<close>

definition strip_host_path_type :: "jobject \<Rightarrow> jobject" where
  "strip_host_path_type spec =
     (case as_object (map_of spec ''hostPath'') of
        None \<Rightarrow> spec
      | Some hp \<Rightarrow>
          if del_key ''type'' hp = [] then del_key ''hostPath'' spec
          else AList.update ''hostPath'' (JObj (del_key ''type'' hp)) spec)"

text \<open>The \<open>spec != nil\<close> guards are the \<open>on_object\<close> case distinction.\<close>

definition strip_controller_injected_fields :: "jobject \<Rightarrow> string \<Rightarrow> jobject" where
  "strip_controller_injected_fields result kind =
     (if kind = ''Pod'' then
        on_object ''spec'' (\<lambda>spec. strip_service_account_volumes
          (del_keys [''serviceAccount'', ''nodeName'', ''tolerations'', ''priority'', ''preemptionPolicy'',
             ''enableServiceLinks'', ''serviceAccountName''] spec)) result
      else if kind = ''Job'' then
        on_object ''metadata'' strip_server_managed_labels
          (on_object ''spec'' (\<lambda>spec. on_object ''template'' (\<lambda>tmpl. on_object ''metadata''
             strip_server_managed_labels tmpl) (del_key ''selector'' spec)) result)
      else if kind = ''Service'' then
        on_object ''spec'' (del_keys [''clusterIP'', ''clusterIPs'', ''ipFamilies'']) result
      else if kind = ''Secret'' then del_key ''data'' result
      else if kind = ''PersistentVolume'' then
        on_object ''spec'' (\<lambda>spec. strip_host_path_type (del_key ''storageClassName'' spec)) result
      else result)"

text \<open>The endpoint of a Service.\<close>

definition first_service_port :: "jobject \<Rightarrow> int" where
  "first_service_port result =
     (case as_object (map_of result ''spec'') of
        None \<Rightarrow> 0
      | Some spec \<Rightarrow>
          (case as_array (map_of spec ''ports'') of
             Some (JObj first # _) \<Rightarrow> (case map_of first ''port'' of Some (JNum p) \<Rightarrow> p | _ \<Rightarrow> 0)
           | _ \<Rightarrow> 0))"

definition first_ingress_url :: "json list \<Rightarrow> int \<Rightarrow> string" where
  "first_ingress_url ingress port =
     (case ingress of
        JObj m # _ \<Rightarrow>
          let ip = as_string (map_of m ''ip'');
              host = (if ip = [] then as_string (map_of m ''hostname'') else ip)
          in if host = [] then []
             else if port = 0 \<or> port = 80 then ''http://'' @ host
             else ''http://'' @ host @ '':'' @ itoa port
      | _ \<Rightarrow> [])"

definition preserved_status :: "jobject \<Rightarrow> string \<Rightarrow> json option" where
  "preserved_status result kind =
     (if kind \<noteq> ''Service'' then None
      else (case as_object (map_of result ''status'') of
        None \<Rightarrow> None
      | Some status \<Rightarrow>
      (case as_object (map_of status ''loadBalancer'') of
        None \<Rightarrow> None
      | Some lb \<Rightarrow>
      (case as_array (map_of lb ''ingress'') of
        None \<Rightarrow> None
      | Some ingress \<Rightarrow>
          if ingress = [] then None
          else let url = first_ingress_url ingress (first_service_port result)
               in Some (JObj [(''loadBalancer'', JObj ((''ingress'', JArr ingress) #
                    (if url \<noteq> [] then [(''url'', JStr url)] else [])))])))))"

definition strip_status :: "string \<Rightarrow> jobject \<Rightarrow> jobject" where
  "strip_status kind result =
     (case preserved_status result kind of
        None \<Rightarrow> del_key ''status'' result
      | Some st \<Rightarrow> AList.update ''status'' st (del_key ''status'' result))"

definition strip_meta :: "jobject \<Rightarrow> jobject" where
  "strip_meta meta =
     strip_server_managed_labels (strip_server_managed_annotations
       (del_key ''finalizers'' (del_keys server_managed_meta_fields meta)))"

definition strip_namespace_spec :: "string \<Rightarrow> jobject \<Rightarrow> jobject" where
  "strip_namespace_spec kind result =
     (if kind = ''Namespace'' then
        (case as_object (map_of result ''spec'') of
           None \<Rightarrow> result
         | Some spec \<Rightarrow>
             if del_key ''finalizers'' spec = [] then del_key ''spec'' result
             else AList.update ''spec'' (JObj (del_key ''finalizers'' spec)) result)
      else result)"

definition strip_live_fields :: "string \<Rightarrow> string \<Rightarrow> jobject \<Rightarrow> json" where
  "strip_live_fields kind apiVersion result0 =
     (let result1 = strip_status kind result0;
          result2 = AList.update ''apiVersion'' (JStr apiVersion)
                      (AList.update ''kind'' (JStr kind) result1);
          result3 = on_object ''metadata'' strip_meta result2;
          result4 = strip_namespace_spec kind result3;
          result5 = strip_controller_injected_fields result4 kind
      in strip_server_defaults [] (JObj result5))"

text \<open>
  \<open>LiveState\<close>: \<open>raw\<close> is the marshalled API object, \<open>decode\<close> the typed \<open>json.Unmarshal\<close> into the
  apply configuration and \<open>encode\<close> its \<open>json.Marshal\<close>. An apply configuration is a struct, so
  its encoding is an object and the last decoding, into a Go map, cannot fail.
\<close>

definition live_state ::
  "(json \<Rightarrow> 'ac res) \<Rightarrow> ('ac \<Rightarrow> jobject res) \<Rightarrow> json res \<Rightarrow> string \<Rightarrow> string \<Rightarrow> json res" where
  "live_state decode encode raw kind apiVersion =
     (case raw of
        Inl e \<Rightarrow> Inl (wrap_error ''failed to marshal api object'' e)
      | Inr doc \<Rightarrow>
     (case decode doc of
        Inl e \<Rightarrow> Inl (wrap_error ''failed to unmarshal into apply configuration'' e)
      | Inr applyConfig \<Rightarrow>
     (case encode applyConfig of
        Inl e \<Rightarrow> Inl (wrap_error ''failed to marshal apply configuration'' e)
      | Inr result \<Rightarrow> Inr (strip_live_fields kind apiVersion result))))"

subsection \<open>Custom resources\<close>

definition strip_crd_server_defaults :: "jobject \<Rightarrow> string \<Rightarrow> string \<Rightarrow> jobject" where
  "strip_crd_server_defaults obj apiVersion kind =
     (if kind \<noteq> ''CustomResourceDefinition'' \<or> apiVersion \<noteq> ''apiextensions.k8s.io/v1'' then obj
      else on_object ''spec'' (del_key ''conversion'') obj)"

definition custom_live_state :: "jobject \<Rightarrow> jobject" where
  "custom_live_state obj0 =
     (let apiVersion = as_string (map_of obj0 ''apiVersion'');
          kind = as_string (map_of obj0 ''kind'');
          obj1 = del_key ''status'' obj0;
          obj2 = on_object ''metadata'' (\<lambda>meta. del_key ''managedFields''
                   (del_keys server_managed_meta_fields meta)) obj1;
          (name, namespace) = (case as_object (map_of obj2 ''metadata'') of
              None \<Rightarrow> ([], [])
            | Some meta \<Rightarrow> (as_string (map_of meta ''name''), as_string (map_of meta ''namespace'')));
          obj3 = strip_crd_server_defaults obj2 apiVersion kind
      in AList.update ''formaeId'' (JStr (custom_resource_id apiVersion kind namespace name)) obj3)"

subsection \<open>Replica ownership\<close>

record managed_fields_entry =
  mf_manager :: string
  mf_fields :: "json res option"

fun walk_field_tree :: "jobject \<Rightarrow> string list \<Rightarrow> bool" where
  "walk_field_tree tree [] = True"
| "walk_field_tree tree (p # ps) =
     (case map_of tree (''f:'' @ p) of
        None \<Rightarrow> False
      | Some raw \<Rightarrow>
          if ps = [] then True
          else (case to_generic_map (Inr raw) of
                  Inl _ \<Rightarrow> False
                | Inr child \<Rightarrow> walk_field_tree child ps))"

definition entry_owns :: "string \<Rightarrow> string list \<Rightarrow> managed_fields_entry \<Rightarrow> bool" where
  "entry_owns manager fieldPath entry =
     (if mf_manager entry \<noteq> manager \<or> mf_fields entry = None then False
      else (case to_generic_map (the (mf_fields entry)) of
              Inl _ \<Rightarrow> False
            | Inr tree \<Rightarrow> walk_field_tree tree fieldPath))"

definition manager_owns_field :: "managed_fields_entry list \<Rightarrow> string \<Rightarrow> string list \<Rightarrow> bool" where
  "manager_owns_field managedFields manager fieldPath = list_ex (entry_owns manager fieldPath) managedFields"

definition strip_unowned_replicas :: "json res \<Rightarrow> managed_fields_entry list \<Rightarrow> json res" where
  "strip_unowned_replicas properties managedFields =
     (if manager_owns_field managedFields field_manager [''spec'', ''replicas''] then properties
      else (case to_generic_map properties of
        Inl _ \<Rightarrow> properties
      | Inr obj \<Rightarrow>
      (case map_of obj ''spec'' of
        None \<Rightarrow> properties
      | Some specRaw \<Rightarrow>
      (case to_generic_map (Inr specRaw) of
        Inl _ \<Rightarrow> properties
      | Inr spec \<Rightarrow>
          if \<not> has_key spec ''replicas'' then properties
          else Inr (JObj (AList.update ''spec'' (JObj (del_key ''replicas'' spec)) obj))))))"


subsection \<open>Lemmas\<close>

text \<open>The keys whose value or presence \<open>stripServerDefaults\<close> may change.\<close>

definition touched :: "string set" where
  "touched = {''serviceAccount'', ''imagePullPolicy'', ''volumeMounts'', ''labels'', ''annotations''}"

lemma map_of_strip_map [simp]: "k \<noteq> key \<Longrightarrow> map_of (strip_map key p m) k = map_of m k"
  by (auto simp: strip_map_def Let_def split: option.splits)

lemma map_of_strip_array [simp]: "k \<noteq> key \<Longrightarrow> map_of (strip_array key f m) k = map_of m k"
  by (auto simp: strip_array_def split: option.splits)

lemma strip_map_result:
  "map_of (strip_map key p m) key = Some (JObj l) \<Longrightarrow> kv \<in> set l \<Longrightarrow> \<not> p (fst kv)"
  by (auto simp: strip_map_def Let_def split: option.splits if_splits)

lemma strip_array_result:
  "map_of (strip_array key (drop_prefixed f p) m) key = Some (JArr vs) \<Longrightarrow> drop_prefixed f p vs = vs"
  by (auto simp: strip_array_def drop_prefixed_def split: option.splits if_splits)

lemma keys_update_subset: "map_of m k \<noteq> None \<Longrightarrow> fst ` set (AList.update k v m) = fst ` set m"
  by (simp add: dom_update insert_absorb map_of_eq_None_iff)

lemma keys_strip_map: "fst ` set (strip_map key p m) \<subseteq> fst ` set m"
  by (auto simp: strip_map_def Let_def keys_update_subset split: option.splits)

lemma keys_strip_array: "fst ` set (strip_array key f m) \<subseteq> fst ` set m"
  by (auto simp: strip_array_def keys_update_subset split: option.splits)

lemma keys_if_subset: "fst ` set x \<subseteq> S \<Longrightarrow> fst ` set y \<subseteq> S \<Longrightarrow> fst ` set (if b then x else y) \<subseteq> S"
  by simp

lemmas strip_node_defs = strip_node_def Let_def strip_service_account_volume_mounts_def
  strip_server_managed_labels_def strip_server_managed_annotations_def

lemma keys_strip_node: "fst ` set (strip_node path m) \<subseteq> fst ` set m"
proof -
  have del: "fst ` set (del_key k x) \<subseteq> fst ` set x" for k and x :: jobject
    by auto
  show ?thesis
    unfolding strip_node_defs
    by (intro keys_if_subset order_trans [OF keys_strip_map] order_trans [OF keys_strip_array]
        order_trans [OF del] order_refl)
qed

lemma map_of_strip_node: "k \<notin> touched \<Longrightarrow> map_of (strip_node path m) k = map_of m k"
  by (simp add: strip_node_defs touched_def)

lemma map_of_if: "map_of (if b then x else y) k = (if b then map_of x k else map_of y k)"
  by simp

lemma strip_map_if_has_key: "(if has_key m key then strip_map key p m else m) = strip_map key p m"
  unfolding has_key_def by (auto simp: strip_map_def split: option.splits)

lemma strip_node_eq:
  "strip_node path m =
     strip_map ''annotations'' managed_annotation (strip_map ''labels'' managed_label
       (let m1 = (if path \<in> set pod_spec_paths then del_key ''serviceAccount'' m else m) in
        if is_container_element_path path
        then strip_array ''volumeMounts'' (drop_prefixed ''mountPath'' service_account_mount_prefix)
               (del_key ''imagePullPolicy'' m1)
        else m1))"
  unfolding strip_node_defs by (simp only: strip_map_if_has_key)

text \<open>What one object may hold after stripping.\<close>

definition node_clean :: "string \<Rightarrow> jobject \<Rightarrow> bool" where
  "node_clean path m \<longleftrightarrow>
     (path \<in> set pod_spec_paths \<longrightarrow> map_of m ''serviceAccount'' = None) \<and>
     (is_container_element_path path \<longrightarrow> map_of m ''imagePullPolicy'' = None \<and>
        (case map_of m ''volumeMounts'' of
           Some (JArr vs) \<Rightarrow> drop_prefixed ''mountPath'' service_account_mount_prefix vs = vs
         | _ \<Rightarrow> True)) \<and>
     (case map_of m ''labels'' of Some (JObj l) \<Rightarrow> list_all (\<lambda>kv. \<not> managed_label (fst kv)) l | _ \<Rightarrow> True) \<and>
     (case map_of m ''annotations'' of
        Some (JObj a) \<Rightarrow> list_all (\<lambda>kv. \<not> managed_annotation (fst kv)) a | _ \<Rightarrow> True)"

fun clean :: "string \<Rightarrow> json \<Rightarrow> bool" where
  "clean path (JObj m) =
     (node_clean path m \<and> list_all (\<lambda>(k, v). clean (join_path path k) v) m)"
| "clean path (JArr vs) = list_all (clean (path @ ''[]'')) vs"
| "clean path v = True"

lemma node_clean_strip_node: "node_clean path (strip_node path m)"
proof -
  have lab: "list_all (\<lambda>kv. \<not> managed_label (fst kv)) l"
    if "map_of (strip_node path m) ''labels'' = Some (JObj l)" for l
    using that strip_map_result unfolding strip_node_eq by (simp add: list_all_iff) blast
  have ann: "list_all (\<lambda>kv. \<not> managed_annotation (fst kv)) l"
    if "map_of (strip_node path m) ''annotations'' = Some (JObj l)" for l
    using that strip_map_result unfolding strip_node_eq by (simp add: list_all_iff) blast
  have mounts: "drop_prefixed ''mountPath'' service_account_mount_prefix vs = vs"
    if "is_container_element_path path" "map_of (strip_node path m) ''volumeMounts'' = Some (JArr vs)" for vs
    using that strip_array_result unfolding strip_node_eq Let_def by simp
  have "path \<in> set pod_spec_paths \<Longrightarrow> map_of (strip_node path m) ''serviceAccount'' = None"
    by (simp add: strip_node_eq Let_def)
  moreover have "is_container_element_path path \<Longrightarrow> map_of (strip_node path m) ''imagePullPolicy'' = None"
    by (simp add: strip_node_eq Let_def)
  ultimately show ?thesis
    using lab ann mounts by (auto simp: node_clean_def split: option.splits json.splits)
qed

definition strip_children :: "string \<Rightarrow> jobject \<Rightarrow> jobject" where
  "strip_children path m = map (\<lambda>(k, child). (k, strip_server_defaults (join_path path k) child)) m"

lemma strip_JObj [simp]:
  "strip_server_defaults path (JObj m) = JObj (strip_children path (strip_node path m))"
  by (simp add: strip_children_def)

declare strip_server_defaults.simps(1) [simp del]

lemma map_of_strip_children [simp]:
  "map_of (strip_children path m) k = map_option (strip_server_defaults (join_path path k)) (map_of m k)"
  unfolding strip_children_def by simp

lemma keys_strip_children [simp]: "fst ` set (strip_children path m) = fst ` set m"
  by (force simp: strip_children_def)

lemma strip_eq_JObj:
  "strip_server_defaults path v = JObj m \<longleftrightarrow> (\<exists>m0. v = JObj m0 \<and> m = strip_children path (strip_node path m0))"
  by (cases v) auto

lemma strip_eq_JArr:
  "strip_server_defaults path v = JArr vs \<longleftrightarrow> (\<exists>vs0. v = JArr vs0 \<and> vs = map (strip_server_defaults (path @ ''[]'')) vs0)"
  by (cases v) auto

lemma as_string_strip [simp]: "as_string (map_option (strip_server_defaults path) x) = as_string x"
  by (cases x rule: as_string.cases) auto

lemma drop_prefixed_strip:
  assumes "drop_prefixed f p vs = vs" and "f \<notin> touched"
  shows "drop_prefixed f p (map (strip_server_defaults path) vs) = map (strip_server_defaults path) vs"
proof -
  have "(case strip_server_defaults path v of JObj o' \<Rightarrow> \<not> has_prefix (as_string (map_of o' f)) p | _ \<Rightarrow> True) \<longleftrightarrow>
      (case v of JObj o' \<Rightarrow> \<not> has_prefix (as_string (map_of o' f)) p | _ \<Rightarrow> True)" for v
    using assms(2) by (cases v) (simp_all add: map_of_strip_node)
  with assms(1) show ?thesis
    by (simp add: drop_prefixed_def filter_map filter_id_conv comp_def)
qed

lemma mountPath_untouched: "''mountPath'' \<notin> touched"
  by (simp add: touched_def)

lemma list_all_keys: "fst ` set l' \<subseteq> fst ` set l \<Longrightarrow> list_all (\<lambda>kv. P (fst kv)) l \<Longrightarrow> list_all (\<lambda>kv. P (fst kv)) l'"
  by (auto simp: list_all_iff) (metis (no_types, lifting) fst_conv image_iff subsetD)

lemma node_clean_children:
  assumes "node_clean path m" shows "node_clean path (strip_children path m)"
proof -
  have keys: "fst ` set (strip_children q (strip_node q l)) \<subseteq> fst ` set l" for q l
    using keys_strip_node by simp
  have sub: "case map_option (strip_server_defaults q) x of
      Some (JObj l) \<Rightarrow> list_all (\<lambda>kv. \<not> P (fst kv)) l | _ \<Rightarrow> True"
    if "case x of Some (JObj l) \<Rightarrow> list_all (\<lambda>kv. \<not> P (fst kv)) l | _ \<Rightarrow> True" for q x P
  proof (cases "as_object x")
    case (Some l)
    then show ?thesis
      using that list_all_keys [OF keys, where P = "\<lambda>k. \<not> P k"] by simp
  next
    case None
    then show ?thesis
      by (cases x; cases "the x") auto
  qed
  have mounts: "case map_option (strip_server_defaults q) x of
      Some (JArr vs) \<Rightarrow> drop_prefixed ''mountPath'' service_account_mount_prefix vs = vs | _ \<Rightarrow> True"
    if "case x of Some (JArr vs) \<Rightarrow> drop_prefixed ''mountPath'' service_account_mount_prefix vs = vs | _ \<Rightarrow> True" for q x
  proof (cases "as_array x")
    case (Some vs)
    then show ?thesis
      using that drop_prefixed_strip [OF _ mountPath_untouched] by simp
  next
    case None
    then show ?thesis
      by (cases x; cases "the x") auto
  qed
  show ?thesis
    using assms unfolding node_clean_def map_of_strip_children
    by (intro conjI impI sub mounts) simp_all
qed

lemma clean_strip: "clean path (strip_server_defaults path v)"
proof (induction path v rule: strip_server_defaults.induct)
  case (1 path m)
  have "list_all (\<lambda>(k, v). clean (join_path path k) v) (strip_children path (strip_node path m))"
    using 1 by (force simp: list_all_iff strip_children_def)
  then show ?case
    using node_clean_children [OF node_clean_strip_node] by simp
qed (auto simp: list_all_iff)

subsection \<open>Agreement of documents\<close>

datatype step = Key string | Idx nat

fun at_path :: "json \<Rightarrow> step list \<Rightarrow> json option" where
  "at_path v [] = Some v"
| "at_path (JObj m) (Key k # ps) = (case map_of m k of None \<Rightarrow> None | Some v \<Rightarrow> at_path v ps)"
| "at_path (JArr vs) (Idx i # ps) = (if i < length vs then at_path (vs ! i) ps else None)"
| "at_path _ _ = None"

fun scalar :: "json \<Rightarrow> bool" where
  "scalar (JObj _) = False"
| "scalar (JArr _) = False"
| "scalar _ = True"

definition scalar_at :: "json \<Rightarrow> step list \<Rightarrow> json option" where
  "scalar_at v ps = (case at_path v ps of None \<Rightarrow> None | Some x \<Rightarrow> if scalar x then Some x else None)"

text \<open>Two objects agree outside the hidden keys: every scalar at a path that uses none of the keys
  \<open>K\<close>, and none of the keys \<open>T\<close> as its first one, is the same in both.\<close>

definition agree :: "string set \<Rightarrow> string set \<Rightarrow> jobject \<Rightarrow> jobject \<Rightarrow> bool" where
  "agree K T a b \<longleftrightarrow> (\<forall>ps. (\<forall>k \<in> K. Key k \<notin> set ps) \<longrightarrow> (\<forall>k \<in> T. take 1 ps \<noteq> [Key k]) \<longrightarrow>
     scalar_at (JObj a) ps = scalar_at (JObj b) ps)"

lemma scalar_at_simps [simp]:
  "scalar_at (JObj m) [] = None"
  "scalar_at (JObj m) (Key k # ps) = (case map_of m k of None \<Rightarrow> None | Some v \<Rightarrow> scalar_at v ps)"
  "scalar_at (JObj m) (Idx i # ps) = None"
  "scalar_at (JArr vs) [] = None"
  "scalar_at (JArr vs) (Idx i # ps) = (if i < length vs then scalar_at (vs ! i) ps else None)"
  "scalar_at (JArr vs) (Key k # ps) = None"
  by (simp_all add: scalar_at_def split: option.splits)

lemma agree_refl [simp]: "agree K T a a"
  by (simp add: agree_def)

lemma agree_trans: "agree K T a b \<Longrightarrow> agree K T b c \<Longrightarrow> agree K T a c"
  by (auto simp: agree_def)

lemma agree_cong_map:
  assumes "\<And>k. k \<notin> K \<Longrightarrow> k \<notin> T \<Longrightarrow> map_of a k = map_of b k"
  shows "agree K T a b"
proof -
  have "scalar_at (JObj a) ps = scalar_at (JObj b) ps"
    if "\<forall>k \<in> K. Key k \<notin> set ps" "\<forall>k \<in> T. take 1 ps \<noteq> [Key k]" for ps
  proof (cases ps)
    case (Cons p qs)
    show ?thesis
    proof (cases p)
      case (Key k)
      then have "k \<notin> K" "k \<notin> T"
        using that Cons by auto
      then show ?thesis
        using Cons Key assms by simp
    qed (simp add: Cons)
  qed simp
  then show ?thesis by (simp add: agree_def)
qed

lemma agree_on_object:
  assumes "\<And>obj. agree K {} obj (f obj)" shows "agree K T m (on_object key f m)"
proof (cases "as_object (map_of m key)")
  case (Some obj)
  have "scalar_at (JObj m) ps = scalar_at (JObj (on_object key f m)) ps" if K: "\<forall>k \<in> K. Key k \<notin> set ps" for ps
  proof (cases ps)
    case (Cons p qs)
    have "scalar_at (JObj obj) qs = scalar_at (JObj (f obj)) qs"
      using assms [of obj] K Cons by (simp add: agree_def)
    then show ?thesis
      using Some Cons by (cases p) (auto simp: on_object_def)
  qed simp
  then show ?thesis by (simp add: agree_def)
qed (simp add: on_object_def)

lemma agree_strip:
  assumes "touched \<subseteq> K" and "\<forall>k \<in> K. Key k \<notin> set ps"
  shows "scalar_at (strip_server_defaults path v) ps = scalar_at v ps"
  using assms(2)
proof (induction path v arbitrary: ps rule: strip_server_defaults.induct)
  case (1 path m)
  show ?case
  proof (cases ps)
    case (Cons p qs)
    show ?thesis
    proof (cases p)
      case (Key k)
      then have "k \<notin> touched" and qs: "\<forall>k \<in> K. Key k \<notin> set qs"
        using 1(2) Cons assms(1) by auto
      then have m: "map_of (strip_node path m) k = map_of m k"
        by (simp add: map_of_strip_node)
      show ?thesis
      proof (cases "map_of m k")
        case (Some v)
        then have "(k, v) \<in> set (strip_node path m)"
          using m map_of_SomeD by metis
        then show ?thesis
          using 1(1) [OF _ refl qs] Some m Cons Key by simp
      qed (simp add: Cons Key m)
    qed (simp add: Cons)
  qed simp
next
  case (2 path vs)
  show ?case
  proof (cases ps)
    case (Cons p qs)
    then show ?thesis
      using 2 by (cases p) auto
  qed simp
qed simp_all


text \<open>The keys \<open>LiveState\<close> may hide below the top level, per kind, and at the top level.\<close>

definition injected_keys :: "string \<Rightarrow> string set" where
  "injected_keys kind =
     (if kind = ''Pod'' then {''serviceAccount'', ''nodeName'', ''tolerations'', ''priority'', ''preemptionPolicy'',
        ''enableServiceLinks'', ''serviceAccountName'', ''volumes''}
      else if kind = ''Job'' then {''selector''}
      else if kind = ''Service'' then {''clusterIP'', ''clusterIPs'', ''ipFamilies''}
      else if kind = ''Secret'' then {''data''}
      else if kind = ''PersistentVolume'' then {''storageClassName'', ''hostPath''}
      else {})"

definition hidden_keys :: "string \<Rightarrow> string set" where
  "hidden_keys kind = touched \<union> set server_managed_meta_fields \<union> {''finalizers''} \<union> injected_keys kind"

definition hidden_roots :: "string \<Rightarrow> string set" where
  "hidden_roots kind = {''status'', ''kind'', ''apiVersion''} \<union> (if kind = ''Namespace'' then {''spec''} else {})"

lemma map_of_del_keys: "map_of (del_keys ks m) k = (if k \<in> set ks then None else map_of m k)"
  unfolding del_keys_def by (induction ks arbitrary: m) auto

lemma map_of_on_object [simp]: "k \<noteq> key \<Longrightarrow> map_of (on_object key f m) k = map_of m k"
  by (auto simp: on_object_def split: option.splits)

lemma agree_strip_map: "key \<in> K \<Longrightarrow> agree K T m (strip_map key p m)"
  by (rule agree_cong_map) (metis map_of_strip_map)

lemma agree_strip_array: "key \<in> K \<Longrightarrow> agree K T m (strip_array key f m)"
  by (rule agree_cong_map) (metis map_of_strip_array)

lemma agree_del_keys: "set ks \<subseteq> K \<Longrightarrow> agree K T m (del_keys ks m)"
  by (rule agree_cong_map) (auto simp: map_of_del_keys)

lemma agree_del_key: "k \<in> K \<Longrightarrow> agree K T m (del_key k m)"
  by (rule agree_cong_map) auto

lemma touched_labels: "touched \<subseteq> K \<Longrightarrow> ''labels'' \<in> K \<and> ''annotations'' \<in> K"
  by (simp add: touched_def)

lemma agree_strip_labels: "touched \<subseteq> K \<Longrightarrow> agree K T m (strip_server_managed_labels m)"
  unfolding strip_server_managed_labels_def by (simp add: agree_strip_map touched_labels)

lemma agree_strip_meta:
  assumes "hidden_keys kind \<subseteq> K" shows "agree K {} m (strip_meta m)"
proof -
  have "set server_managed_meta_fields \<subseteq> K" "''finalizers'' \<in> K" "touched \<subseteq> K"
    using assms by (auto simp: hidden_keys_def)
  then show ?thesis
    unfolding strip_meta_def strip_server_managed_labels_def strip_server_managed_annotations_def
    by (intro agree_trans [OF agree_del_keys agree_trans [OF agree_del_key agree_trans [OF agree_strip_map agree_strip_map]]])
       (simp_all add: touched_labels)
qed

lemma agree_strip_status: "''status'' \<in> T \<Longrightarrow> agree K T m (strip_status kind m)"
  by (rule agree_cong_map) (auto simp: strip_status_def split: option.splits)

lemma agree_strip_namespace:
  "hidden_roots kind \<subseteq> T \<Longrightarrow> agree K T m (strip_namespace_spec kind m)"
  by (rule agree_cong_map) (auto simp: strip_namespace_spec_def hidden_roots_def split: option.splits if_splits)

lemma agree_injected_Pod:
  assumes "injected_keys ''Pod'' \<subseteq> K"
  shows "agree K {} spec (strip_service_account_volumes
     (del_keys [''serviceAccount'', ''nodeName'', ''tolerations'', ''priority'', ''preemptionPolicy'',
             ''enableServiceLinks'', ''serviceAccountName''] spec))"
proof (rule agree_trans)
  show "agree K {} spec (del_keys [''serviceAccount'', ''nodeName'', ''tolerations'', ''priority'', ''preemptionPolicy'',
             ''enableServiceLinks'', ''serviceAccountName''] spec)"
    using assms by (intro agree_del_keys) (simp add: injected_keys_def)
  have "''volumes'' \<in> K"
    using assms by (simp add: injected_keys_def)
  then show "agree K {} m (strip_service_account_volumes m)" for m
    unfolding strip_service_account_volumes_def by (rule agree_strip_array)
qed

lemma agree_injected_PV:
  assumes "injected_keys ''PersistentVolume'' \<subseteq> K"
  shows "agree K {} spec (strip_host_path_type (del_key ''storageClassName'' spec))"
proof (rule agree_trans)
  have K: "''storageClassName'' \<in> K" "''hostPath'' \<in> K"
    using assms by (simp_all add: injected_keys_def)
  then show "agree K {} spec (del_key ''storageClassName'' spec)"
    by (intro agree_del_key)
  from K show "agree K {} m (strip_host_path_type m)" for m
    by (intro agree_cong_map) (auto simp: strip_host_path_type_def split: option.splits)
qed

lemma agree_injected:
  assumes "hidden_keys kind \<subseteq> K"
  shows "agree K T m (strip_controller_injected_fields m kind)"
proof -
  have t: "touched \<subseteq> K" and i: "injected_keys kind \<subseteq> K"
    using assms by (auto simp: hidden_keys_def)
  consider "kind = ''Pod''" | "kind = ''Job''" | "kind = ''Service''" | "kind = ''Secret''"
    | "kind = ''PersistentVolume''" | "strip_controller_injected_fields m kind = m"
    unfolding strip_controller_injected_fields_def by presburger
  then show ?thesis
  proof cases
    case 1
    then show ?thesis
      using agree_injected_Pod i by (simp add: strip_controller_injected_fields_def agree_on_object)
  next
    case 2
    have "agree K {} spec (on_object ''template'' (\<lambda>tmpl. on_object ''metadata''
        strip_server_managed_labels tmpl) (del_key ''selector'' spec))" for spec
      using i 2 agree_strip_labels [OF t]
      by (intro agree_trans [OF agree_del_key agree_on_object] agree_on_object) (auto simp: injected_keys_def)
    then show ?thesis
      unfolding 2 strip_controller_injected_fields_def
      by (simp add: agree_trans [OF agree_on_object agree_on_object] agree_strip_labels [OF t])
  next
    case 3
    then show ?thesis
      using i by (simp add: strip_controller_injected_fields_def agree_on_object agree_del_keys injected_keys_def)
  next
    case 4
    then show ?thesis
      using i by (simp add: strip_controller_injected_fields_def agree_del_key injected_keys_def)
  next
    case 5
    then show ?thesis
      using agree_injected_PV i by (simp add: strip_controller_injected_fields_def agree_on_object)
  qed simp
qed

definition before_defaults :: "string \<Rightarrow> string \<Rightarrow> jobject \<Rightarrow> jobject" where
  "before_defaults kind apiVersion m =
     strip_controller_injected_fields (strip_namespace_spec kind (on_object ''metadata'' strip_meta
       (AList.update ''apiVersion'' (JStr apiVersion) (AList.update ''kind'' (JStr kind) (strip_status kind m))))) kind"

lemma strip_live_fields_eq: "strip_live_fields kind apiVersion m = strip_server_defaults [] (JObj (before_defaults kind apiVersion m))"
  by (simp add: strip_live_fields_def before_defaults_def Let_def)

lemma agree_before_defaults:
  "agree (hidden_keys kind) (hidden_roots kind) m (before_defaults kind apiVersion m)"
proof -
  let ?K = "hidden_keys kind" and ?T = "hidden_roots kind"
  have "agree ?K ?T m (strip_status kind m)"
    by (rule agree_strip_status) (simp add: hidden_roots_def)
  moreover have "agree ?K ?T a (AList.update ''apiVersion'' v (AList.update ''kind'' w a))" for a v w
    by (rule agree_cong_map) (auto simp: hidden_roots_def)
  ultimately show ?thesis
    unfolding before_defaults_def
    by (intro agree_trans [OF _ agree_injected] agree_trans [OF _ agree_strip_namespace]
        agree_trans [OF _ agree_on_object] agree_strip_meta [where kind = kind] order_refl) (rule agree_trans)
qed

lemma map_of_on_object_key:
  "map_of (on_object key f m) key =
     (case as_object (map_of m key) of Some obj \<Rightarrow> Some (JObj (f obj)) | None \<Rightarrow> map_of m key)"
  by (simp add: on_object_def split: option.splits)

lemma on_object_result:
  "map_of (on_object key f m) key = Some (JObj o') \<Longrightarrow> \<exists>o0. map_of m key = Some (JObj o0) \<and> o' = f o0"
  by (cases "as_object (map_of m key)") (auto simp: on_object_def)

lemma meta_before_defaults:
  assumes "map_of (before_defaults kind av m) ''metadata'' = Some (JObj meta)"
  shows "\<forall>k \<in> set server_managed_meta_fields \<union> {''finalizers''}. map_of meta k = None"
proof -
  have inj: "map_of (strip_controller_injected_fields x kind) ''metadata'' \<in>
      {map_of x ''metadata'', map_of (on_object ''metadata'' strip_server_managed_labels x) ''metadata''}" for x
  proof -
    have "map_of (on_object ''metadata'' f (on_object ''spec'' g x)) ''metadata'' = map_of (on_object ''metadata'' f x) ''metadata''" for f g
      by (simp add: map_of_on_object_key split: option.split)
    then show ?thesis
      by (simp add: strip_controller_injected_fields_def)
  qed
  have ns: "map_of (strip_namespace_spec kind x) ''metadata'' = map_of x ''metadata''" for x
    by (auto simp: strip_namespace_spec_def split: option.splits)
  have sm: "map_of (strip_meta x) k = None" if "k \<in> set server_managed_meta_fields \<union> {''finalizers''}" for x k
    using that by (auto simp: strip_meta_def strip_server_managed_labels_def strip_server_managed_annotations_def
        server_managed_meta_fields_def map_of_del_keys)
  have lab: "map_of (strip_server_managed_labels x) k = map_of x k"
    if "k \<in> set server_managed_meta_fields \<union> {''finalizers''}" for x k
    using that by (auto simp: strip_server_managed_labels_def server_managed_meta_fields_def)
  define y where "y = AList.update ''apiVersion'' (JStr av) (AList.update ''kind'' (JStr kind) (strip_status kind m))"
  define x where "x = strip_namespace_spec kind (on_object ''metadata'' strip_meta y)"
  have x: "\<exists>m0. mm = strip_meta m0" if "map_of x ''metadata'' = Some (JObj mm)" for mm
    using that on_object_result [of "''metadata''" strip_meta y mm] by (auto simp: x_def ns)
  have "map_of x ''metadata'' = Some (JObj meta) \<or>
      map_of (on_object ''metadata'' strip_server_managed_labels x) ''metadata'' = Some (JObj meta)"
  proof -
    have "before_defaults kind av m = strip_controller_injected_fields x kind"
      by (simp add: before_defaults_def x_def y_def)
    then have eq: "map_of (strip_controller_injected_fields x kind) ''metadata'' = Some (JObj meta)"
      using assms by simp
    from inj [of x] show ?thesis
      unfolding eq insert_iff empty_iff by argo
  qed
  then show ?thesis
  proof
    assume "map_of x ''metadata'' = Some (JObj meta)"
    then obtain m0 where m0: "meta = strip_meta m0"
      using x by blast
    show ?thesis
      unfolding m0 by (rule ballI) (rule sm)
  next
    assume "map_of (on_object ''metadata'' strip_server_managed_labels x) ''metadata'' = Some (JObj meta)"
    then obtain mm where mm: "map_of x ''metadata'' = Some (JObj mm)" "meta = strip_server_managed_labels mm"
      using on_object_result by blast
    then obtain m0 where m0: "mm = strip_meta m0"
      using x by blast
    show ?thesis
      unfolding mm(2) m0 by (rule ballI) (simp only: lab sm)
  qed
qed

lemma top_before_defaults:
  "map_of (before_defaults kind av m) ''kind'' = Some (JStr kind)"
  "map_of (before_defaults kind av m) ''apiVersion'' = Some (JStr av)"
  "map_of (before_defaults kind av m) ''status'' = preserved_status m kind"
proof -
  have other: "map_of (strip_controller_injected_fields (strip_namespace_spec kind (on_object ''metadata'' strip_meta x)) kind) k
      = map_of x k" if "k \<notin> {''spec'', ''metadata'', ''data''}" for x k
    using that by (auto simp: strip_controller_injected_fields_def strip_namespace_spec_def split: option.splits)
  show "map_of (before_defaults kind av m) ''kind'' = Some (JStr kind)"
    "map_of (before_defaults kind av m) ''apiVersion'' = Some (JStr av)"
    "map_of (before_defaults kind av m) ''status'' = preserved_status m kind"
    by (simp_all add: before_defaults_def other strip_status_def split: option.splits)
qed

subsection \<open>Properties\<close>



text \<open>C27: \<open>LiveState\<close> changes nothing else: a scalar of the projected object at a path that
  avoids the hidden keys of its kind is reported unchanged, and none is invented there, so drift
  in a field the user owns is always seen.\<close>

theorem live_state_keeps_user_fields:
  assumes "decode api = Inr ac" "encode ac = Inr obj"
    and "\<forall>k \<in> hidden_keys kind. Key k \<notin> set ps" "\<forall>k \<in> hidden_roots kind. take 1 ps \<noteq> [Key k]"
  shows "\<exists>doc. live_state decode encode (Inr api) kind apiVersion = Inr doc \<and>
     scalar_at doc ps = scalar_at (JObj obj) ps"
proof -
  have "scalar_at (JObj obj) ps = scalar_at (JObj (before_defaults kind apiVersion obj)) ps"
    using agree_before_defaults assms(3,4) unfolding agree_def by blast
  moreover have "touched \<subseteq> hidden_keys kind"
    by (auto simp: hidden_keys_def)
  ultimately show ?thesis
    using assms agree_strip [of "hidden_keys kind" ps "[]"]
    by (simp add: live_state_def strip_live_fields_eq del: strip_JObj)
qed

theorem live_state_keeps_user_fields_witness:
  "\<exists>doc. live_state Inr (\<lambda>j. to_generic_map (Inr j))
       (Inr (JObj [(''spec'', JObj [(''replicas'', JNum 3)]), (''status'', JNull)])) ''Deployment'' ''apps/v1'' = Inr doc \<and>
     scalar_at doc [Key ''spec'', Key ''replicas''] = Some (JNum 3)"
proof -
  have "\<forall>k \<in> hidden_keys ''Deployment''. Key k \<notin> set [Key ''spec'', Key ''replicas'']"
    "\<forall>k \<in> hidden_roots ''Deployment''. take 1 [Key ''spec'', Key ''replicas''] \<noteq> [Key k]"
    by (auto simp: hidden_keys_def hidden_roots_def touched_def server_managed_meta_fields_def injected_keys_def)
  then show ?thesis
    using live_state_keeps_user_fields [where decode = Inr and encode = "\<lambda>j. to_generic_map (Inr j)"
      and kind = "''Deployment''" and ps = "[Key ''spec'', Key ''replicas'']" and apiVersion = "''apps/v1''",
      OF refl to_generic_map.simps(2), of "[(''spec'', JObj [(''replicas'', JNum 3)]), (''status'', JNull)]"]
    by (simp add: scalar_at_def)
qed

text \<open>\<open>StripUnownedReplicas\<close> hides the replica count exactly from managers that do not own
  it: when formae owns \<open>spec.replicas\<close> the properties are unchanged, otherwise the count is gone
  and every other value of the document stays.\<close>

theorem strip_unowned_replicas_exact:
  "\<exists>out. strip_unowned_replicas (Inr (JObj obj)) mfs = Inr (JObj out) \<and>
     (\<forall>ps. scalar_at (JObj out) ps =
        (if \<not> manager_owns_field mfs ''formae'' [''spec'', ''replicas''] \<and> take 2 ps = [Key ''spec'', Key ''replicas'']
         then None else scalar_at (JObj obj) ps))"
proof (cases "manager_owns_field mfs ''formae'' [''spec'', ''replicas'']")
  case True
  then show ?thesis
    by (simp add: strip_unowned_replicas_def field_manager_def)
next
  case notown: False
  show ?thesis
  proof (cases "as_object (map_of obj ''spec'')")
    case None
    then have "strip_unowned_replicas (Inr (JObj obj)) mfs = Inr (JObj obj)"
      by (cases "the (map_of obj ''spec'')")
         (auto simp: strip_unowned_replicas_def field_manager_def split: option.splits)
    moreover have "take 2 ps = [Key ''spec'', Key ''replicas''] \<Longrightarrow> scalar_at (JObj obj) ps = None" for ps
      using None by (cases ps; cases "tl ps"; cases "the (map_of obj ''spec'')")
         (auto simp: scalar_at_def split: option.splits)
    ultimately show ?thesis
      by (intro exI [of _ obj]) (auto simp: notown)
  next
    case (Some spec)
    let ?out = "if has_key spec ''replicas'' then AList.update ''spec'' (JObj (del_key ''replicas'' spec)) obj else obj"
    have absent: "map_of spec ''replicas'' = None" if "''replicas'' \<notin> fst ` set spec"
      using that by (simp add: map_of_eq_None_iff)
    have "scalar_at (JObj ?out) ps =
        (if take 2 ps = [Key ''spec'', Key ''replicas''] then None else scalar_at (JObj obj) ps)" for ps
    proof (cases ps)
      case (Cons p qs)
      then show ?thesis
        using Some absent by (cases qs; cases p; cases "hd qs") auto
    qed simp
    moreover have "strip_unowned_replicas (Inr (JObj obj)) mfs = Inr (JObj ?out)"
      using Some notown by (simp add: strip_unowned_replicas_def field_manager_def)
    ultimately show ?thesis
      using notown by (intro exI [of _ ?out]) simp
  qed
qed

end
