(* ===== verification/K8s_Version.thy ===== *)
theory K8s_Version
  imports Native_Id
begin

text \<open>
  Cluster versions and version gates (\<open>pkg/config/version.go\<close>, \<open>pkg/k8sversion/registry.go\<close>,
  \<open>pkg/resources/prov/version_check.go\<close>): normalisation of a reported version to MAJOR.MINOR,
  its comparison, where the version comes from, the registries of gated fields and gated types,
  and the preflight checks over them. The gjson library that looks a field path up in a payload
  is not under src/: the payload check takes its \<open>GetBytes\<close> as the parameter \<open>get_path\<close>.
\<close>

subsection \<open>Versions\<close>

definition normalize_k8s_version :: "string \<Rightarrow> string res" where
  "normalize_k8s_version v0 =
     (let v = trim_suffix (trim_prefix (trim_space v0) ''v'') ''+'';
          parts = splitn_char 2 CHR ''.'' v
      in if length parts < 2
         then Inl (new_error (''invalid K8s version '' @ [CHR 0x22] @ v @ [CHR 0x22] @ '': expected MAJOR.MINOR''))
         else (case atoi (parts ! 0) of
             None \<Rightarrow> Inl (new_error (''invalid K8s major '' @ [CHR 0x22] @ parts ! 0 @ [CHR 0x22]))
           | Some major \<Rightarrow>
               (case atoi (trim_suffix (parts ! 1) ''+'') of
                  None \<Rightarrow> Inl (new_error (''invalid K8s minor '' @ [CHR 0x22] @ parts ! 1 @ [CHR 0x22]))
                | Some minor \<Rightarrow> Inr (itoa major @ ''.'' @ itoa minor))))"

text \<open>
  \<open>strconv.Atoi\<close> also returns a value when it reports an error, and \<open>splitMinor\<close> drops the
  error: 0 for a syntax error, the nearest bound when the number is out of range.
\<close>

definition atoi_value :: "string \<Rightarrow> int" where
  "atoi_value s =
     (let (neg, ds) = (case s of
              c # cs \<Rightarrow> if c = CHR ''-'' then (True, cs) else if c = CHR ''+'' then (False, cs) else (False, s)
            | [] \<Rightarrow> (False, s))
      in if ds = [] then 0
         else (case read_digits 0 ds of
                 None \<Rightarrow> 0
               | Some n \<Rightarrow> max min_int64 (min max_int64 (if neg then - int n else int n))))"

definition split_minor :: "string \<Rightarrow> int \<times> int" where
  "split_minor v =
     (let parts = splitn_char 1 CHR ''.'' v in
      if length parts \<noteq> 2 then (0, 0) else (atoi_value (parts ! 0), atoi_value (parts ! 1)))"

definition compare_k8s_versions :: "string \<Rightarrow> string \<Rightarrow> int" where
  "compare_k8s_versions a b =
     (let (am, an) = split_minor a; (bm, bn) = split_minor b in
      if am < bm then -1
      else if am > bm then 1
      else if an < bn then -1
      else if an > bn then 1
      else 0)"

text \<open>
  \<open>ResolveK8sVersion\<close>: the target's override (\<open>None\<close> when there is no config), the
  environment variable (empty when unset), then discovery (\<open>None\<close> when there is no client,
  otherwise the result of \<open>ServerVersion\<close> as a pair of major and minor).
\<close>

definition resolve_k8s_version ::
  "string option \<Rightarrow> string \<Rightarrow> (string \<times> string) res option \<Rightarrow> string res" where
  "resolve_k8s_version cfg env disc =
     (if cfg \<noteq> None \<and> cfg \<noteq> Some [] then normalize_k8s_version (the cfg)
      else if env \<noteq> [] then normalize_k8s_version env
      else (case disc of
          None \<Rightarrow> Inl (new_error ''cannot resolve K8s version: no override set and no discovery client provided'')
        | Some (Inl e) \<Rightarrow> Inl (wrap_error ''cannot resolve K8s version via discovery (set FORMAE_K8S_VERSION or kubernetesVersion in target config)'' e)
        | Some (Inr (major, minor)) \<Rightarrow> normalize_k8s_version (major @ ''.'' @ minor)))"

subsection \<open>Gates\<close>

record gate =
  introduced_in :: string
  deprecated_in :: string
  removed_in :: string
  reference :: string

definition registry :: "((string \<times> string) \<times> gate) list" where
  "registry = [
    ((''K8S::Core::Pod'', ''spec.resourceClaims''),
      \<lparr>introduced_in = ''1.26'', deprecated_in = '''', removed_in = '''', reference = ''https://kep.k8s.io/3063''\<rparr>),
    ((''K8S::Core::Pod'', ''spec.schedulingGates''),
      \<lparr>introduced_in = ''1.26'', deprecated_in = '''', removed_in = '''', reference = ''https://kep.k8s.io/3521''\<rparr>),
    ((''K8S::Core::Pod'', ''spec.hostUsers''),
      \<lparr>introduced_in = ''1.25'', deprecated_in = '''', removed_in = '''', reference = ''https://kep.k8s.io/127''\<rparr>),
    ((''K8S::Core::Pod'', ''spec.securityContext.appArmorProfile''),
      \<lparr>introduced_in = ''1.30'', deprecated_in = '''', removed_in = '''', reference = ''https://kep.k8s.io/24''\<rparr>),
    ((''K8S::Core::Pod'', ''spec.containers.#.resizePolicy''),
      \<lparr>introduced_in = ''1.27'', deprecated_in = '''', removed_in = '''', reference = ''https://kep.k8s.io/1287''\<rparr>),
    ((''K8S::Core::Pod'', ''spec.initContainers.#.resizePolicy''),
      \<lparr>introduced_in = ''1.27'', deprecated_in = '''', removed_in = '''', reference = ''https://kep.k8s.io/1287''\<rparr>),
    ((''K8S::Batch::Job'', ''spec.managedBy''),
      \<lparr>introduced_in = ''1.30'', deprecated_in = '''', removed_in = '''', reference = ''https://kep.k8s.io/4368''\<rparr>),
    ((''K8S::Batch::Job'', ''spec.maxFailedIndexes''),
      \<lparr>introduced_in = ''1.28'', deprecated_in = '''', removed_in = '''', reference = ''https://kep.k8s.io/3850''\<rparr>),
    ((''K8S::Batch::Job'', ''spec.successPolicy''),
      \<lparr>introduced_in = ''1.30'', deprecated_in = '''', removed_in = '''', reference = ''https://kep.k8s.io/3998''\<rparr>),
    ((''K8S::Core::Service'', ''spec.externalIPs''),
      \<lparr>introduced_in = '''', deprecated_in = ''1.36'', removed_in = '''',
       reference = ''https://github.com/kubernetes/enhancements/issues/1864''\<rparr>),
    ((''K8S::Core::Service'', ''spec.trafficDistribution''),
      \<lparr>introduced_in = ''1.30'', deprecated_in = '''', removed_in = '''', reference = ''https://kep.k8s.io/4444''\<rparr>)]"

definition type_registry :: "(string \<times> gate) list" where
  "type_registry = [
    (''K8S::Admissionregistration::MutatingAdmissionPolicy'',
      \<lparr>introduced_in = ''1.36'', deprecated_in = '''', removed_in = '''', reference = ''https://kep.k8s.io/3962''\<rparr>),
    (''K8S::Flowcontrol::FlowSchema'',
      \<lparr>introduced_in = ''1.29'', deprecated_in = '''', removed_in = '''',
       reference = ''https://kubernetes.io/blog/2024/04/30/kubernetes-1-30-release-note-flow-control-graduations/''\<rparr>),
    (''K8S::Flowcontrol::PriorityLevelConfiguration'',
      \<lparr>introduced_in = ''1.29'', deprecated_in = '''', removed_in = '''',
       reference = ''https://kubernetes.io/blog/2024/04/30/kubernetes-1-30-release-note-flow-control-graduations/''\<rparr>),
    (''K8S::Autoscaling::HorizontalPodAutoscaler'',
      \<lparr>introduced_in = ''1.23'', deprecated_in = '''', removed_in = '''',
       reference = ''https://github.com/kubernetes/enhancements/issues/117''\<rparr>)]"

definition lookup_type :: "string \<Rightarrow> gate option" where
  "lookup_type resourceType = map_of type_registry resourceType"

definition reference_suffix :: "gate \<Rightarrow> string" where
  "reference_suffix g = (if reference g \<noteq> [] then '' (see '' @ reference g @ '')'' else [])"

definition type_supported :: "string \<Rightarrow> string \<Rightarrow> bool \<times> string" where
  "type_supported resourceType clusterVersion =
     (case lookup_type resourceType of
        None \<Rightarrow> (True, [])
      | Some g \<Rightarrow>
          if introduced_in g \<noteq> [] \<and> compare_k8s_versions clusterVersion (introduced_in g) < 0
          then (False, resourceType @ '' requires Kubernetes '' @ introduced_in g @
                  '', target reports '' @ clusterVersion @ reference_suffix g)
          else if removed_in g \<noteq> [] \<and> compare_k8s_versions clusterVersion (removed_in g) \<ge> 0
          then (False, resourceType @ '' was removed in Kubernetes '' @ removed_in g @
                  '', target reports '' @ clusterVersion @ reference_suffix g)
          else (True, []))"

definition paths_for_resource :: "string \<Rightarrow> string list" where
  "paths_for_resource resourceType =
     map (snd \<circ> fst) (filter (\<lambda>e. fst (fst e) = resourceType) registry)"

definition lookup_gate :: "string \<Rightarrow> string \<Rightarrow> gate option" where
  "lookup_gate resourceType fieldPath = map_of registry (resourceType, fieldPath)"

text \<open>\<open>CheckField\<close>: \<open>None\<close> is Go's nil.\<close>

definition check_field :: "string \<Rightarrow> string \<Rightarrow> string \<Rightarrow> gerr option" where
  "check_field resourceType fieldPath clusterVersion =
     (case lookup_gate resourceType fieldPath of
        None \<Rightarrow> None
      | Some g \<Rightarrow>
          if introduced_in g \<noteq> [] \<and> compare_k8s_versions clusterVersion (introduced_in g) < 0
          then Some (new_error (''field '' @ [CHR 0x22] @ fieldPath @ [CHR 0x22] @ '' on '' @ resourceType @
                 '' requires Kubernetes '' @ introduced_in g @ '', cluster reports '' @ clusterVersion @ reference_suffix g))
          else if removed_in g \<noteq> [] \<and> compare_k8s_versions clusterVersion (removed_in g) \<ge> 0
          then Some (new_error (''field '' @ [CHR 0x22] @ fieldPath @ [CHR 0x22] @ '' on '' @ resourceType @
                 '' was removed in Kubernetes '' @ removed_in g @ '', cluster reports '' @ clusterVersion @ reference_suffix g))
          else None)"

fun check_paths :: "string \<Rightarrow> string list \<Rightarrow> string \<Rightarrow> gerr option" where
  "check_paths resourceType [] clusterVersion = None"
| "check_paths resourceType (fp # fps) clusterVersion =
     (case check_field resourceType fp clusterVersion of
        Some e \<Rightarrow> Some e
      | None \<Rightarrow> check_paths resourceType fps clusterVersion)"

text \<open>
  What gjson answers for one path: the field does not exist, it is a non-array value, or it is
  an array, given by one flag per element (the element exists and is not null).
\<close>

datatype path_result = Missing | Scalar | Elements "bool list"

fun path_is_set :: "path_result \<Rightarrow> bool" where
  "path_is_set Missing = False"
| "path_is_set Scalar = True"
| "path_is_set (Elements flags) = (True \<in> set flags)"

fun check_gate_loop :: "(string \<Rightarrow> path_result) \<Rightarrow> string \<Rightarrow> string \<Rightarrow> string list \<Rightarrow> gerr option" where
  "check_gate_loop get_path resourceType version [] = None"
| "check_gate_loop get_path resourceType version (fp # fps) =
     (if \<not> path_is_set (get_path fp) then check_gate_loop get_path resourceType version fps
      else if lookup_gate resourceType fp = None then check_gate_loop get_path resourceType version fps
      else (case check_field resourceType fp version of
              Some e \<Rightarrow> Some e
            | None \<Rightarrow> check_gate_loop get_path resourceType version fps))"

definition check_payload_gates ::
  "string \<Rightarrow> (string \<Rightarrow> path_result) \<Rightarrow> string res \<Rightarrow> gerr option" where
  "check_payload_gates resourceType get_path resolved =
     (let paths = paths_for_resource resourceType in
      if paths = [] then None
      else (case resolved of
          Inl _ \<Rightarrow> None
        | Inr version \<Rightarrow> check_gate_loop get_path resourceType version paths))"

subsection \<open>Lemmas\<close>

definition version_string :: "int \<Rightarrow> int \<Rightarrow> string" where
  "version_string major minor = itoa major @ ''.'' @ itoa minor"

definition int64 :: "int \<Rightarrow> bool" where
  "int64 i \<longleftrightarrow> min_int64 \<le> i \<and> i \<le> max_int64"

lemma dot_notin_itoa [simp]: "CHR ''.'' \<notin> set (itoa i)"
  by (rule itoa_not_in)
     (auto simp: digit_char_def dest!: arg_cong [where f = "of_char :: char \<Rightarrow> nat"])

lemma atoi_value_eq: "atoi s = Some i \<Longrightarrow> atoi_value s = i"
  by (auto simp: atoi_def atoi_value_def Let_def split: list.splits option.splits if_splits prod.splits)

lemma cut_version [simp]: "cut_char CHR ''.'' (version_string a b) = Some (itoa a, itoa b)"
  by (simp add: version_string_def)

lemma split_minor_version [simp]:
  "int64 a \<Longrightarrow> int64 b \<Longrightarrow> split_minor (version_string a b) = (a, b)"
  by (simp add: split_minor_def int64_def atoi_itoa atoi_value_eq Let_def)

lemma version_string_inject:
  assumes "int64 a" "int64 b" "int64 c" "int64 d"
  shows "version_string a b = version_string c d \<longleftrightarrow> a = c \<and> b = d"
  using split_minor_version [OF assms(1,2)] split_minor_version [OF assms(3,4)]
  by (metis prod.inject)

lemma normalize_Inr:
  "normalize_k8s_version v = Inr w \<Longrightarrow> \<exists>a b. w = version_string a b \<and> int64 a \<and> int64 b"
  by (auto simp: normalize_k8s_version_def version_string_def int64_def Let_def
      split: if_splits option.splits dest!: atoi_bounds)

lemma compare_version:
  "\<lbrakk>int64 a; int64 b; int64 c; int64 d\<rbrakk> \<Longrightarrow>
   compare_k8s_versions (version_string a b) (version_string c d) =
     (if (a, b) = (c, d) then 0 else if a < c \<or> a = c \<and> b < d then -1 else 1)"
  by (auto simp: compare_k8s_versions_def)

lemma digit_not_space: "d < 10 \<Longrightarrow> \<not> is_space (digit_char d)"
  by (auto simp: is_space_def digit_char_def dest!: arg_cong [where f = "of_char :: char \<Rightarrow> nat"])

lemma digit_not_v: "d < 10 \<Longrightarrow> digit_char d \<noteq> CHR ''v''"
  by (auto simp: digit_char_def dest!: arg_cong [where f = "of_char :: char \<Rightarrow> nat"])

lemma itoa_first: "\<exists>c cs. itoa i = c # cs \<and> \<not> is_space c \<and> c \<noteq> CHR ''v''"
proof -
  show ?thesis
  proof (cases "i < 0")
    case True
    then show ?thesis by (simp add: itoa_def is_space_def)
  next
    case False
    obtain c cs where "show_nat (nat i) = c # cs"
      by (cases "show_nat (nat i)") auto
    then show ?thesis
      using False show_nat_digits [of c "nat i"] digit_not_space digit_not_v
      by (auto simp: itoa_def)
  qed
qed

lemma show_nat_last: "\<exists>ds d. show_nat n = ds @ [digit_char d] \<and> d < 10"
proof (cases "n < 10")
  case True
  then show ?thesis by (subst show_nat.simps) auto
next
  case False
  then have "show_nat n = show_nat (n div 10) @ [digit_char (n mod 10)]"
    by (simp add: show_nat.simps [of n])
  moreover have "n mod 10 < 10" by simp
  ultimately show ?thesis by blast
qed

lemma itoa_last: "\<exists>ds d. itoa i = ds @ [digit_char d] \<and> d < 10"
proof (cases "i < 0")
  case True
  then show ?thesis
    using show_nat_last [of "nat (- i)"] by (auto simp: itoa_def)
next
  case False
  then show ?thesis
    using show_nat_last [of "nat i"] by (simp add: itoa_def)
qed

lemma version_trim [simp]:
  "trim_space (version_string a b) = version_string a b"
  "trim_prefix (version_string a b) ''v'' = version_string a b"
  "trim_suffix (version_string a b) ''+'' = version_string a b"
proof -
  obtain c cs where c: "itoa a = c # cs" "\<not> is_space c" "c \<noteq> CHR ''v''"
    using itoa_first by blast
  obtain ds d where d: "itoa b = ds @ [digit_char d]" "d < 10"
    using itoa_last by blast
  show "trim_space (version_string a b) = version_string a b"
    using c d digit_not_space by (simp add: trim_space_def version_string_def)
  show "trim_prefix (version_string a b) ''v'' = version_string a b"
    using c by (simp add: trim_prefix_def has_prefix_def version_string_def)
  show "trim_suffix (version_string a b) ''+'' = version_string a b"
    using d by (simp add: trim_suffix_def has_suffix_def has_prefix_def version_string_def)
qed

lemma trim_suffix_itoa [simp]: "trim_suffix (itoa b) ''+'' = itoa b"
proof -
  obtain ds d where "itoa b = ds @ [digit_char d]" "d < 10"
    using itoa_last by blast
  then show ?thesis
    by (simp add: trim_suffix_def has_suffix_def has_prefix_def)
qed

lemma splitn2_version [simp]:
  "splitn_char 2 CHR ''.'' (version_string a b) = [itoa a, itoa b]"
  by (simp add: numeral_2_eq_2)

lemma normalize_version:
  "int64 a \<Longrightarrow> int64 b \<Longrightarrow> normalize_k8s_version (version_string a b) = Inr (version_string a b)"
  by (simp add: normalize_k8s_version_def int64_def atoi_itoa Let_def)
     (simp add: version_string_def)

lemma compare_normalized:
  assumes "normalize_k8s_version x = Inr u" "normalize_k8s_version y = Inr v"
  obtains a b c d where "u = version_string a b" "v = version_string c d"
    "int64 a" "int64 b" "int64 c" "int64 d"
    "compare_k8s_versions u v = (if (a, b) = (c, d) then 0 else if a < c \<or> a = c \<and> b < d then -1 else 1)"
  using assms compare_version by (metis normalize_Inr)

lemma registry_gates:
  assumes "lookup_gate rt fp = Some g"
  shows "introduced_in g \<in> {'''', ''1.25'', ''1.26'', ''1.27'', ''1.28'', ''1.30''} \<and> removed_in g = ''''"
proof -
  have "((rt, fp), g) \<in> set registry"
    using assms by (simp add: lookup_gate_def map_of_SomeD)
  then show ?thesis
    by (auto simp: registry_def)
qed

lemma type_registry_gates:
  assumes "lookup_type rt = Some g"
  shows "introduced_in g \<in> {''1.36'', ''1.29'', ''1.23''} \<and> removed_in g = ''''"
proof -
  have "(rt, g) \<in> set type_registry"
    using assms by (simp add: lookup_type_def map_of_SomeD)
  then show ?thesis
    by (auto simp: type_registry_def)
qed

lemma introduced_versions:
  "''1.23'' = version_string 1 23" "''1.25'' = version_string 1 25" "''1.26'' = version_string 1 26"
  "''1.27'' = version_string 1 27" "''1.28'' = version_string 1 28" "''1.29'' = version_string 1 29"
  "''1.30'' = version_string 1 30" "''1.36'' = version_string 1 36"
  by code_simp+

lemma int64_small [simp]: "int64 1" "int64 (numeral n) \<longleftrightarrow> numeral n \<le> max_int64"
  by (simp_all add: int64_def min_int64_def max_int64_def)

lemma field_gate_floor:
  assumes "lookup_gate rt fp = Some g"
  shows "introduced_in g = [] \<or> (\<exists>m. m \<le> 30 \<and> int64 m \<and> introduced_in g = version_string 1 m)"
proof -
  have "\<exists>m. m \<le> 30 \<and> int64 m \<and> s = version_string 1 m"
    if "s \<in> {''1.25'', ''1.26'', ''1.27'', ''1.28'', ''1.30''}" for s
  proof -
    have "int64 25" "int64 26" "int64 27" "int64 28" "int64 30"
      by (simp_all add: max_int64_def)
    then have "int64 m \<and> m \<le> 30" if "m \<in> {25, 26, 27, 28, 30}" for m
      using that by auto
    then show ?thesis
      using that introduced_versions by (metis insertCI insertE singletonD)
  qed
  then show ?thesis
    using registry_gates [OF assms] by (metis insertE insertI1)
qed

lemma check_gate_loop_iff:
  "check_gate_loop get_path rt v fps \<noteq> None \<longleftrightarrow>
     (\<exists>fp \<in> set fps. path_is_set (get_path fp) \<and> check_field rt fp v \<noteq> None)"
proof (induction fps)
  case (Cons fp fps)
  have "lookup_gate rt fp = None \<Longrightarrow> check_field rt fp v = None"
    by (simp add: check_field_def)
  with Cons show ?case
    by (auto split: option.splits)
qed simp

lemma paths_for_resource_iff: "fp \<in> set (paths_for_resource rt) \<longleftrightarrow> lookup_gate rt fp \<noteq> None"
  by (force simp: paths_for_resource_def lookup_gate_def map_of_eq_None_iff image_iff)

lemma check_payload_gates_iff:
  "check_payload_gates rt get_path (Inr v) \<noteq> None \<longleftrightarrow>
     (\<exists>fp. path_is_set (get_path fp) \<and> check_field rt fp v \<noteq> None)"
proof -
  have "check_field rt fp v \<noteq> None \<Longrightarrow> fp \<in> set (paths_for_resource rt)" for fp
    by (auto simp: paths_for_resource_iff check_field_def split: option.splits)
  moreover have "check_payload_gates rt get_path (Inr v) = check_gate_loop get_path rt v (paths_for_resource rt)"
    by (simp add: check_payload_gates_def Let_def)
  ultimately show ?thesis
    using check_gate_loop_iff [of get_path rt v "paths_for_resource rt"] by metis
qed

subsection \<open>Properties\<close>

text \<open>Normalisation reaches a fixed point: what \<open>NormalizeK8sVersion\<close> returns is
  MAJOR.MINOR of two 64-bit numbers, and normalising it again changes nothing.\<close>

theorem normalize_idempotent:
  "normalize_k8s_version v = Inr w \<Longrightarrow>
     normalize_k8s_version w = Inr w \<and> (\<exists>a b. split_minor w = (a, b) \<and> w = itoa a @ ''.'' @ itoa b)"
proof -
  assume "normalize_k8s_version v = Inr w"
  then obtain a b where "w = version_string a b" "int64 a" "int64 b"
    using normalize_Inr by blast
  then show ?thesis
    by (simp add: normalize_version) (auto simp: version_string_def)
qed

theorem normalize_idempotent_witness: "normalize_k8s_version ''1.32'' = Inr ''1.32''"
proof -
  have "normalize_k8s_version '' v1.32.5-gke+'' = Inr ''1.32''"
    by code_simp
  then show ?thesis
    using normalize_idempotent [of "'' v1.32.5-gke+''" "''1.32''"] by blast
qed

text \<open>On normalised versions \<open>CompareK8sVersions\<close> is a total order: exchanging the
  arguments flips the sign, 0 means the same version, and it is transitive.\<close>

theorem compare_total_order:
  assumes "normalize_k8s_version x = Inr u" "normalize_k8s_version y = Inr v"
    "normalize_k8s_version z = Inr w"
  shows "compare_k8s_versions v u = - compare_k8s_versions u v \<and>
     (compare_k8s_versions u v = 0 \<longleftrightarrow> u = v) \<and>
     (compare_k8s_versions u v \<le> 0 \<and> compare_k8s_versions v w \<le> 0 \<longrightarrow> compare_k8s_versions u w \<le> 0)"
proof -
  obtain a b c d e f where vs: "u = version_string a b" "v = version_string c d" "w = version_string e f"
    and ok: "int64 a" "int64 b" "int64 c" "int64 d" "int64 e" "int64 f"
    using assms by (metis normalize_Inr)
  have uv: "u = v \<longleftrightarrow> a = c \<and> b = d"
    unfolding vs by (rule version_string_inject [OF ok(1,2,3,4)])
  have "compare_k8s_versions u v = (if a = c \<and> b = d then 0 else if a < c \<or> a = c \<and> b < d then -1 else 1)"
    "compare_k8s_versions v u = (if c = a \<and> d = b then 0 else if c < a \<or> c = a \<and> d < b then -1 else 1)"
    "compare_k8s_versions v w = (if c = e \<and> d = f then 0 else if c < e \<or> c = e \<and> d < f then -1 else 1)"
    "compare_k8s_versions u w = (if a = e \<and> b = f then 0 else if a < e \<or> a = e \<and> b < f then -1 else 1)"
    unfolding vs
    by (simp_all only: compare_version [OF ok(1,2,3,4)] compare_version [OF ok(3,4,1,2)]
        compare_version [OF ok(3,4,5,6)] compare_version [OF ok(1,2,5,6)] prod.inject)
  note cmps = this
  have sym: "compare_k8s_versions v u = - compare_k8s_versions u v"
    unfolding cmps by auto
  have zero: "compare_k8s_versions u v = 0 \<longleftrightarrow> u = v"
    unfolding cmps uv by auto
  have neg: "compare_k8s_versions u v \<le> 0 \<longleftrightarrow> a < c \<or> a = c \<and> b \<le> d"
    "compare_k8s_versions v w \<le> 0 \<longleftrightarrow> c < e \<or> c = e \<and> d \<le> f"
    "compare_k8s_versions u w \<le> 0 \<longleftrightarrow> a < e \<or> a = e \<and> b \<le> f"
    unfolding cmps by auto
  from sym zero show ?thesis
    unfolding neg by auto
qed

theorem compare_total_order_witness:
  "compare_k8s_versions ''1.9'' ''1.31'' = - compare_k8s_versions ''1.31'' ''1.9'' \<and>
   compare_k8s_versions ''1.9'' ''1.31'' = -1"
proof -
  have n: "normalize_k8s_version ''v1.31+'' = Inr ''1.31''" "normalize_k8s_version ''1.9.0'' = Inr ''1.9''"
    by code_simp+
  have "compare_k8s_versions ''1.9'' ''1.31'' = -1"
    by code_simp
  then show ?thesis
    using compare_total_order [OF n(1) n(2) n(1)] by blast
qed

text \<open>A type that the registry allows on one cluster version is allowed on every later
  one: \<open>TypeSupported\<close> is upward closed in the version.\<close>

theorem type_supported_upward:
  assumes "normalize_k8s_version x = Inr u" "normalize_k8s_version y = Inr v"
    and "compare_k8s_versions u v \<le> 0" and "fst (type_supported rt u)"
  shows "type_supported rt v = (True, [])"
proof (cases "lookup_type rt")
  case None
  then show ?thesis by (simp add: type_supported_def)
next
  case (Some g)
  obtain a b c d where vs: "u = version_string a b" "v = version_string c d"
    and ok: "int64 a" "int64 b" "int64 c" "int64 d"
    using assms(1,2) by (metis normalize_Inr)
  obtain m where g: "introduced_in g = version_string 1 m" "int64 m" "removed_in g = []"
    using type_registry_gates [OF Some] by (auto simp: introduced_versions max_int64_def)
  have ne: "introduced_in g \<noteq> []"
    using g by (simp add: version_string_def)
  have "\<not> compare_k8s_versions u (introduced_in g) < 0"
    using assms(4) Some ne by (auto simp: type_supported_def split: if_splits)
  then have "\<not> compare_k8s_versions v (introduced_in g) < 0"
    using assms(3) ok g by (auto simp: vs compare_version split: if_splits)
  then show ?thesis
    using Some g by (simp add: type_supported_def)
qed

theorem type_supported_upward_witness:
  "type_supported ''K8S::Flowcontrol::FlowSchema'' ''1.36'' = (True, [])"
proof -
  have n: "normalize_k8s_version ''1.29'' = Inr ''1.29''" "normalize_k8s_version ''1.36'' = Inr ''1.36''"
    by code_simp+
  have "compare_k8s_versions ''1.29'' ''1.36'' \<le> 0" "fst (type_supported ''K8S::Flowcontrol::FlowSchema'' ''1.29'')"
    by code_simp+
  then show ?thesis
    using type_supported_upward [OF n] by blast
qed

text \<open>The payload preflight rejects exactly when some gated field of the type is set in
  the payload and fails its own check, whatever order the registry's paths are visited in; an
  unresolved version never rejects.\<close>

theorem payload_gates_exact:
  "(check_payload_gates rt get_path (Inr v) \<noteq> None \<longleftrightarrow>
      (\<exists>fp. path_is_set (get_path fp) \<and> check_field rt fp v \<noteq> None)) \<and>
   check_payload_gates rt get_path (Inl e) = None"
proof
  show "check_payload_gates rt get_path (Inl e) = None"
    by (simp add: check_payload_gates_def Let_def)
qed (rule check_payload_gates_iff)

text \<open>No field gate can fire on a cluster at or above the documented runtime floor: for
  every resource type and payload, version 1.31 and later pass the preflight.\<close>

theorem no_field_gate_in_runtime_window:
  assumes "31 \<le> minor" and "minor \<le> max_int64"
  shows "check_payload_gates rt get_path (Inr (itoa 1 @ ''.'' @ itoa minor)) = None"
proof -
  have ok: "int64 1" "int64 minor"
    using assms by (simp_all add: int64_def min_int64_def max_int64_def)
  have "check_field rt fp (version_string 1 minor) = None" for fp
  proof (cases "lookup_gate rt fp")
    case None
    then show ?thesis by (simp add: check_field_def)
  next
    case (Some g)
    have "introduced_in g = [] \<or> \<not> compare_k8s_versions (version_string 1 minor) (introduced_in g) < 0"
      using field_gate_floor [OF Some] ok assms(1) by (auto simp: compare_version)
    then show ?thesis
      using Some registry_gates [OF Some] by (auto simp: check_field_def)
  qed
  then show ?thesis
    using check_payload_gates_iff [of rt get_path "version_string 1 minor"] by (simp add: version_string_def)
qed

theorem no_field_gate_in_runtime_window_witness:
  "check_payload_gates ''K8S::Batch::Job'' (\<lambda>_. Scalar) (Inr (itoa 1 @ ''.'' @ itoa 36)) = None \<and>
   check_payload_gates ''K8S::Batch::Job'' (\<lambda>_. Scalar) (Inr ''1.27'') \<noteq> None"
proof -
  have "check_payload_gates ''K8S::Batch::Job'' (\<lambda>_. Scalar) (Inr (itoa 1 @ ''.'' @ itoa 36)) = None"
    by (rule no_field_gate_in_runtime_window) (simp_all add: max_int64_def)
  moreover have "check_payload_gates ''K8S::Batch::Job'' (\<lambda>_. Scalar) (Inr ''1.27'') \<noteq> None"
    by code_simp
  ultimately show ?thesis by blast
qed

end
