(* ===== verification/Errors.thy ===== *)
theory Errors
  imports Go_Strings
begin

text \<open>
  Classification of errors: \<open>ClassifyReadError\<close> (\<open>pkg/resources/prov/errors.go\<close>), which tells a
  cluster that cannot be reached from every other failure of a Read, and \<open>IsTransient\<close>
  (\<open>pkg/auth/transient.go\<close>), which decides what may be retried. \<open>errors.As\<close> is the first entry of
  the chain with the wanted concrete type.
\<close>

datatype error_code =
    NoCode | NotFound | ResourceConflict | NetworkFailure | ServiceTimeout | UnforeseenError
  | GeneralServiceException | NotStabilized | ServiceLimitExceeded

fun errors_as :: "(econcrete \<Rightarrow> 'a option) \<Rightarrow> econcrete list \<Rightarrow> 'a option" where
  "errors_as f [] = None"
| "errors_as f (c # cs) = (case f c of Some a \<Rightarrow> Some a | None \<Rightarrow> errors_as f cs)"

fun as_op_error :: "econcrete \<Rightarrow> bool option" where
  "as_op_error (NetOpError t) = Some t"
| "as_op_error _ = None"

fun as_dns_error :: "econcrete \<Rightarrow> bool option" where
  "as_dns_error (NetDNSError t temp) = Some temp"
| "as_dns_error _ = None"

text \<open>The interface \<open>net.Error\<close>: its \<open>Timeout()\<close>.\<close>

fun as_net_error :: "econcrete \<Rightarrow> bool option" where
  "as_net_error (NetOpError t) = Some t"
| "as_net_error (NetDNSError t temp) = Some t"
| "as_net_error (NetError t) = Some t"
| "as_net_error _ = None"

fun as_smithy :: "econcrete \<Rightarrow> string option" where
  "as_smithy (SmithyAPIError code) = Some code"
| "as_smithy _ = None"

fun as_http_status :: "econcrete \<Rightarrow> int option" where
  "as_http_status (HTTPStatusError n) = Some n"
| "as_http_status _ = None"

fun as_azure :: "econcrete \<Rightarrow> int option" where
  "as_azure (AzureResponseError n) = Some n"
| "as_azure _ = None"

fun as_identity :: "econcrete \<Rightarrow> int option option" where
  "as_identity (AzureAuthFailed st) = Some st"
| "as_identity _ = None"

fun as_oauth :: "econcrete \<Rightarrow> int option option" where
  "as_oauth (OAuthRetrieve st) = Some st"
| "as_oauth _ = None"

definition auth_token_error_marker :: string where
  "auth_token_error_marker = ''auth: failed to obtain token''"

text \<open>\<open>None\<close> stands for \<open>ok = false\<close>.\<close>

definition classify_read_error :: "gerr option \<Rightarrow> error_code option" where
  "classify_read_error err =
     (case err of
        None \<Rightarrow> None
      | Some e \<Rightarrow>
          if contains (err_msg e) auth_token_error_marker then None
          else if errors_is e CtxDeadlineExceeded \<or> errors_is e OsDeadlineExceeded then Some ServiceTimeout
          else (case errors_as as_op_error (err_as e) of
                  Some timeout \<Rightarrow> Some (if timeout then ServiceTimeout else NetworkFailure)
                | None \<Rightarrow>
                    if errors_as as_dns_error (err_as e) \<noteq> None then Some NetworkFailure
                    else if errors_is e ECONNREFUSED then Some NetworkFailure
                    else None))"

definition transient_status :: "int \<Rightarrow> bool" where
  "transient_status status \<longleftrightarrow> status = 408 \<or> status = 429 \<or> status \<ge> 500 \<and> status \<le> 599"

definition transient_sentinels :: "sentinel list" where
  "transient_sentinels = [CtxCanceled, CtxDeadlineExceeded, ErrBrokerUnavailable, ErrMintFailed,
     GenErrTimeout, GenErrNoConnection, IoEOF, IoUnexpectedEOF, ECONNRESET, ECONNREFUSED, EPIPE]"

definition is_transient :: "gerr option \<Rightarrow> bool" where
  "is_transient err =
     (case err of
        None \<Rightarrow> False
      | Some e \<Rightarrow>
          if errors_is e ErrTransient then True
          else if list_ex (errors_is e) transient_sentinels then True
          else if is_api ApiTimeout e \<or> is_api ApiServerTimeout e \<or> is_api ApiTooManyRequests e \<or>
             is_api ApiServiceUnavailable e \<or> is_api ApiInternalError e then True
          else if errors_as as_net_error (err_as e) = Some True then True
          else if errors_as as_dns_error (err_as e) = Some True then True
          else if (case errors_as as_smithy (err_as e) of
                 Some code \<Rightarrow> code \<in> set [''Throttling'', ''ThrottlingException'', ''RequestLimitExceeded'',
                    ''TooManyRequestsException'']
               | None \<Rightarrow> False) then True
          else (case errors_as as_http_status (err_as e) of
                  Some status \<Rightarrow> transient_status status
                | None \<Rightarrow>
          (case errors_as as_azure (err_as e) of
                  Some status \<Rightarrow> transient_status status
                | None \<Rightarrow>
          (case errors_as as_identity (err_as e) of
                  Some (Some status) \<Rightarrow> transient_status status
                | _ \<Rightarrow>
          (case errors_as as_oauth (err_as e) of
                  Some (Some status) \<Rightarrow> transient_status status
                | _ \<Rightarrow> False)))))"

lemma contains_append: "contains s sub \<Longrightarrow> contains (p @ s) sub"
  by (induction p) auto

lemma contains_prefix: "contains (sub @ s) sub"
proof -
  have "has_prefix t sub \<Longrightarrow> contains t sub" for t
    by (cases t) (auto simp: has_prefix_def)
  then show ?thesis by simp
qed

lemma is_transient_wrap: "is_transient (Some (wrap_error m e)) = is_transient (Some e)"
proof -
  have [simp]: "err_as (wrap_error m e) = err_as e"
    by (simp add: wrap_error_def)
  show ?thesis
    by (simp add: is_transient_def list_ex_iff cong: option.case_cong)
qed

end
