(* ===== verification/Lifecycle.thy ===== *)
theory Lifecycle
  imports Errors Metadata
begin

text \<open>
  The resource interface of the formae host (\<open>pkg/resources/prov/provisioner.go\<close>) and the
  decorator every provisioner runs behind (\<open>lifecycle.go\<close>). An operation runs in a state \<open>'s\<close>
  (the cluster it talks to); it returns a Go pair of a result pointer and an error, or panics.
  The four results that only hold a \<open>*ProgressResult\<close> are a \<open>progress option\<close>. A request pointer
  may be nil (\<open>None\<close>).
\<close>

datatype operation = OpUnset | OpCreate | OpRead | OpUpdate | OpDelete | OpList | OpCheckStatus

datatype op_status = StSuccess | StFailure | StInProgress

record progress =
  pr_operation :: operation
  pr_status :: op_status
  pr_code :: error_code
  pr_request_id :: string
  pr_native_id :: string
  pr_message :: string
  pr_properties :: raw

record read_result =
  rr_type :: string
  rr_properties :: raw
  rr_code :: error_code

record create_request = cr_type :: string  cr_properties :: raw
record read_request = rd_native_id :: string  rd_type :: string
record update_request = up_native_id :: string  up_type :: string  up_desired :: raw
record delete_request = de_native_id :: string  de_type :: string
record status_request = st_native_id :: string  st_request_id :: string  st_type :: string
record list_request = li_type :: string  li_additional :: "string \<rightharpoonup> string"

datatype 'a comp = Ret 'a | Panic string

type_synonym 'r ret = "'r option \<times> gerr option"
type_synonym ('s, 'q, 'r) op = "'q option \<Rightarrow> 's \<Rightarrow> 'r ret comp \<times> 's"

text \<open>An operation that follows pages may never return: \<open>None\<close>.\<close>

type_synonym ('s, 'q, 'r) partial_op = "'q option \<Rightarrow> 's \<Rightarrow> ('r ret comp \<times> 's) option"

record 's provisioner =
  p_create :: "('s, create_request, progress option) op"
  p_read :: "('s, read_request, read_result) op"
  p_update :: "('s, update_request, progress option) op"
  p_delete :: "('s, delete_request, progress option) op"
  p_status :: "('s, status_request, progress option) op"
  p_list :: "('s, list_request, string list) partial_op"

definition empty_progress :: "operation \<Rightarrow> op_status \<Rightarrow> progress" where
  "empty_progress oper st = \<lparr>pr_operation = oper, pr_status = st, pr_code = NoCode, pr_request_id = [],
     pr_native_id = [], pr_message = [], pr_properties = None\<rparr>"

definition nil_dereference :: string where
  "nil_dereference = ''runtime error: invalid memory address or nil pointer dereference''"

text \<open>What the formae SDK and the Go runtime supply: the text of \<open>debug.Stack()\<close>, the text of an
  operation constant, and \<open>ProgressResult.FinishedSuccessfully\<close>.\<close>

record sdk =
  sdk_stack :: string
  sdk_op_name :: "operation \<Rightarrow> string"
  sdk_finished :: "progress \<Rightarrow> bool"

definition finished_is_success :: "sdk \<Rightarrow> bool" where
  "finished_is_success env \<longleftrightarrow> (\<forall>pr. sdk_finished env pr \<longleftrightarrow> pr_status pr = StSuccess)"

definition recover_panic :: "sdk \<Rightarrow> string \<Rightarrow> operation \<Rightarrow> gerr" where
  "recover_panic env r oper =
     new_error (''panic in '' @ sdk_op_name env oper @ '': '' @ r @ [CHR 0x0A] @ sdk_stack env)"

subsection \<open>Termination state of an object\<close>

text \<open>\<open>isTerminating\<close> decodes into \<open>{metadata {deletionTimestamp *string}}\<close>: any other type at
  these fields makes the decoding fail, a null leaves the pointer nil.\<close>

definition is_terminating :: "raw \<Rightarrow> bool" where
  "is_terminating properties =
     (case raw_object properties of
        None \<Rightarrow> False
      | Some obj \<Rightarrow>
          (case as_object (map_of obj ''metadata'') of
             None \<Rightarrow> False
           | Some meta \<Rightarrow> is_string (map_of meta ''deletionTimestamp'')))"

definition strip_deletion_timestamp :: "raw \<Rightarrow> raw" where
  "strip_deletion_timestamp properties =
     (case raw_object properties of
        None \<Rightarrow> properties
      | Some obj \<Rightarrow>
          (case as_object (map_of obj ''metadata'') of
             None \<Rightarrow> properties
           | Some meta \<Rightarrow>
               if \<not> has_key meta ''deletionTimestamp'' then properties
               else Some (Inr (JObj (AList.update ''metadata'' (JObj (del_key ''deletionTimestamp'' meta)) obj)))))"

subsection \<open>The decorator\<close>

definition clear_status_message_unless_failure :: "progress option \<Rightarrow> progress option" where
  "clear_status_message_unless_failure p =
     (case p of
        None \<Rightarrow> None
      | Some pr \<Rightarrow> if pr_status pr \<noteq> StSuccess then Some pr else Some (pr\<lparr>pr_message := []\<rparr>))"

text \<open>The two deferred functions of Create, Update, Delete and Status, last registered first.\<close>

definition recovered :: "sdk \<Rightarrow> operation \<Rightarrow> progress option ret comp \<Rightarrow> progress option ret" where
  "recovered env oper c =
     (case c of
        Ret r \<Rightarrow> r
      | Panic v \<Rightarrow>
          (Some (Some ((empty_progress oper StFailure)\<lparr>pr_code := UnforeseenError,
             pr_message := err_msg (recover_panic env v oper)\<rparr>)), None))"

definition deferred :: "sdk \<Rightarrow> operation \<Rightarrow> progress option ret comp \<times> 's \<Rightarrow> progress option ret comp \<times> 's" where
  "deferred env oper cs =
     (case recovered env oper (fst cs) of
        (result, err) \<Rightarrow> (Ret (map_option clear_status_message_unless_failure result, err), snd cs))"

definition lifecycle_create :: "sdk \<Rightarrow> 's provisioner \<Rightarrow> ('s, create_request, progress option) op" where
  "lifecycle_create env inner req s = deferred env OpCreate (p_create inner req s)"

definition lifecycle_update :: "sdk \<Rightarrow> 's provisioner \<Rightarrow> ('s, update_request, progress option) op" where
  "lifecycle_update env inner req s = deferred env OpUpdate (p_update inner req s)"

definition request_type :: "read_request option \<Rightarrow> string" where
  "request_type req = (case req of None \<Rightarrow> [] | Some q \<Rightarrow> rd_type q)"

definition lifecycle_read :: "sdk \<Rightarrow> 's provisioner \<Rightarrow> ('s, read_request, read_result) op" where
  "lifecycle_read env inner req s =
     (case p_read inner req s of
        (Panic v, s') \<Rightarrow>
          (Ret (Some \<lparr>rr_type = request_type req, rr_properties = None, rr_code = UnforeseenError\<rparr>,
                Some (recover_panic env v OpRead)), s')
      | (Ret (result, Some err), s') \<Rightarrow>
          (case classify_read_error (Some err) of
             Some code \<Rightarrow> (Ret (Some \<lparr>rr_type = request_type req, rr_properties = None, rr_code = code\<rparr>, None), s')
           | None \<Rightarrow> (Ret (None, Some err), s'))
      | (Ret (None, None), s') \<Rightarrow> (Ret (None, None), s')
      | (Ret (Some r, None), s') \<Rightarrow>
          if rr_code r \<noteq> NoCode then (Ret (Some r, None), s')
          else if is_terminating (rr_properties r)
          then (Ret (Some \<lparr>rr_type = rr_type r, rr_properties = None, rr_code = NotFound\<rparr>, None), s')
          else (Ret (Some (r\<lparr>rr_properties := strip_deletion_timestamp (rr_properties r)\<rparr>), None), s'))"

definition delete_in_progress :: "delete_request \<Rightarrow> progress \<Rightarrow> progress" where
  "delete_in_progress q pr = (empty_progress OpDelete StInProgress)\<lparr>pr_native_id := de_native_id q,
     pr_request_id := pr_request_id pr\<rparr>"

text \<open>The read that verifies a delete the inner provisioner reported as done.\<close>

definition verify_delete ::
  "'s provisioner \<Rightarrow> delete_request option \<Rightarrow> progress \<Rightarrow> 's \<Rightarrow> progress option ret comp \<times> 's" where
  "verify_delete inner req pr s =
     (case req of
        None \<Rightarrow> (Panic nil_dereference, s)
      | Some q \<Rightarrow>
          (case p_read inner (Some \<lparr>rd_native_id = de_native_id q, rd_type = de_type q\<rparr>) s of
             (Panic v, s') \<Rightarrow> (Panic v, s')
           | (Ret (readResult, Some readErr), s') \<Rightarrow>
               if errors_is readErr CtxCanceled \<or> errors_is readErr CtxDeadlineExceeded
               then (Ret (None, Some readErr), s')
               else (Ret (Some (Some (delete_in_progress q pr)), None), s')
           | (Ret (None, None), s') \<Rightarrow> (Ret (Some (Some pr), None), s')
           | (Ret (Some rr, None), s') \<Rightarrow>
               if rr_code rr = NotFound then (Ret (Some (Some pr), None), s')
               else if \<not> is_terminating (rr_properties rr) then (Ret (Some (Some pr), None), s')
               else (Ret (Some (Some (delete_in_progress q pr)), None), s')))"

definition delete_body ::
  "sdk \<Rightarrow> 's provisioner \<Rightarrow> ('s, delete_request, progress option) op" where
  "delete_body env inner req s =
     (case p_delete inner req s of
        (Panic v, s') \<Rightarrow> (Panic v, s')
      | (Ret (result, Some err), s') \<Rightarrow> (Ret (None, Some err), s')
      | (Ret (None, None), s') \<Rightarrow> (Ret (None, None), s')
      | (Ret (Some None, None), s') \<Rightarrow> (Ret (Some None, None), s')
      | (Ret (Some (Some pr), None), s') \<Rightarrow>
          if \<not> sdk_finished env pr then (Ret (Some (Some pr), None), s')
          else verify_delete inner req pr s')"

definition lifecycle_delete :: "sdk \<Rightarrow> 's provisioner \<Rightarrow> ('s, delete_request, progress option) op" where
  "lifecycle_delete env inner req s = deferred env OpDelete (delete_body env inner req s)"

definition status_body :: "'s provisioner \<Rightarrow> ('s, status_request, progress option) op" where
  "status_body inner req s =
     (case p_status inner req s of
        (Panic v, s') \<Rightarrow> (Panic v, s')
      | (Ret (result, Some err), s') \<Rightarrow> (Ret (None, Some err), s')
      | (Ret (None, None), s') \<Rightarrow> (Ret (None, None), s')
      | (Ret (Some None, None), s') \<Rightarrow> (Ret (Some None, None), s')
      | (Ret (Some (Some pr), None), s') \<Rightarrow>
          if pr_code pr \<noteq> NoCode then (Ret (Some (Some pr), None), s')
          else if is_terminating (pr_properties pr)
          then (Ret (Some (Some ((empty_progress OpCheckStatus StFailure)\<lparr>pr_code := NotFound,
                  pr_native_id := pr_native_id pr,
                  pr_request_id := (case req of None \<Rightarrow> [] | Some q \<Rightarrow> st_request_id q)\<rparr>)), None), s')
          else (Ret (Some (Some (pr\<lparr>pr_properties := strip_deletion_timestamp (pr_properties pr)\<rparr>)), None), s'))"

definition lifecycle_status :: "sdk \<Rightarrow> 's provisioner \<Rightarrow> ('s, status_request, progress option) op" where
  "lifecycle_status env inner req s = deferred env OpCheckStatus (status_body inner req s)"

definition lifecycle_list :: "sdk \<Rightarrow> 's provisioner \<Rightarrow> ('s, list_request, string list) partial_op" where
  "lifecycle_list env inner req s =
     (case p_list inner req s of
        None \<Rightarrow> None
      | Some (Panic v, s') \<Rightarrow> Some (Ret (None, Some (recover_panic env v OpList)), s')
      | Some (Ret r, s') \<Rightarrow> Some (Ret r, s'))"

definition lifecycle_wrap :: "sdk \<Rightarrow> 's provisioner \<Rightarrow> 's provisioner" where
  "lifecycle_wrap env inner = \<lparr>
     p_create = lifecycle_create env inner,
     p_read = lifecycle_read env inner,
     p_update = lifecycle_update env inner,
     p_delete = lifecycle_delete env inner,
     p_status = lifecycle_status env inner,
     p_list = lifecycle_list env inner\<rparr>"

subsection \<open>Lemmas\<close>

lemma deferred_Ret: "\<exists>r s'. deferred env oper cs = (Ret r, s')"
  by (simp add: deferred_def split: prod.split)

lemma lifecycle_read_Ret: "\<exists>r s'. lifecycle_read env inner req s = (Ret r, s')"
  by (auto simp: lifecycle_read_def split: prod.split comp.split option.split)

lemma lifecycle_list_Ret:
  "lifecycle_list env inner req s = None \<or> (\<exists>r s'. lifecycle_list env inner req s = Some (Ret r, s'))"
  by (auto simp: lifecycle_list_def split: option.split prod.split comp.split)

lemma deferred_Panic:
  "deferred env oper (Panic v, s') =
     (Ret (Some (Some ((empty_progress oper StFailure)\<lparr>pr_code := UnforeseenError,
        pr_message := err_msg (recover_panic env v oper)\<rparr>)), None), s')"
  by (simp add: deferred_def recovered_def clear_status_message_unless_failure_def empty_progress_def)

lemma clear_message_Some:
  "clear_status_message_unless_failure p = Some pr \<longleftrightarrow>
     (\<exists>pr0. p = Some pr0 \<and> pr = (if pr_status pr0 = StSuccess then pr0\<lparr>pr_message := []\<rparr> else pr0))"
  by (auto simp: clear_status_message_unless_failure_def split: option.splits)

lemma deferred_Ret_eq:
  "deferred env oper (Ret (r, e), s) = (Ret (map_option clear_status_message_unless_failure r, e), s)"
  by (simp add: deferred_def recovered_def)

lemma deferred_Success:
  assumes "deferred env oper cs = (Ret (Some (Some pr), err), s')" and "pr_status pr = StSuccess"
  shows "pr_message pr = [] \<and> (\<exists>pr0. cs = (Ret (Some (Some pr0), err), s') \<and> pr_status pr0 = StSuccess)"
proof -
  obtain c s0 where cs: "cs = (c, s0)" by (cases cs)
  show ?thesis
  proof (cases c)
    case (Panic v)
    then show ?thesis
      using assms by (auto simp: cs deferred_Panic empty_progress_def)
  next
    case (Ret re)
    obtain r e where re: "re = (r, e)" by (cases re)
    have "map_option clear_status_message_unless_failure r = Some (Some pr)" and [simp]: "e = err" "s0 = s'"
      using assms(1) by (simp_all add: cs Ret re deferred_Ret_eq)
    then obtain pr0 where "r = Some (Some pr0)"
      and pr: "pr = (if pr_status pr0 = StSuccess then pr0\<lparr>pr_message := []\<rparr> else pr0)"
      by (auto simp: clear_message_Some simp del: not_None_eq)
    then show ?thesis
      using assms(2) by (cases "pr_status pr0 = StSuccess") (simp_all add: cs Ret re)
  qed
qed

lemma is_terminating_iff:
  "is_terminating p \<longleftrightarrow> (\<exists>obj meta. raw_object p = Some obj \<and> as_object (map_of obj ''metadata'') = Some meta \<and>
     is_string (map_of meta ''deletionTimestamp''))"
  by (auto simp: is_terminating_def simp del: raw_object_Some as_object_Some split: option.split)

lemma strip_deletion_timestamp_gone:
  assumes "strip_deletion_timestamp p = Some (Inr (JObj obj))" and "map_of obj ''metadata'' = Some (JObj meta)"
  shows "map_of meta ''deletionTimestamp'' = None"
proof -
  obtain obj0 where p: "p = Some (Inr (JObj obj0))"
    using assms(1) by (cases "raw_object p") (auto simp: strip_deletion_timestamp_def)
  show ?thesis
  proof (cases "as_object (map_of obj0 ''metadata'')")
    case None
    then show ?thesis
      using assms p by (auto simp: strip_deletion_timestamp_def)
  next
    case (Some m)
    then show ?thesis
      using assms p by (cases "has_key m ''deletionTimestamp''")
        (auto simp: strip_deletion_timestamp_def has_key_def simp del: has_key_iff)
  qed
qed

text \<open>A provisioner with fixed answers, for the concrete instances of the properties.\<close>

definition fixed_provisioner :: "progress \<Rightarrow> string list option \<Rightarrow> read_result ret \<Rightarrow> 's provisioner" where
  "fixed_provisioner pr ids rr = \<lparr>
     p_create = \<lambda>_ s. (Ret (Some (Some pr), None), s), p_read = \<lambda>_ s. (Ret rr, s),
     p_update = \<lambda>_ s. (Ret (Some (Some pr), None), s), p_delete = \<lambda>_ s. (Ret (Some (Some pr), None), s),
     p_status = \<lambda>_ s. (Ret (Some (Some pr), None), s), p_list = \<lambda>_ s. Some (Ret (ids, None), s)\<rparr>"

definition sample_success :: progress where
  "sample_success = (empty_progress OpDelete StSuccess)\<lparr>pr_message := ''done''\<rparr>"

definition sample_sdk :: sdk where
  "sample_sdk = \<lparr>sdk_stack = [], sdk_op_name = \<lambda>_. ''op'', sdk_finished = \<lambda>pr. pr_status pr = StSuccess\<rparr>"

subsection \<open>Properties\<close>

text \<open>No panic of a provisioner reaches the host: every operation of the decorator that
  returns, returns a pair (only a List can fail to return, when the server's pages never end). A panic of Create or Update becomes a Failure with code UnforeseenError, no error, and the
  operation's name and panic value in its message.\<close>

theorem lifecycle_never_panics:
  "(\<exists>r s'. p_create (lifecycle_wrap env inner) rc s = (Ret r, s')) \<and>
   (\<exists>r s'. p_read (lifecycle_wrap env inner) rd s = (Ret r, s')) \<and>
   (\<exists>r s'. p_update (lifecycle_wrap env inner) ru s = (Ret r, s')) \<and>
   (\<exists>r s'. p_delete (lifecycle_wrap env inner) re s = (Ret r, s')) \<and>
   (\<exists>r s'. p_status (lifecycle_wrap env inner) rs s = (Ret r, s')) \<and>
   (p_list (lifecycle_wrap env inner) rl s = None \<or>
    (\<exists>r s'. p_list (lifecycle_wrap env inner) rl s = Some (Ret r, s')))"
  unfolding lifecycle_wrap_def provisioner.simps lifecycle_create_def lifecycle_update_def
    lifecycle_delete_def lifecycle_status_def
  by (intro conjI deferred_Ret lifecycle_read_Ret lifecycle_list_Ret)

text \<open>C8: a delete is reported as done only when the inner provisioner reported it done and a
  read afterwards, in the state the delete left, returned without an error and did not show the
  object terminating; a cancelled or expired verification read is returned as the error, so the
  host retries.\<close>

theorem delete_success_verified:
  assumes "finished_is_success env"
    and "p_delete (lifecycle_wrap env inner) (Some q) s = (Ret (Some (Some pr), None), s'')"
    and "pr_status pr = StSuccess"
  shows "\<exists>pr0 s' rr. p_delete inner (Some q) s = (Ret (Some (Some pr0), None), s') \<and> pr_status pr0 = StSuccess \<and>
     p_read inner (Some \<lparr>rd_native_id = de_native_id q, rd_type = de_type q\<rparr>) s' = (Ret (rr, None), s'') \<and>
     (rr = None \<or> rr_code (the rr) = NotFound \<or> \<not> is_terminating (rr_properties (the rr)))"
proof -
  obtain pr1 where body: "delete_body env inner (Some q) s = (Ret (Some (Some pr1), None), s'')"
    and ok: "pr_status pr1 = StSuccess"
    using deferred_Success [OF assms(2) [unfolded lifecycle_wrap_def provisioner.simps lifecycle_delete_def] assms(3)]
    by blast
  obtain pr0 s' where inner: "p_delete inner (Some q) s = (Ret (Some (Some pr0), None), s')"
    and ver: "(if \<not> sdk_finished env pr0 then (Ret (Some (Some pr0), None), s')
       else verify_delete inner (Some q) pr0 s') = (Ret (Some (Some pr1), None), s'')"
    using body by (auto simp: delete_body_def split: prod.splits comp.splits option.splits)
  have fin: "sdk_finished env pr0"
    using assms(1) ok ver by (auto simp: finished_is_success_def split: if_splits)
  then have "verify_delete inner (Some q) pr0 s' = (Ret (Some (Some pr1), None), s'')"
    using ver by simp
  then show ?thesis
    using inner fin assms(1) ok
    by (auto simp: verify_delete_def finished_is_success_def delete_in_progress_def empty_progress_def
        split: prod.splits comp.splits option.splits if_splits)
qed

theorem delete_success_verified_witness:
  "\<exists>pr. p_delete (lifecycle_wrap sample_sdk (fixed_provisioner sample_success None (None, None)))
       (Some \<lparr>de_native_id = ''ns/a'', de_type = ''K8S::Core::ConfigMap''\<rparr>) () = (Ret (Some (Some pr), None), ()) \<and>
     (\<exists>pr0 s' rr. p_delete (fixed_provisioner sample_success None (None, None))
       (Some \<lparr>de_native_id = ''ns/a'', de_type = ''K8S::Core::ConfigMap''\<rparr>) () = (Ret (Some (Some pr0), None), s') \<and>
       pr_status pr0 = StSuccess)"
proof -
  let ?p = "fixed_provisioner sample_success None (None, None) :: unit provisioner"
  let ?q = "\<lparr>de_native_id = ''ns/a'', de_type = ''K8S::Core::ConfigMap''\<rparr>"
  have fin: "finished_is_success sample_sdk"
    by (simp add: finished_is_success_def sample_sdk_def)
  obtain pr where pr: "p_delete (lifecycle_wrap sample_sdk ?p) (Some ?q) () = (Ret (Some (Some pr), None), ())"
      "pr_status pr = StSuccess"
    by (simp add: lifecycle_wrap_def fixed_provisioner_def lifecycle_delete_def delete_body_def verify_delete_def
        sample_sdk_def deferred_Ret_eq clear_status_message_unless_failure_def sample_success_def empty_progress_def)
  then show ?thesis
    using delete_success_verified [OF fin pr] by blast
qed

text \<open>Whatever the inner provisioner returns, a Read of the decorator that reports an object
  reports a live one: its properties are not terminating and carry no deletionTimestamp, so a
  terminating object always reads as NotFound.\<close>

theorem read_reports_live_objects:
  assumes "p_read (lifecycle_wrap env inner) rq s = (Ret (Some r, None), s')" and "rr_code r = NoCode"
  shows "\<not> is_terminating (rr_properties r) \<and>
     (\<forall>obj meta. rr_properties r = Some (Inr (JObj obj)) \<and> map_of obj ''metadata'' = Some (JObj meta) \<longrightarrow>
        map_of meta ''deletionTimestamp'' = None)"
proof -
  have "\<exists>p. rr_properties r = strip_deletion_timestamp p"
    using assms
    by (auto simp: lifecycle_wrap_def lifecycle_read_def classify_read_error_def
        split: prod.splits comp.splits option.splits if_splits)
  then have gone: "map_of meta ''deletionTimestamp'' = None"
    if "rr_properties r = Some (Inr (JObj obj))" "map_of obj ''metadata'' = Some (JObj meta)" for obj meta
    using that strip_deletion_timestamp_gone by metis
  have "\<not> is_terminating (rr_properties r)"
    using gone by (auto simp: is_terminating_iff)
  then show ?thesis
    using gone by blast
qed

theorem read_reports_live_objects_witness:
  "\<exists>r. p_read (lifecycle_wrap sample_sdk (fixed_provisioner sample_success None
       (Some \<lparr>rr_type = ''t'', rr_properties = Some (Inr (JObj [(''metadata'', JObj [(''deletionTimestamp'', JNull)])])),
          rr_code = NoCode\<rparr>, None))) None () = (Ret (Some r, None), ()) \<and> \<not> is_terminating (rr_properties r)"
proof -
  let ?rr = "\<lparr>rr_type = ''t'', rr_properties = Some (Inr (JObj [(''metadata'', JObj [(''deletionTimestamp'', JNull)])])),
          rr_code = NoCode\<rparr>"
  let ?w = "lifecycle_wrap sample_sdk (fixed_provisioner sample_success None (Some ?rr, None)) :: unit provisioner"
  obtain r where "p_read ?w None () = (Ret (Some r, None), ())" "rr_code r = NoCode"
    by (simp add: lifecycle_wrap_def fixed_provisioner_def lifecycle_read_def is_terminating_def)
  then show ?thesis
    using read_reports_live_objects [of sample_sdk _ None "()" r "()"] by metis
qed

text \<open>An error from obtaining a credential is never taken for an unreachable cluster: a Read
  whose inner error carries the token marker, however deep it is wrapped and whatever network
  error it wraps, returns that very error and no health signal.\<close>

theorem auth_errors_stay_raw:
  assumes "contains (err_msg e) ''auth: failed to obtain token''"
    and "p_read inner rq s = (Ret (res, Some (wrap_error context e)), s')"
  shows "p_read (lifecycle_wrap env inner) rq s = (Ret (None, Some (wrap_error context e)), s')"
proof -
  have "contains (err_msg (wrap_error context e)) auth_token_error_marker"
    using contains_append [OF assms(1), of "context @ '': ''"]
    by (simp add: wrap_error_def auth_token_error_marker_def)
  then have "classify_read_error (Some (wrap_error context e)) = None"
    by (simp add: classify_read_error_def)
  then show ?thesis
    using assms(2) by (cases res) (simp_all add: lifecycle_wrap_def lifecycle_read_def)
qed

theorem auth_errors_stay_raw_witness:
  "p_read (lifecycle_wrap sample_sdk (fixed_provisioner sample_success None
       (None, Some (wrap_error ''Get'' (GErr [CtxDeadlineExceeded] [NetError True] ApiNone ''auth: failed to obtain token''))))) None () =
   (Ret (None, Some (wrap_error ''Get'' (GErr [CtxDeadlineExceeded] [NetError True] ApiNone ''auth: failed to obtain token''))), ())"
  by (rule auth_errors_stay_raw [of _ _ _ _ None]) (simp_all add: fixed_provisioner_def has_prefix_def)

text \<open>Formae shows a status message as the reason of a failure or the progress of a running
  operation: a Create, Update, Delete or Status that ends in Success carries none.\<close>

theorem success_has_no_message:
  assumes "(Ret (Some (Some pr), err), s') \<in>
       {p_create (lifecycle_wrap env inner) rc s, p_update (lifecycle_wrap env inner) ru s,
        p_delete (lifecycle_wrap env inner) rd s, p_status (lifecycle_wrap env inner) rs s}"
    and "pr_status pr = StSuccess"
  shows "pr_message pr = []"
proof -
  have unfolded: "p_create (lifecycle_wrap env inner) rc s = deferred env OpCreate (p_create inner rc s)"
    "p_update (lifecycle_wrap env inner) ru s = deferred env OpUpdate (p_update inner ru s)"
    "p_delete (lifecycle_wrap env inner) rd s = deferred env OpDelete (delete_body env inner rd s)"
    "p_status (lifecycle_wrap env inner) rs s = deferred env OpCheckStatus (status_body inner rs s)"
    by (simp_all add: lifecycle_wrap_def lifecycle_create_def lifecycle_update_def lifecycle_delete_def lifecycle_status_def)
  have final: "(Ret (Some (Some pr), err), s') = deferred env oper cs \<Longrightarrow> pr_message pr = []" for oper cs
    by (drule sym, drule deferred_Success [OF _ assms(2)], erule conjunct1)
  from assms(1) show ?thesis
    unfolding unfolded insert_iff empty_iff by (elim disjE) (erule final | erule FalseE)+
qed

theorem success_has_no_message_witness:
  "\<exists>pr. p_create (lifecycle_wrap sample_sdk (fixed_provisioner sample_success None (None, None))) None () =
       (Ret (Some (Some pr), None), ()) \<and> pr_message pr = []"
proof -
  let ?w = "lifecycle_wrap sample_sdk (fixed_provisioner sample_success None (None, None))"
  obtain pr where "p_create ?w None () = (Ret (Some (Some pr), None), ())" "pr_status pr = StSuccess"
    by (simp add: lifecycle_wrap_def fixed_provisioner_def lifecycle_create_def deferred_Ret_eq
        clear_status_message_unless_failure_def sample_success_def empty_progress_def)
  moreover from this have "pr_message pr = []"
    by (intro success_has_no_message [of pr None "()" sample_sdk "fixed_provisioner sample_success None (None, None)"
          None "()" None None None]) (simp only: insert_iff simp_thms)
  ultimately show ?thesis by blast
qed

end
