(* ===== verification/Paging.thy ===== *)
theory Paging
  imports Go_Strings
begin

text \<open>
  Paged listing (\<open>pkg/resources/prov/pagination.go\<close>). A page request takes the continue token
  and runs in the state of the cluster; the loop follows tokens until one is empty, so whether it
  ends is up to the server: \<open>None\<close> is a listing that never returns. \<open>ListAll\<close> and \<open>EachPage\<close>
  are the loop with and without an accumulator.
\<close>

definition default_list_page_size :: nat where
  "default_list_page_size = 500"

type_synonym ('s, 'i) page_request = "nat \<Rightarrow> string \<Rightarrow> 's \<Rightarrow> ('i list \<times> string) res \<times> 's"

partial_function (option) list_all_loop ::
  "('s, 'i) page_request \<Rightarrow> 'i list \<Rightarrow> string \<Rightarrow> 's \<Rightarrow> ('i list \<times> gerr option \<times> 's) option" where
  "list_all_loop pages acc continueToken s =
     (case pages default_list_page_size continueToken s of
        (Inl err, s') \<Rightarrow> Some (acc, Some err, s')
      | (Inr (items, next), s') \<Rightarrow>
          if next = [] then Some (acc @ items, None, s')
          else list_all_loop pages (acc @ items) next s')"

definition list_all_pages :: "('s, 'i) page_request \<Rightarrow> 's \<Rightarrow> ('i list \<times> gerr option \<times> 's) option" where
  "list_all_pages pages s = list_all_loop pages [] [] s"

text \<open>The pager of \<open>EachPage\<close> accumulates in the variables it captures, part of the state here.\<close>

partial_function (option) each_page_loop ::
  "(nat \<Rightarrow> string \<Rightarrow> 'c \<Rightarrow> string res \<times> 'c) \<Rightarrow> string \<Rightarrow> 'c \<Rightarrow> (gerr option \<times> 'c) option" where
  "each_page_loop pager continueToken s =
     (case pager default_list_page_size continueToken s of
        (Inl err, s') \<Rightarrow> Some (Some err, s')
      | (Inr next, s') \<Rightarrow> if next = [] then Some (None, s') else each_page_loop pager next s')"

definition each_page ::
  "(nat \<Rightarrow> string \<Rightarrow> 'c \<Rightarrow> string res \<times> 'c) \<Rightarrow> 'c \<Rightarrow> (gerr option \<times> 'c) option" where
  "each_page pager s = each_page_loop pager [] s"

text \<open>The pager every provisioner's List passes: append the projected items, return the token.\<close>

definition collect_pager ::
  "('s, 'i) page_request \<Rightarrow> ('i \<Rightarrow> 'a list) \<Rightarrow> nat \<Rightarrow> string \<Rightarrow> 'a list \<times> 's \<Rightarrow> string res \<times> ('a list \<times> 's)" where
  "collect_pager pages f n token as_s =
     (case pages n token (snd as_s) of
        (Inl err, s') \<Rightarrow> (Inl err, (fst as_s, s'))
      | (Inr (items, next), s') \<Rightarrow> (Inr next, (fst as_s @ concat (map f items), s')))"

subsection \<open>Lemmas\<close>

text \<open>A server whose tokens lead somewhere: each token it hands out is nearer the end of the
  listing, by a rank it never shows.\<close>

definition tokens_advance :: "('s, 'i) page_request \<Rightarrow> (string \<Rightarrow> nat) \<Rightarrow> bool" where
  "tokens_advance pages rank \<longleftrightarrow>
     (\<forall>token s items next s'. pages default_list_page_size token s = (Inr (items, next), s') \<longrightarrow>
        next \<noteq> [] \<longrightarrow> rank next < rank token)"

text \<open>The pages a listing visits from a token on, by fuel: the reference the loop is compared to.\<close>

fun visited :: "nat \<Rightarrow> ('s, 'i) page_request \<Rightarrow> string \<Rightarrow> 's \<Rightarrow> ('i list list \<times> gerr option \<times> 's) option" where
  "visited 0 pages token s = None"
| "visited (Suc n) pages token s =
     (case pages default_list_page_size token s of
        (Inl err, s') \<Rightarrow> Some ([], Some err, s')
      | (Inr (items, next), s') \<Rightarrow>
          if next = [] then Some ([items], None, s')
          else map_option (\<lambda>(ps, e, t). (items # ps, e, t)) (visited n pages next s'))"

lemma visited_total:
  "tokens_advance pages rank \<Longrightarrow> rank token < n \<Longrightarrow> \<exists>r. visited n pages token s = Some r"
proof (induction n arbitrary: token s)
  case (Suc n)
  show ?case
  proof (cases "pages default_list_page_size token s")
    case (Pair res s')
    show ?thesis
    proof (cases res)
      case (Inr it)
      obtain items nxt where it: "it = (items, nxt)" by (cases it)
      show ?thesis
      proof (cases "nxt = []")
        case False
        then have "rank nxt < rank token"
          using Suc.prems(1) Pair Inr it unfolding tokens_advance_def by blast
        then obtain r where "visited n pages nxt s' = Some r"
          using Suc.IH [OF Suc.prems(1), of nxt s'] Suc.prems(2) by auto
        then show ?thesis
          using Pair Inr it False by (simp split: prod.split)
      qed (simp add: Pair Inr it)
    qed (simp add: Pair)
  qed
qed simp

lemma list_all_loop_visited:
  "visited n pages token s = Some (ps, e, s') \<Longrightarrow>
     list_all_loop pages acc token s = Some (acc @ concat ps, e, s')"
proof (induction n arbitrary: token s ps acc)
  case (Suc n)
  then show ?case
    by (subst list_all_loop.simps)
       (auto split: prod.splits sum.splits if_splits)
qed simp

lemma collect_pager_eq:
  "collect_pager pages f n token (acc, s) =
     (case pages n token s of
        (Inl err, s') \<Rightarrow> (Inl err, (acc, s'))
      | (Inr (items, next), s') \<Rightarrow> (Inr next, (acc @ concat (map f items), s')))"
  by (simp add: collect_pager_def split: prod.split sum.split)

lemma each_page_loop_visited:
  "visited n pages token s = Some (ps, e, s') \<Longrightarrow>
     each_page_loop (collect_pager pages f) token (acc, s) = Some (e, (acc @ concat (map f (concat ps)), s'))"
proof (induction n arbitrary: token s ps acc)
  case (Suc n)
  then show ?case
    by (subst each_page_loop.simps)
       (auto simp: collect_pager_eq split: prod.splits sum.splits if_splits)
qed simp

subsection \<open>Properties\<close>

text \<open>C33: against a server whose continue tokens advance, a listing returns, and \<open>ListAll\<close> and
  \<open>EachPage\<close> with a collecting pager see the same thing: the items of every page visited, in order
  and once each, and the error of the page that failed, if one did.\<close>

theorem listing_returns_every_page:
  assumes "tokens_advance pages rank"
  shows "\<exists>ps e s'. visited (Suc (rank [])) pages [] s = Some (ps, e, s') \<and>
     list_all_pages pages s = Some (concat ps, e, s') \<and>
     each_page (collect_pager pages f) ([], s) = Some (e, (concat (map f (concat ps)), s'))"
proof -
  obtain ps e s' where v: "visited (Suc (rank [])) pages [] s = Some (ps, e, s')"
    using visited_total [OF assms, of "[]" "Suc (rank [])" s] by auto
  then show ?thesis
    using list_all_loop_visited [OF v, of "[]"] each_page_loop_visited [OF v, of f "[]"]
    by (simp add: list_all_pages_def each_page_def)
qed

text \<open>A server of three items in two pages.\<close>

definition two_pages :: "(unit, nat) page_request" where
  "two_pages n token s = (if token = [] then (Inr ([1, 2], ''t''), s) else (Inr ([3], []), s))"

theorem listing_returns_every_page_witness:
  "list_all_pages two_pages () = Some ([1, 2, 3], None, ())"
proof -
  have "tokens_advance two_pages (\<lambda>t. if t = [] then 1 else 0)"
    by (auto simp: tokens_advance_def two_pages_def split: if_splits)
  from listing_returns_every_page [OF this, of "()" "\<lambda>x. [x]"] show ?thesis
    by (auto simp: two_pages_def)
qed

end
