(* ===== verification/Kind_Provisioner.thy ===== *)
theory Kind_Provisioner
  imports Live_State K8s_Version Lifecycle Paging
begin

text \<open>
  The operations every typed Kubernetes resource shares (the files under
  \<open>pkg/resources/{core,apps,batch,\<dots>}\<close> repeat them text for text). What differs from kind to kind
  is a \<open>kind\<close> record: names, scope, how a status is read, what is added to the properties. What
  client-go and the API server do is a \<open>client\<close> record over the state \<open>'s\<close> of the cluster. An
  object the server returns is its marshalled form together with the typed fields the code reads:
  its metadata, and per kind a view \<open>'v\<close> of its spec and status.
\<close>

record 'v kobj =
  ko_namespace :: string
  ko_name :: string
  ko_resource_version :: string
  ko_generation :: int
  ko_owner_references :: nat
  ko_managed_fields :: "managed_fields_entry list"
  ko_doc :: "json res"
  ko_view :: 'v

text \<open>A decoded apply configuration: its embedded metadata pointer (\<open>None\<close> when the document has no
  metadata) with the namespace pointer in it, and its marshalled form.\<close>

record apply_config =
  ac_meta :: "string option option"
  ac_doc :: "json res"

datatype propagation = Foreground | Background

record ('s, 'v) client =
  c_apply :: "string \<Rightarrow> apply_config option \<Rightarrow> 's \<Rightarrow> 'v kobj res \<times> 's"
  c_get :: "string \<Rightarrow> string \<Rightarrow> 's \<Rightarrow> 'v kobj res \<times> 's"
  c_patch :: "string \<Rightarrow> string \<Rightarrow> json \<Rightarrow> 's \<Rightarrow> gerr option \<times> 's"
  c_delete :: "string \<Rightarrow> string \<Rightarrow> propagation option \<Rightarrow> 's \<Rightarrow> gerr option \<times> 's"
  c_list :: "string \<Rightarrow> ('s, 'v kobj) page_request"
  c_decode :: "json option \<Rightarrow> apply_config option res"
  c_project :: "json \<Rightarrow> apply_config res"
  c_encode :: "apply_config \<Rightarrow> jobject res"
  c_get_path :: "raw \<Rightarrow> string \<Rightarrow> path_result"
  c_version :: "string res"

record 'v kind =
  k_type :: string
  k_kind :: string
  k_api_version :: string
  k_noun :: string
  k_plural :: string
  k_state_error :: string
  k_namespaced :: bool
  k_gate_create :: bool
  k_gate_update :: bool
  k_propagation :: "propagation option"
  k_skip_owned :: bool
  k_lost :: "'v kobj \<Rightarrow> bool"
  k_status :: "'v kobj \<Rightarrow> op_status"
  k_message :: "'v kobj \<Rightarrow> string"
  k_code :: "'v kobj \<Rightarrow> error_code"
  k_enrich :: "'v kobj \<Rightarrow> json \<Rightarrow> json res"

definition plain_kind :: "bool \<Rightarrow> string \<Rightarrow> string \<Rightarrow> string \<Rightarrow> string \<Rightarrow> string \<Rightarrow> 'v kind" where
  "plain_kind namespaced rtype knd apiVersion noun plural = \<lparr>
     k_type = rtype, k_kind = knd, k_api_version = apiVersion, k_noun = noun, k_plural = plural,
     k_state_error = ''failed to get '' @ noun @ '' live state'',
     k_namespaced = namespaced, k_gate_create = False, k_gate_update = False, k_propagation = None,
     k_skip_owned = False, k_lost = \<lambda>_. False, k_status = \<lambda>_. StSuccess, k_message = \<lambda>_. [],
     k_code = \<lambda>_. NoCode, k_enrich = \<lambda>_ p. Inr p\<rparr>"

subsection \<open>Shared steps\<close>

definition object_id :: "'v kind \<Rightarrow> 'v kobj \<Rightarrow> string" where
  "object_id k obj = (if k_namespaced k then native_id (ko_namespace obj) (ko_name obj) else ko_name obj)"

text \<open>The namespace is empty for a cluster-scoped kind.\<close>

definition parse_id :: "'v kind \<Rightarrow> string \<Rightarrow> (string \<times> string) res" where
  "parse_id k nid =
     (if k_namespaced k then parse_namespaced_native_id nid
      else bind_res (parse_cluster_native_id nid) (\<lambda>name. Inr ([], name)))"

definition bad_id :: "string \<Rightarrow> string \<Rightarrow> gerr \<Rightarrow> gerr" where
  "bad_id nid rtype e = wrap_error (''invalid native id '' @ [CHR 0x22] @ nid @ [CHR 0x22] @ '' for '' @ rtype) e"

definition properties_of :: "('s, 'v) client \<Rightarrow> 'v kind \<Rightarrow> 'v kobj \<Rightarrow> json res" where
  "properties_of c k obj =
     (case live_state (c_project c) (c_encode c) (ko_doc obj) (k_kind k) (k_api_version k) of
        Inl e \<Rightarrow> Inl (wrap_error (k_state_error k) e)
      | Inr p \<Rightarrow> k_enrich k obj p)"

definition kind_progress :: "'v kind \<Rightarrow> operation \<Rightarrow> string \<Rightarrow> 'v kobj \<Rightarrow> json \<Rightarrow> progress" where
  "kind_progress k oper requestID obj properties = \<lparr>
     pr_operation = oper, pr_status = k_status k obj, pr_code = k_code k obj, pr_request_id = requestID,
     pr_native_id = object_id k obj, pr_message = k_message k obj, pr_properties = Some (Inr properties)\<rparr>"

text \<open>The head of Create and Update up to the Apply: decode, preflight, namespace. The result is
  the configuration and the namespace, or what the operation returns instead.\<close>

definition prepare_apply ::
  "('s, 'v) client \<Rightarrow> 'v kind \<Rightarrow> bool \<Rightarrow> raw \<Rightarrow> (gerr + (apply_config option \<times> string)) comp" where
  "prepare_apply c k gated props =
     (case unmarshal_apply_config (c_decode c) props of
        Inl e \<Rightarrow> Ret (Inl (wrap_error (''failed to unmarshal '' @ k_noun k @ '' properties'') e))
      | Inr ac \<Rightarrow>
          (case (if gated then check_payload_gates (k_type k) (c_get_path c props) (c_version c) else None) of
             Some e \<Rightarrow> Ret (Inl e)
           | None \<Rightarrow>
               if \<not> k_namespaced k then Ret (Inr (ac, []))
               else (case ac of
                       None \<Rightarrow> Panic nil_dereference
                     | Some a \<Rightarrow>
                         (case ac_meta a of
                            None \<Rightarrow> Panic nil_dereference
                          | Some ns \<Rightarrow>
                              (case resolve_create_namespace ns (k_type k) of
                                 Inl e \<Rightarrow> Ret (Inl e)
                               | Inr namespace \<Rightarrow> Ret (Inr (ac, namespace)))))))"

definition config_doc :: "apply_config option \<Rightarrow> json res" where
  "config_doc ac = (case ac of None \<Rightarrow> Inr JNull | Some a \<Rightarrow> ac_doc a)"

subsection \<open>Operations\<close>

definition kind_create :: "('s, 'v) client \<Rightarrow> 'v kind \<Rightarrow> ('s, create_request, progress option) op" where
  "kind_create c k req s =
     (case req of
        None \<Rightarrow> (Panic nil_dereference, s)
      | Some q \<Rightarrow>
     (case prepare_apply c k (k_gate_create k) (cr_properties q) of
        Panic v \<Rightarrow> (Panic v, s)
      | Ret (Inl e) \<Rightarrow> (Ret (None, Some e), s)
      | Ret (Inr (ac, namespace)) \<Rightarrow>
     (case c_apply c namespace ac s of
        (Inl e, s') \<Rightarrow> (Ret (None, Some (wrap_error (''failed to apply '' @ k_noun k) e)), s')
      | (Inr obj, s') \<Rightarrow>
     (case properties_of c k obj of
        Inl e \<Rightarrow> (Ret (None, Some e), s')
      | Inr properties \<Rightarrow>
          (Ret (Some (Some (kind_progress k OpCreate (ko_resource_version obj) obj properties)), None), s')))))"

definition kind_read :: "('s, 'v) client \<Rightarrow> 'v kind \<Rightarrow> ('s, read_request, read_result) op" where
  "kind_read c k req s =
     (case req of
        None \<Rightarrow> (Panic nil_dereference, s)
      | Some q \<Rightarrow>
     (case parse_id k (rd_native_id q) of
        Inl e \<Rightarrow> (Ret (None, Some (bad_id (rd_native_id q) (rd_type q) e)), s)
      | Inr (ns, name) \<Rightarrow>
     (case c_get c ns name s of
        (Inl e, s') \<Rightarrow>
          if is_api ApiNotFound e
          then (Ret (Some \<lparr>rr_type = rd_type q, rr_properties = None, rr_code = NotFound\<rparr>, None), s')
          else (Ret (None, Some (wrap_error (''failed to get '' @ k_noun k) e)), s')
      | (Inr obj, s') \<Rightarrow>
          if k_lost k obj
          then (Ret (Some \<lparr>rr_type = rd_type q, rr_properties = None, rr_code = NotFound\<rparr>, None), s')
          else (case properties_of c k obj of
                  Inl e \<Rightarrow> (Ret (None, Some e), s')
                | Inr properties \<Rightarrow>
                    (Ret (Some \<lparr>rr_type = rd_type q, rr_properties = Some (Inr properties), rr_code = NoCode\<rparr>, None), s')))))"

definition kind_update :: "('s, 'v) client \<Rightarrow> 'v kind \<Rightarrow> ('s, update_request, progress option) op" where
  "kind_update c k req s =
     (case req of
        None \<Rightarrow> (Panic nil_dereference, s)
      | Some q \<Rightarrow>
     (case prepare_apply c k (k_gate_update k) (up_desired q) of
        Panic v \<Rightarrow> (Panic v, s)
      | Ret (Inl e) \<Rightarrow> (Ret (None, Some e), s)
      | Ret (Inr (ac, namespace)) \<Rightarrow>
     (case c_apply c namespace ac s of
        (Inl e, s1) \<Rightarrow> (Ret (None, Some (wrap_error (''failed to apply '' @ k_noun k) e)), s1)
      | (Inr obj, s1) \<Rightarrow>
     (case reconcile_metadata (ko_doc obj) (config_doc ac) (c_patch c namespace) s1 of
        (Some e, s2) \<Rightarrow> (Ret (None, Some (wrap_error (''failed to reconcile '' @ k_noun k @ '' metadata'') e)), s2)
      | (None, s2) \<Rightarrow>
     (case properties_of c k obj of
        Inl e \<Rightarrow> (Ret (None, Some e), s2)
      | Inr properties \<Rightarrow>
          (Ret (Some (Some (kind_progress k OpUpdate (ko_resource_version obj) obj properties)), None), s2))))))"

definition kind_delete :: "('s, 'v) client \<Rightarrow> 'v kind \<Rightarrow> ('s, delete_request, progress option) op" where
  "kind_delete c k req s =
     (case req of
        None \<Rightarrow> (Panic nil_dereference, s)
      | Some q \<Rightarrow>
     (case parse_id k (de_native_id q) of
        Inl e \<Rightarrow> (Ret (None, Some (bad_id (de_native_id q) (de_type q) e)), s)
      | Inr (ns, name) \<Rightarrow>
     (case c_delete c ns name (k_propagation k) s of
        (Some e, s') \<Rightarrow>
          if is_api ApiNotFound e then (Ret (Some (Some (empty_progress OpDelete StSuccess)), None), s')
          else (Ret (None, Some (wrap_error (''failed to delete '' @ k_noun k) e)), s')
      | (None, s') \<Rightarrow> (Ret (Some (Some (empty_progress OpDelete StSuccess)), None), s'))))"

definition kind_status :: "('s, 'v) client \<Rightarrow> 'v kind \<Rightarrow> ('s, status_request, progress option) op" where
  "kind_status c k req s =
     (case req of
        None \<Rightarrow> (Panic nil_dereference, s)
      | Some q \<Rightarrow>
     (case parse_id k (st_native_id q) of
        Inl e \<Rightarrow> (Ret (None, Some (bad_id (st_native_id q) (st_type q) e)), s)
      | Inr (ns, name) \<Rightarrow>
     (case c_get c ns name s of
        (Inl e, s') \<Rightarrow>
          if is_api ApiNotFound e
          then (Ret (Some (Some ((empty_progress OpCheckStatus StFailure)\<lparr>pr_code := NotFound\<rparr>)), None), s')
          else (Ret (None, Some (wrap_error (''failed to get '' @ k_noun k @ '' status'') e)), s')
      | (Inr obj, s') \<Rightarrow>
     (case properties_of c k obj of
        Inl e \<Rightarrow> (Ret (None, Some e), s')
      | Inr properties \<Rightarrow>
          (Ret (Some (Some (kind_progress k OpCheckStatus (st_request_id q) obj properties)), None), s')))))"

text \<open>The ids one item of a page contributes: a kind that lists only top-level objects skips those
  with an owner.\<close>

definition listed_ids :: "'v kind \<Rightarrow> 'v kobj \<Rightarrow> string list" where
  "listed_ids k obj = (if k_skip_owned k \<and> ko_owner_references obj > 0 then [] else [object_id k obj])"

text \<open>A listing that never returns is \<open>None\<close>.\<close>

definition kind_list ::
  "('s, 'v) client \<Rightarrow> 'v kind \<Rightarrow> list_request option \<Rightarrow> 's \<Rightarrow> (string list ret comp \<times> 's) option" where
  "kind_list c k req s =
     (case req of
        None \<Rightarrow> Some (Panic nil_dereference, s)
      | Some q \<Rightarrow>
     (case (if k_namespaced k then resolve_list_namespace (li_additional q) (k_type k) else Inr []) of
        Inl e \<Rightarrow> Some (Ret (None, Some e), s)
      | Inr namespace \<Rightarrow>
     (case each_page (collect_pager (c_list c namespace) (listed_ids k)) ([], s) of
        None \<Rightarrow> None
      | Some (Some e, (ids, s')) \<Rightarrow> Some (Ret (None, Some (wrap_error (''failed to list '' @ k_plural k) e)), s')
      | Some (None, (ids, s')) \<Rightarrow> Some (Ret (Some ids, None), s'))))"

definition kind_provisioner :: "'v kind \<Rightarrow> ('s, 'v) client \<Rightarrow> 's provisioner" where
  "kind_provisioner k c = \<lparr>
     p_create = kind_create c k, p_read = kind_read c k, p_update = kind_update c k,
     p_delete = kind_delete c k, p_status = kind_status c k, p_list = kind_list c k\<rparr>"

subsection \<open>Lemmas\<close>

lemma parse_object_id:
  assumes "ko_name obj \<noteq> []" "CHR ''/'' \<notin> set (ko_name obj)"
    and "k_namespaced k \<Longrightarrow> ko_namespace obj \<noteq> [] \<and> CHR ''/'' \<notin> set (ko_namespace obj)"
  shows "parse_id k (object_id k obj) = Inr (if k_namespaced k then ko_namespace obj else [], ko_name obj)"
  using assms by (auto simp: parse_id_def object_id_def parse_cluster_native_id_def)

lemma kind_create_Some:
  assumes "kind_create c k (Some q) s = (Ret (Some (Some pr), err), s')"
  shows "\<exists>ac ns obj properties. prepare_apply c k (k_gate_create k) (cr_properties q) = Ret (Inr (ac, ns)) \<and>
     c_apply c ns ac s = (Inr obj, s') \<and> properties_of c k obj = Inr properties \<and> err = None \<and>
     pr = kind_progress k OpCreate (ko_resource_version obj) obj properties"
  using assms by (auto simp: kind_create_def split: comp.splits sum.splits prod.splits)

lemma kind_create_not_applied:
  assumes "\<And>x. prepare_apply c k (k_gate_create k) (cr_properties q) \<noteq> Ret (Inr x)"
  shows "snd (kind_create c k (Some q) s) = s"
  using assms by (auto simp: kind_create_def split: comp.splits sum.splits prod.splits)

lemma kind_update_not_applied:
  assumes "\<And>x. prepare_apply c k (k_gate_update k) (up_desired q) \<noteq> Ret (Inr x)"
  shows "snd (kind_update c k (Some q) s) = s"
  using assms by (auto simp: kind_update_def split: comp.splits sum.splits prod.splits)

text \<open>A cluster that holds at most one object, for concrete instances of the properties.\<close>

definition one_object_client :: "(unit kobj option, unit) client" where
  "one_object_client = \<lparr>
     c_apply = \<lambda>ns ac s. let obj = \<lparr>ko_namespace = ns, ko_name = ''a'', ko_resource_version = ''7'', ko_generation = 1,
         ko_owner_references = 0, ko_managed_fields = [],
         ko_doc = (case ac of Some a \<Rightarrow> ac_doc a | None \<Rightarrow> Inr JNull), ko_view = ()\<rparr> in (Inr obj, Some obj),
     c_get = \<lambda>ns name s. (case s of Some obj \<Rightarrow> (Inr obj, s)
         | None \<Rightarrow> (Inl (GErr [] [] ApiNotFound ''not found''), s)),
     c_patch = \<lambda>ns name p s. (None, s),
     c_delete = \<lambda>ns name p s. (None, None),
     c_list = \<lambda>ns n token s. (Inr (case s of Some obj \<Rightarrow> [obj] | None \<Rightarrow> [], []), s),
     c_decode = \<lambda>j. (case j of
         Some (JObj m) \<Rightarrow> Inr (Some \<lparr>ac_meta = map_option (\<lambda>md. case map_of md ''namespace'' of Some (JStr n) \<Rightarrow> Some n | _ \<Rightarrow> None)
            (as_object (map_of m ''metadata'')), ac_doc = Inr (JObj m)\<rparr>)
       | _ \<Rightarrow> Inl (new_error ''bad'')),
     c_project = \<lambda>j. Inr \<lparr>ac_meta = None, ac_doc = Inr j\<rparr>,
     c_encode = \<lambda>a. to_generic_map (ac_doc a),
     c_get_path = \<lambda>_ _. Missing,
     c_version = Inr ''1.33''\<rparr>"

definition sample_payload :: raw where
  "sample_payload = Some (Inr (JObj [(''metadata'', JObj [(''namespace'', JStr ''n''), (''name'', JStr ''a'')])]))"

subsection \<open>Properties\<close>


definition sample_kind :: "unit kind" where
  "sample_kind = plain_kind True ''K8S::Core::ConfigMap'' ''ConfigMap'' ''v1'' ''configmap'' ''configmaps''"

definition stored_sample :: "unit kobj" where
  "stored_sample = \<lparr>ko_namespace = ''n'', ko_name = ''a'', ko_resource_version = ''7'', ko_generation = 1,
     ko_owner_references = 0, ko_managed_fields = [],
     ko_doc = Inr (JObj [(''metadata'', JObj [(''namespace'', JStr ''n''), (''name'', JStr ''a'')])]), ko_view = ()\<rparr>"


text \<open>Nothing is written for a request that cannot be applied: when the payload does not
  decode, a version gate rejects it, or a namespaced kind has no namespace, Create and Update leave
  the cluster as it was.\<close>

theorem rejected_payload_writes_nothing:
  assumes "\<And>x. prepare_apply c k (k_gate_create k) (cr_properties q) \<noteq> Ret (Inr x)"
    and "\<And>x. prepare_apply c k (k_gate_update k) (up_desired u) \<noteq> Ret (Inr x)"
  shows "snd (kind_create c k (Some q) s) = s \<and> snd (kind_update c k (Some u) s) = s"
  using kind_create_not_applied [OF assms(1)] kind_update_not_applied [OF assms(2)] by blast

theorem rejected_payload_writes_nothing_witness:
  "snd (kind_create one_object_client sample_kind (Some \<lparr>cr_type = [], cr_properties = Some (Inr (JObj []))\<rparr>) None) = None"
proof -
  have "prepare_apply one_object_client sample_kind False (Some (Inr (JObj []))) = Panic nil_dereference"
    by code_simp
  moreover have "\<not> k_gate_create sample_kind" "\<not> k_gate_update sample_kind"
    by (simp_all add: sample_kind_def plain_kind_def)
  ultimately show ?thesis
    using rejected_payload_writes_nothing [of one_object_client sample_kind "\<lparr>cr_type = [], cr_properties = Some (Inr (JObj []))\<rparr>"
        "\<lparr>up_native_id = [], up_type = [], up_desired = Some (Inr (JObj []))\<rparr>" None]
    by simp
qed

text \<open>List reports every listed object once: against a server whose continue tokens advance,
  it returns, and its ids are those of the objects on all visited pages, in order, without the
  objects a controller owns when the kind skips these.\<close>

theorem list_reports_every_object:
  assumes "tokens_advance (c_list c ns) rank"
    and "visited (Suc (rank [])) (c_list c ns) [] s = Some (ps, None, s')"
    and "if k_namespaced k then li_additional q ''namespace'' = Some ns \<and> ns \<noteq> [] else ns = []"
  shows "kind_list c k (Some q) s =
     Some (Ret (Some (map (object_id k)
       (filter (\<lambda>obj. \<not> (k_skip_owned k \<and> ko_owner_references obj > 0)) (concat ps))), None), s')"
proof -
  have "concat (map (listed_ids k) objs) =
      map (object_id k) (filter (\<lambda>obj. \<not> (k_skip_owned k \<and> ko_owner_references obj > 0)) objs)" for objs
    by (induction objs) (auto simp: listed_ids_def)
  moreover have "each_page (collect_pager (c_list c ns) (listed_ids k)) ([], s) =
      Some (None, (concat (map (listed_ids k) (concat ps)), s'))"
    using each_page_loop_visited [OF assms(2), of "listed_ids k" "[]"] by (simp add: each_page_def)
  ultimately show ?thesis
    using assms(3) by (auto simp: kind_list_def resolve_list_namespace_def split: if_splits)
qed

theorem list_reports_every_object_witness:
  "kind_list one_object_client sample_kind (Some \<lparr>li_type = [], li_additional = [''namespace'' \<mapsto> ''n'']\<rparr>) (Some stored_sample) =
     Some (Ret (Some [''n/a''], None), Some stored_sample)"
proof -
  have adv: "tokens_advance (c_list one_object_client ''n'') (\<lambda>_. 0)"
    by (auto simp: tokens_advance_def one_object_client_def)
  have "visited (Suc 0) (c_list one_object_client ''n'') [] (Some stored_sample) = Some ([[stored_sample]], None, Some stored_sample)"
    by (simp add: one_object_client_def)
  from list_reports_every_object [OF adv, unfolded, OF this] show ?thesis
    by (simp add: sample_kind_def plain_kind_def stored_sample_def object_id_def native_id_def)
qed

end
