(* ===== verification/Workloads.thy ===== *)
theory Workloads
  imports Kind_Provisioner "HOL-Library.Word"
begin

text \<open>
  How a kind reads its rollout (\<open>operationStatus\<close>, \<open>fromPhase\<close>, \<open>fromConditions\<close>,
  \<open>statusMessage\<close> and the post-processing of properties in \<open>pkg/resources/{apps,batch,core,\<dots>}\<close>),
  on views of the typed spec and status. Replica counts are Go's \<open>int32\<close>; phases, condition
  types and strategy types are the strings of the Kubernetes API.
\<close>

type_synonym int32 = "32 word"

definition show32 :: "int32 \<Rightarrow> string" where
  "show32 w = itoa (sint w)"

record condition =
  cond_type :: string
  cond_status :: string
  cond_reason :: string

text \<open>\<open>ObservedGenerationReady\<close> (\<open>prov/status.go\<close>).\<close>

definition observed_generation_ready :: "'v kobj \<Rightarrow> int \<Rightarrow> bool" where
  "observed_generation_ready obj observedGeneration \<longleftrightarrow> observedGeneration \<ge> ko_generation obj"

subsection \<open>Deployment\<close>

record deployment_view =
  dv_conditions :: "condition list"
  dv_observed_generation :: int
  dv_paused :: bool
  dv_spec_replicas :: "int32 option"
  dv_replicas :: int32
  dv_updated :: int32
  dv_ready :: int32
  dv_available :: int32

definition deployment_failed :: "condition \<Rightarrow> bool" where
  "deployment_failed cond \<longleftrightarrow>
     cond_type cond = ''ReplicaFailure'' \<and> cond_status cond = ''True'' \<or>
     cond_type cond = ''Progressing'' \<and> cond_status cond = ''False'' \<and> cond_reason cond = ''ProgressDeadlineExceeded''"

definition deployment_status :: "deployment_view kobj \<Rightarrow> op_status" where
  "deployment_status deploy =
     (let v = ko_view deploy in
      if list_ex deployment_failed (dv_conditions v) then StFailure
      else if \<not> observed_generation_ready deploy (dv_observed_generation v) then StInProgress
      else if dv_paused v then StSuccess
      else let desired = (case dv_spec_replicas v of None \<Rightarrow> 1 | Some r \<Rightarrow> r) in
        if dv_updated v <s desired \<or> dv_ready v <s desired \<or> dv_available v <s desired then StInProgress
        else StSuccess)"

definition deployment_message :: "deployment_view kobj \<Rightarrow> string" where
  "deployment_message deploy =
     (let v = ko_view deploy in
      ''replicas: '' @ show32 (dv_ready v) @ ''/'' @ show32 (dv_replicas v) @ '' ready, '' @
      show32 (dv_available v) @ '' available, '' @ show32 (dv_updated v) @ '' updated'')"

subsection \<open>StatefulSet\<close>

record statefulset_view =
  sv_observed_generation :: int
  sv_spec_replicas :: "int32 option"
  sv_strategy :: string
  sv_partition :: "int32 option"
  sv_replicas :: int32
  sv_ready :: int32
  sv_updated :: int32

text \<open>\<open>sv_partition\<close> is \<open>None\<close> when \<open>UpdateStrategy.RollingUpdate\<close> or its \<open>Partition\<close> is nil.\<close>

definition target_updated :: "int32 \<Rightarrow> int32 option \<Rightarrow> int32" where
  "target_updated desired part =
     (case part of
        None \<Rightarrow> desired
      | Some p \<Rightarrow> let t = desired - p in if t <s 0 then 0 else t)"

definition statefulset_status :: "statefulset_view kobj \<Rightarrow> op_status" where
  "statefulset_status sts =
     (let v = ko_view sts in
      if \<not> observed_generation_ready sts (sv_observed_generation v) then StInProgress
      else let desired = (case sv_spec_replicas v of None \<Rightarrow> 1 | Some r \<Rightarrow> r) in
        if sv_strategy v = ''OnDelete'' then (if sv_ready v <s desired then StInProgress else StSuccess)
        else if sv_ready v <s desired \<or> sv_updated v <s target_updated desired (sv_partition v) then StInProgress
        else StSuccess)"

definition statefulset_message :: "statefulset_view kobj \<Rightarrow> string" where
  "statefulset_message sts =
     (let v = ko_view sts in
      ''replicas: '' @ show32 (sv_ready v) @ ''/'' @ show32 (sv_replicas v) @ '' ready, '' @
      show32 (sv_updated v) @ '' updated'')"

text \<open>\<open>stripVCTStatus\<close>: each element of volumeClaimTemplates must decode into an object (or null,
  which is re-encoded as null).\<close>

fun vct_element :: "json \<Rightarrow> json option" where
  "vct_element (JObj m) = Some (JObj (del_key ''status'' m))"
| "vct_element JNull = Some JNull"
| "vct_element _ = None"

fun vct_elements :: "json list \<Rightarrow> json list option" where
  "vct_elements [] = Some []"
| "vct_elements (v # vs) =
     (case vct_element v of
        None \<Rightarrow> None
      | Some v' \<Rightarrow> map_option (\<lambda>vs'. v' # vs') (vct_elements vs))"

fun vct_array :: "json \<Rightarrow> json option" where
  "vct_array (JArr vs) = map_option JArr (vct_elements vs)"
| "vct_array JNull = Some JNull"
| "vct_array _ = None"

definition strip_vct_status :: "json \<Rightarrow> json" where
  "strip_vct_status data =
     (case to_generic_map (Inr data) of
        Inl _ \<Rightarrow> data
      | Inr obj \<Rightarrow>
     (case map_of obj ''spec'' of
        None \<Rightarrow> data
      | Some specRaw \<Rightarrow>
     (case to_generic_map (Inr specRaw) of
        Inl _ \<Rightarrow> data
      | Inr spec \<Rightarrow>
     (case map_of spec ''volumeClaimTemplates'' of
        None \<Rightarrow> data
      | Some vctRaw \<Rightarrow>
     (case vct_array vctRaw of
        None \<Rightarrow> data
      | Some vcts \<Rightarrow>
          JObj (AList.update ''spec'' (JObj (AList.update ''volumeClaimTemplates'' vcts spec)) obj))))))"

definition strip_replicas_of :: "'v kobj \<Rightarrow> json \<Rightarrow> json res" where
  "strip_replicas_of obj properties = strip_unowned_replicas (Inr properties) (ko_managed_fields obj)"

definition statefulset_enrich :: "statefulset_view kobj \<Rightarrow> json \<Rightarrow> json res" where
  "statefulset_enrich obj properties = strip_replicas_of obj (strip_vct_status properties)"

subsection \<open>DaemonSet\<close>

record daemonset_view =
  av_observed_generation :: int
  av_strategy :: string
  av_desired :: int32
  av_ready :: int32
  av_updated :: int32
  av_available :: int32

definition daemonset_status :: "daemonset_view kobj \<Rightarrow> op_status" where
  "daemonset_status ds =
     (let v = ko_view ds in
      if \<not> observed_generation_ready ds (av_observed_generation v) then StInProgress
      else if av_strategy v = ''OnDelete'' then
        (if av_ready v <s av_desired v then StInProgress else StSuccess)
      else if av_updated v <s av_desired v \<or> av_ready v <s av_desired v then StInProgress
      else StSuccess)"

definition daemonset_message :: "daemonset_view kobj \<Rightarrow> string" where
  "daemonset_message ds =
     (let v = ko_view ds in
      ''desired: '' @ show32 (av_desired v) @ '', ready: '' @ show32 (av_ready v) @
      '', updated: '' @ show32 (av_updated v) @ '', available: '' @ show32 (av_available v))"

subsection \<open>ReplicaSet and Job\<close>

record replicaset_view =
  rv_conditions :: "condition list"
  rv_replicas :: int32
  rv_ready :: int32
  rv_available :: int32

fun replicaset_conditions :: "condition list \<Rightarrow> op_status" where
  "replicaset_conditions [] = StSuccess"
| "replicaset_conditions (cond # conds) =
     (if cond_type cond = ''ReplicaFailure'' \<and> cond_status cond = ''True'' then StFailure
      else replicaset_conditions conds)"

definition replicaset_message :: "replicaset_view kobj \<Rightarrow> string" where
  "replicaset_message rs =
     (let v = ko_view rs in
      ''replicas: '' @ show32 (rv_ready v) @ ''/'' @ show32 (rv_replicas v) @ '' ready, '' @
      show32 (rv_available v) @ '' available'')"

record job_view =
  jv_conditions :: "condition list"
  jv_active :: int32
  jv_succeeded :: int32
  jv_failed :: int32

fun job_conditions :: "condition list \<Rightarrow> op_status" where
  "job_conditions [] = StInProgress"
| "job_conditions (cond # conds) =
     (if cond_type cond = ''Failed'' \<and> cond_status cond = ''True'' then StFailure
      else if cond_type cond = ''Complete'' \<and> cond_status cond = ''True'' then StSuccess
      else if cond_type cond = ''Suspended'' \<and> cond_status cond = ''True'' then StSuccess
      else job_conditions conds)"

definition job_message :: "job_view kobj \<Rightarrow> string" where
  "job_message job =
     (let v = ko_view job in
      ''active: '' @ show32 (jv_active v) @ '', succeeded: '' @ show32 (jv_succeeded v) @
      '', failed: '' @ show32 (jv_failed v))"

subsection \<open>Pod\<close>

text \<open>A container status: its name and the reason of its waiting state, if it is waiting.\<close>

record pod_view =
  pv_phase :: string
  pv_reason :: string
  pv_containers :: "(string \<times> string option) list"
  pv_init_containers :: "(string \<times> string option) list"

definition pod_phase :: "string \<Rightarrow> op_status" where
  "pod_phase phase =
     (if phase = ''Running'' \<or> phase = ''Succeeded'' then StSuccess
      else if phase = ''Pending'' then StInProgress
      else if phase = ''Failed'' then StFailure
      else if phase = ''Unknown'' then StInProgress
      else StSuccess)"

definition pod_warnings :: "string \<Rightarrow> (string \<times> string option) list \<Rightarrow> string list" where
  "pod_warnings what css =
     concat (map (\<lambda>(name, waiting).
       (case waiting of
          Some reason \<Rightarrow>
            if reason \<in> set [''CrashLoopBackOff'', ''ImagePullBackOff'', ''ErrImagePull'',
                 ''CreateContainerConfigError'', ''InvalidImageName'']
            then [what @ '' '' @ name @ '': '' @ reason] else []
        | None \<Rightarrow> [])) css)"

definition pod_message :: "pod_view kobj \<Rightarrow> string" where
  "pod_message pod =
     (let v = ko_view pod;
          warnings = pod_warnings ''container'' (pv_containers v) @
                     pod_warnings ''init container'' (pv_init_containers v)
      in ''phase: '' @ pv_phase v @ concat (map (\<lambda>w. '' (WARNING: '' @ w @ '')'') warnings))"

definition pod_code :: "string \<Rightarrow> error_code" where
  "pod_code reason =
     (if reason = ''Evicted'' then ResourceConflict
      else if reason = ''OutOfMemory'' \<or> reason = ''OutOfCpu'' \<or> reason = ''OutOfDisk'' then ServiceLimitExceeded
      else NoCode)"

subsection \<open>Service, Ingress, volumes, autoscaler\<close>

text \<open>The address of a load balancer: IP and hostname.\<close>

record service_view =
  vv_type :: string
  vv_cluster_ip :: string
  vv_ingress :: "(string \<times> string) list"

definition service_status :: "service_view kobj \<Rightarrow> op_status" where
  "service_status svc =
     (if vv_type (ko_view svc) = ''LoadBalancer'' \<and> vv_ingress (ko_view svc) = [] then StInProgress
      else StSuccess)"

definition service_message :: "service_view kobj \<Rightarrow> string" where
  "service_message svc =
     (let v = ko_view svc; plain = ''type: '' @ vv_type v @ '', clusterIP: '' @ vv_cluster_ip v in
      if vv_type v = ''LoadBalancer'' then
        (case vv_ingress v of
           [] \<Rightarrow> ''waiting for load balancer to be provisioned''
         | (ip, hostname) # _ \<Rightarrow>
             if ip \<noteq> [] then ''load balancer IP: '' @ ip
             else if hostname \<noteq> [] then ''load balancer hostname: '' @ hostname
             else plain)
      else plain)"

definition ingress_message :: "(string \<times> string) list kobj \<Rightarrow> string" where
  "ingress_message ing =
     (case ko_view ing of
        (ip, hostname) # _ \<Rightarrow>
          if ip \<noteq> [] then ''load balancer IP: '' @ ip
          else if hostname \<noteq> [] then ''load balancer hostname: '' @ hostname
          else ''load balancer assigned''
      | [] \<Rightarrow> ''load balancer assigned'')"

definition pvc_phase :: "string \<Rightarrow> op_status" where
  "pvc_phase phase = (if phase = ''Lost'' then StFailure else StSuccess)"

definition pv_phase_status :: "string \<Rightarrow> op_status" where
  "pv_phase_status phase =
     (if phase = ''Failed'' then StFailure else if phase = ''Pending'' then StInProgress else StSuccess)"

definition phase_message :: "string \<Rightarrow> string" where
  "phase_message phase = ''phase: '' @ phase"

definition hpa_message :: "(int32 \<times> int32) kobj \<Rightarrow> string" where
  "hpa_message hpa =
     ''currentReplicas: '' @ show32 (fst (ko_view hpa)) @ '', desiredReplicas: '' @ show32 (snd (ko_view hpa))"

subsection \<open>Secret and ServiceAccount\<close>

text \<open>\<open>enrichDecodedData\<close>: \<open>data\<close> is the decoded payload of the typed Secret.\<close>

definition enrich_decoded_data :: "(string \<times> string) list \<Rightarrow> json \<Rightarrow> json res" where
  "enrich_decoded_data data properties =
     (if data = [] then Inr properties
      else (case to_generic_map (Inr properties) of
        Inl e \<Rightarrow> Inl (wrap_error ''failed to unmarshal secret properties for decode enrichment'' e)
      | Inr props \<Rightarrow>
          Inr (JObj (AList.update ''decodedData'' (JObj (map (\<lambda>(k, v). (k, JStr v)) data)) props))))"

definition strip_legacy_token_secrets :: "string \<Rightarrow> json \<Rightarrow> json" where
  "strip_legacy_token_secrets saName properties =
     (case to_generic_map (Inr properties) of
        Inl _ \<Rightarrow> properties
      | Inr doc \<Rightarrow>
          (case as_array (map_of doc ''secrets'') of
             None \<Rightarrow> properties
           | Some raw \<Rightarrow>
               if raw = [] then properties
               else JObj (strip_array ''secrets'' (drop_prefixed ''name'' (saName @ ''-token-'')) doc)))"

subsection \<open>Properties\<close>

text \<open>The rollout of a StatefulSet on unbounded numbers: which pods must be ready, and how many
  updated, before it counts as done.\<close>

definition statefulset_done :: "int \<Rightarrow> int option \<Rightarrow> string \<Rightarrow> int \<Rightarrow> int \<Rightarrow> bool" where
  "statefulset_done desired part strategy ready updated \<longleftrightarrow>
     desired \<le> ready \<and>
     (strategy = ''OnDelete'' \<or> max 0 (desired - (case part of None \<Rightarrow> 0 | Some p \<Rightarrow> p)) \<le> updated)"

lemma sint_diff_nonneg:
  fixes a b :: int32
  assumes "0 \<le> sint a" "0 \<le> sint b"
  shows "sint (a - b) = sint a - sint b"
proof -
  have "sint a < 2 ^ 31" "sint b < 2 ^ 31"
    using sint_lt [of a] sint_lt [of b] by simp_all
  then show ?thesis
    using assms by (simp add: sint_word_ariths signed_take_bit_int_eq_self)
qed

lemma sint_target_updated:
  assumes "0 \<le> sint desired" and "\<forall>p. part = Some p \<longrightarrow> 0 \<le> sint p"
  shows "sint (target_updated desired part) = max 0 (sint desired - (case part of None \<Rightarrow> 0 | Some p \<Rightarrow> sint p))"
  using assms by (auto simp: target_updated_def Let_def word_sless_alt sint_diff_nonneg split: option.splits)

text \<open>C9: the \<open>int32\<close> arithmetic of a StatefulSet rollout is exact: once the controller has
  observed the spec, and for replica counts and a partition that are not negative, the status is
  Success exactly when the rollout is done on unbounded numbers, and InProgress otherwise.\<close>

theorem statefulset_status_exact:
  assumes "sv_observed_generation (ko_view sts) \<ge> ko_generation sts"
    and "0 \<le> sint (case sv_spec_replicas (ko_view sts) of None \<Rightarrow> 1 | Some r \<Rightarrow> r)"
    and "\<forall>p. sv_partition (ko_view sts) = Some p \<longrightarrow> 0 \<le> sint p"
    and "0 \<le> sint (sv_updated (ko_view sts))"
  shows "statefulset_status sts =
     (if statefulset_done (sint (case sv_spec_replicas (ko_view sts) of None \<Rightarrow> 1 | Some r \<Rightarrow> r))
           (map_option sint (sv_partition (ko_view sts))) (sv_strategy (ko_view sts))
           (sint (sv_ready (ko_view sts))) (sint (sv_updated (ko_view sts)))
      then StSuccess else StInProgress)"
proof -
  let ?d = "case sv_spec_replicas (ko_view sts) of None \<Rightarrow> 1 | Some r \<Rightarrow> r" and ?p = "sv_partition (ko_view sts)"
  have "(case map_option sint ?p of None \<Rightarrow> 0 | Some p \<Rightarrow> p) = (case ?p of None \<Rightarrow> 0 | Some p \<Rightarrow> sint p)"
    by (simp split: option.split)
  then show ?thesis
    using assms(1) sint_target_updated [OF assms(2,3)] assms(4)
    by (auto simp: statefulset_status_def statefulset_done_def observed_generation_ready_def Let_def word_sless_alt)
qed

theorem statefulset_status_exact_witness:
  "statefulset_status \<lparr>ko_namespace = ''n'', ko_name = ''s'', ko_resource_version = ''1'', ko_generation = 2,
     ko_owner_references = 0, ko_managed_fields = [], ko_doc = Inr JNull,
     ko_view = \<lparr>sv_observed_generation = 2, sv_spec_replicas = Some 3, sv_strategy = ''RollingUpdate'',
       sv_partition = Some 5, sv_replicas = 3, sv_ready = 3, sv_updated = 0\<rparr>\<rparr> = StSuccess"
  by (subst statefulset_status_exact) (simp_all add: statefulset_done_def)

text \<open>Status fields the controller wrote for an older spec never count as a finished
  rollout: while the observed generation is behind, Deployment, StatefulSet and DaemonSet do not
  report Success, whatever the counters say.\<close>

theorem stale_status_never_success:
  assumes "dv_observed_generation (ko_view d) < ko_generation d"
    and "sv_observed_generation (ko_view st) < ko_generation st"
    and "av_observed_generation (ko_view ds) < ko_generation ds"
  shows "deployment_status d \<noteq> StSuccess \<and> statefulset_status st = StInProgress \<and> daemonset_status ds = StInProgress"
  using assms by (auto simp: deployment_status_def statefulset_status_def daemonset_status_def
      observed_generation_ready_def Let_def)

text \<open>An object with a given generation and view, for concrete instances.\<close>

definition sample_object :: "int \<Rightarrow> 'v \<Rightarrow> 'v kobj" where
  "sample_object g v = \<lparr>ko_namespace = ''n'', ko_name = ''o'', ko_resource_version = ''1'', ko_generation = g,
     ko_owner_references = 0, ko_managed_fields = [], ko_doc = Inr (JObj []), ko_view = v\<rparr>"

theorem stale_status_never_success_witness:
  "daemonset_status (sample_object 2 \<lparr>av_observed_generation = 1, av_strategy = [], av_desired = 0, av_ready = 0,
     av_updated = 0, av_available = 0\<rparr>) = StInProgress"
  using stale_status_never_success
    [of "sample_object 2 \<lparr>dv_conditions = [], dv_observed_generation = 1, dv_paused = False, dv_spec_replicas = None,
       dv_replicas = 1, dv_updated = 1, dv_ready = 1, dv_available = 1\<rparr>"
     "sample_object 2 \<lparr>sv_observed_generation = 1, sv_spec_replicas = None, sv_strategy = [], sv_partition = None,
       sv_replicas = 1, sv_ready = 1, sv_updated = 1\<rparr>"
     "sample_object 2 \<lparr>av_observed_generation = 1, av_strategy = [], av_desired = 0, av_ready = 0,
     av_updated = 0, av_available = 0\<rparr>"]
  by (simp add: sample_object_def)

text \<open>The failure verdict of a Deployment is not gated on the observed generation: a condition
  left over from an older spec fails the operation that has just replaced this spec, although
  \<open>ObservedGenerationReady\<close> documents itself as the gate to pass before conditions are inspected.\<close>

theorem deployment_failure_ignores_generation:
  "deployment_status d = StFailure \<longleftrightarrow> deployment_status (d\<lparr>ko_generation := g\<rparr>) = StFailure"
  by (simp add: deployment_status_def Let_def)

end
