(* ===== verification/Kinds.thy ===== *)
theory Kinds
  imports Workloads
begin

text \<open>
  The typed provisioners, one definition per file under
  \<open>pkg/resources/{core,apps,batch,rbac,networking,\<dots>}\<close>: each is the shared operations at the
  kind's names, scope, status functions, delete propagation and post-processing. Namespace adds
  the escalation of a stuck termination and a re-read after Update.
\<close>

subsection \<open>Kinds without a status of their own\<close>

definition config_map :: "('s, 'v) client \<Rightarrow> 's provisioner" where
  "config_map = kind_provisioner (plain_kind True ''K8S::Core::ConfigMap'' ''ConfigMap'' ''v1''
     ''configmap'' ''configmaps'')"

definition endpoints :: "('s, 'v) client \<Rightarrow> 's provisioner" where
  "endpoints = kind_provisioner (plain_kind True ''K8S::Core::Endpoints'' ''Endpoints'' ''v1''
     ''endpoints'' ''endpoints'')"

definition limit_range :: "('s, 'v) client \<Rightarrow> 's provisioner" where
  "limit_range = kind_provisioner (plain_kind True ''K8S::Core::LimitRange'' ''LimitRange'' ''v1''
     ''limitrange'' ''limitranges'')"

definition resource_quota :: "('s, 'v) client \<Rightarrow> 's provisioner" where
  "resource_quota = kind_provisioner (plain_kind True ''K8S::Core::ResourceQuota'' ''ResourceQuota'' ''v1''
     ''resourcequota'' ''resourcequotas'')"

definition role :: "('s, 'v) client \<Rightarrow> 's provisioner" where
  "role = kind_provisioner (plain_kind True ''K8S::Rbac::Role'' ''Role'' ''rbac.authorization.k8s.io/v1''
     ''role'' ''roles'')"

definition role_binding :: "('s, 'v) client \<Rightarrow> 's provisioner" where
  "role_binding = kind_provisioner (plain_kind True ''K8S::Rbac::RoleBinding'' ''RoleBinding'' ''rbac.authorization.k8s.io/v1''
     ''rolebinding'' ''rolebindings'')"

definition cluster_role :: "('s, 'v) client \<Rightarrow> 's provisioner" where
  "cluster_role = kind_provisioner (plain_kind False ''K8S::Rbac::ClusterRole'' ''ClusterRole'' ''rbac.authorization.k8s.io/v1''
     ''clusterrole'' ''clusterroles'')"

definition cluster_role_binding :: "('s, 'v) client \<Rightarrow> 's provisioner" where
  "cluster_role_binding = kind_provisioner (plain_kind False ''K8S::Rbac::ClusterRoleBinding'' ''ClusterRoleBinding'' ''rbac.authorization.k8s.io/v1''
     ''clusterrolebinding'' ''clusterrolebindings'')"

definition lease :: "('s, 'v) client \<Rightarrow> 's provisioner" where
  "lease = kind_provisioner (plain_kind True ''K8S::Coordination::Lease'' ''Lease'' ''coordination.k8s.io/v1''
     ''lease'' ''leases'')"

definition network_policy :: "('s, 'v) client \<Rightarrow> 's provisioner" where
  "network_policy = kind_provisioner (plain_kind True ''K8S::Networking::NetworkPolicy'' ''NetworkPolicy'' ''networking.k8s.io/v1''
     ''networkpolicy'' ''networkpolicies'')"

definition ingress_class :: "('s, 'v) client \<Rightarrow> 's provisioner" where
  "ingress_class = kind_provisioner (plain_kind False ''K8S::Networking::IngressClass'' ''IngressClass'' ''networking.k8s.io/v1''
     ''ingressclass'' ''ingressclasses'')"

definition pod_disruption_budget :: "('s, 'v) client \<Rightarrow> 's provisioner" where
  "pod_disruption_budget = kind_provisioner (plain_kind True ''K8S::Policy::PodDisruptionBudget'' ''PodDisruptionBudget'' ''policy/v1''
     ''poddisruptionbudget'' ''poddisruptionbudgets'')"

definition storage_class :: "('s, 'v) client \<Rightarrow> 's provisioner" where
  "storage_class = kind_provisioner (plain_kind False ''K8S::Storage::StorageClass'' ''StorageClass'' ''storage.k8s.io/v1''
     ''storageclass'' ''storageclasses'')"

definition csi_driver :: "('s, 'v) client \<Rightarrow> 's provisioner" where
  "csi_driver = kind_provisioner (plain_kind False ''K8S::Storage::CSIDriver'' ''CSIDriver'' ''storage.k8s.io/v1''
     ''csidriver'' ''csidrivers'')"

definition priority_class :: "('s, 'v) client \<Rightarrow> 's provisioner" where
  "priority_class = kind_provisioner (plain_kind False ''K8S::Scheduling::PriorityClass'' ''PriorityClass'' ''scheduling.k8s.io/v1''
     ''priorityclass'' ''priorityclasses'')"

definition runtime_class :: "('s, 'v) client \<Rightarrow> 's provisioner" where
  "runtime_class = kind_provisioner (plain_kind False ''K8S::Node::RuntimeClass'' ''RuntimeClass'' ''node.k8s.io/v1''
     ''runtimeclass'' ''runtimeclasses'')"

definition flow_schema :: "('s, 'v) client \<Rightarrow> 's provisioner" where
  "flow_schema = kind_provisioner (plain_kind False ''K8S::Flowcontrol::FlowSchema'' ''FlowSchema'' ''flowcontrol.apiserver.k8s.io/v1''
     ''flowschema'' ''flowschemas'')"

definition priority_level_configuration :: "('s, 'v) client \<Rightarrow> 's provisioner" where
  "priority_level_configuration = kind_provisioner (plain_kind False ''K8S::Flowcontrol::PriorityLevelConfiguration'' ''PriorityLevelConfiguration'' ''flowcontrol.apiserver.k8s.io/v1''
     ''prioritylevelconfiguration'' ''prioritylevelconfigurations'')"

definition mutating_admission_policy :: "('s, 'v) client \<Rightarrow> 's provisioner" where
  "mutating_admission_policy = kind_provisioner (plain_kind False ''K8S::Admissionregistration::MutatingAdmissionPolicy'' ''MutatingAdmissionPolicy'' ''admissionregistration.k8s.io/v1''
     ''mutatingadmissionpolicy'' ''mutatingadmissionpolicies'')"

definition mutating_webhook_configuration :: "('s, 'v) client \<Rightarrow> 's provisioner" where
  "mutating_webhook_configuration = kind_provisioner (plain_kind False ''K8S::Admissionregistration::MutatingWebhookConfiguration'' ''MutatingWebhookConfiguration'' ''admissionregistration.k8s.io/v1''
     ''mutatingwebhookconfiguration'' ''mutatingwebhookconfigurations'')"

definition validating_webhook_configuration :: "('s, 'v) client \<Rightarrow> 's provisioner" where
  "validating_webhook_configuration = kind_provisioner (plain_kind False ''K8S::Admissionregistration::ValidatingWebhookConfiguration'' ''ValidatingWebhookConfiguration'' ''admissionregistration.k8s.io/v1''
     ''validatingwebhookconfiguration'' ''validatingwebhookconfigurations'')"

subsection \<open>Kinds with hooks\<close>

definition secret_kind :: "((string \<times> string) list) kind" where
  "secret_kind = (plain_kind True ''K8S::Core::Secret'' ''Secret'' ''v1'' ''secret'' ''secrets'')
     \<lparr>k_enrich := \<lambda>obj p. enrich_decoded_data (ko_view obj) p\<rparr>"

definition secret :: "('s, (string \<times> string) list) client \<Rightarrow> 's provisioner" where
  "secret = kind_provisioner secret_kind"

definition service_account_kind :: "'v kind" where
  "service_account_kind = (plain_kind True ''K8S::Core::ServiceAccount'' ''ServiceAccount'' ''v1'' ''serviceaccount'' ''serviceaccounts'')
     \<lparr>k_enrich := \<lambda>obj p. Inr (strip_legacy_token_secrets (ko_name obj) p)\<rparr>"

definition service_account :: "('s, 'v) client \<Rightarrow> 's provisioner" where
  "service_account = kind_provisioner service_account_kind"

definition service_kind :: "(service_view) kind" where
  "service_kind = (plain_kind True ''K8S::Core::Service'' ''Service'' ''v1'' ''service'' ''services'')
     \<lparr>k_status := service_status, k_message := service_message\<rparr>"

definition service :: "('s, service_view) client \<Rightarrow> 's provisioner" where
  "service = kind_provisioner service_kind"

definition persistent_volume_claim_kind :: "(string) kind" where
  "persistent_volume_claim_kind = (plain_kind True ''K8S::Core::PersistentVolumeClaim'' ''PersistentVolumeClaim'' ''v1'' ''persistentvolumeclaim'' ''persistentvolumeclaims'')
     \<lparr>k_lost := \<lambda>obj. ko_view obj = ''Lost'',
       k_status := \<lambda>obj. pvc_phase (ko_view obj), k_message := \<lambda>obj. phase_message (ko_view obj)\<rparr>"

definition persistent_volume_claim :: "('s, string) client \<Rightarrow> 's provisioner" where
  "persistent_volume_claim = kind_provisioner persistent_volume_claim_kind"

definition persistent_volume_kind :: "(string) kind" where
  "persistent_volume_kind = (plain_kind False ''K8S::Core::PersistentVolume'' ''PersistentVolume'' ''v1'' ''persistentvolume'' ''persistentvolumes'')
     \<lparr>k_status := \<lambda>obj. pv_phase_status (ko_view obj), k_message := \<lambda>obj. phase_message (ko_view obj)\<rparr>"

definition persistent_volume :: "('s, string) client \<Rightarrow> 's provisioner" where
  "persistent_volume = kind_provisioner persistent_volume_kind"

definition pod_kind :: "(pod_view) kind" where
  "pod_kind = (plain_kind True ''K8S::Core::Pod'' ''Pod'' ''v1'' ''pod'' ''pods'')
     \<lparr>k_gate_create := True, k_gate_update := True, k_skip_owned := True,
       k_status := \<lambda>obj. pod_phase (pv_phase (ko_view obj)), k_message := pod_message,
       k_code := \<lambda>obj. pod_code (pv_reason (ko_view obj))\<rparr>"

definition pod :: "('s, pod_view) client \<Rightarrow> 's provisioner" where
  "pod = kind_provisioner pod_kind"

definition ingress_kind :: "((string \<times> string) list) kind" where
  "ingress_kind = (plain_kind True ''K8S::Networking::Ingress'' ''Ingress'' ''networking.k8s.io/v1'' ''ingress'' ''ingresses'')
     \<lparr>k_message := ingress_message\<rparr>"

definition ingress :: "('s, (string \<times> string) list) client \<Rightarrow> 's provisioner" where
  "ingress = kind_provisioner ingress_kind"

definition horizontal_pod_autoscaler_kind :: "(int32 \<times> int32) kind" where
  "horizontal_pod_autoscaler_kind = (plain_kind True ''K8S::Autoscaling::HorizontalPodAutoscaler'' ''HorizontalPodAutoscaler'' ''autoscaling/v2'' ''horizontalpodautoscaler'' ''horizontalpodautoscalers'')
     \<lparr>k_message := hpa_message\<rparr>"

definition horizontal_pod_autoscaler :: "('s, int32 \<times> int32) client \<Rightarrow> 's provisioner" where
  "horizontal_pod_autoscaler = kind_provisioner horizontal_pod_autoscaler_kind"

definition job_kind :: "(job_view) kind" where
  "job_kind = (plain_kind True ''K8S::Batch::Job'' ''Job'' ''batch/v1'' ''job'' ''jobs'')
     \<lparr>k_gate_create := True, k_propagation := Some Background, k_skip_owned := True,
       k_status := \<lambda>obj. job_conditions (jv_conditions (ko_view obj)), k_message := job_message\<rparr>"

definition job :: "('s, job_view) client \<Rightarrow> 's provisioner" where
  "job = kind_provisioner job_kind"

definition cron_job_kind :: "'v kind" where
  "cron_job_kind = (plain_kind True ''K8S::Batch::CronJob'' ''CronJob'' ''batch/v1'' ''cronjob'' ''cronjobs'')
     \<lparr>k_propagation := Some Foreground\<rparr>"

definition cron_job :: "('s, 'v) client \<Rightarrow> 's provisioner" where
  "cron_job = kind_provisioner cron_job_kind"

definition daemon_set_kind :: "(daemonset_view) kind" where
  "daemon_set_kind = (plain_kind True ''K8S::Apps::DaemonSet'' ''DaemonSet'' ''apps/v1'' ''daemonset'' ''daemonsets'')
     \<lparr>k_propagation := Some Foreground, k_status := daemonset_status, k_message := daemonset_message\<rparr>"

definition daemon_set :: "('s, daemonset_view) client \<Rightarrow> 's provisioner" where
  "daemon_set = kind_provisioner daemon_set_kind"

definition deployment_kind :: "(deployment_view) kind" where
  "deployment_kind = (plain_kind True ''K8S::Apps::Deployment'' ''Deployment'' ''apps/v1'' ''deployment'' ''deployments'')
     \<lparr>k_propagation := Some Foreground, k_status := deployment_status, k_message := deployment_message,
       k_enrich := strip_replicas_of\<rparr>"

definition deployment :: "('s, deployment_view) client \<Rightarrow> 's provisioner" where
  "deployment = kind_provisioner deployment_kind"

definition replica_set_kind :: "(replicaset_view) kind" where
  "replica_set_kind = (plain_kind True ''K8S::Apps::ReplicaSet'' ''ReplicaSet'' ''apps/v1'' ''replicaset'' ''replicasets'')
     \<lparr>k_propagation := Some Foreground, k_skip_owned := True,
       k_status := \<lambda>obj. replicaset_conditions (rv_conditions (ko_view obj)), k_message := replicaset_message,
       k_enrich := strip_replicas_of\<rparr>"

definition replica_set :: "('s, replicaset_view) client \<Rightarrow> 's provisioner" where
  "replica_set = kind_provisioner replica_set_kind"

definition stateful_set_kind :: "(statefulset_view) kind" where
  "stateful_set_kind = (plain_kind True ''K8S::Apps::StatefulSet'' ''StatefulSet'' ''apps/v1'' ''statefulset'' ''statefulsets'')
     \<lparr>k_propagation := Some Foreground, k_status := statefulset_status, k_message := statefulset_message,
       k_enrich := statefulset_enrich\<rparr>"

definition stateful_set :: "('s, statefulset_view) client \<Rightarrow> 's provisioner" where
  "stateful_set = kind_provisioner stateful_set_kind"

subsection \<open>Namespace\<close>

text \<open>Times are nanoseconds; \<open>nv_deletion\<close> is the deletion timestamp.\<close>

record namespace_view =
  nv_phase :: string
  nv_conditions :: "condition list"
  nv_deletion :: "int option"
  nv_finalizers :: "string list"

text \<open>The client calls only Namespace makes: the finalize subresource, and the clock.\<close>

record 's namespace_client =
  n_client :: "('s, namespace_view) client"
  n_finalize :: "namespace_view kobj \<Rightarrow> 's \<Rightarrow> gerr option \<times> 's"
  n_now :: "'s \<Rightarrow> int"

definition terminating_grace_period :: int where
  "terminating_grace_period = 2 * 60 * 1000000000"

definition namespace_phase :: "string \<Rightarrow> op_status" where
  "namespace_phase phase =
     (if phase = ''Active'' then StSuccess else if phase = ''Terminating'' then StInProgress else StSuccess)"

definition namespace_kind :: "namespace_view kind" where
  "namespace_kind = (plain_kind False ''K8S::Core::Namespace'' ''Namespace'' ''v1'' ''namespace'' ''namespaces'')
     \<lparr>k_state_error := ''failed to extract namespace state'',
      k_status := \<lambda>obj. namespace_phase (nv_phase (ko_view obj))\<rparr>"

definition is_content_deletion_failed :: "namespace_view kobj \<Rightarrow> bool" where
  "is_content_deletion_failed ns =
     list_ex (\<lambda>c. cond_type c = ''NamespaceDeletionContentFailure'' \<and> cond_status c = ''True'') (nv_conditions (ko_view ns))"

definition terminating_long_enough :: "int \<Rightarrow> namespace_view kobj \<Rightarrow> bool" where
  "terminating_long_enough now ns =
     (case nv_deletion (ko_view ns) of
        None \<Rightarrow> False
      | Some t \<Rightarrow> now - t \<ge> terminating_grace_period)"

definition force_remove_finalizers ::
  "'s namespace_client \<Rightarrow> namespace_view kobj \<Rightarrow> 's \<Rightarrow> gerr option \<times> 's" where
  "force_remove_finalizers nc ns s =
     (if nv_finalizers (ko_view ns) = [] then (None, s)
      else n_finalize nc (ns\<lparr>ko_view := (ko_view ns)\<lparr>nv_finalizers := []\<rparr>\<rparr>) s)"

definition namespace_update :: "'s namespace_client \<Rightarrow> ('s, update_request, progress option) op" where
  "namespace_update nc req s =
     (let c = n_client nc; k = namespace_kind in
      case req of
        None \<Rightarrow> (Panic nil_dereference, s)
      | Some q \<Rightarrow>
     (case prepare_apply c k False (up_desired q) of
        Panic v \<Rightarrow> (Panic v, s)
      | Ret (Inl e) \<Rightarrow> (Ret (None, Some e), s)
      | Ret (Inr (ac, namespace)) \<Rightarrow>
     (case c_apply c namespace ac s of
        (Inl e, s1) \<Rightarrow> (Ret (None, Some (wrap_error ''failed to apply namespace'' e)), s1)
      | (Inr obj, s1) \<Rightarrow>
     (case reconcile_metadata (ko_doc obj) (config_doc ac) (c_patch c namespace) s1 of
        (Some e, s2) \<Rightarrow> (Ret (None, Some (wrap_error ''failed to reconcile namespace metadata'' e)), s2)
      | (None, s2) \<Rightarrow>
     (case c_get c [] (ko_name obj) s2 of
        (Inl e, s3) \<Rightarrow> (Ret (None, Some (wrap_error ''failed to re-read namespace after reconcile'' e)), s3)
      | (Inr obj', s3) \<Rightarrow>
     (case properties_of c k obj' of
        Inl e \<Rightarrow> (Ret (None, Some e), s3)
      | Inr properties \<Rightarrow>
          (Ret (Some (Some (kind_progress k OpUpdate (ko_resource_version obj') obj' properties)), None), s3)))))))"

definition namespace_escalated :: "status_request \<Rightarrow> namespace_view kobj \<Rightarrow> string \<Rightarrow> progress" where
  "namespace_escalated q obj msg = (empty_progress OpCheckStatus StInProgress)\<lparr>pr_request_id := st_request_id q,
     pr_native_id := ko_name obj, pr_message := msg\<rparr>"

definition namespace_status :: "'s namespace_client \<Rightarrow> ('s, status_request, progress option) op" where
  "namespace_status nc req s =
     (let c = n_client nc; k = namespace_kind in
      case req of
        None \<Rightarrow> (Panic nil_dereference, s)
      | Some q \<Rightarrow>
     (case parse_id k (st_native_id q) of
        Inl e \<Rightarrow> (Ret (None, Some (bad_id (st_native_id q) (st_type q) e)), s)
      | Inr (ns, name) \<Rightarrow>
     (case c_get c ns name s of
        (Inl e, s1) \<Rightarrow>
          if is_api ApiNotFound e
          then (Ret (Some (Some ((empty_progress OpCheckStatus StFailure)\<lparr>pr_code := NotFound\<rparr>)), None), s1)
          else (Ret (None, Some (wrap_error ''failed to get namespace status'' e)), s1)
      | (Inr obj, s1) \<Rightarrow>
          if nv_phase (ko_view obj) = ''Terminating'' \<and> is_content_deletion_failed obj \<and>
             terminating_long_enough (n_now nc s1) obj
          then (case force_remove_finalizers nc obj s1 of
                  (Some e, s2) \<Rightarrow> (Ret (Some (Some (namespace_escalated q obj
                     (''namespace stuck terminating; finalizer-clear attempt failed: '' @ err_msg e))), None), s2)
                | (None, s2) \<Rightarrow> (Ret (Some (Some (namespace_escalated q obj
                     ''cleared stuck finalizer; namespace deletion should complete'')), None), s2))
          else (case properties_of c k obj of
                  Inl e \<Rightarrow> (Ret (None, Some e), s1)
                | Inr properties \<Rightarrow>
                    (Ret (Some (Some (kind_progress k OpCheckStatus (st_request_id q) obj properties)), None), s1)))))"

definition namespace_provisioner :: "'s namespace_client \<Rightarrow> 's provisioner" where
  "namespace_provisioner nc = (kind_provisioner namespace_kind (n_client nc))
     \<lparr>p_update := namespace_update nc, p_status := namespace_status nc\<rparr>"

subsection \<open>Properties\<close>

text \<open>C28: a status check of a namespace clears its finalizers only in the one situation meant for
  it: the namespace is Terminating, its controller reports that content deletion failed, and it was
  deleted at least two minutes ago. In every other case the check writes nothing: the cluster is as
  the read left it.\<close>

theorem finalizers_cleared_only_when_stuck:
  assumes "c_get (n_client nc) [] (st_native_id q) s = (r, s1)"
  shows "snd (namespace_status nc (Some q) s) \<in> {s, s1} \<or>
     (\<exists>obj t. r = Inr obj \<and> nv_phase (ko_view obj) = ''Terminating'' \<and> is_content_deletion_failed obj \<and>
        nv_deletion (ko_view obj) = Some t \<and> 120000000000 \<le> n_now nc s1 - t \<and>
        snd (namespace_status nc (Some q) s) = snd (n_finalize nc (obj\<lparr>ko_view := (ko_view obj)\<lparr>nv_finalizers := []\<rparr>\<rparr>) s1))"
proof (cases "parse_cluster_native_id (st_native_id q)")
  case (Inl e)
  then show ?thesis
    by (simp add: namespace_status_def parse_id_def namespace_kind_def plain_kind_def)
next
  case (Inr name)
  then have "name = st_native_id q"
    by (auto simp: parse_cluster_native_id_def split: if_splits)
  then have id: "parse_id namespace_kind (st_native_id q) = Inr ([], st_native_id q)"
    using Inr by (simp add: parse_id_def namespace_kind_def plain_kind_def)
  show ?thesis
  proof (cases r)
    case (Inl e)
    then show ?thesis
      using assms id by (simp add: namespace_status_def Let_def)
  next
    case (Inr obj)
    show ?thesis
    proof (cases "nv_phase (ko_view obj) = ''Terminating'' \<and> is_content_deletion_failed obj \<and>
             terminating_long_enough (n_now nc s1) obj")
      case True
      then obtain t where "nv_deletion (ko_view obj) = Some t" "120000000000 \<le> n_now nc s1 - t"
        by (auto simp: terminating_long_enough_def terminating_grace_period_def split: option.splits)
      then show ?thesis
        using True assms id Inr
        by (auto simp: namespace_status_def Let_def force_remove_finalizers_def split: prod.split option.split)
    next
      case False
      then show ?thesis
        using assms id Inr by (auto simp: namespace_status_def Let_def split: sum.split)
    qed
  qed
qed

text \<open>A cluster with one namespace, whose state records whether its finalizers were cleared.\<close>

definition stuck_namespace :: "namespace_view kobj" where
  "stuck_namespace = sample_object 1 \<lparr>nv_phase = ''Terminating'',
     nv_conditions = [\<lparr>cond_type = ''NamespaceDeletionContentFailure'', cond_status = ''True'', cond_reason = []\<rparr>],
     nv_deletion = Some 0, nv_finalizers = [''kubernetes'']\<rparr>"

definition stuck_namespace_client :: "bool namespace_client" where
  "stuck_namespace_client = \<lparr>n_client = \<lparr>
     c_apply = \<lambda>_ _ s. (Inr stuck_namespace, s), c_get = \<lambda>_ _ s. (Inr stuck_namespace, s),
     c_patch = \<lambda>_ _ _ s. (None, s), c_delete = \<lambda>_ _ _ s. (None, s),
     c_list = \<lambda>_ _ _ s. (Inr ([stuck_namespace], []), s), c_decode = \<lambda>_. Inr None,
     c_project = \<lambda>j. Inr \<lparr>ac_meta = None, ac_doc = Inr j\<rparr>, c_encode = \<lambda>a. to_generic_map (ac_doc a),
     c_get_path = \<lambda>_ _. Missing, c_version = Inr ''1.33''\<rparr>,
     n_finalize = \<lambda>obj s. (None, nv_finalizers (ko_view obj) = []),
     n_now = \<lambda>s. 120000000000\<rparr>"

theorem finalizers_cleared_only_when_stuck_witness:
  "snd (namespace_status stuck_namespace_client (Some \<lparr>st_native_id = ''n'', st_request_id = ''r'', st_type = []\<rparr>) False) = True \<and>
   is_content_deletion_failed stuck_namespace"
proof -
  let ?q = "\<lparr>st_native_id = ''n'', st_request_id = ''r'', st_type = []\<rparr>"
  have run: "snd (namespace_status stuck_namespace_client (Some ?q) False) = True"
    by code_simp
  have get: "c_get (n_client stuck_namespace_client) [] (st_native_id ?q) False = (Inr stuck_namespace, False)"
    by (simp add: stuck_namespace_client_def)
  show ?thesis
    using finalizers_cleared_only_when_stuck [OF get] run by auto
qed

end
