(* ===== verification/Fences.thy ===== *)
theory Fences
  imports Prelude
begin

text \<open>
  The contract three components of the program share. A store holds, under each key, an entry
  that carries a generation; work that started under one generation reports back later and may
  touch the entry only while it still has that generation. The helm flight registry (a worker's
  completion, the retention timer, a released reader), the token cache (a refresh that finishes
  after an invalidation) and the worker's auth bridge (a service that finishes after a 401) are
  the three providers; each interprets the locale on its own operations.
\<close>

locale generation_fence =
  fixes view :: "'s \<Rightarrow> 'k \<Rightarrow> 'v"
    and gen_of :: "'v \<Rightarrow> 'g option"
    and act :: "'a \<Rightarrow> 'k \<Rightarrow> 'g \<Rightarrow> 's \<Rightarrow> 's"
  assumes stale_act: "gen_of (view s k) \<noteq> Some g \<Longrightarrow> view (act a k g s) k = view s k"
    and other_key: "k' \<noteq> k \<Longrightarrow> view (act a k g s) k' = view s k'"
begin

lemma act_unless_current:
  "gen_of (view s k) \<noteq> Some g \<Longrightarrow> view (act a k g s) k' = view s k'"
  using stale_act other_key by metis

text \<open>Any number of late completions, in any order, for any keys: nothing changes.\<close>

lemma stale_run:
  assumes "\<forall>(a, k, g) \<in> set late. gen_of (view s k) \<noteq> Some g"
  shows "view (fold (\<lambda>(a, k, g). act a k g) late s) = view s"
  using assms
proof (induction late arbitrary: s)
  case Nil
  then show ?case by simp
next
  case (Cons e late)
  obtain a k g where e: "e = (a, k, g)" by (cases e)
  have same: "view (act a k g s) = view s"
    using Cons.prems e act_unless_current by fastforce
  have "view (fold (\<lambda>(a, k, g). act a k g) late (act a k g s)) = view (act a k g s)"
    by (rule Cons.IH) (use Cons.prems same in auto)
  then show ?case using e same by simp
qed

lemma foreign_key_run:
  assumes "\<forall>(a, k', g) \<in> set acts. k' \<noteq> k"
  shows "view (fold (\<lambda>(a, k, g). act a k g) acts s) k = view s k"
  using assms by (induction acts arbitrary: s) (auto simp: other_key)

end

end
