(* ===== verification/Go_Time.thy ===== *)
theory Go_Time
  imports "HOL-Library.Word" Go_Strings
begin

text \<open>
  Go's \<open>time.Time\<close> and \<open>time.Duration\<close> as the program uses them: an instant is its number of
  nanoseconds since the Unix epoch (an unbounded integer, as \<open>Time\<close> spans more than 64 bits), a
  duration a signed 64-bit number of nanoseconds, read by \<open>sint\<close> where overflow matters and as
  an integer elsewhere. \<open>Time.Sub\<close> saturates.
\<close>

type_synonym instant = int
type_synonym duration = "64 word"

definition second :: int where
  "second = 1000000000"

definition zero_time :: instant where
  "zero_time = - 62135596800 * second"

text \<open>The first instant of the year 10000 (UTC): \<open>Year() > 9999\<close> from here on.\<close>

definition year_10000 :: instant where
  "year_10000 = 253402300800 * second"

definition max_duration :: int where
  "max_duration = 2 ^ 63 - 1"

definition time_sub :: "instant \<Rightarrow> instant \<Rightarrow> int" where
  "time_sub t u = max (- (2 ^ 63)) (min max_duration (t - u))"

definition is_zero_time :: "instant \<Rightarrow> bool" where
  "is_zero_time t \<longleftrightarrow> t = zero_time"

lemma second_pos [simp]: "0 < second"
  by (simp add: second_def)

lemma time_sub_upper: "u \<le> t \<Longrightarrow> time_sub t u \<le> t - u"
  by (simp add: time_sub_def max_duration_def)

lemma time_sub_nonneg: "u \<le> t \<Longrightarrow> 0 \<le> time_sub t u"
  by (simp add: time_sub_def max_duration_def)

lemma sint_64_bounds: "- (2 ^ 63) \<le> sint (w :: 64 word)" "sint (w :: 64 word) \<le> max_duration"
  using sint_range_size [of w] by (simp_all add: word_size max_duration_def)

lemma sint_plus_exact:
  fixes a b :: "64 word"
  assumes "- (2 ^ 63) \<le> sint a + sint b" and "sint a + sint b \<le> max_duration"
  shows "sint (a + b) = sint a + sint b"
proof -
  have "sint (a + b) = signed_take_bit 63 (sint a + sint b)"
    by (simp add: sint_word_ariths)
  also have "\<dots> = sint a + sint b"
    by (rule signed_take_bit_int_eq_self) (use assms in \<open>auto simp: max_duration_def\<close>)
  finally show ?thesis .
qed

lemma sint_minus_exact:
  fixes a b :: "64 word"
  assumes "- (2 ^ 63) \<le> sint a - sint b" and "sint a - sint b \<le> max_duration"
  shows "sint (a - b) = sint a - sint b"
proof -
  have "sint (a - b) = signed_take_bit 63 (sint a - sint b)"
    by (simp add: sint_word_ariths)
  also have "\<dots> = sint a - sint b"
    by (rule signed_take_bit_int_eq_self) (use assms in \<open>auto simp: max_duration_def\<close>)
  finally show ?thesis .
qed

lemma sint_of_int_exact:
  assumes "- (2 ^ 63) \<le> i" and "i \<le> max_duration"
  shows "sint (word_of_int i :: 64 word) = i"
proof -
  have "sint (word_of_int i :: 64 word) = signed_take_bit 63 i"
    by (simp add: sint_sbintrunc')
  also have "\<dots> = i"
    by (rule signed_take_bit_int_eq_self) (use assms in \<open>auto simp: max_duration_def\<close>)
  finally show ?thesis .
qed

subsection \<open>\<open>Duration.String\<close>\<close>

text \<open>The fraction's \<open>prec\<close> digits without trailing zeros; nothing for a zero fraction.\<close>

definition frac_digits :: "nat \<Rightarrow> int \<Rightarrow> string" where
  "frac_digits prec v = map (\<lambda>i. digit_char (nat ((v div 10 ^ i) mod 10))) (rev [0..<prec])"

definition fmt_frac :: "nat \<Rightarrow> int \<Rightarrow> string" where
  "fmt_frac prec v =
     (if v mod 10 ^ prec = 0 then []
      else ''.'' @ rev (dropWhile (\<lambda>c. c = CHR ''0'') (rev (frac_digits prec v))))"

definition duration_magnitude :: "int \<Rightarrow> string" where
  "duration_magnitude u =
     (if u = 0 then ''0s''
      else if u < 1000 then itoa u @ ''ns''
      else if u < 1000000 then itoa (u div 1000) @ fmt_frac 3 u @ [CHR 0xC2, CHR 0xB5, CHR ''s'']
      else if u < 1000000000 then itoa (u div 1000000) @ fmt_frac 6 u @ ''ms''
      else let secs = u div 1000000000; mins = secs div 60; hours = mins div 60 in
        (if hours > 0 then itoa hours @ ''h'' else []) @
        (if mins > 0 then itoa (mins mod 60) @ ''m'' else []) @
        itoa (secs mod 60) @ fmt_frac 9 u @ ''s'')"

definition duration_string :: "int \<Rightarrow> string" where
  "duration_string d = (if d < 0 then ''-'' @ duration_magnitude (- d) else duration_magnitude d)"

end
