(* ===== verification/Token_Cache.thy ===== *)
theory Token_Cache
  imports Errors Fences Go_Time
begin

text \<open>
  The coalescing token cache (\<open>pkg/auth/cache.go\<close>). \<open>Token\<close> holds the mutex in two critical
  sections: \<open>token_enter\<close> up to the decision to serve, wait or lead a refresh, and \<open>token_leave\<close>
  after the leader's call of the inner source. The state machine \<open>cache_step\<close> interleaves these
  sections with invalidations and the clock; its bookkeeping numbers the invalidations.
\<close>

definition token_safety_margin :: int where
  "token_safety_margin = 10 * second"

record cached_token =
  ct_token :: string
  ct_expiry :: instant
  ct_next_check :: instant

record token_cache =
  tc_current :: "cached_token option"
  tc_refreshing :: bool
  tc_generation :: "64 word"

definition new_cached_token_source :: token_cache where
  "new_cached_token_source = \<lparr>tc_current = None, tc_refreshing = False, tc_generation = 0\<rparr>"

subsection \<open>Redaction of errors\<close>

text \<open>\<open>redactedError\<close>: \<open>errors.Is\<close> still finds every sentinel of the cause, and \<open>ErrTransient\<close>
  when the cause is transient; without \<open>Unwrap\<close>, \<open>errors.As\<close> finds nothing any more.\<close>

definition redact_error :: "gerr \<Rightarrow> gerr" where
  "redact_error e = GErr (if is_transient (Some e) then ErrTransient # err_is e else err_is e) [] ApiNone
     ''authentication request failed''"

lemma errors_is_redact:
  "errors_is (redact_error e) s \<longleftrightarrow> errors_is e s \<or> s = ErrTransient \<and> is_transient (Some e)"
  by (auto simp: redact_error_def errors_is_def)

lemma is_transient_redact: "is_transient (Some (redact_error e)) = is_transient (Some e)"
proof (cases "is_transient (Some e)")
  case True
  then have "errors_is (redact_error e) ErrTransient" by (simp add: errors_is_redact)
  then show ?thesis using True by (simp add: is_transient_def)
next
  case False
  then have none: "\<not> errors_is e ErrTransient" "\<not> list_ex (errors_is e) transient_sentinels"
    by (auto simp: is_transient_def split: if_splits)
  have same: "errors_is (redact_error e) = errors_is e"
    by (rule ext) (use False in \<open>simp add: errors_is_redact\<close>)
  show ?thesis
    using False none same
    by (simp add: is_transient_def redact_error_def is_api_def)
qed

subsection \<open>The two critical sections\<close>

definition invalidate :: "token_cache \<Rightarrow> token_cache" where
  "invalidate c = c\<lparr>tc_current := None, tc_generation := tc_generation c + 1\<rparr>"

datatype enter_result =
    Hit string instant
  | Expired gerr
  | Wait_refresh
  | Lead "64 word" "cached_token option"

definition servable :: "instant \<Rightarrow> cached_token \<Rightarrow> bool" where
  "servable now snap \<longleftrightarrow> now < ct_next_check snap \<and> now < ct_expiry snap - token_safety_margin"

text \<open>\<open>ctx\<close> and \<open>ctx_unlocked\<close> are the caller's \<open>ctx.Err()\<close> on entry and after the unlock.\<close>

definition token_enter ::
  "gerr option \<Rightarrow> gerr option \<Rightarrow> instant \<Rightarrow> token_cache \<Rightarrow> enter_result \<times> token_cache" where
  "token_enter ctx ctx_unlocked now c =
     (case ctx of
        Some e \<Rightarrow> (Expired e, c)
      | None \<Rightarrow>
          (case (case tc_current c of Some snap \<Rightarrow> if servable now snap then Some snap else None | None \<Rightarrow> None) of
             Some snap \<Rightarrow>
               (case ctx_unlocked of Some e \<Rightarrow> (Expired e, c) | None \<Rightarrow> (Hit (ct_token snap) (ct_expiry snap), c))
           | None \<Rightarrow>
               if tc_refreshing c then (Wait_refresh, c)
               else (Lead (tc_generation c) (tc_current c), c\<lparr>tc_refreshing := True\<rparr>)))"

definition valid_bearer :: "string \<Rightarrow> instant \<Rightarrow> instant \<Rightarrow> bool" where
  "valid_bearer token expiry now \<longleftrightarrow>
     token \<noteq> [] \<and> \<not> is_zero_time expiry \<and> expiry < year_10000 \<and> now < expiry - token_safety_margin"

definition invalid_bearer :: gerr where
  "invalid_bearer = new_error ''invalid or expired bearer token''"

text \<open>When the entry just installed is looked at again; the margin is a fifth of the remaining
  life, at least a minute. The division is of a positive number.\<close>

definition next_check_of :: "cached_token option \<Rightarrow> string \<Rightarrow> instant \<Rightarrow> instant \<Rightarrow> instant" where
  "next_check_of previous token expiry now =
     (let fifth = time_sub expiry now div 5;
          margin = (if fifth < 60 * second then 60 * second else fifth);
          nxt = expiry - margin;
          same = (case previous of None \<Rightarrow> False | Some p \<Rightarrow> token = ct_token p \<and> \<not> ct_expiry p < expiry);
          nxt' = (if \<not> now < nxt \<or> same then now + 10 * second else nxt);
          cutoff = expiry - token_safety_margin
      in if cutoff < nxt' then cutoff else nxt')"

definition min_time :: "instant \<Rightarrow> instant \<Rightarrow> instant" where
  "min_time a b = (if a < b then a else b)"

datatype leave_result =
    Served string instant
  | Refused gerr
  | Again

text \<open>The checks of \<open>ctx.Err()\<close> after the inner call, before reusing the previous token and
  before returning are \<open>ctx\<close>, \<open>ctx_reuse\<close> and \<open>ctx_final\<close>.\<close>

definition refresh_outcome ::
  "gerr option \<Rightarrow> (string \<times> instant) res \<Rightarrow> instant \<Rightarrow> (string \<times> instant) res" where
  "refresh_outcome ctx inner now =
     (case (case ctx of Some e \<Rightarrow> Inl e | None \<Rightarrow> inner) of
        Inl e \<Rightarrow> Inl e
      | Inr (token, expiry) \<Rightarrow>
          if valid_bearer token expiry now then Inr (token, expiry) else Inl invalid_bearer)"

definition reusable :: "gerr option \<Rightarrow> bool \<Rightarrow> cached_token option \<Rightarrow> instant \<Rightarrow> cached_token option" where
  "reusable ctx invalidated previous now =
     (case previous of
        Some p \<Rightarrow> if ctx = None \<and> \<not> invalidated \<and> now < ct_expiry p - token_safety_margin then Some p else None
      | None \<Rightarrow> None)"

definition token_leave ::
  "64 word \<Rightarrow> cached_token option \<Rightarrow> gerr option \<Rightarrow> gerr option \<Rightarrow> gerr option \<Rightarrow>
   (string \<times> instant) res \<Rightarrow> instant \<Rightarrow> token_cache \<Rightarrow> leave_result \<times> token_cache" where
  "token_leave gen previous ctx ctx_reuse ctx_final inner now c =
     (let invalidated = (gen \<noteq> tc_generation c); closed = c\<lparr>tc_refreshing := False\<rparr> in
      (case refresh_outcome ctx inner now of
         Inr (token, expiry) \<Rightarrow>
           if invalidated then (Again, closed)
           else (case ctx_final of Some e \<Rightarrow> Refused e | None \<Rightarrow> Served token expiry,
                 closed\<lparr>tc_current := Some \<lparr>ct_token = token, ct_expiry = expiry,
                    ct_next_check = next_check_of previous token expiry now\<rparr>\<rparr>)
       | Inl err \<Rightarrow>
           (case reusable ctx_reuse invalidated previous now of
              None \<Rightarrow> (Refused (redact_error err), closed)
            | Some p \<Rightarrow>
                (case ctx_final of Some e \<Rightarrow> Refused e | None \<Rightarrow> Served (ct_token p) (ct_expiry p),
                 closed\<lparr>tc_current := Some \<lparr>ct_token = ct_token p, ct_expiry = ct_expiry p,
                    ct_next_check = min_time (now + 10 * second) (ct_expiry p - token_safety_margin)\<rparr>\<rparr>))))"

text \<open>The leader's call of the inner source is skipped when its context has already ended.\<close>

definition leader_call ::
  "gerr option \<Rightarrow> (string \<times> instant) res \<Rightarrow> (string \<times> instant) res" where
  "leader_call ctx inner = (case ctx of Some e \<Rightarrow> Inl e | None \<Rightarrow> inner)"

text \<open>One turn of \<open>Token\<close>'s loop for a caller that meets no other: \<open>ctx n\<close> is its n-th look at
  \<open>ctx.Err()\<close>; \<open>None\<close> means it would block on a refresh that is under way.\<close>

definition token_turn ::
  "(nat \<Rightarrow> gerr option) \<Rightarrow> (string \<times> instant) res \<Rightarrow> instant \<Rightarrow> instant \<Rightarrow> token_cache \<Rightarrow>
   (leave_result \<times> token_cache) option" where
  "token_turn ctx inner now now' c =
     (case token_enter (ctx 0) (ctx 1) now c of
        (Hit token expiry, c') \<Rightarrow> Some (Served token expiry, c')
      | (Expired e, c') \<Rightarrow> Some (Refused e, c')
      | (Wait_refresh, c') \<Rightarrow> None
      | (Lead gen previous, c') \<Rightarrow>
          Some (token_leave gen previous (ctx 2) (ctx 3) (ctx 4) (leader_call (ctx 1) inner) now' c'))"

text \<open>Alone, a caller is done after one turn and leaves the cache ready for the next one.\<close>

lemma token_turn_settles:
  assumes "\<not> tc_refreshing c"
  obtains r c' where "token_turn ctx inner now now' c = Some (r, c')" "r \<noteq> Again" "\<not> tc_refreshing c'"
proof -
  obtain r c1 where enter: "token_enter (ctx 0) (ctx 1) now c = (r, c1)" by fastforce
  show thesis
  proof (cases r)
    case (Lead gen previous)
    then have "gen = tc_generation c1"
      using enter by (auto simp: token_enter_def split: option.splits if_splits)
    moreover obtain r' c2 where
      leave: "token_leave gen previous (ctx 2) (ctx 3) (ctx 4) (leader_call (ctx 1) inner) now' c1 = (r', c2)"
      by fastforce
    ultimately have "r' \<noteq> Again" "\<not> tc_refreshing c2"
      by (auto simp: token_leave_def Let_def split: sum.splits option.splits)
    then show thesis using that [of r' c2] enter Lead leave by (simp add: token_turn_def)
  qed (use enter assms that in \<open>auto simp: token_turn_def token_enter_def split: option.splits if_splits\<close>)
qed

subsection \<open>Entries\<close>

definition wf_entry :: "cached_token \<Rightarrow> bool" where
  "wf_entry p \<longleftrightarrow> ct_token p \<noteq> [] \<and> ct_next_check p \<le> ct_expiry p - token_safety_margin"

definition wf_cache :: "token_cache \<Rightarrow> bool" where
  "wf_cache c \<longleftrightarrow> (case tc_current c of None \<Rightarrow> True | Some p \<Rightarrow> wf_entry p)"

lemma next_check_bounds:
  assumes "valid_bearer token expiry now"
  shows "now < next_check_of previous token expiry now"
    and "next_check_of previous token expiry now \<le> expiry - token_safety_margin"
  using assms by (auto simp: next_check_of_def Let_def valid_bearer_def token_safety_margin_def second_def)

lemma min_time_le: "min_time a b \<le> b" "a \<le> b \<Longrightarrow> min_time a b = a"
  by (auto simp: min_time_def)

lemma refresh_outcome_Inr:
  "refresh_outcome ctx inner now = Inr (token, expiry) \<Longrightarrow>
     ctx = None \<and> inner = Inr (token, expiry) \<and> valid_bearer token expiry now"
  by (auto simp: refresh_outcome_def split: option.splits sum.splits if_splits)

lemma reusable_Some:
  "reusable ctx stale previous now = Some p \<Longrightarrow>
     previous = Some p \<and> ctx = None \<and> \<not> stale \<and> now < ct_expiry p - token_safety_margin"
  by (auto simp: reusable_def split: option.splits if_splits)

lemma wf_cache_enter:
  "token_enter ctx ctx' now c = (r, c') \<Longrightarrow> wf_cache c \<Longrightarrow> wf_cache c'"
  by (auto simp: token_enter_def wf_cache_def split: option.splits if_splits)

lemma wf_cache_leave:
  assumes leave: "token_leave gen previous ctx ctx1 ctx2 inner now c = (r, c')"
    and wf: "wf_cache c" and prev: "\<forall>p. previous = Some p \<longrightarrow> wf_entry p"
  shows "wf_cache c'"
proof (cases "refresh_outcome ctx inner now")
  case (Inr te)
  then obtain token expiry where te: "te = (token, expiry)" and v: "valid_bearer token expiry now"
    using refresh_outcome_Inr by (cases te) fastforce
  then show ?thesis
    using leave wf Inr next_check_bounds(2) [OF v, of previous]
    by (auto simp: token_leave_def Let_def wf_cache_def wf_entry_def valid_bearer_def split: if_splits)
next
  case (Inl e)
  show ?thesis
  proof (cases "reusable ctx1 (gen \<noteq> tc_generation c) previous now")
    case None
    then show ?thesis using leave wf Inl by (auto simp: token_leave_def Let_def wf_cache_def)
  next
    case (Some p)
    then have "wf_entry p" using prev reusable_Some by blast
    then show ?thesis
      using leave Inl Some min_time_le(1) [of "now + 10 * second" "ct_expiry p - token_safety_margin"]
      by (auto simp: token_leave_def Let_def wf_cache_def wf_entry_def)
  qed
qed

subsection \<open>Interleavings\<close>

text \<open>A run of the cache under any schedule of callers. The leader, if any, holds what it read
  when it entered. \<open>cs_epoch\<close> counts the invalidations, \<open>cs_minted\<close> is the epoch in which the
  refresh that obtained the current entry began.\<close>

record leader =
  le_generation :: "64 word"
  le_previous :: "cached_token option"
  le_epoch :: nat

record cache_sys =
  cs_cache :: token_cache
  cs_leader :: "leader option"
  cs_epoch :: nat
  cs_minted :: nat
  cs_now :: instant

datatype cache_event =
    Invalidated
  | Entered enter_result
  | Left leave_result
  | Ticked

inductive cache_step :: "cache_sys \<Rightarrow> cache_event \<Rightarrow> cache_sys \<Rightarrow> bool" where
  step_invalidate:
    "cache_step s Invalidated (s\<lparr>cs_cache := invalidate (cs_cache s), cs_epoch := Suc (cs_epoch s)\<rparr>)"
| step_enter:
    "token_enter ctx ctx_unlocked (cs_now s) (cs_cache s) = (r, c) \<Longrightarrow>
     cache_step s (Entered r) (s\<lparr>cs_cache := c,
        cs_leader := (case r of Lead g p \<Rightarrow> Some \<lparr>le_generation = g, le_previous = p, le_epoch = cs_epoch s\<rparr>
                      | _ \<Rightarrow> cs_leader s)\<rparr>)"
| step_leave:
    "cs_leader s = Some l \<Longrightarrow>
     token_leave (le_generation l) (le_previous l) ctx ctx_reuse ctx_final inner (cs_now s) (cs_cache s) = (r, c) \<Longrightarrow>
     cache_step s (Left r) (s\<lparr>cs_cache := c, cs_leader := None,
        cs_minted := (case refresh_outcome ctx inner (cs_now s) of
                        Inr _ \<Rightarrow> if le_generation l = tc_generation (cs_cache s) then le_epoch l else cs_minted s
                      | Inl _ \<Rightarrow> cs_minted s)\<rparr>)"
| step_tick: "cs_now s \<le> t \<Longrightarrow> cache_step s Ticked (s\<lparr>cs_now := t\<rparr>)"

inductive cache_reachable :: "cache_sys \<Rightarrow> bool" where
  reach_init:
    "cache_reachable \<lparr>cs_cache = new_cached_token_source, cs_leader = None, cs_epoch = 0, cs_minted = 0, cs_now = t\<rparr>"
| reach_step: "cache_reachable s \<Longrightarrow> cache_step s e s' \<Longrightarrow> cache_reachable s'"

inductive_cases cache_step_enterE: "cache_step s (Entered r) s'"
inductive_cases cache_step_leaveE: "cache_step s (Left r) s'"

definition cache_inv :: "cache_sys \<Rightarrow> bool" where
  "cache_inv s \<longleftrightarrow>
     (tc_refreshing (cs_cache s) \<longleftrightarrow> cs_leader s \<noteq> None) \<and>
     tc_generation (cs_cache s) = word_of_nat (cs_epoch s) \<and>
     wf_cache (cs_cache s) \<and>
     (tc_current (cs_cache s) \<noteq> None \<longrightarrow> cs_minted s = cs_epoch s) \<and>
     (case cs_leader s of None \<Rightarrow> True
      | Some l \<Rightarrow> le_epoch l \<le> cs_epoch s \<and> le_generation l = word_of_nat (le_epoch l) \<and>
          (\<forall>p. le_previous l = Some p \<longrightarrow> wf_entry p) \<and>
          (le_epoch l = cs_epoch s \<longrightarrow> le_previous l = tc_current (cs_cache s)))"

lemma word_of_nat_64_inj:
  assumes "(word_of_nat m :: 64 word) = word_of_nat n" "m \<le> n" "n < 2 ^ 64"
  shows "m = n"
proof -
  have u: "unat (word_of_nat k :: 64 word) = k" if "k < 2 ^ 64" for k
    using that by (simp add: unat_of_nat take_bit_nat_eq_self)
  have "m < 2 ^ 64" using assms(2,3) by (rule le_less_trans)
  then show ?thesis using arg_cong [OF assms(1), of unat] by (simp only: u assms(3))
qed

lemma wf_cache_invalidate [simp]: "wf_cache (invalidate c)"
  by (simp add: wf_cache_def invalidate_def)

lemma enter_fields:
  assumes "token_enter ctx ctx' now c = (r, c')"
  shows "tc_current c' = tc_current c" "tc_generation c' = tc_generation c"
    and "tc_refreshing c' \<longleftrightarrow> tc_refreshing c \<or> (\<exists>g p. r = Lead g p)"
    and "r = Lead g p \<Longrightarrow> \<not> tc_refreshing c \<and> g = tc_generation c \<and> p = tc_current c"
    and "r = Hit token expiry \<Longrightarrow>
      \<exists>snap. tc_current c = Some snap \<and> ct_token snap = token \<and> ct_expiry snap = expiry \<and> servable now snap"
  using assms by (auto simp: token_enter_def split: option.splits if_splits)

lemma leave_stale:
  assumes "token_leave gen previous ctx ctx1 ctx2 inner now c = (r, c')" "gen \<noteq> tc_generation c"
  shows "c' = c\<lparr>tc_refreshing := False\<rparr>" and "\<not> (\<exists>token expiry. r = Served token expiry)"
  using assms by (auto simp: token_leave_def Let_def reusable_def split: sum.splits option.splits)

lemma leave_fields:
  assumes "token_leave gen previous ctx ctx1 ctx2 inner now c = (r, c')"
  shows "\<not> tc_refreshing c'" "tc_generation c' = tc_generation c"
  using assms by (auto simp: token_leave_def Let_def split: sum.splits option.splits if_splits)

lemma leave_keeps_origin:
  assumes "token_leave gen previous ctx ctx1 ctx2 inner now c = (r, c')" "gen = tc_generation c"
    and "refresh_outcome ctx inner now = Inl e" "previous = tc_current c" "tc_current c' \<noteq> None"
  shows "tc_current c \<noteq> None"
  using assms by (auto simp: token_leave_def Let_def reusable_def split: option.splits if_splits)

lemma served_is_fresh:
  assumes "token_leave gen previous ctx ctx1 ctx2 inner now c = (Served token expiry, c')"
  shows "now < expiry - token_safety_margin" and "gen = tc_generation c"
  using assms refresh_outcome_Inr [of ctx inner now token expiry]
    reusable_Some [of ctx1 "gen \<noteq> tc_generation c" previous now]
  by (auto simp: token_leave_def Let_def valid_bearer_def split: sum.splits option.splits if_splits)

lemma inv_enter:
  assumes inv: "cache_inv s" and enter: "token_enter ctx ctx' (cs_now s) (cs_cache s) = (r, c)"
  shows "cache_inv (s\<lparr>cs_cache := c,
    cs_leader := (case r of Lead g p \<Rightarrow> Some \<lparr>le_generation = g, le_previous = p, le_epoch = cs_epoch s\<rparr>
                  | _ \<Rightarrow> cs_leader s)\<rparr>)"
proof -
  note f = enter_fields [OF enter]
  have wf: "wf_cache c" using wf_cache_enter [OF enter] inv by (simp add: cache_inv_def)
  show ?thesis
  proof (cases "\<exists>g p. r = Lead g p")
    case True
    then obtain g p where r: "r = Lead g p" by blast
    have "\<forall>q. p = Some q \<longrightarrow> wf_entry q"
      using f(4) [OF r] inv by (auto simp: cache_inv_def wf_cache_def)
    then show ?thesis using inv r f(1-3) f(4) [OF r] wf by (auto simp: cache_inv_def)
  next
    case False
    then have "(case r of Lead g p \<Rightarrow> Some \<lparr>le_generation = g, le_previous = p, le_epoch = cs_epoch s\<rparr>
                  | _ \<Rightarrow> cs_leader s) = cs_leader s"
      by (cases r) auto
    then show ?thesis using inv f(1-3) False wf by (auto simp: cache_inv_def split: option.splits)
  qed
qed

lemma inv_leave:
  assumes inv: "cache_inv s" and small: "cs_epoch s < 2 ^ 64" and l: "cs_leader s = Some l"
    and leave: "token_leave (le_generation l) (le_previous l) ctx ctx1 ctx2 inner (cs_now s) (cs_cache s) = (r, c)"
  shows "cache_inv (s\<lparr>cs_cache := c, cs_leader := None,
        cs_minted := (case refresh_outcome ctx inner (cs_now s) of
                        Inr _ \<Rightarrow> if le_generation l = tc_generation (cs_cache s) then le_epoch l else cs_minted s
                      | Inl _ \<Rightarrow> cs_minted s)\<rparr>)"
proof -
  have il: "le_epoch l \<le> cs_epoch s" "le_generation l = word_of_nat (le_epoch l)"
    "\<forall>p. le_previous l = Some p \<longrightarrow> wf_entry p"
    "le_epoch l = cs_epoch s \<longrightarrow> le_previous l = tc_current (cs_cache s)"
    "tc_generation (cs_cache s) = word_of_nat (cs_epoch s)" "wf_cache (cs_cache s)"
    "tc_current (cs_cache s) \<noteq> None \<longrightarrow> cs_minted s = cs_epoch s"
    using inv l by (auto simp: cache_inv_def)
  note wf = wf_cache_leave [OF leave il(6,3)]
  note f = leave_fields [OF leave]
  show ?thesis
  proof (cases "le_generation l = tc_generation (cs_cache s)")
    case True
    then have same: "le_epoch l = cs_epoch s" using il word_of_nat_64_inj small by metis
    show ?thesis
    proof (cases "refresh_outcome ctx inner (cs_now s)")
      case (Inl e)
      then have "tc_current c \<noteq> None \<longrightarrow> cs_minted s = cs_epoch s"
        using leave_keeps_origin [OF leave True Inl] il(4,7) same by blast
      then show ?thesis using inv f wf Inl by (simp add: cache_inv_def)
    next
      case (Inr te)
      then show ?thesis using inv f wf True same by (simp add: cache_inv_def)
    qed
  next
    case False
    then show ?thesis
      using leave_stale(1) [OF leave False] il wf by (simp add: cache_inv_def split: sum.split)
  qed
qed

lemma cache_inv_step:
  assumes "cache_step s e s'" "cache_inv s" "cs_epoch s < 2 ^ 64"
  shows "cache_inv s'"
  using assms
proof (cases rule: cache_step.cases)
  case step_invalidate
  then show ?thesis using assms(2)
    by (auto simp: cache_inv_def invalidate_def wf_cache_def split: option.splits)
next
  case (step_enter ctx ctx' r c)
  then show ?thesis using inv_enter [OF assms(2)] by simp
next
  case (step_leave l ctx ctx1 ctx2 inner r c)
  then show ?thesis using inv_leave [OF assms(2,3)] by simp
next
  case (step_tick t)
  then show ?thesis using assms(2) by (auto simp: cache_inv_def split: option.splits)
qed

lemma epoch_mono: "cache_step s e s' \<Longrightarrow> cs_epoch s \<le> cs_epoch s'"
  by (auto elim: cache_step.cases)

lemma cache_inv_reachable:
  "cache_reachable s \<Longrightarrow> cs_epoch s < 2 ^ 64 \<Longrightarrow> cache_inv s"
proof (induction rule: cache_reachable.induct)
  case (reach_init t)
  show ?case by (simp add: cache_inv_def new_cached_token_source_def wf_cache_def)
next
  case (reach_step s e s')
  then show ?case using epoch_mono [OF reach_step.hyps(2)] cache_inv_step by fastforce
qed

text \<open>The cache is a fence: a refresh that began under another generation changes neither the entry
  nor the generation.\<close>

definition leave_effect ::
  "gerr option \<times> gerr option \<times> gerr option \<times> (string \<times> instant) res \<times> instant \<times> cached_token option \<Rightarrow>
   unit \<Rightarrow> 64 word \<Rightarrow> token_cache \<Rightarrow> token_cache" where
  "leave_effect a u gen c =
     (case a of (ctx, ctx1, ctx2, inner, now, previous) \<Rightarrow> snd (token_leave gen previous ctx ctx1 ctx2 inner now c))"

interpretation token_fence: generation_fence
  "\<lambda>c (_ :: unit). (tc_current c, tc_generation c)" "\<lambda>v. Some (snd v)" leave_effect
proof
  fix c :: token_cache and k :: unit and g
    and a :: "gerr option \<times> gerr option \<times> gerr option \<times> (string \<times> instant) res \<times> instant \<times> cached_token option"
  assume stale: "Some (snd (tc_current c, tc_generation c)) \<noteq> Some g"
  obtain ctx ctx1 ctx2 inner now previous where a: "a = (ctx, ctx1, ctx2, inner, now, previous)"
    by (cases a)
  obtain r c' where leave: "token_leave g previous ctx ctx1 ctx2 inner now c = (r, c')" by fastforce
  have "g \<noteq> tc_generation c" using stale by auto
  then have "c' = c\<lparr>tc_refreshing := False\<rparr>" by (rule leave_stale(1) [OF leave])
  then show "(tc_current (leave_effect a k g c), tc_generation (leave_effect a k g c)) =
      (tc_current c, tc_generation c)"
    using leave a by (simp add: leave_effect_def)
qed simp

subsection \<open>What a caller is given\<close>

lemma served_installs:
  assumes "token_leave gen previous ctx ctx1 ctx2 inner now c = (Served token expiry, c')"
  shows "tc_current c' \<noteq> None"
  using assms by (auto simp: token_leave_def Let_def split: sum.splits option.splits if_splits)

text \<open>C19: no schedule of callers, refreshes and invalidations hands out a token in its last ten
  seconds, or one obtained by a refresh that began before the latest invalidation (for fewer than
  2^64 invalidations, the width of the generation counter).\<close>

theorem served_tokens_are_current:
  assumes run: "cache_reachable s" and step: "cache_step s e s'" and small: "cs_epoch s < 2 ^ 64"
    and served: "e = Entered (Hit token expiry) \<or> e = Left (Served token expiry)"
  shows "cs_now s < expiry - token_safety_margin \<and> cs_minted s' = cs_epoch s'"
proof -
  note inv = cache_inv_reachable [OF run small]
  note inv' = cache_inv_step [OF step inv small]
  have "cs_now s < expiry - token_safety_margin \<and> tc_current (cs_cache s') \<noteq> None"
    using served
  proof
    assume "e = Entered (Hit token expiry)"
    then obtain ctx ctx' c where
      "token_enter ctx ctx' (cs_now s) (cs_cache s) = (Hit token expiry, c)" "cs_cache s' = c"
      using step by (auto elim: cache_step_enterE)
    then obtain snap where "tc_current (cs_cache s) = Some snap" "servable (cs_now s) snap"
      "ct_expiry snap = expiry" "tc_current (cs_cache s') = tc_current (cs_cache s)"
      using enter_fields(1,5) by metis
    then show ?thesis by (simp add: servable_def)
  next
    assume "e = Left (Served token expiry)"
    then obtain gen previous ctx ctx1 ctx2 inner c where
      leave: "token_leave gen previous ctx ctx1 ctx2 inner (cs_now s) (cs_cache s) = (Served token expiry, c)"
      and c: "cs_cache s' = c"
      using step by (auto elim: cache_step_leaveE)
    show ?thesis using served_is_fresh(1) [OF leave] served_installs [OF leave] c by simp
  qed
  then show ?thesis using inv' by (auto simp: cache_inv_def)
qed

definition first_lead :: cache_sys where
  "first_lead = \<lparr>cs_cache = \<lparr>tc_current = None, tc_refreshing = True, tc_generation = 0\<rparr>,
     cs_leader = Some \<lparr>le_generation = 0, le_previous = None, le_epoch = 0\<rparr>,
     cs_epoch = 0, cs_minted = 0, cs_now = 0\<rparr>"

definition first_serve :: cache_sys where
  "first_serve = \<lparr>cs_cache = \<lparr>tc_current = Some \<lparr>ct_token = ''t'', ct_expiry = 3600 * second,
        ct_next_check = 2880 * second\<rparr>, tc_refreshing = False, tc_generation = 0\<rparr>,
     cs_leader = None, cs_epoch = 0, cs_minted = 0, cs_now = 0\<rparr>"

lemma first_lead_reachable: "cache_reachable first_lead"
proof -
  have "token_enter None None 0 new_cached_token_source =
      (Lead 0 None, \<lparr>tc_current = None, tc_refreshing = True, tc_generation = 0\<rparr>)"
    by (simp add: token_enter_def new_cached_token_source_def)
  then show ?thesis
    using reach_step [OF reach_init [of 0] step_enter [of None None]] by (simp add: first_lead_def)
qed

lemma first_serve_step: "cache_step first_lead (Left (Served ''t'' (3600 * second))) first_serve"
proof -
  have "token_leave 0 None None None None (Inr (''t'', 3600 * second)) 0 (cs_cache first_lead) =
      (Served ''t'' (3600 * second), cs_cache first_serve)"
    by code_simp
  then show ?thesis
    using step_leave [of first_lead _ None None None "Inr (''t'', 3600 * second)"]
    by (fastforce simp: first_lead_def first_serve_def refresh_outcome_def split: sum.splits option.splits)
qed

theorem served_tokens_are_current_witness:
  "\<exists>s'. cache_step first_lead (Left (Served ''t'' (3600 * second))) s' \<and>
     cs_now first_lead < 3600 * second - token_safety_margin \<and> cs_minted s' = cs_epoch s'"
proof -
  have "cs_epoch first_lead < 2 ^ 64" by (simp add: first_lead_def)
  then show ?thesis
    using served_tokens_are_current [OF first_lead_reachable first_serve_step] first_serve_step by blast
qed

end
