(* ===== verification/Auth_Bridge.thy ===== *)
theory Auth_Bridge
  imports Token_Cache
begin

text \<open>
  The bridge that feeds a background Helm worker with credentials minted by live callbacks
  (\<open>pkg/resources/helm/auth_bridge.go\<close>). Timing metadata are 64-bit durations and their window is
  computed with the overflow guards of the code. A worker's \<open>Token\<close> is a loop whose turn is
  \<open>bridge_token\<close>; \<open>Service\<close> is cut at its call of the token source into \<open>service_begin\<close> and
  \<open>service_end\<close>. \<open>ab_requests\<close> and \<open>ab_servicing\<close> are the two channels of capacity one,
  \<open>ab_wakeups\<close> counts the closed \<open>changed\<close> channels.
\<close>

record operation_info =
  oi_binding_id :: string
  oi_call_timeout :: duration
  oi_poll_interval :: duration
  oi_retry_delay :: duration
  oi_throttle_max_delay :: duration

record auth_bridge =
  ab_window :: duration
  ab_allowance :: duration
  ab_deadline :: instant
  ab_serviced :: instant
  ab_token :: string
  ab_expiry :: instant
  ab_closed :: "gerr option"
  ab_wakeups :: nat
  ab_requests :: bool
  ab_servicing :: bool
  ab_generation :: "64 word"
  ab_source_generation :: "64 word"

definition err_refresh_service_starved :: gerr where
  "err_refresh_service_starved = sentinel_error ErrRefreshServiceStarved
     ''helm credential refresh service starved; no active operation supplied credentials within the polling budget''"

subsection \<open>The polling window\<close>

definition smax :: "duration \<Rightarrow> duration \<Rightarrow> duration" where
  "smax a b = (if sint a < sint b then b else a)"

definition bridge_reserve :: int where
  "bridge_reserve = 40 * second"

definition bridge_window :: "operation_info \<Rightarrow> duration res" where
  "bridge_window info =
     (if oi_binding_id info = [] \<or> sint (oi_call_timeout info) \<le> 0 \<or> sint (oi_poll_interval info) < 0 \<or>
         sint (oi_retry_delay info) < 0 \<or> sint (oi_throttle_max_delay info) < 0
      then Inl (new_error ''helm OIDC requires valid trusted operation metadata'')
      else let gap = smax (smax (oi_poll_interval info) (oi_retry_delay info)) (oi_throttle_max_delay info);
               room = word_of_int (max_duration - bridge_reserve - 30 * second) :: duration
        in if sint gap > sint room \<or> sint (oi_call_timeout info) > sint (room - gap)
           then Inl (new_error ''helm OIDC operation metadata timing overflows'')
           else Inr (oi_call_timeout info + gap + word_of_int bridge_reserve))"

definition validate_action_allowance :: "operation_info \<Rightarrow> duration \<Rightarrow> gerr option" where
  "validate_action_allowance info allowance =
     (case bridge_window info of
        Inl e \<Rightarrow> Some e
      | Inr w \<Rightarrow>
          if sint allowance < sint w
          then Some (new_error (''timeoutSeconds must allow at least '' @ duration_string (sint w) @
                 '' for Helm OIDC refresh (effective poll interval '' @
                 duration_string (sint (oi_poll_interval info)) @ '')''))
          else None)"

definition deadline_exceeded :: gerr where
  "deadline_exceeded = sentinel_error CtxDeadlineExceeded ''context deadline exceeded''"

definition context_canceled :: gerr where
  "context_canceled = sentinel_error CtxCanceled ''context canceled''"

definition new_auth_bridge ::
  "operation_info \<Rightarrow> string \<Rightarrow> duration \<Rightarrow> instant \<Rightarrow> instant \<Rightarrow> auth_bridge res" where
  "new_auth_bridge info fingerprint allowance deadline now =
     (if fingerprint = [] then Inl (new_error ''helm OIDC requires valid auth identity'')
      else (case validate_action_allowance info allowance of
         Some e \<Rightarrow> Inl e
       | None \<Rightarrow>
           if \<not> now < deadline then Inl deadline_exceeded
           else Inr \<lparr>ab_window = (case bridge_window info of Inr w \<Rightarrow> w | Inl _ \<Rightarrow> 0), ab_allowance = allowance,
             ab_deadline = deadline, ab_serviced = now, ab_token = [], ab_expiry = zero_time, ab_closed = None,
             ab_wakeups = 0, ab_requests = False, ab_servicing = False, ab_generation = 0,
             ab_source_generation = 0\<rparr>))"

subsection \<open>Operations\<close>

definition notify_locked :: "auth_bridge \<Rightarrow> auth_bridge" where
  "notify_locked b = b\<lparr>ab_wakeups := Suc (ab_wakeups b)\<rparr>"

definition request_locked :: "auth_bridge \<Rightarrow> auth_bridge" where
  "request_locked b = b\<lparr>ab_requests := True\<rparr>"

datatype bridge_result =
    Bridge_token string instant
  | Bridge_error gerr
  | Bridge_block instant

definition service_limit :: "auth_bridge \<Rightarrow> instant" where
  "service_limit b =
     (let limit = ab_serviced b + sint (ab_window b) in
      if ab_deadline b < limit then ab_deadline b else limit)"

definition bridge_token :: "gerr option \<Rightarrow> instant \<Rightarrow> auth_bridge \<Rightarrow> bridge_result \<times> auth_bridge" where
  "bridge_token ctx now b =
     (case ctx of
        Some e \<Rightarrow> (Bridge_error e, b)
      | None \<Rightarrow>
          (case ab_closed b of
             Some e \<Rightarrow> (Bridge_error e, b)
           | None \<Rightarrow>
               if \<not> now < service_limit b then (Bridge_error err_refresh_service_starved, b)
               else if ab_token b \<noteq> [] \<and> now < ab_expiry b - token_safety_margin
               then (Bridge_token (ab_token b) (ab_expiry b), b)
               else (Bridge_block (service_limit b), request_locked b)))"

datatype service_start =
    Service_failed gerr
  | Service_blocked
  | Service_begun "64 word" bool

text \<open>\<open>done\<close> is the error of the 30 s service context; a begun service holds the semaphore, its
  flag says whether the shared callback cache is invalidated first. At the end the clock is read
  twice, to check the token and to note the service.\<close>

definition service_begin :: "bool \<Rightarrow> gerr option \<Rightarrow> auth_bridge \<Rightarrow> service_start \<times> auth_bridge" where
  "service_begin source_given done_err b =
     (if \<not> source_given then (Service_failed (new_error ''helm credential source unavailable''), b)
      else (case done_err of
         Some e \<Rightarrow> (Service_failed e, b)
       | None \<Rightarrow>
           if ab_servicing b then (Service_blocked, b)
           else (case ab_closed b of
              Some e \<Rightarrow> (Service_failed e, b)
            | None \<Rightarrow> (Service_begun (ab_generation b) (ab_generation b \<noteq> ab_source_generation b),
                b\<lparr>ab_servicing := True, ab_source_generation := ab_generation b\<rparr>))))"

definition service_end ::
  "64 word \<Rightarrow> gerr option \<Rightarrow> (string \<times> instant) res \<Rightarrow> instant \<Rightarrow> instant \<Rightarrow> auth_bridge \<Rightarrow>
   gerr option \<times> auth_bridge" where
  "service_end gen done_err minted now now' b =
     (let b = b\<lparr>ab_servicing := False\<rparr> in
      (case ab_closed b of
         Some e \<Rightarrow> (Some e, b)
       | None \<Rightarrow>
           (case refresh_outcome done_err minted now of
              Inl e \<Rightarrow> (Some (redact_error e), b)
            | Inr (token, expiry) \<Rightarrow>
                if gen \<noteq> ab_generation b then (None, request_locked b)
                else (None, notify_locked (b\<lparr>ab_token := token, ab_expiry := expiry, ab_serviced := now',
                        ab_requests := False\<rparr>)))))"

definition bridge_invalidate :: "auth_bridge \<Rightarrow> auth_bridge" where
  "bridge_invalidate b =
     notify_locked (request_locked (b\<lparr>ab_token := [], ab_expiry := zero_time, ab_generation := ab_generation b + 1\<rparr>))"

definition bridge_close :: "gerr option \<Rightarrow> auth_bridge \<Rightarrow> auth_bridge" where
  "bridge_close err b =
     (case ab_closed b of
        Some _ \<Rightarrow> b
      | None \<Rightarrow> notify_locked (b\<lparr>ab_closed := Some (case err of Some e \<Rightarrow> e | None \<Rightarrow> context_canceled),
           ab_token := [], ab_expiry := zero_time\<rparr>))"

subsection \<open>The window is exact\<close>

definition valid_metadata :: "operation_info \<Rightarrow> bool" where
  "valid_metadata info \<longleftrightarrow> oi_binding_id info \<noteq> [] \<and> 0 < sint (oi_call_timeout info) \<and>
     0 \<le> sint (oi_poll_interval info) \<and> 0 \<le> sint (oi_retry_delay info) \<and> 0 \<le> sint (oi_throttle_max_delay info)"

definition exact_window :: "operation_info \<Rightarrow> int" where
  "exact_window info = sint (oi_call_timeout info) +
     max (max (sint (oi_poll_interval info)) (sint (oi_retry_delay info))) (sint (oi_throttle_max_delay info)) +
     40 * second"

lemma sint_smax: "sint (smax a b) = max (sint a) (sint b)"
  by (auto simp: smax_def)

text \<open>The longest gap between two polls, and the largest gap the addition has room for.\<close>

definition poll_gap :: "operation_info \<Rightarrow> duration" where
  "poll_gap info = smax (smax (oi_poll_interval info) (oi_retry_delay info)) (oi_throttle_max_delay info)"

definition window_room :: duration where
  "window_room = word_of_int (max_duration - bridge_reserve - 30 * second)"

lemma window_constants:
  "0 < bridge_reserve" "bridge_reserve \<le> max_duration" "bridge_reserve = 40 * second"
  "sint window_room = max_duration - bridge_reserve - 30 * second"
  "sint (word_of_int bridge_reserve :: duration) = bridge_reserve"
proof -
  have bounds: "0 < bridge_reserve" "bridge_reserve \<le> max_duration" "bridge_reserve = 40 * second"
    "- (2 ^ 63) \<le> max_duration - bridge_reserve - 30 * second" "max_duration - bridge_reserve - 30 * second \<le> max_duration"
    by (simp_all add: bridge_reserve_def max_duration_def second_def)
  then show "0 < bridge_reserve" "bridge_reserve \<le> max_duration" "bridge_reserve = 40 * second"
    by simp_all
  show "sint window_room = max_duration - bridge_reserve - 30 * second"
    unfolding window_room_def using bounds by (intro sint_of_int_exact)
  show "sint (word_of_int bridge_reserve :: duration) = bridge_reserve"
    using bounds by (intro sint_of_int_exact) auto
qed

lemma poll_gap_exact:
  assumes "valid_metadata info"
  shows "0 \<le> sint (poll_gap info)" "0 < sint (oi_call_timeout info)"
    "exact_window info = sint (oi_call_timeout info) + sint (poll_gap info) + bridge_reserve"
  using assms by (simp_all add: poll_gap_def sint_smax valid_metadata_def exact_window_def window_constants(3) max_def)

lemma bridge_window_unfold:
  assumes "valid_metadata info"
  shows "bridge_window info =
    (if sint (poll_gap info) > sint window_room \<or> sint (oi_call_timeout info) > sint (window_room - poll_gap info)
     then Inl (new_error ''helm OIDC operation metadata timing overflows'')
     else Inr (oi_call_timeout info + poll_gap info + word_of_int bridge_reserve))"
  using assms by (simp add: bridge_window_def valid_metadata_def poll_gap_def window_room_def Let_def not_le not_less)

text \<open>The two comparisons are exactly the question whether the sum fits.\<close>

lemma window_guard_exact:
  assumes "valid_metadata info"
  shows "sint (poll_gap info) > sint window_room \<or> sint (oi_call_timeout info) > sint (window_room - poll_gap info) \<longleftrightarrow>
    max_duration < exact_window info + 30 * second"
proof (cases "sint (poll_gap info) > sint window_room")
  case True
  then show ?thesis using poll_gap_exact [OF assms] window_constants(4) by simp
next
  case False
  then have "sint (window_room - poll_gap info) = sint window_room - sint (poll_gap info)"
    using poll_gap_exact(1) [OF assms] window_constants by (intro sint_minus_exact) auto
  with False show ?thesis using poll_gap_exact(3) [OF assms] window_constants(4) by auto
qed

lemma window_sum_exact:
  assumes "valid_metadata info" "exact_window info + 30 * second \<le> max_duration"
  shows "sint (oi_call_timeout info + poll_gap info + word_of_int bridge_reserve) = exact_window info"
proof -
  note gap = poll_gap_exact [OF assms(1)]
  have "sint (oi_call_timeout info + poll_gap info) = sint (oi_call_timeout info) + sint (poll_gap info)"
  proof (rule sint_plus_exact)
    show "- (2 ^ 63) \<le> sint (oi_call_timeout info) + sint (poll_gap info)" using gap by simp
    show "sint (oi_call_timeout info) + sint (poll_gap info) \<le> max_duration"
      using gap assms(2) window_constants(1) second_pos by linarith
  qed
  then show ?thesis
    using sint_plus_exact [of "oi_call_timeout info + poll_gap info" "word_of_int bridge_reserve"]
      gap assms(2) window_constants second_pos by simp
qed

text \<open>The window is accepted exactly when the metadata are valid and the unbounded sum leaves 30 s
  below the largest duration, and then it is that sum: no 64-bit addition of the code wraps.\<close>

theorem bridge_window_exact:
  "bridge_window info = Inr w \<longleftrightarrow>
     valid_metadata info \<and> exact_window info + 30 * second \<le> max_duration \<and> sint w = exact_window info"
proof (cases "valid_metadata info")
  case False
  then show ?thesis by (auto simp: bridge_window_def valid_metadata_def)
next
  case True
  then have "bridge_window info = Inr w \<longleftrightarrow> exact_window info + 30 * second \<le> max_duration \<and>
      w = oi_call_timeout info + poll_gap info + word_of_int bridge_reserve"
    using bridge_window_unfold window_guard_exact by auto
  also have "\<dots> \<longleftrightarrow> exact_window info + 30 * second \<le> max_duration \<and> sint w = exact_window info"
    using window_sum_exact [OF True] signed_word_eqI by metis
  finally show ?thesis using True by simp
qed

definition sample_info :: operation_info where
  "sample_info = \<lparr>oi_binding_id = ''binding'', oi_call_timeout = word_of_int (60 * second),
     oi_poll_interval = word_of_int (10 * second), oi_retry_delay = 0, oi_throttle_max_delay = 0\<rparr>"

subsection \<open>Interleavings\<close>

text \<open>The bridge under any schedule of workers, services, invalidations (a worker's 401) and the
  worker's end. \<open>bs_epoch\<close> counts the invalidations; \<open>bs_service\<close> holds what the running service
  read and its epoch; \<open>bs_minted\<close> is the epoch of the service that supplied the token.\<close>

record bridge_sys =
  bs_bridge :: auth_bridge
  bs_service :: "(64 word \<times> nat) option"
  bs_epoch :: nat
  bs_minted :: nat
  bs_now :: instant

datatype bridge_event =
    Worker_asked bridge_result
  | Service_started service_start
  | Service_ended "gerr option"
  | Unauthorized
  | Worker_ended "gerr option"
  | Time_passed

inductive bridge_step :: "bridge_sys \<Rightarrow> bridge_event \<Rightarrow> bridge_sys \<Rightarrow> bool" where
  bridge_asked:
    "bridge_token ctx (bs_now s) (bs_bridge s) = (r, b) \<Longrightarrow>
     bridge_step s (Worker_asked r) (s\<lparr>bs_bridge := b\<rparr>)"
| bridge_started:
    "service_begin given done_err (bs_bridge s) = (r, b) \<Longrightarrow>
     bridge_step s (Service_started r) (s\<lparr>bs_bridge := b,
        bs_service := (case r of Service_begun g clear \<Rightarrow> Some (g, bs_epoch s) | _ \<Rightarrow> bs_service s)\<rparr>)"
| bridge_ended:
    "bs_service s = Some (g, n) \<Longrightarrow> bs_now s \<le> t \<Longrightarrow>
     service_end g done_err minted (bs_now s) t (bs_bridge s) = (r, b) \<Longrightarrow>
     bridge_step s (Service_ended r) (s\<lparr>bs_bridge := b, bs_service := None, bs_now := t,
        bs_minted := (if r = None \<and> g = ab_generation (bs_bridge s) then n else bs_minted s)\<rparr>)"
| bridge_unauthorized:
    "bridge_step s Unauthorized (s\<lparr>bs_bridge := bridge_invalidate (bs_bridge s), bs_epoch := Suc (bs_epoch s)\<rparr>)"
| bridge_closed: "bridge_step s (Worker_ended err) (s\<lparr>bs_bridge := bridge_close err (bs_bridge s)\<rparr>)"
| bridge_ticked: "bs_now s \<le> t \<Longrightarrow> bridge_step s Time_passed (s\<lparr>bs_now := t\<rparr>)"

inductive bridge_reachable :: "bridge_sys \<Rightarrow> bool" where
  bridge_init:
    "new_auth_bridge info fingerprint allowance deadline t = Inr b \<Longrightarrow>
     bridge_reachable \<lparr>bs_bridge = b, bs_service = None, bs_epoch = 0, bs_minted = 0, bs_now = t\<rparr>"
| bridge_next: "bridge_reachable s \<Longrightarrow> bridge_step s e s' \<Longrightarrow> bridge_reachable s'"

inductive_cases bridge_askedE: "bridge_step s (Worker_asked r) s'"

definition bridge_inv :: "bridge_sys \<Rightarrow> bool" where
  "bridge_inv s \<longleftrightarrow>
     ab_generation (bs_bridge s) = word_of_nat (bs_epoch s) \<and>
     (ab_servicing (bs_bridge s) \<longleftrightarrow> bs_service s \<noteq> None) \<and>
     (\<forall>g n. bs_service s = Some (g, n) \<longrightarrow> n \<le> bs_epoch s \<and> g = word_of_nat n) \<and>
     (ab_token (bs_bridge s) \<noteq> [] \<longrightarrow> bs_minted s = bs_epoch s \<and> ab_closed (bs_bridge s) = None) \<and>
     ab_serviced (bs_bridge s) \<le> bs_now s"

lemma bridge_token_state:
  assumes "bridge_token ctx now b = (r, b')"
  shows "ab_token b' = ab_token b \<and> ab_closed b' = ab_closed b \<and> ab_generation b' = ab_generation b \<and>
    ab_servicing b' = ab_servicing b \<and> ab_serviced b' = ab_serviced b \<and> ab_wakeups b' = ab_wakeups b"
  using assms by (auto simp: bridge_token_def request_locked_def split: option.splits if_splits)

lemma service_begin_state:
  assumes "service_begin given done_err b = (r, b')"
  shows "ab_token b' = ab_token b \<and> ab_closed b' = ab_closed b \<and> ab_generation b' = ab_generation b \<and>
    ab_serviced b' = ab_serviced b \<and> ab_wakeups b' = ab_wakeups b \<and>
    (ab_servicing b' \<longleftrightarrow> ab_servicing b \<or> (\<exists>g clear. r = Service_begun g clear)) \<and>
    (\<forall>g clear. r = Service_begun g clear \<longrightarrow> g = ab_generation b \<and> \<not> ab_servicing b \<and> ab_closed b = None)"
  using assms by (auto simp: service_begin_def split: option.splits if_splits)

lemma service_end_cases:
  assumes "service_end g done_err minted now t b = (r, b')"
  obtains (kept) "ab_token b' = ab_token b" "ab_expiry b' = ab_expiry b" "ab_serviced b' = ab_serviced b"
      "ab_wakeups b' = ab_wakeups b" "ab_closed b' = ab_closed b" "ab_generation b' = ab_generation b"
      "\<not> ab_servicing b'"
  | (renewed) token expiry where "g = ab_generation b" "ab_closed b = None" "valid_bearer token expiry now"
      "refresh_outcome done_err minted now = Inr (token, expiry)" "r = None"
      "b' = b\<lparr>ab_servicing := False, ab_token := token, ab_expiry := expiry, ab_serviced := t,
         ab_requests := False, ab_wakeups := Suc (ab_wakeups b)\<rparr>"
  using assms refresh_outcome_Inr [of done_err minted now]
  by (auto simp: service_end_def Let_def request_locked_def notify_locked_def
      split: option.splits sum.splits if_splits)

lemma bridge_inv_init:
  "new_auth_bridge info fingerprint allowance deadline t = Inr b \<Longrightarrow>
   bridge_inv \<lparr>bs_bridge = b, bs_service = None, bs_epoch = 0, bs_minted = 0, bs_now = t\<rparr>"
  by (auto simp: new_auth_bridge_def bridge_inv_def split: if_splits option.splits)

lemma bridge_inv_ended:
  assumes inv: "bridge_inv s" and small: "bs_epoch s < 2 ^ 64" and srv: "bs_service s = Some (g, n)"
    and t: "bs_now s \<le> t"
    and ended: "service_end g done_err minted (bs_now s) t (bs_bridge s) = (r, b)"
  shows "bridge_inv (s\<lparr>bs_bridge := b, bs_service := None, bs_now := t,
        bs_minted := (if r = None \<and> g = ab_generation (bs_bridge s) then n else bs_minted s)\<rparr>)"
proof -
  have g: "n \<le> bs_epoch s" "g = word_of_nat n" "ab_generation (bs_bridge s) = word_of_nat (bs_epoch s)"
    using inv srv by (auto simp: bridge_inv_def)
  have same: "g = ab_generation (bs_bridge s) \<Longrightarrow> n = bs_epoch s"
    using g word_of_nat_64_inj small by metis
  show ?thesis
  proof (rule service_end_cases [OF ended])
    assume "ab_token b = ab_token (bs_bridge s)" "ab_serviced b = ab_serviced (bs_bridge s)"
      "ab_closed b = ab_closed (bs_bridge s)" "ab_generation b = ab_generation (bs_bridge s)"
      "\<not> ab_servicing b"
    then show ?thesis using inv t same by (auto simp: bridge_inv_def)
  next
    fix token expiry
    assume "g = ab_generation (bs_bridge s)" "ab_closed (bs_bridge s) = None" "r = None"
      "b = (bs_bridge s)\<lparr>ab_servicing := False, ab_token := token, ab_expiry := expiry, ab_serviced := t,
         ab_requests := False, ab_wakeups := Suc (ab_wakeups (bs_bridge s))\<rparr>"
    then show ?thesis using inv same by (simp add: bridge_inv_def)
  qed
qed

lemma bridge_inv_step:
  assumes step: "bridge_step s e s'" and inv: "bridge_inv s" and small: "bs_epoch s < 2 ^ 64"
  shows "bridge_inv s'"
  using step
proof (cases rule: bridge_step.cases)
  case (bridge_asked ctx r b)
  then show ?thesis using bridge_token_state [OF bridge_asked(3)] inv by (auto simp: bridge_inv_def)
next
  case (bridge_started given done_err r b)
  note st = service_begin_state [OF bridge_started(3)]
  show ?thesis
  proof (cases "\<exists>g clear. r = Service_begun g clear")
    case True
    then show ?thesis using st inv bridge_started by (auto simp: bridge_inv_def)
  next
    case False
    then have "bs_service s' = bs_service s"
      using bridge_started(2) by (cases r) auto
    then show ?thesis using False st inv bridge_started(2) by (auto simp: bridge_inv_def)
  qed
next
  case (bridge_ended g n t done_err minted r b)
  then show ?thesis using bridge_inv_ended [OF inv small] by simp
next
  case bridge_unauthorized
  then show ?thesis using inv
    by (auto simp: bridge_inv_def bridge_invalidate_def notify_locked_def request_locked_def)
next
  case (bridge_closed err)
  then show ?thesis using inv
    by (auto simp: bridge_inv_def bridge_close_def notify_locked_def split: option.splits)
next
  case (bridge_ticked t)
  then show ?thesis using inv by (auto simp: bridge_inv_def)
qed

lemma bridge_epoch_mono: "bridge_step s e s' \<Longrightarrow> bs_epoch s \<le> bs_epoch s'"
  by (auto elim: bridge_step.cases)

lemma bridge_inv_reachable: "bridge_reachable s \<Longrightarrow> bs_epoch s < 2 ^ 64 \<Longrightarrow> bridge_inv s"
proof (induction rule: bridge_reachable.induct)
  case (bridge_init info fingerprint allowance deadline t b)
  then show ?case by (simp add: bridge_inv_init)
next
  case (bridge_next s e s')
  then show ?case using bridge_epoch_mono bridge_inv_step by fastforce
qed

text \<open>The bridge is a fence: a service that began under another generation leaves the token, the time
  of the last service and the generation alone.\<close>

definition service_effect ::
  "gerr option \<times> (string \<times> instant) res \<times> instant \<times> instant \<Rightarrow> unit \<Rightarrow> 64 word \<Rightarrow> auth_bridge \<Rightarrow> auth_bridge" where
  "service_effect a u g b = (case a of (done_err, minted, now, t) \<Rightarrow> snd (service_end g done_err minted now t b))"

definition bridge_view :: "auth_bridge \<Rightarrow> string \<times> instant \<times> instant \<times> gerr option \<times> 64 word" where
  "bridge_view b = (ab_token b, ab_expiry b, ab_serviced b, ab_closed b, ab_generation b)"

interpretation bridge_fence: generation_fence
  "\<lambda>b (_ :: unit). bridge_view b" "\<lambda>(_, _, _, _, g). Some g" service_effect
proof
  fix b :: auth_bridge and k :: unit and g
    and a :: "gerr option \<times> (string \<times> instant) res \<times> instant \<times> instant"
  assume "(case bridge_view b of (_, _, _, _, g) \<Rightarrow> Some g) \<noteq> Some g"
  then have stale: "g \<noteq> ab_generation b" by (auto simp: bridge_view_def)
  obtain done_err minted now t where a: "a = (done_err, minted, now, t)" by (cases a)
  obtain r b' where ended: "service_end g done_err minted now t b = (r, b')" by fastforce
  show "bridge_view (service_effect a k g b) = bridge_view b"
    by (rule service_end_cases [OF ended]) (use stale ended a in \<open>auto simp: service_effect_def bridge_view_def\<close>)
qed simp

subsection \<open>What a worker is given\<close>


definition fresh_bridge :: auth_bridge where
  "fresh_bridge = \<lparr>ab_window = word_of_int (110 * second), ab_allowance = word_of_int (600 * second),
     ab_deadline = 600 * second, ab_serviced = 0, ab_token = [], ab_expiry = zero_time, ab_closed = None,
     ab_wakeups = 0, ab_requests = False, ab_servicing = False, ab_generation = 0, ab_source_generation = 0\<rparr>"

definition serviced_bridge :: auth_bridge where
  "serviced_bridge = fresh_bridge\<lparr>ab_token := ''t'', ab_expiry := 3600 * second, ab_wakeups := 1\<rparr>"

definition serviced_sys :: bridge_sys where
  "serviced_sys = \<lparr>bs_bridge = serviced_bridge, bs_service = None, bs_epoch = 0, bs_minted = 0, bs_now = 0\<rparr>"

lemma fresh_bridge_built:
  "new_auth_bridge sample_info ''id'' (word_of_int (600 * second)) (600 * second) 0 = Inr fresh_bridge"
  by code_simp

lemma serviced_sys_reachable: "bridge_reachable serviced_sys"
proof -
  let ?s0 = "\<lparr>bs_bridge = fresh_bridge, bs_service = None, bs_epoch = 0, bs_minted = 0, bs_now = 0\<rparr>"
  let ?s1 = "?s0\<lparr>bs_bridge := fresh_bridge\<lparr>ab_servicing := True\<rparr>, bs_service := Some (0, 0)\<rparr>"
  have "service_begin True None fresh_bridge = (Service_begun 0 False, fresh_bridge\<lparr>ab_servicing := True\<rparr>)"
    by (simp add: service_begin_def fresh_bridge_def)
  then have one: "bridge_step ?s0 (Service_started (Service_begun 0 False)) ?s1"
    using bridge_started [of True None ?s0] by simp
  have "service_end 0 None (Inr (''t'', 3600 * second)) 0 0 (fresh_bridge\<lparr>ab_servicing := True\<rparr>) =
      (None, serviced_bridge)"
    by code_simp
  then have two: "bridge_step ?s1 (Service_ended None) serviced_sys"
    using bridge_ended [of ?s1 0 0 0 None "Inr (''t'', 3600 * second)"]
    by (simp add: serviced_sys_def) (simp add: fresh_bridge_def)
  show ?thesis
    using bridge_next [OF bridge_next [OF bridge_init [OF fresh_bridge_built] one] two] .
qed


text \<open>A worker that blocked is woken by every event after which its next turn could end: nothing but
  the clock, its own context and the events that close \<open>changed\<close> can end its wait.\<close>

lemma no_lost_wakeup:
  assumes step: "bridge_step s e s'" and blocked: "fst (bridge_token None now (bs_bridge s)) = Bridge_block limit"
    and ends: "fst (bridge_token None now (bs_bridge s')) \<noteq> Bridge_block limit"
  shows "ab_wakeups (bs_bridge s) < ab_wakeups (bs_bridge s')"
  using step
proof (cases rule: bridge_step.cases)
  case (bridge_asked ctx r b)
  then have "bridge_token None now (bs_bridge s') = bridge_token None now b" by simp
  moreover have "ab_expiry b = ab_expiry (bs_bridge s)" "ab_window b = ab_window (bs_bridge s)"
    "ab_deadline b = ab_deadline (bs_bridge s)"
    using bridge_asked(3) by (auto simp: bridge_token_def request_locked_def split: option.splits if_splits)
  ultimately show ?thesis
    using ends blocked bridge_token_state [OF bridge_asked(3)]
    by (auto simp: bridge_token_def service_limit_def Let_def split: option.splits if_splits)
next
  case (bridge_started given done_err r b)
  then have "ab_expiry b = ab_expiry (bs_bridge s)" "ab_window b = ab_window (bs_bridge s)"
    "ab_deadline b = ab_deadline (bs_bridge s)"
    by (auto simp: service_begin_def split: option.splits if_splits)
  then show ?thesis
    using ends blocked service_begin_state [OF bridge_started(3)] bridge_started(2)
    by (auto simp: bridge_token_def service_limit_def Let_def split: option.splits if_splits)
next
  case (bridge_ended g n t done_err minted r b)
  show ?thesis
  proof (rule service_end_cases [OF bridge_ended(5)])
    assume same: "ab_token b = ab_token (bs_bridge s)" "ab_expiry b = ab_expiry (bs_bridge s)"
      "ab_serviced b = ab_serviced (bs_bridge s)" "ab_closed b = ab_closed (bs_bridge s)"
    have "ab_window b = ab_window (bs_bridge s)" "ab_deadline b = ab_deadline (bs_bridge s)"
      using bridge_ended(5)
      by (auto simp: service_end_def Let_def request_locked_def notify_locked_def
          split: option.splits sum.splits if_splits)
    then show ?thesis using ends blocked same bridge_ended(2)
      by (auto simp: bridge_token_def service_limit_def Let_def split: option.splits if_splits)
  next
    fix token expiry
    assume "b = (bs_bridge s)\<lparr>ab_servicing := False, ab_token := token, ab_expiry := expiry, ab_serviced := t,
         ab_requests := False, ab_wakeups := Suc (ab_wakeups (bs_bridge s))\<rparr>"
    then show ?thesis using bridge_ended(2) by simp
  qed
next
  case bridge_unauthorized
  then show ?thesis by (simp add: bridge_invalidate_def notify_locked_def request_locked_def)
next
  case (bridge_closed err)
  then show ?thesis using blocked
    by (auto simp: bridge_close_def notify_locked_def bridge_token_def split: option.splits if_splits)
next
  case (bridge_ticked t)
  then show ?thesis using ends blocked by simp
qed

text \<open>A closed bridge stays closed with its first error, whatever happens.\<close>

lemma closed_is_final:
  "bridge_step s e s' \<Longrightarrow> ab_closed (bs_bridge s) = Some err \<Longrightarrow> ab_closed (bs_bridge s') = Some err"
  by (erule bridge_step.cases)
    (auto dest: bridge_token_state service_begin_state elim: service_end_cases
      simp: bridge_invalidate_def notify_locked_def request_locked_def bridge_close_def)

end
