(* ===== verification/Flights.thy ===== *)
theory Flights
  imports Auth_Bridge Lifecycle Native_Id "HOL-Library.Multiset"
begin

text \<open>
  The registry of the Helm operations this process runs (\<open>pkg/resources/helm/inflight.go\<close>,
  \<open>flight_lifecycle.go\<close>). Every exported operation is one critical section of \<open>flightMu\<close> on the
  registry record. A flight's bridge is an address in \<open>rg_bridges\<close>, its \<open>cancel\<close> a handle whose
  calls are logged in \<open>rg_cancelled\<close>. The state machine \<open>flight_step\<close> interleaves the sections as
  \<open>release.go\<close> calls them.
\<close>

datatype op_kind = Kind_none | Kind_install | Kind_upgrade | Kind_delete

fun op_text :: "op_kind \<Rightarrow> string" where
  "op_text Kind_none = []"
| "op_text Kind_install = ''install''"
| "op_text Kind_upgrade = ''upgrade''"
| "op_text Kind_delete = ''delete''"

record flight =
  fl_op :: op_kind
  fl_request_op :: op_kind
  fl_revision :: int
  fl_fingerprint :: string
  fl_auth_fingerprint :: string
  fl_binding_id :: string
  fl_generation :: string
  fl_bridge :: "nat option"
  fl_preparing :: bool
  fl_stopping :: bool
  fl_finished :: bool
  fl_status_readers :: nat
  fl_reported :: bool
  fl_outcome :: "gerr option"
  fl_finished_at :: instant
  fl_started :: instant
  fl_deadline :: instant
  fl_cancel :: "nat option"

record registry =
  rg_flights :: "(string \<times> flight) list"
  rg_drains :: nat
  rg_bridges :: "(nat \<times> auth_bridge) list"
  rg_cancelled :: "nat list"

definition empty_registry :: registry where
  "empty_registry = \<lparr>rg_flights = [], rg_drains = 0, rg_bridges = [], rg_cancelled = []\<rparr>"

abbreviation flight_at :: "registry \<Rightarrow> string \<Rightarrow> flight option" where
  "flight_at rg \<equiv> map_of (rg_flights rg)"

definition put_flight :: "string \<Rightarrow> flight \<Rightarrow> registry \<Rightarrow> registry" where
  "put_flight key f rg = rg\<lparr>rg_flights := AList.update key f (rg_flights rg)\<rparr>"

definition drop_flight :: "string \<Rightarrow> registry \<Rightarrow> registry" where
  "drop_flight key rg = rg\<lparr>rg_flights := del_key key (rg_flights rg)\<rparr>"

text \<open>The end of a flight's story: reported, and out of the registry unless a reader retains it.\<close>

definition report_flight :: "string \<Rightarrow> flight \<Rightarrow> registry \<Rightarrow> registry" where
  "report_flight key f rg =
     (if fl_status_readers f = 0 then drop_flight key rg else put_flight key (f\<lparr>fl_reported := True\<rparr>) rg)"

definition flight_key :: "string \<Rightarrow> string \<Rightarrow> string \<Rightarrow> string option" where
  "flight_key scope ns name = (if scope = [] then None else Some (scope @ ''|'' @ native_id ns name))"

definition at_key :: "string \<Rightarrow> string \<Rightarrow> string \<Rightarrow> 'r \<Rightarrow> (string \<Rightarrow> 'r) \<Rightarrow> 'r" where
  "at_key scope ns name missing act = (case flight_key scope ns name of None \<Rightarrow> missing | Some key \<Rightarrow> act key)"

subsection \<open>Reservation\<close>

definition matches_rejoin :: "flight \<Rightarrow> flight \<Rightarrow> bool" where
  "matches_rejoin existing wanted \<longleftrightarrow>
     (if fl_preparing existing \<or> fl_auth_fingerprint existing \<noteq> fl_auth_fingerprint wanted \<or>
         fl_binding_id existing \<noteq> fl_binding_id wanted then False
      else if fl_op wanted = Kind_delete then fl_op existing = Kind_delete
      else fl_request_op existing = fl_request_op wanted \<and> fl_fingerprint existing = fl_fingerprint wanted)"

definition retain_reader :: "flight \<Rightarrow> flight" where
  "retain_reader f = f\<lparr>fl_status_readers := Suc (fl_status_readers f)\<rparr>"

definition reserve_flight_matching ::
  "string \<Rightarrow> flight \<Rightarrow> (flight \<Rightarrow> bool) \<Rightarrow> instant \<Rightarrow> registry \<Rightarrow> (flight option \<times> bool) \<times> registry" where
  "reserve_flight_matching key f retain now rg =
     (let f = (if is_zero_time (fl_started f) then f\<lparr>fl_started := now\<rparr> else f) in
      if rg_drains rg > 0 then ((None, False), rg)
      else (case flight_at rg key of
         Some existing \<Rightarrow>
           let existing = (if retain existing then retain_reader existing else existing)
           in ((Some existing, False), put_flight key existing rg)
       | None \<Rightarrow> ((Some f, True), put_flight key f rg)))"

definition reserve_rejoin_flight ::
  "string \<Rightarrow> string \<Rightarrow> string \<Rightarrow> flight \<Rightarrow> instant \<Rightarrow> registry \<Rightarrow> (flight option \<times> bool) \<times> registry" where
  "reserve_rejoin_flight scope ns name f now rg =
     at_key scope ns name ((None, False), rg)
       (\<lambda>key. reserve_flight_matching key f (\<lambda>existing. matches_rejoin existing f) now rg)"

definition lookup_flight :: "string \<Rightarrow> string \<Rightarrow> string \<Rightarrow> registry \<Rightarrow> flight option" where
  "lookup_flight scope ns name rg = at_key scope ns name None (flight_at rg)"

text \<open>A Status read retains a flight that matches the request entirely.\<close>

definition matches_status :: "flight \<Rightarrow> string \<Rightarrow> flight \<Rightarrow> bool" where
  "matches_status f requested candidate \<longleftrightarrow>
     \<not> fl_preparing f \<and> fl_generation f = requested \<and> fl_op f = fl_op candidate \<and>
     fl_revision f = fl_revision candidate \<and> fl_auth_fingerprint f = fl_auth_fingerprint candidate \<and>
     fl_binding_id f = fl_binding_id candidate"

definition acquire_status_at ::
  "string \<Rightarrow> string \<Rightarrow> flight \<Rightarrow> registry \<Rightarrow> (flight option \<times> bool) \<times> registry" where
  "acquire_status_at key requested candidate rg =
     (if rg_drains rg > 0 then ((None, False), rg)
      else (case flight_at rg key of
         None \<Rightarrow> ((Some candidate, True), put_flight key candidate rg)
       | Some f \<Rightarrow>
           let f = (if matches_status f requested candidate then retain_reader f else f)
           in ((Some f, False), put_flight key f rg)))"

definition acquire_status_flight ::
  "string \<Rightarrow> string \<Rightarrow> string \<Rightarrow> string \<Rightarrow> flight \<Rightarrow> registry \<Rightarrow> (flight option \<times> bool) \<times> registry" where
  "acquire_status_flight scope ns name requested candidate rg =
     at_key scope ns name ((None, False), rg) (\<lambda>key. acquire_status_at key requested candidate rg)"

subsection \<open>Owned updates\<close>

text \<open>Every later section looks the flight up under its key and generation.\<close>

definition owned_flight :: "string \<Rightarrow> string \<Rightarrow> registry \<Rightarrow> flight option" where
  "owned_flight key gen rg =
     (case flight_at rg key of Some f \<Rightarrow> if fl_generation f = gen then Some f else None | None \<Rightarrow> None)"

definition remove_owned_at :: "string \<Rightarrow> string \<Rightarrow> registry \<Rightarrow> registry" where
  "remove_owned_at key gen rg =
     (case owned_flight key gen rg of Some f \<Rightarrow> report_flight key f rg | None \<Rightarrow> rg)"

definition remove_owned_flight :: "string \<Rightarrow> string \<Rightarrow> string \<Rightarrow> string \<Rightarrow> registry \<Rightarrow> registry" where
  "remove_owned_flight scope ns name gen rg = at_key scope ns name rg (\<lambda>key. remove_owned_at key gen rg)"

definition release_status_at :: "string \<Rightarrow> string \<Rightarrow> registry \<Rightarrow> registry" where
  "release_status_at key gen rg =
     (case owned_flight key gen rg of
        Some f \<Rightarrow>
          let f = (if fl_status_readers f > 0 then f\<lparr>fl_status_readers := fl_status_readers f - 1\<rparr> else f)
          in if fl_status_readers f = 0 \<and> fl_reported f then drop_flight key rg else put_flight key f rg
      | None \<Rightarrow> rg)"

definition release_status_flight :: "string \<Rightarrow> string \<Rightarrow> string \<Rightarrow> string \<Rightarrow> registry \<Rightarrow> registry" where
  "release_status_flight scope ns name gen rg = at_key scope ns name rg (\<lambda>key. release_status_at key gen rg)"

definition close_flight_bridge :: "nat option \<Rightarrow> gerr option \<Rightarrow> registry \<Rightarrow> registry" where
  "close_flight_bridge addr err rg =
     (case addr of
        None \<Rightarrow> rg
      | Some a \<Rightarrow> rg\<lparr>rg_bridges := map (\<lambda>(a', b). (a', if a' = a then bridge_close err b else b)) (rg_bridges rg)\<rparr>)"

definition update_owned_at :: "string \<Rightarrow> string \<Rightarrow> (flight \<Rightarrow> flight) \<Rightarrow> registry \<Rightarrow> registry" where
  "update_owned_at key gen upd rg =
     (case owned_flight key gen rg of Some f \<Rightarrow> put_flight key (upd f) rg | None \<Rightarrow> rg)"

definition finish_update :: "gerr option \<Rightarrow> instant \<Rightarrow> flight \<Rightarrow> flight" where
  "finish_update err now f =
     (if fl_finished f then f
      else f\<lparr>fl_finished := True, fl_finished_at := now, fl_outcome := err, fl_cancel := None\<rparr>)"

definition finish_flight_at :: "string \<Rightarrow> string \<Rightarrow> gerr option \<Rightarrow> instant \<Rightarrow> registry \<Rightarrow> registry" where
  "finish_flight_at key gen err now rg =
     (case owned_flight key gen rg of
        None \<Rightarrow> rg
      | Some f \<Rightarrow>
          let rg = update_owned_at key gen (finish_update err now) rg
          in if fl_finished f then rg else close_flight_bridge (fl_bridge f) err rg)"

definition finish_flight ::
  "string \<Rightarrow> string \<Rightarrow> string \<Rightarrow> string \<Rightarrow> gerr option \<Rightarrow> instant \<Rightarrow> registry \<Rightarrow> registry" where
  "finish_flight scope ns name gen err now rg =
     at_key scope ns name rg (\<lambda>key. finish_flight_at key gen err now rg)"

definition activate_flight_at ::
  "string \<Rightarrow> string \<Rightarrow> nat \<Rightarrow> (flight \<Rightarrow> flight) \<Rightarrow> registry \<Rightarrow> flight option \<times> registry" where
  "activate_flight_at key gen cancel upd rg =
     (case owned_flight key gen rg of
        None \<Rightarrow> (None, rg)
      | Some f \<Rightarrow>
          if fl_stopping f \<or> rg_drains rg > 0 then (None, rg)
          else let f = (upd f)\<lparr>fl_cancel := Some cancel, fl_preparing := False\<rparr> in (Some f, put_flight key f rg))"

definition activate_flight ::
  "string \<Rightarrow> string \<Rightarrow> string \<Rightarrow> string \<Rightarrow> nat \<Rightarrow> (flight \<Rightarrow> flight) \<Rightarrow> registry \<Rightarrow> flight option \<times> registry" where
  "activate_flight scope ns name gen cancel upd rg =
     at_key scope ns name (None, rg) (\<lambda>key. activate_flight_at key gen cancel upd rg)"

text \<open>\<open>errors.Is\<close> between two error values: the same one, or a wrapping of it.\<close>

definition errors_is_value :: "gerr \<Rightarrow> gerr \<Rightarrow> bool" where
  "errors_is_value e target \<longleftrightarrow>
     e = target \<or> e = wrap_error (take (length (err_msg e) - (length (err_msg target) + 2)) (err_msg e)) target"

definition consume_synchronous_at :: "string \<Rightarrow> string \<Rightarrow> gerr \<Rightarrow> registry \<Rightarrow> registry" where
  "consume_synchronous_at key gen reported rg =
     (case owned_flight key gen rg of
        None \<Rightarrow> rg
      | Some f \<Rightarrow>
          (case fl_outcome f of
             Some out \<Rightarrow> if fl_finished f \<and> errors_is_value reported out then report_flight key f rg else rg
           | None \<Rightarrow> rg))"

definition consume_synchronous_failure ::
  "string \<Rightarrow> string \<Rightarrow> string \<Rightarrow> string \<Rightarrow> gerr \<Rightarrow> registry \<Rightarrow> registry" where
  "consume_synchronous_failure scope ns name gen reported rg =
     at_key scope ns name rg (\<lambda>key. consume_synchronous_at key gen reported rg)"

subsection \<open>Draining\<close>

text \<open>\<open>DrainInFlight\<close> up to the unlock and the cancel calls, one poll of its loop, its exit.\<close>

definition drain_mark :: "flight \<Rightarrow> flight" where
  "drain_mark f = (if fl_finished f then f\<lparr>fl_cancel := None\<rparr> else f\<lparr>fl_stopping := True, fl_cancel := None\<rparr>)"

definition pending_cancels :: "(string \<times> flight) list \<Rightarrow> nat list" where
  "pending_cancels fs = concat (map (\<lambda>(key, f). case fl_cancel f of Some c \<Rightarrow> [c] | None \<Rightarrow> []) fs)"

definition drain_begin :: "registry \<Rightarrow> registry" where
  "drain_begin rg = rg\<lparr>rg_drains := Suc (rg_drains rg),
     rg_flights := map (\<lambda>(key, f). (key, drain_mark f)) (rg_flights rg),
     rg_cancelled := rg_cancelled rg @ pending_cancels (rg_flights rg)\<rparr>"

definition drain_poll :: "instant \<Rightarrow> instant \<Rightarrow> registry \<Rightarrow> bool option" where
  "drain_poll now deadline rg =
     (if list_all (\<lambda>(key, f). fl_finished f) (rg_flights rg) then Some True
      else if deadline < now then Some False else None)"

definition drain_end :: "registry \<Rightarrow> registry" where
  "drain_end rg = rg\<lparr>rg_drains := rg_drains rg - 1\<rparr>"

subsection \<open>Results\<close>

definition request_id :: "string \<Rightarrow> string \<Rightarrow> int \<Rightarrow> op_kind \<Rightarrow> string" where
  "request_id ns name revision op = ns @ ''/'' @ name @ ''@'' @ itoa revision @ '':'' @ op_text op"

definition flight_request_id :: "string \<Rightarrow> string \<Rightarrow> flight \<Rightarrow> string" where
  "flight_request_id ns name f = request_id ns name (fl_revision f) (fl_op f) @ ''#'' @ fl_generation f"

text \<open>\<open>uuid.Parse\<close> accepting its argument is a parameter.\<close>

definition request_generation :: "(string \<Rightarrow> bool) \<Rightarrow> string \<Rightarrow> string res" where
  "request_generation uuid_ok rid =
     (case cut_char CHR ''#'' rid of
        None \<Rightarrow> Inr []
      | Some (before, gen) \<Rightarrow>
          if uuid_ok gen then Inr gen else Inl (new_error ''malformed Helm flight generation''))"

definition native_id_unless :: "bool \<Rightarrow> string \<Rightarrow> string \<Rightarrow> string" where
  "native_id_unless withhold ns name = (if withhold then [] else native_id ns name)"

definition in_progress_result :: "string \<Rightarrow> string \<Rightarrow> raw \<Rightarrow> string \<Rightarrow> progress" where
  "in_progress_result nid rid props msg = (empty_progress OpCheckStatus StInProgress)
     \<lparr>pr_request_id := rid, pr_native_id := nid, pr_properties := props, pr_message := msg\<rparr>"

definition failure_result :: "string \<Rightarrow> error_code \<Rightarrow> string \<Rightarrow> progress" where
  "failure_result nid code msg = (empty_progress OpCheckStatus StFailure)
     \<lparr>pr_native_id := nid, pr_code := code, pr_message := msg\<rparr>"

text \<open>These two leave the \<open>Operation\<close> field unset.\<close>

definition flight_conflict :: "string \<Rightarrow> string \<Rightarrow> progress" where
  "flight_conflict ns name = (empty_progress OpUnset StFailure)
     \<lparr>pr_code := ResourceConflict, pr_message := ''release '' @ ns @ ''/'' @ name @
        '' belongs to a different or still preparing Helm operation''\<rparr>"

definition flight_progress :: "string \<Rightarrow> string \<Rightarrow> flight \<Rightarrow> bool \<Rightarrow> progress" where
  "flight_progress ns name f is_create = (empty_progress OpUnset StInProgress)
     \<lparr>pr_native_id := native_id_unless is_create ns name, pr_request_id := flight_request_id ns name f,
      pr_message := ''Helm operation running''\<rparr>"

definition outcome_failure :: "string \<Rightarrow> string \<Rightarrow> op_kind \<Rightarrow> gerr \<Rightarrow> progress" where
  "outcome_failure ns name op out = failure_result (native_id_unless (op = Kind_install) ns name)
     GeneralServiceException (''Helm operation failed: '' @ err_msg out)"

text \<open>A status result is a pointer to a struct holding a pointer: \<open>progress option option\<close>.\<close>

definition reconcile_flight_at ::
  "string \<Rightarrow> string \<Rightarrow> string \<Rightarrow> string \<Rightarrow> string \<Rightarrow> progress option option \<Rightarrow> registry \<Rightarrow>
   progress option option \<times> registry" where
  "reconcile_flight_at key ns name gen rid result rg =
     (case owned_flight key gen rg of
        None \<Rightarrow> (case result of None \<Rightarrow> Some (Some (flight_conflict ns name)) | Some r \<Rightarrow> Some r, rg)
      | Some f \<Rightarrow>
          (case (if fl_finished f then fl_outcome f else None) of
             Some out \<Rightarrow> (Some (Some (outcome_failure ns name (fl_op f) out)), report_flight key f rg)
           | None \<Rightarrow>
               if (case result of Some (Some pr) \<Rightarrow> pr_status pr = StInProgress | _ \<Rightarrow> True) then (result, rg)
               else if \<not> fl_finished f
               then (Some (Some (in_progress_result (native_id_unless (fl_op f = Kind_install) ns name) rid None
                       ''waiting for Helm worker completion'')), rg)
               else (result, report_flight key f rg)))"

definition reconcile_flight_result ::
  "string \<Rightarrow> string \<Rightarrow> string \<Rightarrow> string \<Rightarrow> string \<Rightarrow> progress option option \<Rightarrow> registry \<Rightarrow>
   progress option option \<times> registry" where
  "reconcile_flight_result scope ns name gen rid result rg =
     at_key scope ns name (result, rg) (\<lambda>key. reconcile_flight_at key ns name gen rid result rg)"

definition is_flight_service_error :: "gerr option \<Rightarrow> bool" where
  "is_flight_service_error err \<longleftrightarrow>
     is_transient err \<or> (case err of Some e \<Rightarrow> errors_is e ErrCredentialInternal | None \<Rightarrow> False)"

text \<open>The action deadline has passed; a zero deadline never does.\<close>

definition deadline_passed :: "instant \<Rightarrow> flight \<Rightarrow> bool" where
  "deadline_passed now f \<longleftrightarrow> \<not> is_zero_time (fl_deadline f) \<and> \<not> now < fl_deadline f"

definition call_cancel :: "nat option \<Rightarrow> registry \<Rightarrow> registry" where
  "call_cancel c rg = (case c of Some h \<Rightarrow> rg\<lparr>rg_cancelled := rg_cancelled rg @ [h]\<rparr> | None \<Rightarrow> rg)"

definition progress_after_flight_error ::
  "string \<Rightarrow> string \<Rightarrow> string \<Rightarrow> flight \<Rightarrow> bool \<Rightarrow> gerr \<Rightarrow> instant \<Rightarrow> registry \<Rightarrow>
   (progress option \<times> gerr option) \<times> registry" where
  "progress_after_flight_error scope ns name owned is_create err now rg =
     (case lookup_flight scope ns name rg of
        None \<Rightarrow> ((Some (flight_conflict ns name), None), rg)
      | Some f \<Rightarrow>
          if fl_generation f \<noteq> fl_generation owned then ((Some (flight_conflict ns name), None), rg)
          else (case (if fl_finished f then fl_outcome f else None) of
             Some out \<Rightarrow> ((None, Some out), consume_synchronous_failure scope ns name (fl_generation f) out rg)
           | None \<Rightarrow>
               if \<not> fl_finished f \<and> deadline_passed now f
               then ((Some (failure_result (native_id_unless is_create ns name) GeneralServiceException
                        ''Helm action deadline exhausted''), None), call_cancel (fl_cancel f) rg)
               else if is_flight_service_error (Some err)
               then ((Some (flight_progress ns name f is_create), None), rg)
               else ((None, Some err), rg)))"

text \<open>\<open>serviceFlight\<close> after \<open>Service\<close> returned \<open>err\<close>.\<close>

definition service_flight ::
  "string \<Rightarrow> string \<Rightarrow> string \<Rightarrow> flight \<Rightarrow> gerr option \<Rightarrow> registry \<Rightarrow> flight option \<times> gerr option" where
  "service_flight scope ns name f err rg =
     (case lookup_flight scope ns name rg of
        None \<Rightarrow> (None, err)
      | Some fresh \<Rightarrow>
          if fl_generation fresh = fl_generation f \<and> fl_finished fresh then (Some fresh, None)
          else (Some fresh, err))"

text \<open>One entry matches: its generation is unpredictable, so the order of the map does not matter.\<close>

definition matches_unidentified ::
  "string \<Rightarrow> string \<Rightarrow> int \<Rightarrow> op_kind \<Rightarrow> string \<Rightarrow> string \<Rightarrow> string \<Rightarrow> string \<times> flight \<Rightarrow> bool" where
  "matches_unidentified ns name revision op gen identity binding kf \<longleftrightarrow>
     (case kf of (key, f) \<Rightarrow>
        has_suffix key (''|'' @ ns @ ''/'' @ name) \<and> \<not> fl_preparing f \<and> fl_generation f = gen \<and>
        fl_op f = op \<and> fl_revision f = revision \<and> fl_auth_fingerprint f = identity \<and> fl_binding_id f = binding)"

definition observe_unidentified_flight ::
  "string \<Rightarrow> string \<Rightarrow> int \<Rightarrow> op_kind \<Rightarrow> string \<Rightarrow> string \<Rightarrow> string \<Rightarrow> string \<Rightarrow> instant \<Rightarrow> registry \<Rightarrow> progress" where
  "observe_unidentified_flight ns name revision op gen identity binding rid now rg =
     (let native = native_id_unless (op = Kind_install) ns name;
          hit = (if gen \<noteq> [] \<and> identity \<noteq> []
                 then find (matches_unidentified ns name revision op gen identity binding) (rg_flights rg) else None)
      in (case hit of
            Some (key, f) \<Rightarrow>
              (case (if fl_finished f then fl_outcome f else None) of
                 Some out \<Rightarrow> failure_result native GeneralServiceException (''Helm operation failed: '' @ err_msg out)
               | None \<Rightarrow>
                   if is_zero_time (fl_deadline f) \<or> \<not> now < fl_deadline f
                   then failure_result native GeneralServiceException
                     ''Helm action deadline exhausted while cluster identity was unavailable; inspect the release before retrying''
                   else in_progress_result native rid None
                     ''temporary Helm service failure; retrying status within the retained action deadline'')
          | None \<Rightarrow> failure_result native GeneralServiceException
              ''cluster identity unavailable and no matching bounded Helm generation retained; retry with a fresh authorized operation''))"

subsection \<open>Effects on the entries\<close>

text \<open>What each section does to the entry under its own key; \<open>flight_simps\<close> collects them.\<close>

lemma flight_at_put [flight_simps]: "flight_at (put_flight key f rg) = (flight_at rg)(key \<mapsto> f)"
  by (simp add: put_flight_def)

lemma flight_at_drop [flight_simps]: "flight_at (drop_flight key rg) = (flight_at rg)(key := None)"
  by (simp add: drop_flight_def)

lemma flight_at_report [flight_simps]:
  "flight_at (report_flight key f rg) =
     (flight_at rg)(key := if fl_status_readers f = 0 then None else Some (f\<lparr>fl_reported := True\<rparr>))"
  by (simp add: report_flight_def flight_at_put flight_at_drop)

lemma flight_at_close [flight_simps]: "flight_at (close_flight_bridge a err rg) = flight_at rg"
  by (simp add: close_flight_bridge_def split: option.split)

lemma flight_at_call_cancel [flight_simps]: "flight_at (call_cancel c rg) = flight_at rg"
  by (simp add: call_cancel_def split: option.split)

lemma flight_at_drain_begin [flight_simps]:
  "flight_at (drain_begin rg) key = map_option drain_mark (flight_at rg key)"
  by (simp add: drain_begin_def)

lemma flight_at_drain_end [flight_simps]: "flight_at (drain_end rg) = flight_at rg"
  by (simp add: drain_end_def)

lemma owned_flight_iff:
  "owned_flight key gen rg = Some f \<longleftrightarrow> flight_at rg key = Some f \<and> fl_generation f = gen"
  by (auto simp: owned_flight_def split: option.splits)

lemma owned_flight_None:
  "owned_flight key gen rg = None \<longleftrightarrow> map_option fl_generation (flight_at rg key) \<noteq> Some gen"
  by (auto simp: owned_flight_def split: option.splits)

text \<open>One step on the entry, the rest of the map untouched.\<close>

definition entry_after :: "(flight \<Rightarrow> flight option) \<Rightarrow> string \<Rightarrow> flight option \<Rightarrow> flight option" where
  "entry_after upd gen fo =
     (case fo of Some f \<Rightarrow> if fl_generation f = gen then upd f else Some f | None \<Rightarrow> None)"

definition report_entry :: "flight \<Rightarrow> flight option" where
  "report_entry f = (if fl_status_readers f = 0 then None else Some (f\<lparr>fl_reported := True\<rparr>))"

definition release_entry :: "flight \<Rightarrow> flight option" where
  "release_entry f =
     (let f = f\<lparr>fl_status_readers := fl_status_readers f - 1\<rparr>
      in if fl_status_readers f = 0 \<and> fl_reported f then None else Some f)"

lemma upd_same: "fo = m k \<Longrightarrow> m(k := fo) = m"
  by auto

lemma entry_remove:
  "flight_at (remove_owned_at key gen rg) =
     (flight_at rg)(key := entry_after report_entry gen (flight_at rg key))"
  by (auto simp: remove_owned_at_def entry_after_def report_entry_def owned_flight_def flight_simps
      intro!: upd_same [symmetric] split: option.split)

lemma entry_release:
  "flight_at (release_status_at key gen rg) =
     (flight_at rg)(key := entry_after release_entry gen (flight_at rg key))"
proof (cases "owned_flight key gen rg")
  case None
  then show ?thesis
    by (auto simp: release_status_at_def entry_after_def owned_flight_def intro!: upd_same [symmetric] split: option.splits if_splits)
next
  case (Some f)
  then have "flight_at rg key = Some f" "fl_generation f = gen" by (simp_all add: owned_flight_iff)
  then show ?thesis using Some
    by (auto simp: release_status_at_def entry_after_def release_entry_def Let_def flight_simps fun_eq_iff)
qed

lemma entry_finish:
  "flight_at (finish_flight_at key gen err now rg) =
     (flight_at rg)(key := entry_after (\<lambda>f. Some (finish_update err now f)) gen (flight_at rg key))"
proof (cases "owned_flight key gen rg")
  case None
  then show ?thesis
    by (auto simp: finish_flight_at_def entry_after_def owned_flight_def intro!: upd_same [symmetric] split: option.splits if_splits)
next
  case (Some f)
  then have "flight_at rg key = Some f" "fl_generation f = gen" by (simp_all add: owned_flight_iff)
  then show ?thesis using Some
    by (auto simp: finish_flight_at_def update_owned_at_def entry_after_def Let_def flight_simps)
qed

lemma entry_activate:
  assumes "activate_flight_at key gen cancel upd rg = (Some f, rg')"
  obtains f0 where "flight_at rg key = Some f0" "fl_generation f0 = gen" "\<not> fl_stopping f0" "rg_drains rg = 0"
    "f = (upd f0)\<lparr>fl_cancel := Some cancel, fl_preparing := False\<rparr>" "flight_at rg' = (flight_at rg)(key \<mapsto> f)"
  using assms
  by (auto simp: activate_flight_at_def Let_def flight_simps owned_flight_iff split: option.splits if_splits)

lemma activate_fails:
  "activate_flight_at key gen cancel upd rg = (None, rg') \<Longrightarrow> rg' = rg"
  by (auto simp: activate_flight_at_def Let_def split: option.splits if_splits)

definition consumes :: "gerr \<Rightarrow> flight \<Rightarrow> bool" where
  "consumes reported f \<longleftrightarrow>
     fl_finished f \<and> (case fl_outcome f of Some out \<Rightarrow> errors_is_value reported out | None \<Rightarrow> False)"

lemma entry_consume:
  "flight_at (consume_synchronous_at key gen reported rg) =
     (flight_at rg)(key := entry_after (\<lambda>f. if consumes reported f then report_entry f else Some f) gen
        (flight_at rg key))"
proof (cases "owned_flight key gen rg")
  case None
  then show ?thesis
    by (auto simp: consume_synchronous_at_def entry_after_def owned_flight_def intro!: upd_same [symmetric] split: option.splits if_splits)
next
  case (Some f)
  then have "flight_at rg key = Some f" "fl_generation f = gen" by (simp_all add: owned_flight_iff)
  then show ?thesis using Some
    by (auto simp: consume_synchronous_at_def entry_after_def consumes_def report_entry_def flight_simps
        intro!: upd_same [symmetric] split: option.split)
qed

definition reconciles :: "progress option option \<Rightarrow> flight \<Rightarrow> bool" where
  "reconciles result f \<longleftrightarrow> fl_finished f \<and>
     (fl_outcome f \<noteq> None \<or> (\<exists>pr. result = Some (Some pr) \<and> pr_status pr \<noteq> StInProgress))"

lemma entry_reconcile:
  "flight_at (snd (reconcile_flight_at key ns name gen rid result rg)) =
     (flight_at rg)(key := entry_after (\<lambda>f. if reconciles result f then report_entry f else Some f) gen
        (flight_at rg key))"
proof (cases "owned_flight key gen rg")
  case None
  then show ?thesis
    by (auto simp: reconcile_flight_at_def entry_after_def owned_flight_def intro!: upd_same [symmetric] split: option.splits if_splits)
next
  case (Some f)
  then have "flight_at rg key = Some f" "fl_generation f = gen" by (simp_all add: owned_flight_iff)
  then show ?thesis using Some
    by (auto simp: reconcile_flight_at_def entry_after_def reconciles_def report_entry_def flight_simps
        intro!: upd_same [symmetric] split: option.splits)
qed

subsection \<open>Late work is fenced\<close>

text \<open>What a worker, a timer or a callback of one generation may still do after it is gone.\<close>

datatype late_work =
    Late_finish "gerr option" instant
  | Late_removal
  | Late_release
  | Late_consume gerr
  | Late_activation nat "flight \<Rightarrow> flight"
  | Late_report string string string "progress option option"

fun late_effect :: "late_work \<Rightarrow> string \<Rightarrow> string \<Rightarrow> registry \<Rightarrow> registry" where
  "late_effect (Late_finish err now) key gen rg = finish_flight_at key gen err now rg"
| "late_effect Late_removal key gen rg = remove_owned_at key gen rg"
| "late_effect Late_release key gen rg = release_status_at key gen rg"
| "late_effect (Late_consume e) key gen rg = consume_synchronous_at key gen e rg"
| "late_effect (Late_activation c upd) key gen rg = snd (activate_flight_at key gen c upd rg)"
| "late_effect (Late_report ns name rid result) key gen rg = snd (reconcile_flight_at key ns name gen rid result rg)"

lemma activate_entry:
  "flight_at (snd (activate_flight_at key gen c upd rg)) k =
     (if k = key \<and> fst (activate_flight_at key gen c upd rg) \<noteq> None
      then fst (activate_flight_at key gen c upd rg) else flight_at rg k)"
  by (auto simp: activate_flight_at_def Let_def flight_simps split: option.splits)

lemma late_effect_entry:
  "k \<noteq> key \<or> map_option fl_generation (flight_at rg key) \<noteq> Some gen \<Longrightarrow>
   flight_at (late_effect w key gen rg) k = flight_at rg k"
proof (cases w)
  case (Late_activation c upd)
  assume stale: "k \<noteq> key \<or> map_option fl_generation (flight_at rg key) \<noteq> Some gen"
  have "k = key \<Longrightarrow> fst (activate_flight_at key gen c upd rg) = None"
    using stale owned_flight_None [of key gen rg] by (simp add: activate_flight_at_def)
  then show ?thesis using Late_activation by (auto simp: activate_entry)
qed (auto simp: entry_finish entry_remove entry_release entry_consume entry_reconcile entry_after_def
    split: option.split)

interpretation flight_fence: generation_fence "\<lambda>rg. flight_at rg" "map_option fl_generation" late_effect
  by unfold_locales (simp_all add: late_effect_entry)

text \<open>After a release's flight is gone or replaced by a later generation, no sequence of late
  completions, removals, reader releases, reports or activations of other generations changes any
  flight of the registry.\<close>

theorem late_work_is_fenced:
  assumes "\<forall>(w, key, gen) \<in> set late. map_option fl_generation (flight_at rg key) \<noteq> Some gen"
  shows "flight_at (fold (\<lambda>(w, key, gen). late_effect w key gen) late rg) = flight_at rg"
  using flight_fence.stale_run [OF assms] .

subsection \<open>Interleavings\<close>

text \<open>The registry under any schedule of callbacks, workers, timers and drains; services of bridges and
  calls of cancel functions are \<open>Outside\<close> the flights. Per key the state
  holds the generations of the running workers, of the reservations \<open>submit\<close> and \<open>Delete\<close> hold
  while they prepare, of the reservations of a recovering \<open>Status\<close>, of the retention timers started,
  and the readers callbacks have retained; \<open>fs_used\<close> holds every generation issued.\<close>

record flight_sys =
  fs_registry :: registry
  fs_workers :: "string \<Rightarrow> string set"
  fs_preparing :: "string \<Rightarrow> string set"
  fs_recovering :: "string \<Rightarrow> string set"
  fs_timers :: "string \<Rightarrow> string set"
  fs_readers :: "string \<Rightarrow> string multiset"
  fs_used :: "string set"

definition flight_init :: flight_sys where
  "flight_init = \<lparr>fs_registry = empty_registry, fs_workers = (\<lambda>_. {}), fs_preparing = (\<lambda>_. {}),
     fs_recovering = (\<lambda>_. {}), fs_timers = (\<lambda>_. {}), fs_readers = (\<lambda>_. {#}), fs_used = {}\<rparr>"

text \<open>The three candidates of \<open>release.go\<close> (submit, Delete, Status).\<close>

definition submit_candidate ::
  "op_kind \<Rightarrow> string \<Rightarrow> string \<Rightarrow> string \<Rightarrow> string \<Rightarrow> nat \<Rightarrow> instant \<Rightarrow> flight" where
  "submit_candidate op fingerprint identity binding gen cancel deadline =
     \<lparr>fl_op = op, fl_request_op = op, fl_revision = 0, fl_fingerprint = fingerprint,
      fl_auth_fingerprint = identity, fl_binding_id = binding, fl_generation = gen, fl_bridge = None,
      fl_preparing = True, fl_stopping = False, fl_finished = False, fl_status_readers = 0,
      fl_reported = False, fl_outcome = None, fl_finished_at = zero_time, fl_started = zero_time,
      fl_deadline = deadline, fl_cancel = Some cancel\<rparr>"

definition delete_candidate :: "string \<Rightarrow> string \<Rightarrow> string \<Rightarrow> nat \<Rightarrow> flight" where
  "delete_candidate identity binding gen cancel =
     (submit_candidate Kind_none [] identity binding gen cancel zero_time)\<lparr>fl_op := Kind_delete\<rparr>"

definition status_candidate :: "op_kind \<Rightarrow> int \<Rightarrow> string \<Rightarrow> string \<Rightarrow> string \<Rightarrow> nat \<Rightarrow> flight" where
  "status_candidate op revision identity binding gen cancel =
     (submit_candidate Kind_none [] identity binding gen cancel zero_time)\<lparr>fl_op := op, fl_revision := revision\<rparr>"

definition new_candidate :: "flight \<Rightarrow> bool" where
  "new_candidate f \<longleftrightarrow> fl_preparing f \<and> \<not> fl_stopping f \<and> \<not> fl_finished f \<and> fl_status_readers f = 0 \<and>
     \<not> fl_reported f \<and> fl_outcome f = None"

lemma candidates_new:
  "new_candidate (submit_candidate op fp identity binding gen c d)"
  "new_candidate (delete_candidate identity binding gen c)"
  "new_candidate (status_candidate op revision identity binding gen c)"
  by (simp_all add: new_candidate_def submit_candidate_def delete_candidate_def status_candidate_def)

text \<open>What the activation of \<open>submit\<close> and of \<open>Delete\<close> publishes.\<close>

datatype publication =
    Publish_submit op_kind int "nat option"
  | Publish_delete int "nat option" instant

fun publish :: "publication \<Rightarrow> nat \<Rightarrow> flight \<Rightarrow> flight" where
  "publish (Publish_submit op target bridge) cancel f =
     f\<lparr>fl_op := op, fl_revision := target, fl_preparing := False, fl_cancel := Some cancel, fl_bridge := bridge\<rparr>"
| "publish (Publish_delete revision bridge deadline) cancel f =
     f\<lparr>fl_revision := revision, fl_preparing := False, fl_cancel := Some cancel, fl_bridge := bridge,
       fl_deadline := deadline\<rparr>"

datatype flight_event =
    Reserved string string bool
  | Status_acquired string string bool
  | Reader_released string string
  | Activated string string
  | Activation_refused string string
  | Abandoned string string
  | Worker_finished string string
  | Retention_over string string
  | Reconciled string string
  | Consumed string string
  | Drain_started
  | Drain_ended
  | Outside

inductive flight_step :: "flight_sys \<Rightarrow> flight_event \<Rightarrow> flight_sys \<Rightarrow> bool" where
  fs_reserve:
    "new_candidate f \<Longrightarrow> fl_generation f \<notin> fs_used s \<Longrightarrow>
     reserve_flight_matching key f (\<lambda>e. matches_rejoin e f) now (fs_registry s) = ((got, fresh), rg) \<Longrightarrow>
     flight_step s (Reserved key (fl_generation f) fresh) (s\<lparr>fs_registry := rg,
       fs_used := insert (fl_generation f) (fs_used s),
       fs_preparing := (if fresh then (fs_preparing s)(key := insert (fl_generation f) (fs_preparing s key))
                        else fs_preparing s),
       fs_readers := (case got of
           Some e \<Rightarrow> if \<not> fresh \<and> matches_rejoin e f
                     then (fs_readers s)(key := add_mset (fl_generation e) (fs_readers s key)) else fs_readers s
         | None \<Rightarrow> fs_readers s)\<rparr>)"
| fs_acquire:
    "new_candidate f \<Longrightarrow> fl_generation f \<notin> fs_used s \<Longrightarrow>
     acquire_status_at key requested f (fs_registry s) = ((got, fresh), rg) \<Longrightarrow>
     flight_step s (Status_acquired key requested fresh) (s\<lparr>fs_registry := rg,
       fs_used := insert (fl_generation f) (fs_used s),
       fs_recovering := (if fresh then (fs_recovering s)(key := insert (fl_generation f) (fs_recovering s key))
                         else fs_recovering s),
       fs_readers := (case got of
           Some e \<Rightarrow> if \<not> fresh \<and> matches_status e requested f
                     then (fs_readers s)(key := add_mset (fl_generation e) (fs_readers s key)) else fs_readers s
         | None \<Rightarrow> fs_readers s)\<rparr>)"
| fs_release:
    "gen \<in># fs_readers s key \<Longrightarrow>
     flight_step s (Reader_released key gen) (s\<lparr>fs_registry := release_status_at key gen (fs_registry s),
       fs_readers := (fs_readers s)(key := fs_readers s key - {#gen#})\<rparr>)"
| fs_activate:
    "gen \<in> fs_preparing s key \<Longrightarrow>
     activate_flight_at key gen cancel (publish p cancel) (fs_registry s) = (Some f, rg) \<Longrightarrow>
     flight_step s (Activated key gen) (s\<lparr>fs_registry := rg,
       fs_preparing := (fs_preparing s)(key := fs_preparing s key - {gen}),
       fs_workers := (fs_workers s)(key := insert gen (fs_workers s key))\<rparr>)"
| fs_refuse:
    "gen \<in> fs_preparing s key \<Longrightarrow>
     activate_flight_at key gen cancel (publish p cancel) (fs_registry s) = (None, rg) \<Longrightarrow>
     flight_step s (Activation_refused key gen) (s\<lparr>fs_registry := rg\<rparr>)"
| fs_abandon:
    "gen \<in> fs_preparing s key \<union> fs_recovering s key \<Longrightarrow>
     flight_step s (Abandoned key gen) (s\<lparr>fs_registry := remove_owned_at key gen (fs_registry s),
       fs_preparing := (fs_preparing s)(key := fs_preparing s key - {gen}),
       fs_recovering := (fs_recovering s)(key := fs_recovering s key - {gen})\<rparr>)"
| fs_finish:
    "gen \<in> fs_workers s key \<Longrightarrow>
     flight_step s (Worker_finished key gen) (s\<lparr>fs_registry := finish_flight_at key gen err now (fs_registry s),
       fs_workers := (fs_workers s)(key := fs_workers s key - {gen}),
       fs_timers := (fs_timers s)(key := insert gen (fs_timers s key))\<rparr>)"
| fs_expire:
    "gen \<in> fs_timers s key \<Longrightarrow>
     flight_step s (Retention_over key gen) (s\<lparr>fs_registry := remove_owned_at key gen (fs_registry s)\<rparr>)"
| fs_reconcile:
    "gen \<in># fs_readers s key \<Longrightarrow>
     flight_step s (Reconciled key gen)
       (s\<lparr>fs_registry := snd (reconcile_flight_at key ns name gen rid result (fs_registry s))\<rparr>)"
| fs_consume:
    "flight_step s (Consumed key gen) (s\<lparr>fs_registry := consume_synchronous_at key gen err (fs_registry s)\<rparr>)"
| fs_drain: "flight_step s Drain_started (s\<lparr>fs_registry := drain_begin (fs_registry s)\<rparr>)"
| fs_undrain:
    "rg_drains (fs_registry s) > 0 \<Longrightarrow> flight_step s Drain_ended (s\<lparr>fs_registry := drain_end (fs_registry s)\<rparr>)"
| fs_outside:
    "flight_step s Outside (s\<lparr>fs_registry := (fs_registry s)\<lparr>rg_bridges := bridges, rg_cancelled := cancelled\<rparr>\<rparr>)"

inductive flight_reachable :: "flight_sys \<Rightarrow> bool" where
  flight_start: "flight_reachable flight_init"
| flight_next: "flight_reachable s \<Longrightarrow> flight_step s e s' \<Longrightarrow> flight_reachable s'"

inductive_cases flight_activatedE: "flight_step s (Activated key gen) s'"

text \<open>The invariant of one key.\<close>

definition entry_inv ::
  "flight \<Rightarrow> string set \<Rightarrow> string set \<Rightarrow> string set \<Rightarrow> string set \<Rightarrow> string multiset \<Rightarrow> bool" where
  "entry_inv f W P R T M \<longleftrightarrow>
     M = replicate_mset (fl_status_readers f) (fl_generation f) \<and>
     W = (if fl_preparing f \<or> fl_finished f then {} else {fl_generation f}) \<and>
     (if fl_preparing f then P = {fl_generation f} \<and> R = {} \<or> P = {} \<and> R = {fl_generation f}
      else P = {} \<and> R = {}) \<and>
     (fl_generation f \<in> T \<longleftrightarrow> fl_finished f) \<and>
     (fl_preparing f \<longrightarrow> \<not> fl_finished f \<and> fl_status_readers f = 0) \<and>
     (fl_finished f \<longrightarrow> fl_cancel f = None) \<and>
     (fl_outcome f \<noteq> None \<longrightarrow> fl_finished f) \<and>
     (fl_reported f \<longrightarrow> fl_finished f \<and> fl_status_readers f > 0)"

definition key_inv ::
  "flight option \<Rightarrow> string set \<Rightarrow> string set \<Rightarrow> string set \<Rightarrow> string set \<Rightarrow> string multiset \<Rightarrow> string set \<Rightarrow> bool" where
  "key_inv fo W P R T M U \<longleftrightarrow> T \<subseteq> U \<and>
     (case fo of
        None \<Rightarrow> W = {} \<and> P = {} \<and> R = {} \<and> M = {#}
      | Some f \<Rightarrow> fl_generation f \<in> U \<and> entry_inv f W P R T M)"

definition flight_inv :: "flight_sys \<Rightarrow> bool" where
  "flight_inv s \<longleftrightarrow> (\<forall>k. key_inv (flight_at (fs_registry s) k) (fs_workers s k) (fs_preparing s k)
     (fs_recovering s k) (fs_timers s k) (fs_readers s k) (fs_used s))"

lemma key_inv_more_used: "key_inv fo W P R T M U \<Longrightarrow> U \<subseteq> U' \<Longrightarrow> key_inv fo W P R T M U'"
  by (auto simp: key_inv_def split: option.splits)

lemma reserve_entry:
  assumes "reserve_flight_matching key f retain now rg = ((got, fresh), rg')"
  obtains (draining) "got = None" "\<not> fresh" "rg' = rg"
  | (existing) e where "flight_at rg key = Some e" "\<not> fresh"
      "got = Some (if retain e then retain_reader e else e)" "flight_at rg' = (flight_at rg)(key := got)"
  | (inserted) f' where "flight_at rg key = None" "fresh" "got = Some f'" "flight_at rg' = (flight_at rg)(key \<mapsto> f')"
      "f' = f \<or> f' = f\<lparr>fl_started := now\<rparr>"
proof (cases "rg_drains rg > 0")
  case True
  then show thesis using assms draining by (simp add: reserve_flight_matching_def Let_def)
next
  case False
  show thesis
  proof (cases "flight_at rg key")
    case None
    then show thesis using False assms
      by (intro inserted [of "if is_zero_time (fl_started f) then f\<lparr>fl_started := now\<rparr> else f"])
        (auto simp: reserve_flight_matching_def Let_def flight_simps)
  next
    case (Some e)
    then show thesis using False assms
      by (intro existing [of e]) (auto simp: reserve_flight_matching_def Let_def flight_simps)
  qed
qed

lemma acquire_entry:
  assumes "acquire_status_at key requested f rg = ((got, fresh), rg')"
  obtains (draining) "got = None" "\<not> fresh" "rg' = rg"
  | (existing) e where "flight_at rg key = Some e" "\<not> fresh"
      "got = Some (if matches_status e requested f then retain_reader e else e)"
      "flight_at rg' = (flight_at rg)(key := got)"
  | (inserted) "flight_at rg key = None" "fresh" "got = Some f" "flight_at rg' = (flight_at rg)(key \<mapsto> f)"
proof (cases "rg_drains rg > 0")
  case True
  then show thesis using assms draining by (simp add: acquire_status_at_def)
next
  case False
  show thesis
  proof (cases "flight_at rg key")
    case None
    then show thesis using False assms
      by (intro inserted) (auto simp: acquire_status_at_def flight_simps)
  next
    case (Some e)
    then show thesis using False assms
      by (intro existing [of e]) (auto simp: acquire_status_at_def Let_def flight_simps)
  qed
qed

text \<open>The invariant is kept by each change of one entry.\<close>

lemma inv_insert:
  assumes "key_inv None W P R T M U" "new_candidate f" "fl_generation f \<notin> U"
  shows "key_inv (Some f) W (insert (fl_generation f) P) R T M (insert (fl_generation f) U)"
    and "key_inv (Some f) W P (insert (fl_generation f) R) T M (insert (fl_generation f) U)"
  using assms by (auto simp: key_inv_def entry_inv_def new_candidate_def)

lemma inv_retain:
  assumes "key_inv (Some e) W P R T M U" "\<not> fl_preparing e"
  shows "key_inv (Some (retain_reader e)) W P R T (add_mset (fl_generation e) M) U"
  using assms by (simp add: key_inv_def entry_inv_def retain_reader_def)

lemma inv_release:
  assumes "key_inv fo W P R T M U" "gen \<in># M"
  shows "key_inv (entry_after release_entry gen fo) W P R T (M - {#gen#}) U"
proof (cases fo)
  case None
  then show ?thesis using assms by (simp add: key_inv_def)
next
  case (Some f)
  then obtain n where "gen = fl_generation f" "fl_status_readers f = Suc n"
    using assms by (cases "fl_status_readers f") (auto simp: key_inv_def entry_inv_def split: if_splits)
  then show ?thesis using Some assms
    by (cases "n = 0 \<and> fl_reported f") (auto simp: key_inv_def entry_inv_def entry_after_def release_entry_def Let_def)
qed

lemma inv_report:
  assumes "key_inv fo W P R T M U" "\<And>f. fo = Some f \<Longrightarrow> fl_generation f = gen \<Longrightarrow> c f \<Longrightarrow> fl_finished f"
  shows "key_inv (entry_after (\<lambda>f. if c f then report_entry f else Some f) gen fo) W P R T M U"
proof (cases "\<exists>f. fo = Some f \<and> fl_generation f = gen \<and> c f")
  case True
  then obtain f where f: "fo = Some f" "fl_generation f = gen" "c f" "fl_finished f" using assms(2) by blast
  moreover have "\<not> fl_preparing f" using assms(1) f by (auto simp: key_inv_def entry_inv_def)
  ultimately show ?thesis using assms(1)
    by (auto simp: key_inv_def entry_inv_def entry_after_def report_entry_def)
next
  case False
  then have "entry_after (\<lambda>f. if c f then report_entry f else Some f) gen fo = fo"
    by (auto simp: entry_after_def split: option.split)
  then show ?thesis using assms(1) by simp
qed

lemma inv_abandon:
  assumes "key_inv fo W P R T M U" "gen \<in> P \<union> R"
  shows "key_inv (entry_after report_entry gen fo) W (P - {gen}) (R - {gen}) T M U"
proof (cases fo)
  case None
  then show ?thesis using assms by (simp add: key_inv_def)
next
  case (Some f)
  then have "fl_preparing f" "gen = fl_generation f" "fl_status_readers f = 0"
    using assms by (auto simp: key_inv_def entry_inv_def split: if_splits)
  then show ?thesis using assms Some
    by (auto simp: key_inv_def entry_inv_def entry_after_def report_entry_def)
qed

lemma inv_activate:
  assumes "key_inv (Some f0) W P R T M U" "gen \<in> P" "fl_generation f0 = gen"
  shows "key_inv (Some ((publish p c f0)\<lparr>fl_cancel := Some c, fl_preparing := False\<rparr>))
    (insert gen W) (P - {gen}) R T M U"
proof -
  have "fl_preparing f0" using assms by (auto simp: key_inv_def entry_inv_def split: if_splits)
  then show ?thesis using assms by (cases p) (auto simp: key_inv_def entry_inv_def)
qed

lemma inv_finish:
  assumes "key_inv fo W P R T M U" "gen \<in> W"
  shows "key_inv (entry_after (\<lambda>f. Some (finish_update err now f)) gen fo) (W - {gen}) P R (insert gen T) M U"
proof (cases fo)
  case None
  then show ?thesis using assms by (simp add: key_inv_def)
next
  case (Some f)
  then have "\<not> fl_preparing f" "\<not> fl_finished f" "gen = fl_generation f"
    using assms by (auto simp: key_inv_def entry_inv_def split: if_splits)
  then show ?thesis using assms Some
    by (simp add: key_inv_def entry_inv_def entry_after_def finish_update_def)
qed

lemma inv_drain:
  "key_inv fo W P R T M U \<Longrightarrow> key_inv (map_option drain_mark fo) W P R T M U"
  by (cases fo) (auto simp: key_inv_def entry_inv_def drain_mark_def)

lemma inv_subset: "key_inv fo W P R T M U \<Longrightarrow> key_inv fo W P R T M (insert g U)"
  by (auto simp: key_inv_def split: option.splits)

lemma flight_inv_at: "flight_inv s \<Longrightarrow> key_inv (flight_at (fs_registry s) k) (fs_workers s k) (fs_preparing s k)
     (fs_recovering s k) (fs_timers s k) (fs_readers s k) (fs_used s)"
  by (simp add: flight_inv_def)

lemma inv_reserve:
  assumes inv: "flight_inv s" and new: "new_candidate f" "fl_generation f \<notin> fs_used s"
    and res: "reserve_flight_matching key f (\<lambda>e. matches_rejoin e f) now (fs_registry s) = ((got, fresh), rg)"
  shows "flight_inv (s\<lparr>fs_registry := rg,
       fs_used := insert (fl_generation f) (fs_used s),
       fs_preparing := (if fresh then (fs_preparing s)(key := insert (fl_generation f) (fs_preparing s key))
                        else fs_preparing s),
       fs_readers := (case got of
           Some e \<Rightarrow> if \<not> fresh \<and> matches_rejoin e f
                     then (fs_readers s)(key := add_mset (fl_generation e) (fs_readers s key)) else fs_readers s
         | None \<Rightarrow> fs_readers s)\<rparr>)"
proof (rule reserve_entry [OF res])
  assume "got = None" "\<not> fresh" "rg = fs_registry s"
  then show ?thesis using inv inv_subset by (auto simp: flight_inv_def)
next
  fix e assume e: "flight_at (fs_registry s) key = Some e" "\<not> fresh"
    "got = Some (if matches_rejoin e f then retain_reader e else e)"
    "flight_at rg = (flight_at (fs_registry s))(key := got)"
  show ?thesis
  proof (cases "matches_rejoin e f")
    case True
    then have m: "\<not> fl_preparing e" "matches_rejoin (retain_reader e) f" "fl_generation (retain_reader e) = fl_generation e"
      by (auto simp: matches_rejoin_def retain_reader_def split: if_splits)
    then show ?thesis using e True inv_retain [OF inv_subset] inv_subset flight_inv_at [OF inv, of key] inv
      by (auto simp: flight_inv_def)
  next
    case False
    then show ?thesis using e inv_subset flight_inv_at [OF inv, of key] inv by (auto simp: flight_inv_def)
  qed
next
  fix f' assume f': "flight_at (fs_registry s) key = None" "fresh" "got = Some f'"
    "flight_at rg = (flight_at (fs_registry s))(key \<mapsto> f')" "f' = f \<or> f' = f\<lparr>fl_started := now\<rparr>"
  then have "new_candidate f'" "fl_generation f' = fl_generation f"
    using new by (auto simp: new_candidate_def)
  then show ?thesis using f' inv_insert(1) [of _ _ _ _ _ "fs_used s" f'] new inv_subset flight_inv_at [OF inv, of key] inv
    by (auto simp: flight_inv_def)
qed

lemma inv_acquire:
  assumes inv: "flight_inv s" and new: "new_candidate f" "fl_generation f \<notin> fs_used s"
    and acq: "acquire_status_at key requested f (fs_registry s) = ((got, fresh), rg)"
  shows "flight_inv (s\<lparr>fs_registry := rg,
       fs_used := insert (fl_generation f) (fs_used s),
       fs_recovering := (if fresh then (fs_recovering s)(key := insert (fl_generation f) (fs_recovering s key))
                         else fs_recovering s),
       fs_readers := (case got of
           Some e \<Rightarrow> if \<not> fresh \<and> matches_status e requested f
                     then (fs_readers s)(key := add_mset (fl_generation e) (fs_readers s key)) else fs_readers s
         | None \<Rightarrow> fs_readers s)\<rparr>)"
proof (rule acquire_entry [OF acq])
  assume "got = None" "\<not> fresh" "rg = fs_registry s"
  then show ?thesis using inv inv_subset by (auto simp: flight_inv_def)
next
  fix e assume e: "flight_at (fs_registry s) key = Some e" "\<not> fresh"
    "got = Some (if matches_status e requested f then retain_reader e else e)"
    "flight_at rg = (flight_at (fs_registry s))(key := got)"
  show ?thesis
  proof (cases "matches_status e requested f")
    case True
    then have m: "\<not> fl_preparing e" "matches_status (retain_reader e) requested f"
      "fl_generation (retain_reader e) = fl_generation e"
      by (auto simp: matches_status_def retain_reader_def)
    then show ?thesis using e True inv_retain [OF inv_subset] inv_subset flight_inv_at [OF inv, of key] inv
      by (auto simp: flight_inv_def)
  next
    case False
    then show ?thesis using e inv_subset flight_inv_at [OF inv, of key] inv by (auto simp: flight_inv_def)
  qed
next
  assume "flight_at (fs_registry s) key = None" "fresh" "got = Some f"
    "flight_at rg = (flight_at (fs_registry s))(key \<mapsto> f)"
  then show ?thesis using inv_insert(2) [OF _ new] new inv_subset flight_inv_at [OF inv, of key] inv
    by (auto simp: flight_inv_def matches_status_def)
qed

lemma flight_inv_step:
  assumes step: "flight_step s e s'" and inv: "flight_inv s"
  shows "flight_inv s'"
  using step
proof (cases rule: flight_step.cases)
  case (fs_reserve f key now got fresh rg)
  then show ?thesis using inv_reserve [OF inv] by simp
next
  case (fs_acquire f key requested got fresh rg)
  then show ?thesis using inv_acquire [OF inv] by simp
next
  case (fs_release gen key)
  then show ?thesis using inv inv_release [OF flight_inv_at [OF inv]]
    by (auto simp: flight_inv_def entry_release)
next
  case (fs_activate gen key cancel p f rg)
  obtain f0 where f0: "flight_at (fs_registry s) key = Some f0" "fl_generation f0 = gen"
    "f = (publish p cancel f0)\<lparr>fl_cancel := Some cancel, fl_preparing := False\<rparr>"
    "flight_at rg = (flight_at (fs_registry s))(key \<mapsto> f)"
    by (rule entry_activate [OF fs_activate(4)])
  then show ?thesis
    using fs_activate(2,3) inv inv_activate [of f0] flight_inv_at [OF inv, of key]
    by (auto simp: flight_inv_def)
next
  case (fs_refuse gen key cancel p rg)
  then show ?thesis using inv activate_fails by (fastforce simp: flight_inv_def)
next
  case (fs_abandon gen key)
  then show ?thesis using inv inv_abandon [OF flight_inv_at [OF inv]]
    by (auto simp: flight_inv_def entry_remove)
next
  case (fs_finish gen key err now)
  then show ?thesis using inv inv_finish [OF flight_inv_at [OF inv]]
    by (auto simp: flight_inv_def entry_finish)
next
  case (fs_expire gen key)
  have "fl_finished f" if "flight_at (fs_registry s) key = Some f" "fl_generation f = gen" for f
    using that fs_expire(3) flight_inv_at [OF inv, of key] by (auto simp: key_inv_def entry_inv_def)
  then have "key_inv (entry_after (\<lambda>f. if True then report_entry f else Some f) gen (flight_at (fs_registry s) key))
     (fs_workers s key) (fs_preparing s key) (fs_recovering s key) (fs_timers s key) (fs_readers s key) (fs_used s)"
    by (intro inv_report [OF flight_inv_at [OF inv]])
  then show ?thesis using inv fs_expire(2) by (auto simp: flight_inv_def entry_remove)
next
  case (fs_reconcile gen key ns name rid result)
  then show ?thesis using inv inv_report [OF flight_inv_at [OF inv], of key gen "reconciles result"]
    by (auto simp: flight_inv_def entry_reconcile reconciles_def)
next
  case (fs_consume key gen err)
  then show ?thesis using inv inv_report [OF flight_inv_at [OF inv], of key gen "consumes err"]
    by (auto simp: flight_inv_def entry_consume consumes_def)
next
  case fs_drain
  then show ?thesis using inv inv_drain by (auto simp: flight_inv_def flight_simps)
next
  case fs_undrain
  then show ?thesis using inv by (simp add: flight_inv_def flight_simps)
next
  case (fs_outside bridges cancelled)
  then show ?thesis using inv by (simp add: flight_inv_def)
qed

lemma flight_inv_reachable: "flight_reachable s \<Longrightarrow> flight_inv s"
proof (induction rule: flight_reachable.induct)
  case flight_start
  show ?case by (simp add: flight_inv_def flight_init_def empty_registry_def key_inv_def)
next
  case (flight_next s e s')
  then show ?case using flight_inv_step by blast
qed

subsection \<open>What the registry guarantees\<close>

text \<open>C1: under every schedule of callbacks, workers, timers and drains, at most one Helm worker of this
  process runs for a release of a cluster, and the registry shows it: its entry is present, active
  and neither finished nor reported.\<close>

theorem one_worker_per_release:
  assumes "flight_reachable s" and "gen \<in> fs_workers s key"
  shows "fs_workers s key = {gen} \<and> fs_preparing s key = {} \<and>
    (\<exists>f. flight_at (fs_registry s) key = Some f \<and> fl_generation f = gen \<and>
       \<not> fl_preparing f \<and> \<not> fl_finished f \<and> \<not> fl_reported f)"
  using flight_inv_at [OF flight_inv_reachable [OF assms(1)], of key] assms(2)
  by (auto simp: key_inv_def entry_inv_def split: option.splits if_splits)

text \<open>C13: as long as a callback retains a flight as a reader, its entry stays in the registry under the
  same generation, whatever other callbacks report, timers expire or drains run; the number of
  retained readers is exactly the entry's count.\<close>

theorem readers_retain_flight:
  assumes "flight_reachable s" and "gen \<in># fs_readers s key" and "flight_step s e s'"
    and "e \<noteq> Reader_released key gen"
  shows "\<exists>f. flight_at (fs_registry s') key = Some f \<and> fl_generation f = gen \<and>
    fl_status_readers f = count (fs_readers s' key) gen \<and> fl_status_readers f > 0"
proof -
  have "gen \<in># fs_readers s' key"
    using assms(3,2,4)
    by (cases rule: flight_step.cases) (auto simp: in_diff_count split: option.splits if_splits)
  moreover have "flight_inv s'" using assms(1,3) flight_inv_reachable flight_inv_step by blast
  ultimately show ?thesis
    using flight_inv_at [of s' key]
    by (auto simp: key_inv_def entry_inv_def split: option.splits if_splits)
qed

text \<open>A run: the events of a schedule between two states.\<close>

inductive flight_run :: "flight_sys \<Rightarrow> flight_event list \<Rightarrow> flight_sys \<Rightarrow> bool" where
  run_nil: "flight_run s [] s"
| run_cons: "flight_step s e s' \<Longrightarrow> flight_run s' es s'' \<Longrightarrow> flight_run s (e # es) s''"

inductive_cases flight_run_consE: "flight_run s (e # es) s''"
inductive_cases flight_run_nilE: "flight_run s [] s''"

lemma used_mono: "flight_step s e s' \<Longrightarrow> fs_used s \<subseteq> fs_used s'"
  by (cases rule: flight_step.cases) auto

text \<open>An entry of an issued generation was there before, and keeps its stop mark.\<close>

lemma entry_origin:
  assumes step: "flight_step s e s'" and f': "flight_at (fs_registry s') key = Some f'"
    and old: "fl_generation f' \<in> fs_used s"
  shows "\<exists>f. flight_at (fs_registry s) key = Some f \<and> fl_generation f = fl_generation f' \<and>
    (fl_stopping f \<longrightarrow> fl_stopping f')"
  using step
proof (cases rule: flight_step.cases)
  case (fs_reserve f key' now got fresh rg)
  show ?thesis
    by (rule reserve_entry [OF fs_reserve(5)])
      (use fs_reserve f' old in \<open>auto simp: retain_reader_def split: if_splits\<close>)
next
  case (fs_acquire f key' requested got fresh rg)
  show ?thesis
    by (rule acquire_entry [OF fs_acquire(5)])
      (use fs_acquire f' old in \<open>auto simp: retain_reader_def split: if_splits\<close>)
next
  case (fs_release gen key')
  then show ?thesis using f'
    by (auto simp: entry_release entry_after_def release_entry_def Let_def split: if_splits option.splits)
next
  case (fs_activate gen key' cancel p f rg)
  obtain f0 where "flight_at (fs_registry s) key' = Some f0"
    "f = (publish p cancel f0)\<lparr>fl_cancel := Some cancel, fl_preparing := False\<rparr>"
    "flight_at rg = (flight_at (fs_registry s))(key' \<mapsto> f)"
    by (rule entry_activate [OF fs_activate(4)])
  then show ?thesis using fs_activate(2) f' by (cases p) (auto split: if_splits)
next
  case (fs_refuse gen key' cancel p rg)
  then show ?thesis using f' activate_fails by fastforce
next
  case (fs_abandon gen key')
  then show ?thesis using f'
    by (auto simp: entry_remove entry_after_def report_entry_def split: if_splits option.splits)
next
  case (fs_finish gen key' err now)
  then show ?thesis using f'
    by (auto simp: entry_finish entry_after_def finish_update_def split: if_splits option.splits)
next
  case (fs_expire gen key')
  then show ?thesis using f'
    by (auto simp: entry_remove entry_after_def report_entry_def split: if_splits option.splits)
next
  case (fs_reconcile gen key' ns name rid result)
  then show ?thesis using f'
    by (auto simp: entry_reconcile entry_after_def report_entry_def split: if_splits option.splits)
next
  case (fs_consume key' gen err)
  then show ?thesis using f'
    by (auto simp: entry_consume entry_after_def report_entry_def split: if_splits option.splits)
next
  case fs_drain
  then show ?thesis using f' by (auto simp: flight_simps drain_mark_def)
next
  case fs_undrain
  then show ?thesis using f' by (auto simp: flight_simps)
next
  case (fs_outside bridges cancelled)
  then show ?thesis using f' by simp
qed

text \<open>Stopped or no longer preparing: what a drain leaves of a flight.\<close>

definition halted :: "flight_sys \<Rightarrow> string \<Rightarrow> string \<Rightarrow> bool" where
  "halted s key gen \<longleftrightarrow> gen \<in> fs_used s \<and>
     (gen \<in> fs_preparing s key \<longrightarrow>
        (\<exists>f. flight_at (fs_registry s) key = Some f \<and> fl_generation f = gen \<and> fl_stopping f))"

lemma preparing_stays_issued:
  "flight_step s e s' \<Longrightarrow> gen \<in> fs_preparing s' key \<Longrightarrow> gen \<in> fs_used s \<Longrightarrow> gen \<in> fs_preparing s key"
  by (cases rule: flight_step.cases) (auto split: if_splits)

lemma halted_step:
  assumes step: "flight_step s e s'" and inv: "flight_inv s" and h: "halted s key gen"
  shows "halted s' key gen \<and> e \<noteq> Activated key gen"
proof
  have "flight_inv s'" using flight_inv_step [OF step inv] .
  show "halted s' key gen"
    unfolding halted_def
  proof (intro conjI impI)
    show "gen \<in> fs_used s'" using h used_mono [OF step] by (auto simp: halted_def)
    assume prep: "gen \<in> fs_preparing s' key"
    then obtain f' where f': "flight_at (fs_registry s') key = Some f'" "fl_generation f' = gen"
      using flight_inv_at [OF \<open>flight_inv s'\<close>, of key]
      by (auto simp: key_inv_def entry_inv_def split: option.splits if_splits)
    obtain f where "flight_at (fs_registry s) key = Some f" "fl_generation f = gen" "fl_stopping f"
      using h preparing_stays_issued [OF step prep] by (auto simp: halted_def)
    then show "\<exists>f. flight_at (fs_registry s') key = Some f \<and> fl_generation f = gen \<and> fl_stopping f"
      using entry_origin [OF step f'(1)] f' h by (auto simp: halted_def)
  qed
  show "e \<noteq> Activated key gen"
  proof
    assume "e = Activated key gen"
    then obtain cancel p f rg where prep: "gen \<in> fs_preparing s key"
      and act: "activate_flight_at key gen cancel (publish p cancel) (fs_registry s) = (Some f, rg)"
      using step by (auto elim: flight_activatedE)
    obtain f0 where "flight_at (fs_registry s) key = Some f0" "\<not> fl_stopping f0"
      by (rule entry_activate [OF act])
    then show False using prep h by (auto simp: halted_def)
  qed
qed

lemma halted_run:
  "flight_run s es s' \<Longrightarrow> flight_inv s \<Longrightarrow> halted s key gen \<Longrightarrow> Activated key gen \<notin> set es"
proof (induction rule: flight_run.induct)
  case (run_cons s e s' es s'')
  then show ?case using halted_step flight_inv_step by fastforce
qed simp

text \<open>C12: a flight that a drain met unfinished never starts a worker afterwards, not even after the drain
  has ended, and while any drain is active no worker starts at all.\<close>

theorem drained_flights_never_start:
  assumes "flight_reachable s" and "flight_at (fs_registry s) key = Some f" and "\<not> fl_finished f"
    and "flight_step s Drain_started s1" and "flight_run s1 es s2"
  shows "Activated key (fl_generation f) \<notin> set es \<and> (\<forall>k g s3. rg_drains (fs_registry s2) > 0 \<longrightarrow>
    \<not> flight_step s2 (Activated k g) s3)"
proof
  note inv = flight_inv_reachable [OF assms(1)]
  have s1: "s1 = s\<lparr>fs_registry := drain_begin (fs_registry s)\<rparr>"
    using assms(4) by (auto elim: flight_step.cases)
  have "halted s1 key (fl_generation f)"
    using assms(2,3) s1 flight_inv_at [OF inv, of key]
    by (auto simp: halted_def flight_simps drain_mark_def key_inv_def)
  then show "Activated key (fl_generation f) \<notin> set es"
    using halted_run [OF assms(5) flight_inv_step [OF assms(4) inv]] by blast
  show "\<forall>k g s3. rg_drains (fs_registry s2) > 0 \<longrightarrow> \<not> flight_step s2 (Activated k g) s3"
  proof (intro allI impI notI)
    fix k g s3
    assume d: "rg_drains (fs_registry s2) > 0" and "flight_step s2 (Activated k g) s3"
    then obtain cancel p f' rg where
      act: "activate_flight_at k g cancel (publish p cancel) (fs_registry s2) = (Some f', rg)"
      by (auto elim: flight_activatedE)
    have "rg_drains (fs_registry s2) = 0" by (rule entry_activate [OF act])
    then show False using d by simp
  qed
qed

lemma quiet_step_keeps_failure:
  assumes step: "flight_step s e s'" and f: "flight_at (fs_registry s) key = Some f"
    and out: "fl_outcome f = Some out" "\<not> fl_reported f"
    and fin: "fl_finished f" "fl_generation f \<notin> fs_workers s key" "fs_preparing s key = {}" "fs_recovering s key = {}"
    and quiet: "e \<notin> {Reconciled key (fl_generation f), Consumed key (fl_generation f),
      Retention_over key (fl_generation f)}"
  shows "\<exists>f'. flight_at (fs_registry s') key = Some f' \<and> fl_generation f' = fl_generation f \<and>
    fl_outcome f' = Some out \<and> \<not> fl_reported f' \<and> fl_finished f'"
  using step
proof (cases rule: flight_step.cases)
  case (fs_reserve g key' now got fresh rg)
  show ?thesis
    by (rule reserve_entry [OF fs_reserve(5)])
      (use fs_reserve(2) f fin(1) out in \<open>auto simp: retain_reader_def\<close>)
next
  case (fs_acquire g key' requested got fresh rg)
  show ?thesis
    by (rule acquire_entry [OF fs_acquire(5)])
      (use fs_acquire(2) f fin(1) out in \<open>auto simp: retain_reader_def\<close>)
next
  case (fs_release gen key')
  then show ?thesis using f fin(1) out
    by (auto simp: entry_release entry_after_def release_entry_def Let_def)
next
  case (fs_activate gen key' cancel p g rg)
  obtain f0 where "flight_at rg = (flight_at (fs_registry s))(key' \<mapsto> g)"
    by (rule entry_activate [OF fs_activate(4)])
  moreover have "key' \<noteq> key" using fs_activate(3) fin(3) by auto
  ultimately show ?thesis using fs_activate(2) f fin(1) out by auto
next
  case (fs_refuse gen key' cancel p rg)
  then show ?thesis using f fin(1) out activate_fails by fastforce
next
  case (fs_abandon gen key')
  then have "key' \<noteq> key" using fin(3,4) by auto
  then show ?thesis using fs_abandon f fin(1) out by (auto simp: entry_remove)
next
  case (fs_finish gen key' err now)
  then have "key' \<noteq> key \<or> fl_generation f \<noteq> gen" using fin(2) by auto
  then show ?thesis using fs_finish f fin(1) out by (auto simp: entry_finish entry_after_def)
next
  case (fs_expire gen key')
  then have "key' \<noteq> key \<or> fl_generation f \<noteq> gen" using quiet by auto
  then show ?thesis using fs_expire f fin(1) out by (auto simp: entry_remove entry_after_def)
next
  case (fs_reconcile gen key' ns' name' rid' result')
  then have "key' \<noteq> key \<or> fl_generation f \<noteq> gen" using quiet by auto
  then show ?thesis using fs_reconcile f fin(1) out by (auto simp: entry_reconcile entry_after_def)
next
  case (fs_consume key' gen err)
  then have "key' \<noteq> key \<or> fl_generation f \<noteq> gen" using quiet by auto
  then show ?thesis using fs_consume f fin(1) out by (auto simp: entry_consume entry_after_def)
next
  case fs_drain
  then show ?thesis using f fin(1) out by (auto simp: flight_simps drain_mark_def)
next
  case fs_undrain
  then show ?thesis using f fin(1) out by (auto simp: flight_simps)
next
  case (fs_outside bridges cancelled)
  then show ?thesis using f fin(1) out by simp
qed


subsection \<open>A schedule\<close>

text \<open>An install that is reserved, activated, polled by a Status that retains it, and fails.\<close>

definition sample_flight :: flight where
  "sample_flight = submit_candidate Kind_install ''print'' ''id'' [] ''g1'' 1 (600 * second)"

definition sample_failure :: gerr where
  "sample_failure = new_error ''boom''"

definition running_flight :: flight where
  "running_flight = sample_flight\<lparr>fl_started := 0, fl_revision := 1, fl_preparing := False, fl_cancel := Some 2\<rparr>"

definition running_sys :: flight_sys where
  "running_sys = \<lparr>fs_registry = \<lparr>rg_flights = [(''k'', running_flight)], rg_drains = 0, rg_bridges = [],
      rg_cancelled = []\<rparr>, fs_workers = (\<lambda>_. {})(''k'' := {''g1''}), fs_preparing = (\<lambda>_. {}),
     fs_recovering = (\<lambda>_. {}), fs_timers = (\<lambda>_. {}), fs_readers = (\<lambda>_. {#}), fs_used = {''g1''}\<rparr>"

definition failed_sys :: flight_sys where
  "failed_sys = running_sys\<lparr>fs_registry := \<lparr>rg_flights = [(''k'', running_flight\<lparr>fl_finished := True,
      fl_finished_at := 5, fl_outcome := Some sample_failure, fl_cancel := None\<rparr>)], rg_drains = 0,
      rg_bridges = [], rg_cancelled = []\<rparr>, fs_workers := (\<lambda>_. {}), fs_timers := (\<lambda>_. {})(''k'' := {''g1''})\<rparr>"

definition polled_sys :: flight_sys where
  "polled_sys = running_sys\<lparr>fs_registry := \<lparr>rg_flights = [(''k'', running_flight\<lparr>fl_status_readers := 1\<rparr>)],
      rg_drains = 0, rg_bridges = [], rg_cancelled = []\<rparr>, fs_readers := (\<lambda>_. {#})(''k'' := {#''g1''#}),
      fs_used := {''g1'', ''g2''}\<rparr>"

lemma running_reachable: "flight_reachable running_sys"
proof -
  let ?f = "sample_flight\<lparr>fl_started := 0\<rparr>"
  let ?rg = "\<lparr>rg_flights = [(''k'', ?f)], rg_drains = 0, rg_bridges = [], rg_cancelled = []\<rparr>"
  let ?s1 = "flight_init\<lparr>fs_registry := ?rg, fs_used := {''g1''}, fs_preparing := (\<lambda>_. {})(''k'' := {''g1''})\<rparr>"
  have "reserve_flight_matching ''k'' sample_flight (\<lambda>e. matches_rejoin e sample_flight) 0 empty_registry =
      ((Some ?f, True), ?rg)"
    by (simp add: reserve_flight_matching_def sample_flight_def submit_candidate_def empty_registry_def
        is_zero_time_def put_flight_def Let_def)
  then have one: "flight_step flight_init (Reserved ''k'' ''g1'' True) ?s1"
    using fs_reserve [of sample_flight flight_init "''k''" 0 "Some ?f" True ?rg] candidates_new(1)
    by (simp add: sample_flight_def flight_init_def submit_candidate_def fun_upd_def if_distrib cong: if_cong)
  have "activate_flight_at ''k'' ''g1'' 2 (publish (Publish_submit Kind_install 1 None) 2) ?rg =
      (Some running_flight, fs_registry running_sys)"
    by (simp add: activate_flight_at_def owned_flight_def running_flight_def running_sys_def sample_flight_def
        submit_candidate_def put_flight_def Let_def)
  then have two: "flight_step ?s1 (Activated ''k'' ''g1'') running_sys"
    using fs_activate [of "''g1''" ?s1 "''k''" 2 "Publish_submit Kind_install 1 None" running_flight
        "fs_registry running_sys"]
    by (simp add: running_sys_def flight_init_def fun_upd_def if_distrib cong: if_cong)
  show ?thesis using flight_next [OF flight_next [OF flight_start one] two] .
qed

lemma failed_reachable: "flight_reachable failed_sys"
proof -
  have "finish_flight_at ''k'' ''g1'' (Some sample_failure) 5 (fs_registry running_sys) = fs_registry failed_sys"
    by (simp add: finish_flight_at_def update_owned_at_def owned_flight_def running_flight_def running_sys_def
        failed_sys_def sample_flight_def submit_candidate_def put_flight_def finish_update_def
        close_flight_bridge_def Let_def)
  then have "flight_step running_sys (Worker_finished ''k'' ''g1'') failed_sys"
    using fs_finish [of "''g1''" running_sys "''k''" "Some sample_failure" 5]
    by (simp add: running_sys_def failed_sys_def fun_upd_def if_distrib cong: if_cong)
  then show ?thesis by (rule flight_next [OF running_reachable])
qed

lemma polled_reachable: "flight_reachable polled_sys"
proof -
  let ?f = "status_candidate Kind_install 1 ''id'' [] ''g2'' 3"
  have "acquire_status_at ''k'' ''g1'' ?f (fs_registry running_sys) =
      ((Some (running_flight\<lparr>fl_status_readers := 1\<rparr>), False), fs_registry polled_sys)"
    by (simp add: acquire_status_at_def matches_status_def status_candidate_def running_flight_def running_sys_def
        polled_sys_def sample_flight_def submit_candidate_def put_flight_def retain_reader_def Let_def)
  then have "flight_step running_sys (Status_acquired ''k'' ''g1'' False) polled_sys"
    using fs_acquire [of ?f running_sys "''k''" "''g1''"] candidates_new(3)
    by (fastforce simp: status_candidate_def running_sys_def polled_sys_def running_flight_def sample_flight_def
        submit_candidate_def matches_status_def insert_commute)
  then show ?thesis by (rule flight_next [OF running_reachable])
qed

text \<open>The witnesses of the properties above.\<close>

theorem late_work_is_fenced_witness:
  "flight_at (fold (\<lambda>(w, key, gen). late_effect w key gen)
       [(Late_removal, ''k'', ''g0''), (Late_finish None 9, ''k'', ''g0'')] (fs_registry running_sys)) ''k'' =
     Some running_flight"
proof -
  have "flight_at (fs_registry running_sys) ''k'' = Some running_flight" by (simp add: running_sys_def)
  moreover have "fl_generation running_flight = ''g1''"
    by (simp add: running_flight_def sample_flight_def submit_candidate_def)
  ultimately show ?thesis
    using late_work_is_fenced [of "[(Late_removal, ''k'', ''g0''), (Late_finish None 9, ''k'', ''g0'')]"
        "fs_registry running_sys"]
    by simp
qed

theorem one_worker_per_release_witness: "fs_workers running_sys ''k'' = {''g1''} \<and> fs_preparing running_sys ''k'' = {}"
  using one_worker_per_release [OF running_reachable, of "''g1''" "''k''"] by (simp add: running_sys_def)

theorem readers_retain_flight_witness:
  "\<exists>s'. flight_step polled_sys Drain_started s' \<and>
     (\<exists>f. flight_at (fs_registry s') ''k'' = Some f \<and> fl_generation f = ''g1'' \<and> fl_status_readers f > 0)"
proof -
  have "''g1'' \<in># fs_readers polled_sys ''k''" by (simp add: polled_sys_def)
  then show ?thesis
    using readers_retain_flight [OF polled_reachable _ fs_drain, of "''g1''" "''k''"] fs_drain [of polled_sys]
    by blast
qed

theorem drained_flights_never_start_witness:
  "Activated ''k'' ''g1'' \<notin> set [Drain_ended] \<and>
   flight_step running_sys Drain_started (running_sys\<lparr>fs_registry := drain_begin (fs_registry running_sys)\<rparr>)"
proof -
  let ?s1 = "running_sys\<lparr>fs_registry := drain_begin (fs_registry running_sys)\<rparr>"
  have f: "flight_at (fs_registry running_sys) ''k'' = Some running_flight" "\<not> fl_finished running_flight"
    "fl_generation running_flight = ''g1''"
    by (simp_all add: running_sys_def running_flight_def sample_flight_def submit_candidate_def)
  have "flight_step ?s1 Drain_ended (?s1\<lparr>fs_registry := drain_end (fs_registry ?s1)\<rparr>)"
    by (rule fs_undrain) (simp add: drain_begin_def)
  then have "flight_run ?s1 [Drain_ended] (?s1\<lparr>fs_registry := drain_end (fs_registry ?s1)\<rparr>)"
    by (rule run_cons [OF _ run_nil])
  then show ?thesis
    using drained_flights_never_start [OF running_reachable f(1,2) fs_drain] f(3) fs_drain [of running_sys] by simp
qed


end
