(* ===== verification/Json_Canon.thy ===== *)
theory Json_Canon
  imports Json "HOL-Library.Multiset"
begin

text \<open>
  Canonical JSON. \<open>json.Marshal\<close> prints an object's keys in order, so on valid UTF-8 its output
  determines, and is determined by, the value with every object sorted: \<open>canon\<close>. The reference it is
  compared with is \<open>jtree\<close>, where an object is a finite map, as in Go.
\<close>

fun canon :: "json \<Rightarrow> json" where
  "canon (JArr vs) = JArr (map canon vs)"
| "canon (JObj kvs) = JObj (sort_key fst (map (\<lambda>(k, v). (k, canon v)) kvs))"
| "canon j = j"

datatype jtree =
    TNull
  | TBool bool
  | TNum int
  | TStr string
  | TArr "jtree list"
  | TObj "string \<Rightarrow> jtree option"

fun tree_of :: "json \<Rightarrow> jtree" where
  "tree_of JNull = TNull"
| "tree_of (JBool b) = TBool b"
| "tree_of (JNum n) = TNum n"
| "tree_of (JStr s) = TStr s"
| "tree_of (JArr vs) = TArr (map tree_of vs)"
| "tree_of (JObj kvs) = TObj (map_of (map (\<lambda>(k, v). (k, tree_of v)) kvs))"

lemma fst_map_pair [simp]: "fst \<circ> (\<lambda>(k, v). (k, f v)) = fst"
  by auto

lemma keys_map_pair [simp]: "map fst (map (\<lambda>(k, v). (k, f v)) kvs) = map fst kvs"
  by (induction kvs) auto

lemma fst_set_map_pair [simp]: "fst ` set (map (\<lambda>(k, v). (k, f v)) kvs) = fst ` set kvs"
  by (metis keys_map_pair list.set_map)

lemma map_of_map_pair: "map_of (map (\<lambda>(k, v). (k, f v)) kvs) k = map_option f (map_of kvs k)"
  by (induction kvs) auto

lemma map_of_sort:
  assumes "distinct (map fst kvs)"
  shows "map_of (sort_key fst kvs) = map_of kvs"
proof -
  have "mset (map fst (sort_key fst kvs)) = mset (map fst kvs)" by simp
  then have "distinct (map fst (sort_key fst kvs))" using assms mset_eq_imp_distinct_iff by blast
  then show ?thesis by (intro map_of_inject_set [THEN iffD2]) (use assms in auto)
qed

lemma sort_unique:
  assumes "distinct (map fst xs)" "distinct (map fst ys)" "map_of xs = map_of ys"
  shows "sort_key (fst :: string \<times> 'b \<Rightarrow> string) xs = sort_key fst ys"
proof (rule sort_key_inj_key_eq)
  have "set xs = set ys" using assms map_of_inject_set by blast
  moreover have "distinct xs" "distinct ys" using assms by (auto simp: distinct_map)
  ultimately have "mset xs = mset ys" using set_eq_iff_mset_eq_distinct by blast
  then show "mset xs = mset (sort_key fst ys)" by simp
  show "inj_on fst (set xs)" using assms(1) by (simp add: distinct_map)
  show "sorted (map fst (sort_key fst ys))" by simp
qed

lemma sort_eq_iff:
  assumes "distinct (map fst xs)" "distinct (map fst ys)"
  shows "sort_key (fst :: string \<times> 'b \<Rightarrow> string) xs = sort_key fst ys \<longleftrightarrow> map_of xs = map_of ys"
  using assms map_of_sort sort_unique by metis

lemma canon_object_lookup:
  assumes "distinct (map fst kvs)"
  shows "map_of (sort_key fst (map (\<lambda>(k, v). (k, canon v)) kvs)) k = map_option canon (map_of kvs k)"
  using map_of_sort [of "map (\<lambda>(k, v). (k, canon v)) kvs"] assms by (simp add: map_of_map_pair)

lemma canon_object_eq:
  assumes "distinct (map fst a)" "distinct (map fst b)" "canon (JObj a) = canon (JObj b)"
  shows "map_option canon (map_of a k) = map_option canon (map_of b k)"
  using assms canon_object_lookup by (metis canon.simps(2) json.inject(5))

text \<open>Equal canonical forms, equal maps.\<close>

lemma canon_eq_iff: "wf_json a \<Longrightarrow> wf_json b \<Longrightarrow> canon a = canon b \<longleftrightarrow> tree_of a = tree_of b"
proof (induction a arbitrary: b rule: json_induct)
  case (Arr vs)
  show ?case
  proof (cases b)
    case (JArr ws)
    have "map canon vs = map canon ws \<longleftrightarrow> map tree_of vs = map tree_of ws"
      using Arr JArr by (auto simp: list_eq_iff_nth_eq)
    then show ?thesis using JArr by simp
  qed auto
next
  case (Obj kvs)
  show ?case
  proof (cases b)
    case (JObj lvs)
    have d: "distinct (map fst kvs)" "distinct (map fst lvs)" using Obj.prems JObj by auto
    have step: "map_option canon (map_of kvs k) = map_option canon (map_of lvs k) \<longleftrightarrow>
        map_option tree_of (map_of kvs k) = map_option tree_of (map_of lvs k)" for k
    proof (cases "map_of kvs k"; cases "map_of lvs k")
      fix x y assume k: "map_of kvs k = Some x" "map_of lvs k = Some y"
      then have "(k, x) \<in> set kvs" "(k, y) \<in> set lvs" by (simp_all add: map_of_SomeD)
      then have "canon x = canon y \<longleftrightarrow> tree_of x = tree_of y"
        using Obj.IH Obj.prems JObj by fastforce
      then show ?thesis using k by simp
    qed simp_all
    have "canon (JObj kvs) = canon (JObj lvs) \<longleftrightarrow>
        map_of (map (\<lambda>(k, v). (k, canon v)) kvs) = map_of (map (\<lambda>(k, v). (k, canon v)) lvs)"
      using sort_eq_iff [of "map (\<lambda>(k, v). (k, canon v)) kvs" "map (\<lambda>(k, v). (k, canon v)) lvs"] d by simp
    also have "\<dots> \<longleftrightarrow> tree_of (JObj kvs) = tree_of (JObj lvs)"
      using step by (simp add: fun_eq_iff map_of_map_pair)
    finally show ?thesis using JObj by simp
  qed auto
next
  case Null
  show ?case by (cases b) auto
next
  case (Bool c)
  show ?case by (cases b) auto
next
  case (Num n)
  show ?case by (cases b) auto
next
  case (Str t)
  show ?case by (cases b) auto
qed

end
