(* ===== verification/Release_Record.thy ===== *)
theory Release_Record
  imports Flights Json_Canon "HOL-Library.Signed_Division" "HOL-Library.Sublist"
begin

text \<open>
  The data of \<open>K8S::Helm::Release\<close> (\<open>pkg/resources/helm/release.go\<close>, \<open>fingerprint\<close> of
  \<open>inflight.go\<close>): the properties of the resource with their JSON form, Helm's release record as far
  as the program reads it, request ids, the labels a release carries, chart references. Helm's own
  names (its reserved labels, the texts of its status constants) come in a parameter record.
\<close>

subsection \<open>Properties\<close>

record release_metadata =
  rm_name :: string
  rm_namespace :: string
  rm_labels :: "(string \<times> string) list"
  rm_annotations :: "(string \<times> string) list"

record release_properties =
  rp_metadata :: release_metadata
  rp_chart :: string
  rp_repo_url :: string
  rp_version :: string
  rp_values :: jobject
  rp_create_namespace :: bool
  rp_skip_crds :: bool
  rp_disable_hooks :: bool
  rp_atomic :: bool
  rp_timeout_seconds :: int
  rp_revision :: int
  rp_status :: string
  rp_app_version :: string
  rp_resource_names :: "(string \<times> string list) list"

definition resource_type_release :: string where
  "resource_type_release = ''K8S::Helm::Release''"

definition default_timeout_seconds :: int where
  "default_timeout_seconds = 600"

text \<open>\<open>time.Duration(n) * time.Second\<close>: a 64-bit product.\<close>

definition seconds_duration :: "int \<Rightarrow> duration" where
  "seconds_duration n = word_of_int n * word_of_int second"

definition release_properties_timeout :: "release_properties \<Rightarrow> duration" where
  "release_properties_timeout p =
     (if rp_timeout_seconds p > 0 then seconds_duration (rp_timeout_seconds p)
      else seconds_duration default_timeout_seconds)"

text \<open>The JSON form: an \<open>omitempty\<close> field is left out when it has its zero value.\<close>

definition omit_string :: "string \<Rightarrow> string \<Rightarrow> jobject" where
  "omit_string k s = (if s = [] then [] else [(k, JStr s)])"

definition omit_bool :: "string \<Rightarrow> bool \<Rightarrow> jobject" where
  "omit_bool k b = (if b then [(k, JBool True)] else [])"

definition omit_int :: "string \<Rightarrow> int \<Rightarrow> jobject" where
  "omit_int k n = (if n = 0 then [] else [(k, JNum n)])"

definition omit_object :: "string \<Rightarrow> jobject \<Rightarrow> jobject" where
  "omit_object k kvs = (if kvs = [] then [] else [(k, JObj kvs)])"

definition encode_strings :: "(string \<times> string) list \<Rightarrow> jobject" where
  "encode_strings m = map (\<lambda>(k, v). (k, JStr v)) m"

definition encode_metadata :: "release_metadata \<Rightarrow> json" where
  "encode_metadata m = JObj ([(''name'', JStr (rm_name m)), (''namespace'', JStr (rm_namespace m))] @
     omit_object ''labels'' (encode_strings (rm_labels m)) @
     omit_object ''annotations'' (encode_strings (rm_annotations m)))"

definition encode_properties :: "release_properties \<Rightarrow> json" where
  "encode_properties p = JObj ([(''metadata'', encode_metadata (rp_metadata p))] @
     omit_string ''chart'' (rp_chart p) @ omit_string ''repoURL'' (rp_repo_url p) @
     omit_string ''version'' (rp_version p) @ omit_object ''values'' (rp_values p) @
     omit_bool ''createNamespace'' (rp_create_namespace p) @ omit_bool ''skipCrds'' (rp_skip_crds p) @
     omit_bool ''disableHooks'' (rp_disable_hooks p) @ omit_bool ''atomic'' (rp_atomic p) @
     omit_int ''timeoutSeconds'' (rp_timeout_seconds p) @ omit_int ''revision'' (rp_revision p) @
     omit_string ''status'' (rp_status p) @ omit_string ''appVersion'' (rp_app_version p) @
     omit_object ''resourceNames''
       (map (\<lambda>(k, names). (k, JArr (map JStr names))) (rp_resource_names p)))"

text \<open>Decoding, with the struct's own spelling of the keys: an absent or null field keeps its zero
  value, a field of another type fails. The text of \<open>encoding/json\<close>'s errors is shortened.\<close>

definition field_value :: "jobject \<Rightarrow> string \<Rightarrow> json" where
  "field_value kvs k = (case map_of kvs k of Some j \<Rightarrow> j | None \<Rightarrow> JNull)"

definition dec_string :: "jobject \<Rightarrow> string \<Rightarrow> string res" where
  "dec_string kvs k = (case field_value kvs k of JNull \<Rightarrow> Inr [] | JStr s \<Rightarrow> Inr s | _ \<Rightarrow> Inl (json_type_error k))"

definition dec_bool :: "jobject \<Rightarrow> string \<Rightarrow> bool res" where
  "dec_bool kvs k = (case field_value kvs k of JNull \<Rightarrow> Inr False | JBool b \<Rightarrow> Inr b | _ \<Rightarrow> Inl (json_type_error k))"

definition dec_int :: "jobject \<Rightarrow> string \<Rightarrow> int res" where
  "dec_int kvs k = (case field_value kvs k of JNull \<Rightarrow> Inr 0 | JNum n \<Rightarrow> Inr n | _ \<Rightarrow> Inl (json_type_error k))"

definition dec_object :: "jobject \<Rightarrow> string \<Rightarrow> jobject res" where
  "dec_object kvs k = (case field_value kvs k of JNull \<Rightarrow> Inr [] | JObj o' \<Rightarrow> Inr o' | _ \<Rightarrow> Inl (json_type_error k))"

fun dec_strings :: "jobject \<Rightarrow> (string \<times> string) list res" where
  "dec_strings [] = Inr []"
| "dec_strings ((k, v) # kvs) =
     (case v of
        JStr s \<Rightarrow> bind_res (dec_strings kvs) (\<lambda>m. Inr ((k, s) # m))
      | JNull \<Rightarrow> bind_res (dec_strings kvs) (\<lambda>m. Inr ((k, []) # m))
      | _ \<Rightarrow> Inl (json_type_error k))"

fun dec_names :: "json list \<Rightarrow> string list res" where
  "dec_names [] = Inr []"
| "dec_names (v # vs) =
     (case v of
        JStr s \<Rightarrow> bind_res (dec_names vs) (\<lambda>ns. Inr (s # ns))
      | JNull \<Rightarrow> bind_res (dec_names vs) (\<lambda>ns. Inr ([] # ns))
      | _ \<Rightarrow> Inl (json_type_error []))"

fun dec_resource_names :: "jobject \<Rightarrow> (string \<times> string list) list res" where
  "dec_resource_names [] = Inr []"
| "dec_resource_names ((k, v) # kvs) =
     (case v of
        JArr vs \<Rightarrow> bind_res (dec_names vs) (\<lambda>ns. bind_res (dec_resource_names kvs) (\<lambda>m. Inr ((k, ns) # m)))
      | JNull \<Rightarrow> bind_res (dec_resource_names kvs) (\<lambda>m. Inr ((k, []) # m))
      | _ \<Rightarrow> Inl (json_type_error k))"

definition decode_metadata :: "jobject \<Rightarrow> release_metadata res" where
  "decode_metadata kvs =
     bind_res (dec_string kvs ''name'') (\<lambda>name.
     bind_res (dec_string kvs ''namespace'') (\<lambda>ns.
     bind_res (bind_res (dec_object kvs ''labels'') dec_strings) (\<lambda>labels.
     bind_res (bind_res (dec_object kvs ''annotations'') dec_strings) (\<lambda>annotations.
       Inr \<lparr>rm_name = name, rm_namespace = ns, rm_labels = labels, rm_annotations = annotations\<rparr>))))"

definition decode_object :: "jobject \<Rightarrow> release_properties res" where
  "decode_object kvs =
     bind_res (bind_res (dec_object kvs ''metadata'') decode_metadata) (\<lambda>meta.
     bind_res (dec_string kvs ''chart'') (\<lambda>chart.
     bind_res (dec_string kvs ''repoURL'') (\<lambda>repo.
     bind_res (dec_string kvs ''version'') (\<lambda>version.
     bind_res (dec_object kvs ''values'') (\<lambda>values.
     bind_res (dec_bool kvs ''createNamespace'') (\<lambda>create_ns.
     bind_res (dec_bool kvs ''skipCrds'') (\<lambda>skip.
     bind_res (dec_bool kvs ''disableHooks'') (\<lambda>disable.
     bind_res (dec_bool kvs ''atomic'') (\<lambda>atomic.
     bind_res (dec_int kvs ''timeoutSeconds'') (\<lambda>timeout.
     bind_res (dec_int kvs ''revision'') (\<lambda>revision.
     bind_res (dec_string kvs ''status'') (\<lambda>status.
     bind_res (dec_string kvs ''appVersion'') (\<lambda>app.
     bind_res (bind_res (dec_object kvs ''resourceNames'') dec_resource_names) (\<lambda>names.
       Inr \<lparr>rp_metadata = meta, rp_chart = chart, rp_repo_url = repo, rp_version = version, rp_values = values,
         rp_create_namespace = create_ns, rp_skip_crds = skip, rp_disable_hooks = disable, rp_atomic = atomic,
         rp_timeout_seconds = timeout, rp_revision = revision, rp_status = status, rp_app_version = app,
         rp_resource_names = names\<rparr>))))))))))))))"

definition decode_properties :: "raw \<Rightarrow> release_properties res" where
  "decode_properties raw =
     (case (case raw of
              None \<Rightarrow> Inl (new_error ''unexpected end of JSON input'')
            | Some (Inl e) \<Rightarrow> Inl e
            | Some (Inr JNull) \<Rightarrow> decode_object []
            | Some (Inr (JObj kvs)) \<Rightarrow> decode_object kvs
            | Some (Inr _) \<Rightarrow> Inl (json_type_error [])) of
        Inl e \<Rightarrow> Inl (wrap_error (''unmarshal '' @ resource_type_release @ '' properties'') e)
      | Inr p \<Rightarrow> Inr p)"

subsection \<open>Comparison of values\<close>

definition values_equal :: "jobject \<Rightarrow> jobject \<Rightarrow> bool" where
  "values_equal a b \<longleftrightarrow> (if a = [] \<and> b = [] then True else canon (JObj a) = canon (JObj b))"

text \<open>The computed fields are cleared; \<open>digest\<close> is the SHA-256 of the marshalled bytes in hex.\<close>

definition request_inputs :: "release_properties \<Rightarrow> release_properties" where
  "request_inputs p = p\<lparr>rp_revision := 0, rp_status := [], rp_app_version := [], rp_resource_names := []\<rparr>"

definition fingerprint :: "(json \<Rightarrow> string) \<Rightarrow> release_properties option \<Rightarrow> string" where
  "fingerprint digest p =
     (case p of None \<Rightarrow> [] | Some p \<Rightarrow> digest (canon (encode_properties (request_inputs p))))"

subsection \<open>The release record\<close>

text \<open>Helm's status constants the program names, and its others by their text. What Helm defines over
  them is a parameter: the text of a status, which ones hold the release's lock, the reserved label
  names, the text of a time.\<close>

datatype helm_status =
    Status_deployed | Status_uninstalled | Status_failed | Status_pending_install | Status_other string

record helm_env =
  hm_text :: "helm_status \<Rightarrow> string"
  hm_pending :: "helm_status \<Rightarrow> bool"
  hm_system_labels :: "string list"
  hm_time :: "instant \<Rightarrow> string"

definition helm_documented :: "helm_env \<Rightarrow> bool" where
  "helm_documented h \<longleftrightarrow> hm_pending h Status_pending_install \<and> \<not> hm_pending h Status_deployed \<and>
     \<not> hm_pending h Status_failed \<and> \<not> hm_pending h Status_uninstalled \<and>
     ''formae.dev/managed'' \<notin> set (hm_system_labels h) \<and> ''formae.dev/timeout-seconds'' \<notin> set (hm_system_labels h)"

record release_info =
  ri_status :: helm_status
  ri_description :: string
  ri_first_deployed :: instant
  ri_last_deployed :: instant

record chart_metadata =
  cm_name :: string
  cm_version :: string
  cm_app_version :: string
  cm_dependencies :: "string list"

record chart =
  ch_metadata :: "chart_metadata option"
  ch_dependencies :: nat

datatype hook_event = Hook_post_install | Hook_post_upgrade | Hook_other

record hook =
  hk_name :: string
  hk_events :: "hook_event list"
  hk_manifest :: string

record helm_release =
  rel_name :: string
  rel_namespace :: string
  rel_version :: int
  rel_info :: "release_info option"
  rel_chart :: "chart option"
  rel_config :: jobject
  rel_labels :: "(string \<times> string) list"
  rel_manifest :: string
  rel_hooks :: "hook list"

definition release_is_pending :: "helm_env \<Rightarrow> helm_release option \<Rightarrow> bool" where
  "release_is_pending h rel =
     (case rel of
        None \<Rightarrow> False
      | Some r \<Rightarrow> (case rel_info r of None \<Rightarrow> False | Some info \<Rightarrow> hm_pending h (ri_status info)))"

subsection \<open>Labels\<close>

definition formae_managed_label :: string where "formae_managed_label = ''formae.dev/managed''"
definition formae_label_prefix :: string where "formae_label_prefix = ''formae.dev/''"
definition formae_timeout_label :: string where "formae_timeout_label = ''formae.dev/timeout-seconds''"

definition label :: "(string \<times> string) list \<Rightarrow> string \<Rightarrow> string" where
  "label m k = (case map_of m k of Some v \<Rightarrow> v | None \<Rightarrow> [])"

text \<open>A nil map and an empty one are the same list.\<close>

definition without_system_labels :: "helm_env \<Rightarrow> (string \<times> string) list \<Rightarrow> (string \<times> string) list" where
  "without_system_labels h m =
     filter (\<lambda>kv. fst kv \<notin> set (hm_system_labels h) \<and> fst kv \<noteq> formae_managed_label) m"

definition without_formae_labels :: "(string \<times> string) list \<Rightarrow> (string \<times> string) list" where
  "without_formae_labels m = filter (\<lambda>kv. \<not> has_prefix (fst kv) formae_label_prefix) m"

text \<open>\<open>int(d.Seconds())\<close>: whole seconds, toward zero.\<close>

definition whole_seconds :: "duration \<Rightarrow> int" where
  "whole_seconds d = sint d sdiv second"

definition release_labels :: "helm_env \<Rightarrow> release_properties \<Rightarrow> (string \<times> string) list" where
  "release_labels h p =
     AList.update formae_timeout_label (itoa (whole_seconds (release_properties_timeout p)))
       (AList.update formae_managed_label ''true''
          (without_system_labels h (rm_labels (rp_metadata p))))"

definition release_timeout :: "helm_release \<Rightarrow> duration" where
  "release_timeout rel =
     (case atoi (label (rel_labels rel) formae_timeout_label) of
        Some secs \<Rightarrow> if secs > 0 then seconds_duration secs else seconds_duration default_timeout_seconds
      | None \<Rightarrow> seconds_duration default_timeout_seconds)"

definition formae_owns :: "helm_release option \<Rightarrow> bool" where
  "formae_owns rel =
     (case rel of None \<Rightarrow> False | Some r \<Rightarrow> label (rel_labels r) formae_managed_label = ''true'')"

subsection \<open>Request ids\<close>

fun op_of_text :: "string \<Rightarrow> op_kind option" where
  "op_of_text s =
     (if s = ''install'' then Some Kind_install else if s = ''upgrade'' then Some Kind_upgrade
      else if s = ''delete'' then Some Kind_delete else None)"

definition quoted :: "string \<Rightarrow> string" where
  "quoted s = [CHR 0x22] @ s @ [CHR 0x22]"

definition parse_request_id :: "(string \<Rightarrow> bool) \<Rightarrow> string \<Rightarrow> (string \<times> string \<times> int \<times> op_kind) res" where
  "parse_request_id uuid_ok full =
     (case request_generation uuid_ok full of
        Inl e \<Rightarrow> Inl e
      | Inr _ \<Rightarrow>
          let rid = (case cut_char CHR ''#'' full of Some (before, gen) \<Rightarrow> before | None \<Rightarrow> full) in
          (case (last_index CHR ''@'' rid, last_index CHR '':'' rid) of
             (Some at, Some colon) \<Rightarrow>
               if colon < at then Inl (new_error (''malformed request id '' @ quoted rid))
               else (case atoi (take (colon - at - 1) (drop (at + 1) rid)) of
                  None \<Rightarrow> Inl (new_error (''malformed revision in request id '' @ quoted rid))
                | Some revision \<Rightarrow>
                    (case parse_namespaced_native_id (take at rid) of
                       Inl e \<Rightarrow> Inl (wrap_error (''malformed target in request id '' @ quoted rid) e)
                     | Inr (ns, name) \<Rightarrow>
                         (case (if revision < 1 then None else op_of_text (drop (colon + 1) rid)) of
                            None \<Rightarrow> Inl (new_error ''malformed Helm revision or operation'')
                          | Some op \<Rightarrow> Inr (ns, name, revision, op))))
           | _ \<Rightarrow> Inl (new_error (''malformed request id '' @ quoted rid))))"

subsection \<open>Chart references\<close>

definition chart_ref_name :: "string \<Rightarrow> string" where
  "chart_ref_name r =
     (let r = trim_suffix r ''/'' in
      case last_index CHR ''/'' r of Some i \<Rightarrow> drop (Suc i) r | None \<Rightarrow> r)"

definition oci_scheme :: string where "oci_scheme = ''oci://''"

definition resolve_chart_ref :: "string \<Rightarrow> string \<Rightarrow> string \<times> string" where
  "resolve_chart_ref chart_ref repo_url =
     (if has_prefix repo_url oci_scheme then (trim_suffix repo_url ''/'' @ ''/'' @ chart_ref, [])
      else (chart_ref, repo_url))"

text \<open>The advice that follows the first sentences of the two refusals is left out.\<close>

definition validate_chart_ref :: "string \<Rightarrow> string \<Rightarrow> gerr option" where
  "validate_chart_ref chart_ref repo_url =
     (if has_prefix chart_ref oci_scheme
      then (let name = (case last_index CHR ''/'' chart_ref of Some i \<Rightarrow> drop (Suc i) chart_ref | None \<Rightarrow> chart_ref) in
        Some (new_error (resource_type_release @
          '': put the registry in repoURL and the chart name in chart, not a full OCI reference in chart. '' @
          ''Use repoURL = '' @ quoted (trim_suffix chart_ref (''/'' @ name)) @ '' with chart = '' @ quoted name @
          '' instead of chart = '' @ quoted chart_ref)))
      else if repo_url \<noteq> [] \<or> CHR ''/'' \<in> set chart_ref then None
      else Some (new_error (resource_type_release @ '': chart '' @ quoted chart_ref @
          '' is a bare name with no repoURL, which Helm cannot resolve'')))"

subsection \<open>Decoding inverts encoding\<close>

lemma field_value_Nil [json_simps]: "field_value [] k = JNull"
  by (simp add: field_value_def)

lemma field_value_Cons [json_simps]:
  "field_value ((k, j) # kvs) k' = (if k = k' then j else field_value kvs k')"
  by (simp add: field_value_def)

lemma field_value_omit [json_simps]:
  "field_value (omit_string k s @ kvs) k' = (if k = k' \<and> s \<noteq> [] then JStr s else field_value kvs k')"
  "field_value (omit_bool k b @ kvs) k' = (if k = k' \<and> b then JBool True else field_value kvs k')"
  "field_value (omit_int k n @ kvs) k' = (if k = k' \<and> n \<noteq> 0 then JNum n else field_value kvs k')"
  "field_value (omit_object k c @ kvs) k' = (if k = k' \<and> c \<noteq> [] then JObj c else field_value kvs k')"
  by (simp_all add: omit_string_def omit_bool_def omit_int_def omit_object_def field_value_Cons)

lemma field_value_omit_last [json_simps]:
  "field_value (omit_object k c) k' = (if k = k' \<and> c \<noteq> [] then JObj c else JNull)"
  using field_value_omit(4) [of k c "[]" k'] by (simp add: field_value_Nil)

lemma dec_encode_strings: "dec_strings (encode_strings m) = Inr m"
  by (induction m) (auto simp: encode_strings_def)

lemma dec_encode_names: "dec_names (map JStr ns) = Inr ns"
  by (induction ns) auto

lemma dec_encode_resource_names:
  "dec_resource_names (map (\<lambda>(k, names). (k, JArr (map JStr names))) m) = Inr m"
  by (induction m) (auto simp: dec_encode_names)

lemma encode_strings_Nil [simp]: "encode_strings m = [] \<longleftrightarrow> m = []"
  by (simp add: encode_strings_def)

lemma dec_omitted:
  "field_value kvs k = (if s = [] then JNull else JStr s) \<Longrightarrow> dec_string kvs k = Inr s"
  "field_value kvs k = (if b then JBool True else JNull) \<Longrightarrow> dec_bool kvs k = Inr b"
  "field_value kvs k = (if n = 0 then JNull else JNum n) \<Longrightarrow> dec_int kvs k = Inr n"
  "field_value kvs k = (if c = [] then JNull else JObj c) \<Longrightarrow> dec_object kvs k = Inr c"
  by (simp_all add: dec_string_def dec_bool_def dec_int_def dec_object_def)

lemma decode_encode_metadata:
  assumes "encode_metadata m = JObj kvs"
  shows "decode_metadata kvs = Inr m"
proof -
  have kvs: "kvs = (''name'', JStr (rm_name m)) # (''namespace'', JStr (rm_namespace m)) #
     omit_object ''labels'' (encode_strings (rm_labels m)) @
     omit_object ''annotations'' (encode_strings (rm_annotations m))"
    using assms by (simp add: encode_metadata_def)
  have "dec_string kvs ''name'' = Inr (rm_name m)" "dec_string kvs ''namespace'' = Inr (rm_namespace m)"
    by (simp_all add: kvs dec_string_def json_simps)
  moreover have "dec_object kvs ''labels'' = Inr (encode_strings (rm_labels m))"
    "dec_object kvs ''annotations'' = Inr (encode_strings (rm_annotations m))"
    by (rule dec_omitted; simp add: kvs json_simps)+
  ultimately show ?thesis by (simp add: decode_metadata_def dec_encode_strings)
qed

text \<open>Decoding a resource's properties inverts encoding them: nothing a Read reports or a request
  carries is lost or altered by the JSON form, omitted zero values included.\<close>

theorem properties_decode_encode: "decode_properties (Some (Inr (encode_properties p))) = Inr p"
proof -
  obtain kvs where enc: "encode_properties p = JObj kvs" by (simp add: encode_properties_def)
  then have kvs: "kvs = (''metadata'', encode_metadata (rp_metadata p)) #
     omit_string ''chart'' (rp_chart p) @ omit_string ''repoURL'' (rp_repo_url p) @
     omit_string ''version'' (rp_version p) @ omit_object ''values'' (rp_values p) @
     omit_bool ''createNamespace'' (rp_create_namespace p) @ omit_bool ''skipCrds'' (rp_skip_crds p) @
     omit_bool ''disableHooks'' (rp_disable_hooks p) @ omit_bool ''atomic'' (rp_atomic p) @
     omit_int ''timeoutSeconds'' (rp_timeout_seconds p) @ omit_int ''revision'' (rp_revision p) @
     omit_string ''status'' (rp_status p) @ omit_string ''appVersion'' (rp_app_version p) @
     omit_object ''resourceNames'' (map (\<lambda>(k, names). (k, JArr (map JStr names))) (rp_resource_names p))"
    by (simp add: encode_properties_def)
  obtain mkvs where m: "encode_metadata (rp_metadata p) = JObj mkvs" by (simp add: encode_metadata_def)
  have meta: "bind_res (dec_object kvs ''metadata'') decode_metadata = Inr (rp_metadata p)"
    using decode_encode_metadata [OF m] m by (simp add: dec_object_def kvs json_simps)
  have strings: "dec_string kvs ''chart'' = Inr (rp_chart p)" "dec_string kvs ''repoURL'' = Inr (rp_repo_url p)"
    "dec_string kvs ''version'' = Inr (rp_version p)" "dec_string kvs ''status'' = Inr (rp_status p)"
    "dec_string kvs ''appVersion'' = Inr (rp_app_version p)"
    by (rule dec_omitted; simp add: kvs json_simps)+
  have bools: "dec_bool kvs ''createNamespace'' = Inr (rp_create_namespace p)"
    "dec_bool kvs ''skipCrds'' = Inr (rp_skip_crds p)" "dec_bool kvs ''disableHooks'' = Inr (rp_disable_hooks p)"
    "dec_bool kvs ''atomic'' = Inr (rp_atomic p)"
    by (rule dec_omitted; simp add: kvs json_simps)+
  have ints: "dec_int kvs ''timeoutSeconds'' = Inr (rp_timeout_seconds p)"
    "dec_int kvs ''revision'' = Inr (rp_revision p)"
    by (rule dec_omitted; simp add: kvs json_simps)+
  have objects: "dec_object kvs ''values'' = Inr (rp_values p)"
    "dec_object kvs ''resourceNames'' =
       Inr (map (\<lambda>(k, names). (k, JArr (map JStr names))) (rp_resource_names p))"
    by (rule dec_omitted; simp add: kvs json_simps)+
  have "decode_object kvs = Inr p"
    by (simp add: decode_object_def meta strings bools ints objects dec_encode_resource_names)
  then show ?thesis by (simp add: decode_properties_def enc)
qed

text \<open>Two value trees compare equal exactly when they are the same nested maps, whatever order
  their decoders left the keys in.\<close>

theorem values_equal_same_maps:
  assumes "wf_json (JObj a)" and "wf_json (JObj b)"
  shows "values_equal a b \<longleftrightarrow> tree_of (JObj a) = tree_of (JObj b)"
  using canon_eq_iff [OF assms] by (auto simp: values_equal_def)

theorem values_equal_same_maps_witness:
  "values_equal [(''a'', JNum 1), (''b'', JObj [(''x'', JNull), (''y'', JArr [])])]
     [(''b'', JObj [(''y'', JArr []), (''x'', JNull)]), (''a'', JNum 1)]"
proof -
  let ?a = "[(''a'', JNum 1), (''b'', JObj [(''x'', JNull), (''y'', JArr [])])]"
  let ?b = "[(''b'', JObj [(''y'', JArr []), (''x'', JNull)]), (''a'', JNum 1)]"
  have "wf_json (JObj ?a)" "wf_json (JObj ?b)" by simp_all
  moreover have "tree_of (JObj ?a) = tree_of (JObj ?b)" by (auto simp: fun_eq_iff)
  ultimately show ?thesis using values_equal_same_maps by blast
qed

subsection \<open>Request ids round trip\<close>

lemma op_of_text_text: "op \<noteq> Kind_none \<Longrightarrow> op_of_text (op_text op) = Some op"
  by (cases op) simp_all

lemma op_text_plain: "c \<in> set (op_text op) \<Longrightarrow> c \<notin> {CHR ''@'', CHR '':'', CHR ''#'', CHR ''/''}"
  by (cases op) auto

lemma itoa_plain: "c \<in> {CHR ''@'', CHR '':'', CHR ''#'', CHR ''/''} \<Longrightarrow> c \<notin> set (itoa n)"
proof (rule itoa_not_in)
  assume c: "c \<in> {CHR ''@'', CHR '':'', CHR ''#'', CHR ''/''}"
  then show "c \<noteq> CHR ''-''" by auto
  have "digit_val c = None" using c by (auto simp: digit_val_def)
  then show "digit_char d \<noteq> c" if "d < 10" for d using that by auto
qed

lemma parse_plain_request_id:
  assumes ids: "ns \<noteq> []" "name \<noteq> []" "CHR ''/'' \<notin> set ns" "CHR ''/'' \<notin> set name"
    and rev_ok: "1 \<le> revision" "revision \<le> max_int64" and op: "op \<noteq> Kind_none"
    and gen: "request_generation uuid_ok full = Inr gen"
    and full: "full = request_id ns name revision op \<and> CHR ''#'' \<notin> set full \<or>
      (\<exists>g. full = request_id ns name revision op @ CHR ''#'' # g \<and> CHR ''#'' \<notin> set (request_id ns name revision op))"
  shows "parse_request_id uuid_ok full = Inr (ns, name, revision, op)"
proof -
  let ?rid = "request_id ns name revision op"
  have cut: "(case cut_char CHR ''#'' full of Some (before, g) \<Rightarrow> before | None \<Rightarrow> full) = ?rid"
    using full by auto
  have split1: "?rid = native_id ns name @ CHR ''@'' # (itoa revision @ CHR '':'' # op_text op)"
    by (simp add: request_id_def native_id_def)
  have split2: "?rid = (native_id ns name @ CHR ''@'' # itoa revision) @ CHR '':'' # op_text op"
    by (simp add: request_id_def native_id_def)
  have "CHR ''@'' \<notin> set (itoa revision @ CHR '':'' # op_text op)"
    using itoa_plain [of "CHR ''@''" revision] op_text_plain [of "CHR ''@''" op] by auto
  then have at: "last_index CHR ''@'' ?rid = Some (length (native_id ns name))"
    unfolding split1 by (rule last_index_append)
  have "CHR '':'' \<notin> set (op_text op)" using op_text_plain by blast
  then have colon: "last_index CHR '':'' ?rid = Some (length (native_id ns name @ CHR ''@'' # itoa revision))"
    unfolding split2 by (rule last_index_append)
  have parts: "take (length (native_id ns name)) ?rid = native_id ns name"
    "take (length (itoa revision)) (drop (Suc (length (native_id ns name))) ?rid) = itoa revision"
    "drop (Suc (Suc (length (native_id ns name) + length (itoa revision)))) ?rid = op_text op"
    unfolding split1 by simp_all
  have "atoi (itoa revision) = Some revision"
    using rev_ok by (intro atoi_itoa) (simp_all add: min_int64_def)
  moreover have "parse_namespaced_native_id (native_id ns name) = Inr (ns, name)" using ids by simp
  ultimately show ?thesis
    using gen cut at colon parts rev_ok op_of_text_text [OF op]
    by (simp add: parse_request_id_def Let_def)
qed

text \<open>The request id a Helm operation hands out is read back by every later poll as the same
  release, revision, operation and flight generation.\<close>

theorem request_id_round_trip:
  assumes "ns \<noteq> []" "name \<noteq> []" "CHR ''/'' \<notin> set ns" "CHR ''/'' \<notin> set name"
    and "CHR ''#'' \<notin> set ns" "CHR ''#'' \<notin> set name"
    and "1 \<le> fl_revision f" "fl_revision f \<le> max_int64" "fl_op f \<noteq> Kind_none" "uuid_ok (fl_generation f)"
  shows "parse_request_id uuid_ok (flight_request_id ns name f) = Inr (ns, name, fl_revision f, fl_op f) \<and>
    request_generation uuid_ok (flight_request_id ns name f) = Inr (fl_generation f) \<and>
    parse_request_id uuid_ok (request_id ns name (fl_revision f) (fl_op f)) = Inr (ns, name, fl_revision f, fl_op f)"
proof -
  let ?rid = "request_id ns name (fl_revision f) (fl_op f)"
  have plain: "CHR ''#'' \<notin> set ?rid"
    using assms(5,6) itoa_plain [of "CHR ''#''"] op_text_plain [of "CHR ''#''"]
    by (auto simp: request_id_def)
  have full: "flight_request_id ns name f = ?rid @ CHR ''#'' # fl_generation f"
    by (simp add: flight_request_id_def)
  have gen: "request_generation uuid_ok (flight_request_id ns name f) = Inr (fl_generation f)"
    using plain assms(10) by (simp add: request_generation_def full)
  have "request_generation uuid_ok ?rid = Inr []" using plain by (simp add: request_generation_def)
  then show ?thesis
    using gen full plain parse_plain_request_id [OF assms(1-4,7-9)] by blast
qed

theorem request_id_round_trip_witness:
  "parse_request_id (\<lambda>g. g = ''g1'') (flight_request_id ''apps'' ''podinfo'' running_flight) =
     Inr (''apps'', ''podinfo'', 1, Kind_install)"
proof -
  have f: "fl_revision running_flight = 1" "fl_op running_flight = Kind_install"
    "fl_generation running_flight = ''g1''"
    by (simp_all add: running_flight_def sample_flight_def submit_candidate_def)
  show ?thesis
    using request_id_round_trip [of "''apps''" "''podinfo''" running_flight "\<lambda>g. g = ''g1''"] f
    by (simp add: max_int64_def)
qed

subsection \<open>What a release's labels say\<close>

lemma whole_seconds_exact:
  assumes "0 < n" "n \<le> 9223372036"
  shows "sint (seconds_duration n) = n * second" and "whole_seconds (seconds_duration n) = n"
proof -
  have "sint (seconds_duration n) = sint (word_of_int (n * second) :: duration)"
    by (simp add: seconds_duration_def)
  also have "\<dots> = n * second"
    by (rule sint_of_int_exact) (use assms in \<open>simp_all add: second_def max_duration_def\<close>)
  finally show *: "sint (seconds_duration n) = n * second" .
  show "whole_seconds (seconds_duration n) = n"
    using assms by (simp add: whole_seconds_def * signed_divide_int_def second_def sgn_if)
qed

lemma label_update [simp]:
  "label (AList.update k v m) k' = (if k' = k then v else label m k')"
  by (simp add: label_def)

lemma map_of_without_system:
  "map_of (without_system_labels h m) k =
     (if k \<notin> set (hm_system_labels h) \<and> k \<noteq> formae_managed_label then map_of m k else None)"
  unfolding without_system_labels_def
  by (rule map_of_filter_key [of "\<lambda>k. k \<notin> set (hm_system_labels h) \<and> k \<noteq> formae_managed_label"])

lemma map_of_without_formae:
  "map_of (without_formae_labels m) k = (if \<not> has_prefix k formae_label_prefix then map_of m k else None)"
  unfolding without_formae_labels_def
  by (rule map_of_filter_key [of "\<lambda>k. \<not> has_prefix k formae_label_prefix"])

text \<open>The labels written on a release identify it as formae's, carry its timeout back to any
  process that reads them, and hide from the reported properties again, leaving exactly the user's own.\<close>

theorem release_labels_round_trip:
  assumes t: "rp_timeout_seconds p \<le> 9223372036"
    and r: "rel_labels r = release_labels h p"
  shows "formae_owns (Some r) \<and> release_timeout r = release_properties_timeout p \<and>
    map_of (without_formae_labels (without_system_labels h (rel_labels r))) k =
      (if k \<in> set (hm_system_labels h) \<or> has_prefix k formae_label_prefix then None
       else map_of (rm_labels (rp_metadata p)) k)"
proof (intro conjI)
  have differ: "formae_timeout_label \<noteq> formae_managed_label"
    by (simp add: formae_timeout_label_def formae_managed_label_def)
  show "formae_owns (Some r)"
    using differ by (simp add: formae_owns_def r release_labels_def)
  define n where "n = (if rp_timeout_seconds p > 0 then rp_timeout_seconds p else default_timeout_seconds)"
  have n: "0 < n" "n \<le> 9223372036" "release_properties_timeout p = seconds_duration n"
    using t by (auto simp: n_def default_timeout_seconds_def release_properties_timeout_def)
  have "atoi (itoa n) = Some n" using n by (intro atoi_itoa) (simp_all add: min_int64_def max_int64_def)
  then show "release_timeout r = release_properties_timeout p"
    using n whole_seconds_exact(2) by (simp add: release_timeout_def r release_labels_def)
  have pre: "has_prefix formae_managed_label formae_label_prefix" "has_prefix formae_timeout_label formae_label_prefix"
    by (simp_all add: formae_managed_label_def formae_timeout_label_def formae_label_prefix_def has_prefix_def)
  show "map_of (without_formae_labels (without_system_labels h (rel_labels r))) k =
      (if k \<in> set (hm_system_labels h) \<or> has_prefix k formae_label_prefix then None
       else map_of (rm_labels (rp_metadata p)) k)"
    using pre by (auto simp: map_of_without_system map_of_without_formae r release_labels_def)
qed

definition sample_properties :: release_properties where
  "sample_properties = \<lparr>rp_metadata = \<lparr>rm_name = ''podinfo'', rm_namespace = ''apps'',
       rm_labels = [(''team'', ''web'')], rm_annotations = []\<rparr>,
     rp_chart = ''podinfo'', rp_repo_url = ''oci://ghcr.io/charts'', rp_version = ''6.7.0'',
     rp_values = [(''replicas'', JNum 2)], rp_create_namespace = True, rp_skip_crds = False,
     rp_disable_hooks = False, rp_atomic = False, rp_timeout_seconds = 1800, rp_revision = 0,
     rp_status = [], rp_app_version = [], rp_resource_names = []\<rparr>"

definition sample_helm :: helm_env where
  "sample_helm = \<lparr>hm_text = (\<lambda>st. case st of Status_deployed \<Rightarrow> ''deployed'' | Status_uninstalled \<Rightarrow> ''uninstalled''
       | Status_failed \<Rightarrow> ''failed'' | Status_pending_install \<Rightarrow> ''pending-install'' | Status_other s \<Rightarrow> s),
     hm_pending = (\<lambda>st. st = Status_pending_install \<or> st = Status_other ''pending-upgrade'' \<or>
        st = Status_other ''pending-rollback''),
     hm_system_labels = [''name'', ''owner'', ''status'', ''version'', ''createdAt'', ''modifiedAt''], hm_time = itoa\<rparr>"

definition sample_release :: helm_release where
  "sample_release = \<lparr>rel_name = ''podinfo'', rel_namespace = ''apps'', rel_version = 1,
     rel_info = Some \<lparr>ri_status = Status_deployed, ri_description = [], ri_first_deployed = 0, ri_last_deployed = 0\<rparr>,
     rel_chart = Some \<lparr>ch_metadata = Some \<lparr>cm_name = ''podinfo'', cm_version = ''6.7.0'', cm_app_version = ''6'',
        cm_dependencies = []\<rparr>, ch_dependencies = 0\<rparr>,
     rel_config = [(''replicas'', JNum 2)], rel_labels = release_labels sample_helm sample_properties,
     rel_manifest = [], rel_hooks = []\<rparr>"

lemma sample_helm_documented: "helm_documented sample_helm"
  by code_simp

theorem release_labels_round_trip_witness:
  "formae_owns (Some sample_release) \<and> release_timeout sample_release = release_properties_timeout sample_properties"
proof -
  have "rp_timeout_seconds sample_properties \<le> 9223372036"
    "rel_labels sample_release = release_labels sample_helm sample_properties"
    by (simp_all add: sample_properties_def sample_release_def)
  then show ?thesis using release_labels_round_trip by blast
qed

subsection \<open>Fingerprints\<close>

lemma canon_encoded_field:
  assumes "canon (JObj a) = canon (JObj b)" "distinct (map fst a)" "distinct (map fst b)"
  shows "canon (field_value a k) = canon (field_value b k)"
  using canon_object_eq [OF assms(2,3,1), of k] by (auto simp: field_value_def split: option.splits)

text \<open>Everything a request asks for, up to the order of its maps.\<close>

definition same_request :: "release_properties \<Rightarrow> release_properties \<Rightarrow> bool" where
  "same_request p q \<longleftrightarrow>
     rm_name (rp_metadata p) = rm_name (rp_metadata q) \<and> rm_namespace (rp_metadata p) = rm_namespace (rp_metadata q) \<and>
     rp_chart p = rp_chart q \<and> rp_repo_url p = rp_repo_url q \<and> rp_version p = rp_version q \<and>
     values_equal (rp_values p) (rp_values q) \<and> rp_create_namespace p = rp_create_namespace q \<and>
     rp_skip_crds p = rp_skip_crds q \<and> rp_disable_hooks p = rp_disable_hooks q \<and> rp_atomic p = rp_atomic q \<and>
     rp_timeout_seconds p = rp_timeout_seconds q \<and>
     map_of (rm_labels (rp_metadata p)) = map_of (rm_labels (rp_metadata q)) \<and>
     map_of (rm_annotations (rp_metadata p)) = map_of (rm_annotations (rp_metadata q))"

definition property_keys :: "string list" where
  "property_keys = [''metadata''] @ [''chart''] @ [''repoURL''] @ [''version''] @ [''values''] @
     [''createNamespace''] @ [''skipCrds''] @ [''disableHooks''] @ [''atomic''] @ [''timeoutSeconds''] @
     [''revision''] @ [''status''] @ [''appVersion''] @ [''resourceNames'']"

lemma subseq_omit:
  "subseq (map fst (omit_string k s)) [k]" "subseq (map fst (omit_bool k b)) [k]"
  "subseq (map fst (omit_int k n)) [k]" "subseq (map fst (omit_object k c)) [k]"
  by (simp_all add: omit_string_def omit_bool_def omit_int_def omit_object_def)

lemma subseq_imp_distinct:
  assumes "subseq xs ys" "distinct ys"
  shows "distinct xs"
  using assms by (induction rule: list_emb.induct) (auto dest: list_emb_set)

lemma distinct_property_keys:
  assumes "encode_properties p = JObj kvs"
  shows "distinct (map fst kvs)"
proof -
  have "subseq (map fst kvs) property_keys"
    using assms unfolding encode_properties_def property_keys_def json.inject
    by (elim subst) (simp only: map_append, intro list_emb_append_mono subseq_omit, simp)
  moreover have "distinct property_keys" by (simp add: property_keys_def)
  ultimately show ?thesis using subseq_imp_distinct by blast
qed

lemma distinct_metadata_keys:
  assumes "encode_metadata m = JObj kvs"
  shows "distinct (map fst kvs)"
  using assms by (auto simp: encode_metadata_def omit_object_def split: if_splits)

lemma canon_omit:
  "map (\<lambda>(k, v). (k, canon v)) (omit_string k s) = omit_string k s"
  "map (\<lambda>(k, v). (k, canon v)) (omit_bool k b) = omit_bool k b"
  "map (\<lambda>(k, v). (k, canon v)) (omit_int k n) = omit_int k n"
  "map (\<lambda>(k, v). (k, canon v)) (omit_object k c) = (if c = [] then [] else [(k, canon (JObj c))])"
  by (simp_all add: omit_string_def omit_bool_def omit_int_def omit_object_def)

lemma canon_Nil_iff: "canon (JObj a) = canon (JObj []) \<longleftrightarrow> a = []"
  by (auto dest: arg_cong [of _ _ length])

lemma values_equal_canon: "values_equal a b \<longleftrightarrow> canon (JObj a) = canon (JObj b)"
  by (auto simp: values_equal_def)

lemma canon_omit_object_cong:
  assumes "canon (JObj a) = canon (JObj b)"
  shows "map (\<lambda>(k, v). (k, canon v)) (omit_object k a) = map (\<lambda>(k, v). (k, canon v)) (omit_object k b)"
proof -
  have "a = [] \<longleftrightarrow> b = []" using assms canon_Nil_iff by metis
  then show ?thesis using assms by (simp add: canon_omit(4) del: canon.simps)
qed

lemma canon_strings_iff:
  assumes "distinct (map fst a)" "distinct (map fst b)"
  shows "canon (JObj (encode_strings a)) = canon (JObj (encode_strings b)) \<longleftrightarrow> map_of a = map_of b"
proof -
  have keys: "map fst (encode_strings m) = map fst m" for m
    by (induction m) (auto simp: encode_strings_def)
  have wf: "wf_json (JObj (encode_strings m))" if "distinct (map fst m)" for m
    using that keys by (auto simp: encode_strings_def)
  have tree: "tree_of (JObj (encode_strings m)) = TObj (\<lambda>k. map_option TStr (map_of m k))" for m
    by (induction m) (auto simp: encode_strings_def fun_eq_iff)
  have "canon (JObj (encode_strings a)) = canon (JObj (encode_strings b)) \<longleftrightarrow>
      (\<forall>k. map_option TStr (map_of a k) = map_option TStr (map_of b k))"
    using canon_eq_iff [OF wf wf] assms by (simp add: tree fun_eq_iff del: canon.simps tree_of.simps)
  also have "\<dots> \<longleftrightarrow> map_of a = map_of b"
    using inj_eq [OF option.inj_map [of TStr]] by (simp add: inj_def fun_eq_iff)
  finally show ?thesis .
qed

lemma canon_zero_iff:
  "canon (if s = [] then JNull else JStr s) = canon (if s' = [] then JNull else JStr s') \<longleftrightarrow> s = s'"
  "canon (if b then JBool True else JNull) = canon (if b' then JBool True else JNull) \<longleftrightarrow> b = b'"
  "canon (if n = 0 then JNull else JNum n) = canon (if n' = 0 then JNull else JNum n') \<longleftrightarrow> n = n'"
  "canon (if c = [] then JNull else JObj c) = canon (if c' = [] then JNull else JObj c') \<longleftrightarrow>
     canon (JObj c) = canon (JObj c')"
  using canon_Nil_iff [of c] canon_Nil_iff [of c'] by (auto simp del: canon.simps(2)) auto

lemma encoded_fields:
  assumes "encode_properties p = JObj kvs"
  shows "field_value kvs ''metadata'' = encode_metadata (rp_metadata p)"
    "field_value kvs ''chart'' = (if rp_chart p = [] then JNull else JStr (rp_chart p))"
    "field_value kvs ''repoURL'' = (if rp_repo_url p = [] then JNull else JStr (rp_repo_url p))"
    "field_value kvs ''version'' = (if rp_version p = [] then JNull else JStr (rp_version p))"
    "field_value kvs ''values'' = (if rp_values p = [] then JNull else JObj (rp_values p))"
    "field_value kvs ''createNamespace'' = (if rp_create_namespace p then JBool True else JNull)"
    "field_value kvs ''skipCrds'' = (if rp_skip_crds p then JBool True else JNull)"
    "field_value kvs ''disableHooks'' = (if rp_disable_hooks p then JBool True else JNull)"
    "field_value kvs ''atomic'' = (if rp_atomic p then JBool True else JNull)"
    "field_value kvs ''timeoutSeconds'' = (if rp_timeout_seconds p = 0 then JNull else JNum (rp_timeout_seconds p))"
  using assms by (auto simp: encode_properties_def json_simps)

lemma encoded_metadata_fields:
  assumes "encode_metadata m = JObj kvs"
  shows "field_value kvs ''name'' = JStr (rm_name m)" "field_value kvs ''namespace'' = JStr (rm_namespace m)"
    "field_value kvs ''labels'' = (if encode_strings (rm_labels m) = [] then JNull else JObj (encode_strings (rm_labels m)))"
    "field_value kvs ''annotations'' =
       (if encode_strings (rm_annotations m) = [] then JNull else JObj (encode_strings (rm_annotations m)))"
  using assms by (auto simp: encode_metadata_def json_simps)

definition wf_request :: "release_properties \<Rightarrow> bool" where
  "wf_request p \<longleftrightarrow> distinct (map fst (rm_labels (rp_metadata p))) \<and>
     distinct (map fst (rm_annotations (rp_metadata p)))"

lemma canon_metadata_iff:
  assumes "distinct (map fst (rm_labels m))" "distinct (map fst (rm_annotations m))"
    "distinct (map fst (rm_labels m'))" "distinct (map fst (rm_annotations m'))"
  shows "canon (encode_metadata m) = canon (encode_metadata m') \<longleftrightarrow>
    rm_name m = rm_name m' \<and> rm_namespace m = rm_namespace m' \<and>
    map_of (rm_labels m) = map_of (rm_labels m') \<and> map_of (rm_annotations m) = map_of (rm_annotations m')"
    (is "?L \<longleftrightarrow> ?R")
proof
  assume eq: ?L
  obtain a b where e: "encode_metadata m = JObj a" "encode_metadata m' = JObj b" by (simp add: encode_metadata_def)
  have f: "canon (field_value a k) = canon (field_value b k)" for k
    using canon_encoded_field [of a b k] eq e distinct_metadata_keys by simp
  note fa = encoded_metadata_fields [OF e(1)] and fb = encoded_metadata_fields [OF e(2)]
  have "rm_name m = rm_name m'" "rm_namespace m = rm_namespace m'"
    using f [of "''name''"] f [of "''namespace''"] fa(1,2) fb(1,2) by simp_all
  moreover have "map_of (rm_labels m) = map_of (rm_labels m')"
    using f [of "''labels''"] canon_strings_iff [OF assms(1,3)] unfolding fa(3) fb(3) canon_zero_iff by simp
  moreover have "map_of (rm_annotations m) = map_of (rm_annotations m')"
    using f [of "''annotations''"] canon_strings_iff [OF assms(2,4)] unfolding fa(4) fb(4) canon_zero_iff by simp
  ultimately show ?R by blast
next
  assume r: ?R
  have "canon (JObj (encode_strings (rm_labels m))) = canon (JObj (encode_strings (rm_labels m')))"
    using r canon_strings_iff [OF assms(1,3)] by simp
  note labels = canon_omit_object_cong [OF this]
  have "canon (JObj (encode_strings (rm_annotations m))) = canon (JObj (encode_strings (rm_annotations m')))"
    using r canon_strings_iff [OF assms(2,4)] by simp
  note annotations = canon_omit_object_cong [OF this]
  show ?L using r labels annotations by (simp add: encode_metadata_def)
qed

text \<open>C17: unless the hash collides on the two, equal fingerprints mean the same request: the same
  release, chart, version, values, labels, annotations and switches, up to the order of maps; the
  fields a Read fills in do not count.\<close>

theorem fingerprint_identifies_request:
  assumes wf: "wf_request p" "wf_request q"
    and no_collision: "digest (canon (encode_properties (request_inputs p))) =
        digest (canon (encode_properties (request_inputs q))) \<Longrightarrow>
      canon (encode_properties (request_inputs p)) = canon (encode_properties (request_inputs q))"
  shows "fingerprint digest (Some p) = fingerprint digest (Some q) \<longleftrightarrow> same_request p q"
proof -
  let ?p = "request_inputs p" and ?q = "request_inputs q"
  obtain a b where e: "encode_properties ?p = JObj a" "encode_properties ?q = JObj b"
    by (simp add: encode_properties_def)
  have meta: "canon (encode_metadata (rp_metadata p)) = canon (encode_metadata (rp_metadata q)) \<longleftrightarrow>
      rm_name (rp_metadata p) = rm_name (rp_metadata q) \<and> rm_namespace (rp_metadata p) = rm_namespace (rp_metadata q) \<and>
      map_of (rm_labels (rp_metadata p)) = map_of (rm_labels (rp_metadata q)) \<and>
      map_of (rm_annotations (rp_metadata p)) = map_of (rm_annotations (rp_metadata q))"
    using wf by (intro canon_metadata_iff) (simp_all add: wf_request_def)
  have "canon (encode_properties ?p) = canon (encode_properties ?q) \<longleftrightarrow> same_request p q"
  proof
    assume "canon (encode_properties ?p) = canon (encode_properties ?q)"
    then have f: "canon (field_value a k) = canon (field_value b k)" for k
      using canon_encoded_field [of a b k] e distinct_property_keys by simp
    note fa = encoded_fields [OF e(1)] and fb = encoded_fields [OF e(2)]
    have "canon (encode_metadata (rp_metadata p)) = canon (encode_metadata (rp_metadata q))"
      using f [of "''metadata''"] unfolding fa(1) fb(1) by (simp add: request_inputs_def)
    moreover have "rp_chart ?p = rp_chart ?q" "rp_repo_url ?p = rp_repo_url ?q" "rp_version ?p = rp_version ?q"
      using f [of "''chart''"] f [of "''repoURL''"] f [of "''version''"]
      unfolding fa(2-4) fb(2-4) canon_zero_iff by simp_all
    moreover have "values_equal (rp_values ?p) (rp_values ?q)"
      using f [of "''values''"] unfolding fa(5) fb(5) canon_zero_iff values_equal_canon .
    moreover have "rp_create_namespace ?p = rp_create_namespace ?q" "rp_skip_crds ?p = rp_skip_crds ?q"
      "rp_disable_hooks ?p = rp_disable_hooks ?q" "rp_atomic ?p = rp_atomic ?q"
      "rp_timeout_seconds ?p = rp_timeout_seconds ?q"
      using f [of "''createNamespace''"] f [of "''skipCrds''"] f [of "''disableHooks''"] f [of "''atomic''"]
        f [of "''timeoutSeconds''"]
      unfolding fa(6-10) fb(6-10) canon_zero_iff by simp_all
    ultimately show "same_request p q" using meta by (simp add: same_request_def request_inputs_def)
  next
    assume s: "same_request p q"
    have "canon (encode_metadata (rp_metadata p)) = canon (encode_metadata (rp_metadata q))"
      using s meta by (simp add: same_request_def)
    moreover have "map (\<lambda>(k, v). (k, canon v)) (omit_object k (rp_values p)) =
        map (\<lambda>(k, v). (k, canon v)) (omit_object k (rp_values q))" for k
      using s by (intro canon_omit_object_cong) (simp add: same_request_def values_equal_canon del: canon.simps)
    ultimately show "canon (encode_properties ?p) = canon (encode_properties ?q)"
      using s by (simp add: encode_properties_def request_inputs_def same_request_def)
  qed
  then show ?thesis using no_collision by (auto simp: fingerprint_def)
qed

theorem fingerprint_identifies_request_witness:
  "fingerprint (\<lambda>j. ''h'') (Some sample_properties) =
     fingerprint (\<lambda>j. ''h'') (Some (sample_properties\<lparr>rp_revision := 3, rp_status := ''deployed''\<rparr>)) \<and>
   same_request sample_properties (sample_properties\<lparr>rp_revision := 3, rp_status := ''deployed''\<rparr>)"
proof -
  let ?q = "sample_properties\<lparr>rp_revision := 3, rp_status := ''deployed''\<rparr>"
  have "wf_request sample_properties" "wf_request ?q" by (simp_all add: wf_request_def sample_properties_def)
  moreover have "request_inputs sample_properties = request_inputs ?q" by (simp add: request_inputs_def)
  ultimately show ?thesis
    using fingerprint_identifies_request [of sample_properties ?q "\<lambda>j. ''h''"] by (simp add: fingerprint_def)
qed

end
