(* ===== verification/Inventory.thy ===== *)
theory Inventory
  imports Fences Go_Time Native_Id
begin

text \<open>
  The inventory of the objects Helm renders (\<open>pkg/resources/helm/inventory.go\<close>), the discovery
  filters built on it, and the walk along owner references (\<open>owners.go\<close>). The head of a YAML
  document as Kubernetes' decoder reads it is a parameter; so are the releases Helm lists.
\<close>

record object_id =
  ob_api_version :: string
  ob_kind :: string
  ob_namespace :: string
  ob_name :: string

type_synonym kind_ref = "string \<times> string \<times> string"

record inventory =
  inv_objects :: "(object_id \<times> string) list"
  inv_by_kind :: "(kind_ref \<times> string) list"

definition new_inventory :: inventory where
  "new_inventory = \<lparr>inv_objects = [], inv_by_kind = []\<rparr>"

text \<open>A nil inventory owns nothing.\<close>

definition owned_by :: "inventory option \<Rightarrow> string \<Rightarrow> string \<Rightarrow> string \<Rightarrow> string option" where
  "owned_by iv kind ns name =
     (case iv of None \<Rightarrow> None | Some i \<Rightarrow> map_of (inv_by_kind i) (kind, ns, name))"

definition has_object :: "inventory option \<Rightarrow> string \<Rightarrow> string \<Rightarrow> string \<Rightarrow> string \<Rightarrow> bool" where
  "has_object iv apiVersion kind ns name =
     (case iv of None \<Rightarrow> False
      | Some i \<Rightarrow> map_of (inv_objects i)
          \<lparr>ob_api_version = apiVersion, ob_kind = kind, ob_namespace = ns, ob_name = name\<rparr> \<noteq> None)"

definition inventory_len :: "inventory option \<Rightarrow> nat" where
  "inventory_len iv = (case iv of None \<Rightarrow> 0 | Some i \<Rightarrow> length (inv_objects i))"

definition kind_from_resource_type :: "string \<Rightarrow> string" where
  "kind_from_resource_type rtype =
     (let parts = split_double CHR '':'' rtype in if length parts \<noteq> 3 then [] else parts ! 2)"

definition kind_namespace :: string where "kind_namespace = ''Namespace''"

definition split_native_id :: "string \<Rightarrow> (string \<times> string) res" where
  "split_native_id nid =
     (case split_char CHR ''/'' nid of
        [name] \<Rightarrow> Inr ([], name)
      | [ns, name] \<Rightarrow> Inr (ns, name)
      | _ \<Rightarrow> Inl (new_error (''unexpected native id '' @ [CHR 0x22] @ nid @ [CHR 0x22])))"

subsection \<open>Manifests\<close>

record manifest_head =
  mh_api_version :: string
  mh_kind :: string
  mh_name :: string
  mh_namespace :: string

definition newline :: char where "newline = CHR 0x0A"
definition carriage_return :: char where "carriage_return = CHR 0x0D"

definition trim_cr :: "string \<Rightarrow> string" where
  "trim_cr s = rev (dropWhile (\<lambda>c. c = carriage_return) (rev s))"

definition is_separator :: "string \<Rightarrow> bool" where
  "is_separator line \<longleftrightarrow> trim_cr line = ''---'' \<or> has_prefix (trim_cr line) ''--- ''"

definition flush_doc :: "string \<Rightarrow> string list" where
  "flush_doc cur = (if trim_space cur \<noteq> [] then [cur] else [])"

fun split_lines :: "string list \<Rightarrow> string \<Rightarrow> string list" where
  "split_lines [] cur = flush_doc cur"
| "split_lines (line # lines) cur =
     (if is_separator line then flush_doc cur @ split_lines lines []
      else split_lines lines (cur @ line @ [newline]))"

definition split_yaml_docs :: "string \<Rightarrow> string list" where
  "split_yaml_docs manifest = split_lines (split_char newline manifest) []"

definition default_to :: "string \<Rightarrow> string \<Rightarrow> string" where
  "default_to d s = (if s = [] then d else s)"

text \<open>A document that does not decode, or names no kind or no object, is skipped.\<close>

definition index_doc :: "string \<Rightarrow> string \<Rightarrow> manifest_head option \<Rightarrow> inventory \<Rightarrow> inventory" where
  "index_doc default_ns owner head iv =
     (case head of
        None \<Rightarrow> iv
      | Some h \<Rightarrow>
          if mh_kind h = [] \<or> mh_name h = [] then iv
          else let ns = default_to default_ns (mh_namespace h);
                   named = AList.update (mh_kind h, ns, mh_name h) owner (inv_by_kind iv)
            in iv\<lparr>inv_objects := AList.update \<lparr>ob_api_version = mh_api_version h, ob_kind = mh_kind h,
                      ob_namespace = ns, ob_name = mh_name h\<rparr> owner (inv_objects iv),
                   inv_by_kind := (if ns \<noteq> [] then AList.update (mh_kind h, [], mh_name h) owner named else named)\<rparr>)"

definition index_manifest ::
  "(string \<Rightarrow> manifest_head option) \<Rightarrow> string \<Rightarrow> string \<Rightarrow> string \<Rightarrow> inventory \<Rightarrow> inventory" where
  "index_manifest yaml manifest default_ns owner iv =
     fold (\<lambda>doc. index_doc default_ns owner (yaml doc)) (split_yaml_docs manifest) iv"

text \<open>A listed release: namespace, name, manifest, and the manifests of its hooks.\<close>

record listed_release =
  lr_namespace :: string
  lr_name :: string
  lr_manifest :: string
  lr_hooks :: "string list"

definition index_release :: "(string \<Rightarrow> manifest_head option) \<Rightarrow> listed_release \<Rightarrow> inventory \<Rightarrow> inventory" where
  "index_release yaml r iv =
     (let owner = native_id (lr_namespace r) (lr_name r) in
      fold (\<lambda>m. index_manifest yaml m (lr_namespace r) owner) (lr_manifest r # lr_hooks r) iv)"

definition build_inventory :: "(string \<Rightarrow> manifest_head option) \<Rightarrow> listed_release list res \<Rightarrow> inventory res" where
  "build_inventory yaml listed =
     (case listed of
        Inl e \<Rightarrow> Inl (wrap_error ''list helm releases'' e)
      | Inr releases \<Rightarrow> Inr (fold (index_release yaml) releases new_inventory))"

subsection \<open>The filter\<close>

definition keeps_id :: "inventory option \<Rightarrow> string \<Rightarrow> string \<Rightarrow> bool" where
  "keeps_id iv kind nid =
     (case split_native_id nid of
        Inl _ \<Rightarrow> True
      | Inr (ns, name) \<Rightarrow> owned_by iv kind ns name = None)"

definition filter_helm_owned :: "inventory option \<Rightarrow> string \<Rightarrow> string list \<Rightarrow> string list" where
  "filter_helm_owned iv rtype ids =
     (let kind = kind_from_resource_type rtype in
      if kind = [] \<or> iv = None \<or> ids = [] then ids
      else if kind = kind_namespace then ids
      else filter (keeps_id iv kind) ids)"

subsection \<open>The cache\<close>

definition inventory_ttl :: int where "inventory_ttl = 30 * second"

record inventory_entry =
  ie_cluster_key :: string
  ie_inventory :: inventory
  ie_fetched :: instant

record inventory_cache =
  ic_entries :: "(string \<times> inventory_entry) list"
  ic_generation :: "64 word"

text \<open>The lookup and the store of \<open>cachedInventory\<close>: between them the inventory is built.\<close>

definition cache_lookup :: "string \<Rightarrow> instant \<Rightarrow> inventory_cache \<Rightarrow> inventory option \<times> 64 word" where
  "cache_lookup key now c =
     (case map_of (ic_entries c) key of
        Some e \<Rightarrow> (if time_sub now (ie_fetched e) < inventory_ttl then Some (ie_inventory e) else None, ic_generation c)
      | None \<Rightarrow> (None, ic_generation c))"

definition cache_store :: "inventory_entry \<Rightarrow> string \<Rightarrow> 64 word \<Rightarrow> inventory_cache \<Rightarrow> inventory_cache" where
  "cache_store e key gen c =
     (if gen = ic_generation c then c\<lparr>ic_entries := AList.update key e (ic_entries c)\<rparr> else c)"

definition invalidate_inventory :: "inventory_cache \<Rightarrow> inventory_cache" where
  "invalidate_inventory c = c\<lparr>ic_entries := [], ic_generation := ic_generation c + 1\<rparr>"

definition inventory_cache_key ::
  "gerr option \<Rightarrow> string res \<Rightarrow> bool \<Rightarrow> string option \<Rightarrow> (string \<times> bool) res" where
  "inventory_cache_key runtime fingerprint uses_oidc binding =
     (case runtime of
        Some e \<Rightarrow> Inl e
      | None \<Rightarrow>
          (case fingerprint of
             Inl e \<Rightarrow> Inl e
           | Inr key \<Rightarrow>
               if uses_oidc
               then (case binding of
                       Some b \<Rightarrow> if b = [] then Inr ([], False) else Inr (key @ ''|'' @ b, True)
                     | None \<Rightarrow> Inr ([], False))
               else Inr (key, True)))"

definition cached_inventory ::
  "(string \<times> bool) res \<Rightarrow> string res \<Rightarrow> inventory res \<Rightarrow> instant \<Rightarrow> instant \<Rightarrow> inventory_cache \<Rightarrow>
   (inventory_cache \<Rightarrow> inventory_cache) \<Rightarrow> inventory res \<times> inventory_cache" where
  "cached_inventory key cluster built now later c meanwhile =
     (case key of
        Inl e \<Rightarrow> (Inl e, c)
      | Inr (k, cacheable) \<Rightarrow>
          if \<not> cacheable then (built, meanwhile c)
          else (case cluster of
             Inl e \<Rightarrow> (Inl e, c)
           | Inr ck \<Rightarrow>
               (case cache_lookup k now c of
                  (Some iv, gen) \<Rightarrow> (Inr iv, c)
                | (None, gen) \<Rightarrow>
                    (case built of
                       Inl e \<Rightarrow> (Inl e, meanwhile c)
                     | Inr iv \<Rightarrow> (Inr iv, cache_store \<lparr>ie_cluster_key = ck, ie_inventory = iv, ie_fetched = later\<rparr>
                                      k gen (meanwhile c))))))"

subsection \<open>Owner references\<close>

text \<open>\<open>owners.go\<close>: the walk follows the first reference, at most \<open>maxOwnerDepth\<close> hops, and memoises
  its answer for every object it asked about. \<open>lookup\<close> is the cluster's answer for one object.\<close>

record owner_ref =
  ow_kind :: string
  ow_name :: string

type_synonym owner_lookup = "string \<Rightarrow> string \<Rightarrow> string \<Rightarrow> owner_ref list res"

definition max_owner_depth :: nat where "max_owner_depth = 4"

definition owner_key :: "string \<Rightarrow> string \<Rightarrow> string \<Rightarrow> string" where
  "owner_key kind ns name = kind @ ''/'' @ ns @ ''/'' @ name"

type_synonym memo = "(string \<times> bool) list"

definition remember :: "bool \<Rightarrow> string list \<Rightarrow> memo \<Rightarrow> memo" where
  "remember result chain memo = fold (\<lambda>k. AList.update k result) chain memo"

definition owned_ancestor :: "inventory option \<Rightarrow> string \<Rightarrow> string \<Rightarrow> string \<Rightarrow> bool" where
  "owned_ancestor iv ns kind name \<longleftrightarrow> owned_by iv kind ns name \<noteq> None \<or> owned_by iv kind [] name \<noteq> None"

text \<open>\<open>n\<close> hops are left; \<open>chain\<close> lists the keys asked about on this walk, which are also those
  being visited.\<close>

fun reaches_loop ::
  "inventory option \<Rightarrow> owner_lookup \<Rightarrow> string \<Rightarrow> nat \<Rightarrow> string \<Rightarrow> string \<Rightarrow> string list \<Rightarrow> memo \<Rightarrow> bool res \<times> memo" where
  "reaches_loop iv lookup ns 0 kind name chain memo = (Inr False, remember False chain memo)"
| "reaches_loop iv lookup ns (Suc n) kind name chain memo =
     (let key = owner_key kind ns name in
      (case map_of memo key of
         Some answer \<Rightarrow> (Inr answer, remember answer chain memo)
       | None \<Rightarrow>
           if key \<in> set chain then (Inr False, remember False chain memo)
           else let chain = chain @ [key] in
             (case lookup kind ns name of
                Inl e \<Rightarrow> (Inl (wrap_error (''owner lookup for '' @ key) e), memo)
              | Inr [] \<Rightarrow> (Inr False, remember False chain memo)
              | Inr (r # rs) \<Rightarrow>
                  if ow_kind r = [] \<or> ow_name r = [] then (Inr False, remember False chain memo)
                  else if owned_ancestor iv ns (ow_kind r) (ow_name r) then (Inr True, remember True chain memo)
                  else reaches_loop iv lookup ns n (ow_kind r) (ow_name r) chain memo)))"

definition reaches_release ::
  "inventory option \<Rightarrow> owner_lookup \<Rightarrow> memo \<Rightarrow> string \<Rightarrow> string \<Rightarrow> string \<Rightarrow> bool res \<times> memo" where
  "reaches_release iv lookup memo kind ns name = reaches_loop iv lookup ns max_owner_depth kind name [] memo"

fun filter_controller_loop ::
  "inventory option \<Rightarrow> owner_lookup \<Rightarrow> string \<Rightarrow> string list \<Rightarrow> memo \<Rightarrow> string list" where
  "filter_controller_loop iv lookup kind [] memo = []"
| "filter_controller_loop iv lookup kind (nid # ids) memo =
     (case split_native_id nid of
        Inl _ \<Rightarrow> nid # filter_controller_loop iv lookup kind ids memo
      | Inr (ns, name) \<Rightarrow>
          (case reaches_release iv lookup memo kind ns name of
             (Inl e, memo) \<Rightarrow> nid # filter_controller_loop iv lookup kind ids memo
           | (Inr owned, memo) \<Rightarrow>
               if owned then filter_controller_loop iv lookup kind ids memo
               else nid # filter_controller_loop iv lookup kind ids memo))"

definition filter_controller_owned ::
  "inventory option \<Rightarrow> string \<Rightarrow> string list \<Rightarrow> owner_lookup option \<Rightarrow> string list" where
  "filter_controller_owned iv rtype ids lookup =
     (case lookup of
        None \<Rightarrow> ids
      | Some l \<Rightarrow>
          if iv = None \<or> inventory_len iv = 0 \<or> ids = [] then ids
          else let kind = kind_from_resource_type rtype in
            if kind = [] \<or> kind = kind_namespace then ids
            else filter_controller_loop iv l kind ids [])"

subsection \<open>Ownership is what the releases render\<close>

text \<open>Does a document name this object? Helm's namespace is the default, and an object is also known
  without its namespace.\<close>

definition names_object :: "string \<Rightarrow> manifest_head option \<Rightarrow> string \<Rightarrow> string \<Rightarrow> string \<Rightarrow> bool" where
  "names_object default_ns head kind ns name \<longleftrightarrow>
     (case head of
        None \<Rightarrow> False
      | Some h \<Rightarrow> mh_kind h \<noteq> [] \<and> mh_name h \<noteq> [] \<and> mh_kind h = kind \<and> mh_name h = name \<and>
          (ns = default_to default_ns (mh_namespace h) \<or> ns = []))"

definition renders :: "(string \<Rightarrow> manifest_head option) \<Rightarrow> listed_release \<Rightarrow> string \<Rightarrow> string \<Rightarrow> string \<Rightarrow> bool" where
  "renders yaml r kind ns name \<longleftrightarrow>
     (\<exists>m \<in> set (lr_manifest r # lr_hooks r). \<exists>doc \<in> set (split_yaml_docs m).
        names_object (lr_namespace r) (yaml doc) kind ns name)"

lemma owned_index_doc:
  "owned_by (Some (index_doc dns owner head iv)) kind ns name =
     (if names_object dns head kind ns name then Some owner else owned_by (Some iv) kind ns name)"
  by (auto simp: index_doc_def names_object_def owned_by_def Let_def split: option.splits)

lemma owned_index_docs:
  "owned_by (Some (fold (\<lambda>doc. index_doc dns owner (yaml doc)) docs iv)) kind ns name =
     (if \<exists>doc \<in> set docs. names_object dns (yaml doc) kind ns name then Some owner
      else owned_by (Some iv) kind ns name)"
  by (induction docs arbitrary: iv) (auto simp: owned_index_doc)

lemma owned_index_manifests:
  "owned_by (Some (fold (\<lambda>m. index_manifest yaml m dns owner) ms iv)) kind ns name =
     (if \<exists>m \<in> set ms. \<exists>doc \<in> set (split_yaml_docs m). names_object dns (yaml doc) kind ns name then Some owner
      else owned_by (Some iv) kind ns name)"
  by (induction ms arbitrary: iv) (auto simp: index_manifest_def owned_index_docs)

lemma owned_index_release:
  "owned_by (Some (index_release yaml r iv)) kind ns name =
     (if renders yaml r kind ns name then Some (native_id (lr_namespace r) (lr_name r))
      else owned_by (Some iv) kind ns name)"
  unfolding index_release_def Let_def renders_def by (rule owned_index_manifests)

lemma owned_index_releases:
  "owned_by (Some (fold (index_release yaml) rs iv)) kind ns name =
     (case find (\<lambda>r. renders yaml r kind ns name) (rev rs) of
        Some r \<Rightarrow> Some (native_id (lr_namespace r) (lr_name r))
      | None \<Rightarrow> owned_by (Some iv) kind ns name)"
proof (induction rs arbitrary: iv)
  case (Cons r rs)
  have find_append: "find P (xs @ [x]) = (case find P xs of Some y \<Rightarrow> Some y | None \<Rightarrow> if P x then Some x else None)"
    for P :: "listed_release \<Rightarrow> bool" and xs x
    by (induction xs) auto
  show ?case using Cons.IH by (simp add: find_append owned_index_release split: option.split)
qed simp

text \<open>The inventory attributes an object to the last listed release that renders it, hooks included,
  under its own namespace, the release's one when it names none, or no namespace; and nothing else.\<close>

lemma ownership_is_rendering:
  assumes "build_inventory yaml (Inr releases) = Inr iv"
  shows "owned_by (Some iv) kind ns name =
    map_option (\<lambda>r. native_id (lr_namespace r) (lr_name r))
      (find (\<lambda>r. renders yaml r kind ns name) (rev releases))"
  using assms owned_index_releases [of yaml releases new_inventory kind ns name]
  by (auto simp: build_inventory_def owned_by_def new_inventory_def split: option.splits)

text \<open>C35: discovery of a kind other than Namespace hides exactly the objects some listed release
  renders, keeps everything else, unparseable ids included, and keeps the order; it never hides a
  Namespace.\<close>

theorem discovery_hides_exactly_rendered:
  assumes built: "build_inventory yaml (Inr releases) = Inr iv"
    and kind: "kind_from_resource_type rtype \<noteq> []"
  shows "filter_helm_owned (Some iv) rtype ids =
    filter (\<lambda>nid. kind_from_resource_type rtype = kind_namespace \<or>
      (\<forall>ns name. split_native_id nid = Inr (ns, name) \<longrightarrow>
         (\<forall>r \<in> set releases. \<not> renders yaml r (kind_from_resource_type rtype) ns name))) ids"
proof -
  let ?kind = "kind_from_resource_type rtype"
  have keeps: "keeps_id (Some iv) ?kind nid \<longleftrightarrow> (\<forall>ns name. split_native_id nid = Inr (ns, name) \<longrightarrow>
      (\<forall>r \<in> set releases. \<not> renders yaml r ?kind ns name))" for nid
  proof (cases "split_native_id nid")
    case (Inr p)
    obtain ns name where p: "p = (ns, name)" by (cases p)
    have "owned_by (Some iv) ?kind ns name = None \<longleftrightarrow> (\<forall>r \<in> set releases. \<not> renders yaml r ?kind ns name)"
      by (simp add: ownership_is_rendering [OF built] find_None_iff Ball_def)
    then show ?thesis using Inr p by (simp add: keeps_id_def)
  qed (simp add: keeps_id_def)
  show ?thesis
  proof (cases "ids = [] \<or> ?kind = kind_namespace")
    case True
    then show ?thesis using kind by (auto simp: filter_helm_owned_def Let_def)
  next
    case False
    then have "filter_helm_owned (Some iv) rtype ids = filter (keeps_id (Some iv) ?kind) ids"
      using kind by (simp add: filter_helm_owned_def Let_def)
    also have "\<dots> = filter (\<lambda>nid. \<forall>ns name. split_native_id nid = Inr (ns, name) \<longrightarrow>
         (\<forall>r \<in> set releases. \<not> renders yaml r ?kind ns name)) ids"
      by (rule filter_cong [OF refl]) (rule keeps)
    finally show ?thesis using False by simp
  qed
qed

definition sample_manifest :: string where
  "sample_manifest = ''kind: A'' @ [newline] @ ''---'' @ [newline] @ ''kind: B''"

definition sample_yaml :: "string \<Rightarrow> manifest_head option" where
  "sample_yaml doc =
     (if doc = ''kind: A'' @ [newline] then Some \<lparr>mh_api_version = ''v1'', mh_kind = ''ConfigMap'', mh_name = ''cm'', mh_namespace = []\<rparr>
      else None)"

definition sample_listed :: listed_release where
  "sample_listed = \<lparr>lr_namespace = ''apps'', lr_name = ''web'', lr_manifest = sample_manifest, lr_hooks = []\<rparr>"

definition sample_inventory :: inventory where
  "sample_inventory = \<lparr>inv_objects = [(\<lparr>ob_api_version = ''v1'', ob_kind = ''ConfigMap'', ob_namespace = ''apps'',
       ob_name = ''cm''\<rparr>, ''apps/web'')],
     inv_by_kind = [((''ConfigMap'', ''apps'', ''cm''), ''apps/web''), ((''ConfigMap'', [], ''cm''), ''apps/web'')]\<rparr>"

lemma sample_built: "build_inventory sample_yaml (Inr [sample_listed]) = Inr sample_inventory"
  by code_simp

theorem discovery_hides_exactly_rendered_witness:
  "filter_helm_owned (Some sample_inventory) ''K8S::Core::ConfigMap'' [''apps/cm'', ''apps/other''] = [''apps/other''] \<and>
   renders sample_yaml sample_listed ''ConfigMap'' ''apps'' ''cm''"
proof -
  have kind: "kind_from_resource_type ''K8S::Core::ConfigMap'' = ''ConfigMap''" by code_simp
  have f: "filter_helm_owned (Some sample_inventory) ''K8S::Core::ConfigMap'' [''apps/cm'', ''apps/other''] = [''apps/other'']"
    by code_simp
  have split: "split_native_id ''apps/cm'' = Inr (''apps'', ''cm'')" by code_simp
  have "renders sample_yaml sample_listed ''ConfigMap'' ''apps'' ''cm''"
  proof (rule ccontr)
    assume "\<not> renders sample_yaml sample_listed ''ConfigMap'' ''apps'' ''cm''"
    then have "''apps/cm'' \<in> set (filter_helm_owned (Some sample_inventory) ''K8S::Core::ConfigMap''
        [''apps/cm'', ''apps/other''])"
      unfolding discovery_hides_exactly_rendered [OF sample_built, of "''K8S::Core::ConfigMap''",
          unfolded kind, simplified]
      by (simp add: split)
    then show False unfolding f by simp
  qed
  then show ?thesis using f by blast
qed

subsection \<open>Hidden objects have an owning ancestor\<close>

text \<open>\<open>climbs\<close>: following first owner references from an object reaches one a release rendered.\<close>

inductive climbs :: "inventory option \<Rightarrow> owner_lookup \<Rightarrow> string \<Rightarrow> string \<Rightarrow> string \<Rightarrow> bool"
  for iv lookup ns where
  climbs_one:
    "lookup kind ns name = Inr (r # rs) \<Longrightarrow> owned_ancestor iv ns (ow_kind r) (ow_name r) \<Longrightarrow>
     climbs iv lookup ns kind name"
| climbs_more:
    "lookup kind ns name = Inr (r # rs) \<Longrightarrow> climbs iv lookup ns (ow_kind r) (ow_name r) \<Longrightarrow>
     climbs iv lookup ns kind name"

text \<open>Kinds and namespaces hold no separator, so the memo's keys identify objects.\<close>

definition slash_free_refs :: "owner_lookup \<Rightarrow> bool" where
  "slash_free_refs lookup \<longleftrightarrow>
     (\<forall>kind ns name refs. lookup kind ns name = Inr refs \<longrightarrow> (\<forall>r \<in> set refs. CHR ''/'' \<notin> set (ow_kind r)))"

lemma owner_key_inject:
  assumes "CHR ''/'' \<notin> set kind" "CHR ''/'' \<notin> set ns" "CHR ''/'' \<notin> set kind'" "CHR ''/'' \<notin> set ns'"
    and "owner_key kind ns name = owner_key kind' ns' name'"
  shows "kind = kind' \<and> ns = ns' \<and> name = name'"
proof -
  have "kind @ CHR ''/'' # (ns @ CHR ''/'' # name) = kind' @ CHR ''/'' # (ns' @ CHR ''/'' # name')"
    using assms(5) by (simp add: owner_key_def)
  from arg_cong [OF this, of "cut_char CHR ''/''"]
  have k: "kind = kind'" and rest: "ns @ CHR ''/'' # name = ns' @ CHR ''/'' # name'"
    unfolding cut_char_append [OF assms(1)] cut_char_append [OF assms(3)] by simp_all
  from arg_cong [OF rest, of "cut_char CHR ''/''"] show ?thesis
    unfolding cut_char_append [OF assms(2)] cut_char_append [OF assms(4)] using k by simp
qed

definition memo_ok :: "inventory option \<Rightarrow> owner_lookup \<Rightarrow> memo \<Rightarrow> bool" where
  "memo_ok iv lookup memo \<longleftrightarrow>
     (\<forall>kind ns name. CHR ''/'' \<notin> set kind \<longrightarrow> CHR ''/'' \<notin> set ns \<longrightarrow>
        map_of memo (owner_key kind ns name) = Some True \<longrightarrow> climbs iv lookup ns kind name)"

lemma map_of_remember:
  "map_of (remember result chain memo) k = (if k \<in> set chain then Some result else map_of memo k)"
  unfolding remember_def by (induction chain arbitrary: memo) auto

lemma memo_ok_False: "memo_ok iv lookup memo \<Longrightarrow> memo_ok iv lookup (remember False chain memo)"
  by (auto simp: memo_ok_def map_of_remember)

definition chain_leads ::
  "inventory option \<Rightarrow> owner_lookup \<Rightarrow> string \<Rightarrow> string list \<Rightarrow> string \<Rightarrow> string \<Rightarrow> bool" where
  "chain_leads iv lookup ns chain kind name \<longleftrightarrow>
     (\<forall>k \<in> set chain. \<exists>kind' name'. k = owner_key kind' ns name' \<and> CHR ''/'' \<notin> set kind' \<and>
        (climbs iv lookup ns kind name \<longrightarrow> climbs iv lookup ns kind' name'))"

lemma memo_ok_True:
  assumes "memo_ok iv lookup memo" "chain_leads iv lookup ns chain kind name"
    and "climbs iv lookup ns kind name" "CHR ''/'' \<notin> set ns"
  shows "memo_ok iv lookup (remember True chain memo)"
  unfolding memo_ok_def
proof (intro allI impI)
  fix kind2 ns2 name2
  assume free: "CHR ''/'' \<notin> set kind2" "CHR ''/'' \<notin> set ns2"
    and hit: "map_of (remember True chain memo) (owner_key kind2 ns2 name2) = Some True"
  show "climbs iv lookup ns2 kind2 name2"
  proof (cases "owner_key kind2 ns2 name2 \<in> set chain")
    case True
    then obtain kind' name' where k: "owner_key kind2 ns2 name2 = owner_key kind' ns name'"
      and free': "CHR ''/'' \<notin> set kind'" and c: "climbs iv lookup ns kind' name'"
      using assms(2,3) unfolding chain_leads_def by blast
    show ?thesis using owner_key_inject [OF free(1,2) free' assms(4) k] c by simp
  next
    case False
    then show ?thesis using hit free assms(1) by (simp add: map_of_remember memo_ok_def)
  qed
qed

lemma reaches_loop_cases:
  assumes "reaches_loop iv lookup ns (Suc n) kind name chain memo = (r, memo')"
  obtains (known) answer where "map_of memo (owner_key kind ns name) = Some answer" "r = Inr answer"
      "memo' = remember answer chain memo"
    | (stopped) "r \<noteq> Inr True" "memo' = memo \<or> (\<exists>c. memo' = remember False c memo)"
    | (owned) f fs where "lookup kind ns name = Inr (f # fs)" "owned_ancestor iv ns (ow_kind f) (ow_name f)" "r = Inr True"
      "memo' = remember True (chain @ [owner_key kind ns name]) memo"
    | (climb) f fs where "lookup kind ns name = Inr (f # fs)"
      "reaches_loop iv lookup ns n (ow_kind f) (ow_name f) (chain @ [owner_key kind ns name]) memo = (r, memo')"
proof -
  let ?key = "owner_key kind ns name"
  note run = assms [unfolded reaches_loop.simps Let_def]
  show ?thesis
  proof (cases "map_of memo ?key")
    case (Some answer)
    with run known show ?thesis by simp
  next
    case None
    show ?thesis
    proof (cases "?key \<in> set chain \<or> lookup kind ns name = Inr [] \<or> isl (lookup kind ns name)")
      case True
      with run None have "r \<noteq> Inr True \<and> (memo' = memo \<or> (\<exists>c. memo' = remember False c memo))"
        by (auto simp: isl_def split: if_splits)
      with stopped show ?thesis by blast
    next
      case False
      then obtain f fs where look: "lookup kind ns name = Inr (f # fs)"
        by (cases "lookup kind ns name") (auto simp: neq_Nil_conv)
      from False have "?key \<notin> set chain" by simp
      with run [unfolded None look] show ?thesis
        using stopped owned [OF look] climb [OF look]
        by (cases "ow_kind f = [] \<or> ow_name f = []"; cases "owned_ancestor iv ns (ow_kind f) (ow_name f)") auto
    qed
  qed
qed

lemma reaches_loop_sound:
  assumes "reaches_loop iv lookup ns n kind name chain memo = (r, memo')"
    and "memo_ok iv lookup memo" "chain_leads iv lookup ns chain kind name"
    and "CHR ''/'' \<notin> set kind" "CHR ''/'' \<notin> set ns" "slash_free_refs lookup"
  shows "memo_ok iv lookup memo' \<and> (r = Inr True \<longrightarrow> climbs iv lookup ns kind name)"
  using assms
proof (induction n arbitrary: kind name chain)
  case 0
  then show ?case using memo_ok_False by auto
next
  case (Suc n)
  let ?key = "owner_key kind ns name"
  have chain': "chain_leads iv lookup ns (chain @ [?key]) kind name"
    using Suc.prems(3,4) by (auto simp: chain_leads_def)
  from Suc.prems(1) show ?case
  proof (cases rule: reaches_loop_cases)
    case (known answer)
    have "climbs iv lookup ns kind name" if answer
      using that known(1) Suc.prems(2) [unfolded memo_ok_def, rule_format, OF Suc.prems(4,5)] by simp
    then show ?thesis
      using known(2,3) memo_ok_True [OF Suc.prems(2,3) _ Suc.prems(5)] memo_ok_False [OF Suc.prems(2)] by (cases answer) auto
  next
    case stopped
    then show ?thesis using Suc.prems(2) memo_ok_False by blast
  next
    case (owned f fs)
    then have "climbs iv lookup ns kind name" using climbs_one by blast
    then show ?thesis using owned(3,4) memo_ok_True [OF Suc.prems(2) chain' _ Suc.prems(5)] by simp
  next
    case (climb f fs)
    have step: "climbs iv lookup ns (ow_kind f) (ow_name f) \<Longrightarrow> climbs iv lookup ns kind name"
      using climb(1) climbs_more by blast
    then have "chain_leads iv lookup ns (chain @ [?key]) (ow_kind f) (ow_name f)"
      using chain' unfolding chain_leads_def by blast
    moreover have "CHR ''/'' \<notin> set (ow_kind f)"
      using climb(1) Suc.prems(6) unfolding slash_free_refs_def by fastforce
    ultimately show ?thesis using Suc.IH climb(2) Suc.prems(2,5,6) step by blast
  qed
qed

lemma split_native_id_slash: "split_native_id nid = Inr (ns, name) \<Longrightarrow> CHR ''/'' \<notin> set ns"
  using split_char_parts [of ns "CHR ''/''" nid]
  by (auto simp: split_native_id_def split: list.splits)

lemma filter_controller_loop_sound:
  assumes "memo_ok iv lookup memo" "CHR ''/'' \<notin> set kind" "slash_free_refs lookup"
    and "nid \<in> set ids" "nid \<notin> set (filter_controller_loop iv lookup kind ids memo)"
  shows "\<exists>ns name. split_native_id nid = Inr (ns, name) \<and> climbs iv lookup ns kind name"
  using assms
proof (induction ids arbitrary: memo)
  case (Cons x ids)
  show ?case
  proof (cases "split_native_id x")
    case (Inl e)
    then show ?thesis using Cons by auto
  next
    case (Inr p)
    then obtain ns name where p: "split_native_id x = Inr (ns, name)" by (cases p) auto
    obtain r memo' where reach: "reaches_release iv lookup memo kind ns name = (r, memo')" by fastforce
    have "chain_leads iv lookup ns [] kind name" by (simp add: chain_leads_def)
    then have sound: "memo_ok iv lookup memo' \<and> (r = Inr True \<longrightarrow> climbs iv lookup ns kind name)"
      using reaches_loop_sound [OF reach [unfolded reaches_release_def] Cons.prems(1) _ Cons.prems(2)
          split_native_id_slash [OF p] Cons.prems(3)] by blast
    show ?thesis
    proof (cases "x = nid \<and> r = Inr True")
      case True
      then show ?thesis using p sound by blast
    next
      case False
      then have "nid \<in> set ids" "nid \<notin> set (filter_controller_loop iv lookup kind ids memo')"
        using Cons.prems(4,5) p reach by (auto split: sum.splits if_splits)
      then show ?thesis using Cons.IH sound Cons.prems(2,3) by blast
    qed
  qed
qed simp

text \<open>Discovery hides an object as controller-owned only if following first owner references from
  it reaches an object a Helm release rendered; a failed lookup, a cycle, a chain that is too long,
  an unparseable id or a shared, memoised ancestor never hides one that does not.\<close>

theorem hidden_objects_are_owned:
  assumes "slash_free_refs lookup" and "CHR ''/'' \<notin> set (kind_from_resource_type rtype)"
    and "nid \<in> set ids" and "nid \<notin> set (filter_controller_owned iv rtype ids (Some lookup))"
  shows "\<exists>ns name. split_native_id nid = Inr (ns, name) \<and>
    climbs iv lookup ns (kind_from_resource_type rtype) name \<and> kind_from_resource_type rtype \<noteq> kind_namespace"
  using assms filter_controller_loop_sound [of iv lookup "[]" "kind_from_resource_type rtype" nid ids]
  by (auto simp: filter_controller_owned_def Let_def memo_ok_def split: if_splits)

text \<open>A Pod, its ReplicaSet and a Deployment of the sample release.\<close>

definition sample_owners :: owner_lookup where
  "sample_owners kind ns name =
     (if kind = ''Pod'' then Inr [\<lparr>ow_kind = ''ReplicaSet'', ow_name = ''rs''\<rparr>]
      else if kind = ''ReplicaSet'' then Inr [\<lparr>ow_kind = ''ConfigMap'', ow_name = ''cm''\<rparr>] else Inr [])"

theorem hidden_objects_are_owned_witness:
  "filter_controller_owned (Some sample_inventory) ''K8S::Core::Pod'' [''apps/p'', ''apps/q'', ''bad/id/x''] (Some sample_owners) =
     [''bad/id/x''] \<and> climbs (Some sample_inventory) sample_owners ''apps'' ''Pod'' ''q''"
proof -
  let ?ids = "[''apps/p'', ''apps/q'', ''bad/id/x'']"
  have f: "filter_controller_owned (Some sample_inventory) ''K8S::Core::Pod'' ?ids (Some sample_owners) = [''bad/id/x'']"
    by code_simp
  have kind: "kind_from_resource_type ''K8S::Core::Pod'' = ''Pod''" by code_simp
  have split: "split_native_id ''apps/q'' = Inr (''apps'', ''q'')" by code_simp
  have "slash_free_refs sample_owners" by (auto simp: slash_free_refs_def sample_owners_def)
  then show ?thesis
    using hidden_objects_are_owned [of sample_owners "''K8S::Core::Pod''" "''apps/q''" ?ids "Some sample_inventory"]
      f kind split by simp
qed

text \<open>The converse fails by design of the memo: a walk cut off at the depth limit memoises "not owned"
  for every object it passed, so whether a deep object is hidden depends on the order of the list.\<close>

definition deep_owners :: owner_lookup where
  "deep_owners kind ns name =
     (if name = ''p0'' then Inr [\<lparr>ow_kind = ''Pod'', ow_name = ''p1''\<rparr>]
      else if name = ''p1'' then Inr [\<lparr>ow_kind = ''Pod'', ow_name = ''p2''\<rparr>]
      else if name = ''p2'' then Inr [\<lparr>ow_kind = ''Pod'', ow_name = ''p3''\<rparr>]
      else if name = ''p3'' then Inr [\<lparr>ow_kind = ''Pod'', ow_name = ''p4''\<rparr>]
      else Inr [\<lparr>ow_kind = ''ConfigMap'', ow_name = ''cm''\<rparr>])"

lemma truncated_walk_poisons_memo:
  "filter_controller_owned (Some sample_inventory) ''K8S::Core::Pod'' [''apps/p1''] (Some deep_owners) = [] \<and>
   filter_controller_owned (Some sample_inventory) ''K8S::Core::Pod'' [''apps/p0'', ''apps/p1''] (Some deep_owners) =
     [''apps/p0'', ''apps/p1''] \<and>
   filter_controller_owned (Some sample_inventory) ''K8S::Core::Pod'' [''apps/p1'', ''apps/p0''] (Some deep_owners) = []"
  by code_simp

subsection \<open>The cache is a fence\<close>

interpretation inventory_fence: generation_fence
  "\<lambda>c key. (map_of (ic_entries c) key, ic_generation c)" "\<lambda>v. Some (snd v)" cache_store
  by unfold_locales (auto simp: cache_store_def)

lemma invalidations_generation: "ic_generation ((invalidate_inventory ^^ n) c) = ic_generation c + of_nat n"
  by (induction n) (auto simp: invalidate_inventory_def)

lemma invalidated_entries: "0 < n \<Longrightarrow> ic_entries ((invalidate_inventory ^^ n) c) = []"
  by (cases n) (auto simp: invalidate_inventory_def)

text \<open>An inventory whose build was under way when the plugin changed a release is never cached:
  after up to 2^64 - 1 invalidations the store of what was built before them leaves the cache empty.\<close>

theorem stale_inventory_not_cached:
  assumes "0 < n" and "n < 2 ^ 64"
  shows "ic_entries (cache_store e key (snd (cache_lookup key now c)) ((invalidate_inventory ^^ n) c)) = []"
proof -
  let ?c = "(invalidate_inventory ^^ n) c"
  have gen: "snd (cache_lookup key now c) = ic_generation c"
    by (auto simp: cache_lookup_def split: option.split)
  have "(of_nat n :: 64 word) \<noteq> 0"
  proof
    assume z: "(of_nat n :: 64 word) = 0"
    have "unat (of_nat n :: 64 word) = n" using assms(2) by (simp add: unat_of_nat take_bit_nat_eq_self)
    then show False using z assms(1) by simp
  qed
  then have "ic_generation ?c \<noteq> ic_generation c" by (simp add: invalidations_generation)
  then have "map_of (ic_entries (cache_store e key (ic_generation c) ?c)) = map_of (ic_entries ?c)"
    using inventory_fence.act_unless_current [of ?c key "ic_generation c" e] by (auto simp: fun_eq_iff)
  then show ?thesis using invalidated_entries [OF assms(1), of c] gen by simp
qed

theorem stale_inventory_not_cached_witness:
  "ic_entries (cache_store \<lparr>ie_cluster_key = ''c'', ie_inventory = sample_inventory, ie_fetched = 0\<rparr> ''k''
     (snd (cache_lookup ''k'' 0 \<lparr>ic_entries = [], ic_generation = 7\<rparr>))
     ((invalidate_inventory ^^ 1) \<lparr>ic_entries = [], ic_generation = 7\<rparr>)) = []"
  by (rule stale_inventory_not_cached) simp_all

end
