(* ===== verification/Release_Plan.thy ===== *)
theory Release_Plan
  imports Release_Record Inventory
begin

text \<open>
  What a Helm operation decides from the release record (\<open>pkg/resources/helm/release.go\<close>): the plan
  of a submit, which chart it renders, when a pending record is abandoned or stalled, how an
  abandoned one is recovered, and the properties a Read projects a record onto. The cluster's answers
  (which objects exist, which are ready, what can be fetched) are parameters.
\<close>

datatype submit_action =
    Action_install | Action_upgrade | Action_retry | Action_recover | Action_blocked
  | Action_foreign | Action_rejoin | Action_settled

subsection \<open>The chart\<close>

definition stored_metadata :: "helm_release option \<Rightarrow> chart_metadata option" where
  "stored_metadata current =
     (case current of None \<Rightarrow> None
      | Some r \<Rightarrow> (case rel_chart r of None \<Rightarrow> None | Some c \<Rightarrow> ch_metadata c))"

definition stored_chart_usable :: "helm_release option \<Rightarrow> release_properties \<Rightarrow> bool" where
  "stored_chart_usable current props =
     (case stored_metadata current of
        None \<Rightarrow> False
      | Some m \<Rightarrow>
          if rp_version props = [] \<or> rp_version props \<noteq> cm_version m then False
          else chart_ref_name (rp_chart props) = cm_name m)"

definition stored_chart_complete :: "helm_release option \<Rightarrow> bool" where
  "stored_chart_complete current =
     (case current of None \<Rightarrow> False
      | Some r \<Rightarrow> (case rel_chart r of None \<Rightarrow> False
          | Some c \<Rightarrow> (case ch_metadata c of None \<Rightarrow> False
              | Some m \<Rightarrow> cm_dependencies m = [] \<or> ch_dependencies c > 0)))"

text \<open>\<open>fetch\<close> is the result of fetching; it is looked at only when the stored chart does not do.\<close>

definition choose_chart :: "helm_release option \<Rightarrow> release_properties \<Rightarrow> chart res \<Rightarrow> chart option res" where
  "choose_chart current props fetch =
     (let usable = stored_chart_usable current props;
          stored = (case current of None \<Rightarrow> None | Some r \<Rightarrow> rel_chart r) in
      if usable \<and> stored_chart_complete current then Inr stored
      else (case fetch of
         Inr c \<Rightarrow> Inr (Some c)
       | Inl e \<Rightarrow> if usable then Inr stored else Inl e))"

subsection \<open>The plan\<close>

definition settled :: "helm_release option \<Rightarrow> release_properties option \<Rightarrow> bool" where
  "settled current want =
     (case (current, want) of
        (Some r, Some w) \<Rightarrow>
          formae_owns current \<and>
          (case rel_info r of None \<Rightarrow> False | Some info \<Rightarrow> ri_status info = Status_deployed) \<and>
          stored_chart_usable current w \<and> values_equal (rel_config r) (rp_values w)
      | _ \<Rightarrow> False)"

definition rejoinable ::
  "(json \<Rightarrow> string) \<Rightarrow> instant \<Rightarrow> helm_release \<Rightarrow> flight option \<Rightarrow> release_properties option \<Rightarrow> bool" where
  "rejoinable digest now current fl want =
     (case (fl, want) of
        (Some f, Some w) \<Rightarrow>
          if \<not> is_zero_time (fl_deadline f) \<and> fl_deadline f < now then False
          else if fl_revision f \<noteq> rel_version current then False
          else let asked = fingerprint digest want in asked \<noteq> [] \<and> asked = fl_fingerprint f
      | _ \<Rightarrow> False)"

definition abandoned :: "helm_release option \<Rightarrow> flight option \<Rightarrow> bool" where
  "abandoned current fl = (if fl \<noteq> None then False else formae_owns current)"

text \<open>The zero time of a record that was never deployed is Go's.\<close>

definition stalled :: "instant \<Rightarrow> helm_release \<Rightarrow> flight option \<Rightarrow> bool" where
  "stalled now r fl =
     (case rel_info r of
        None \<Rightarrow> False
      | Some info \<Rightarrow>
          if (case fl of Some f \<Rightarrow> is_zero_time (fl_deadline f) \<or> now < fl_deadline f | None \<Rightarrow> False) then False
          else let started = (if is_zero_time (ri_last_deployed info) then ri_first_deployed info
                              else ri_last_deployed info)
            in if is_zero_time started then False
               else time_sub now started > sint (2 * release_timeout r))"

definition plan_submit ::
  "helm_env \<Rightarrow> (json \<Rightarrow> string) \<Rightarrow> instant \<Rightarrow> helm_release option \<Rightarrow> bool \<Rightarrow> flight option \<Rightarrow>
   release_properties option \<Rightarrow> submit_action \<times> int" where
  "plan_submit h digest now current is_create fl want =
     (case current of
        None \<Rightarrow> (Action_install, 1)
      | Some r \<Rightarrow>
          if release_is_pending h current
          then (if rejoinable digest now r fl want then (Action_rejoin, rel_version r)
                else if abandoned current fl then (Action_recover, rel_version r)
                else if stalled now r fl then (Action_blocked, rel_version r)
                else (Action_retry, rel_version r))
          else if settled current want then (Action_settled, rel_version r)
          else if is_create \<and> \<not> formae_owns current then (Action_foreign, rel_version r)
          else (Action_upgrade, rel_version r + 1))"

subsection \<open>Recovery\<close>

text \<open>One rendered object as Helm builds it: its kind and name for the messages, the cluster's answer
  to a Get, the readiness check's answer.\<close>

record rendered_object =
  ro_kind :: string
  ro_name :: string
  ro_get :: "gerr option"
  ro_ready :: "bool res"

fun post_deploy_hooks :: "hook list \<Rightarrow> string list" where
  "post_deploy_hooks [] = []"
| "post_deploy_hooks (hk # hks) =
     (if list_ex (\<lambda>ev. ev = Hook_post_install \<or> ev = Hook_post_upgrade) (hk_events hk)
      then hk_name hk # post_deploy_hooks hks else post_deploy_hooks hks)"

fun ready_loop :: "rendered_object list \<Rightarrow> bool \<times> string" where
  "ready_loop [] = (True, [])"
| "ready_loop (x # xs) =
     (case ro_ready x of
        Inl e \<Rightarrow> (False, ro_kind x @ ''/'' @ ro_name x @ '': '' @ err_msg e)
      | Inr ok \<Rightarrow> if \<not> ok then (False, ''waiting for '' @ ro_kind x @ ''/'' @ ro_name x) else ready_loop xs)"

definition manifest_ready :: "rendered_object list res \<Rightarrow> bool \<times> string" where
  "manifest_ready built =
     (case built of
        Inl e \<Rightarrow> (False, ''building release manifest: '' @ err_msg e)
      | Inr xs \<Rightarrow> ready_loop xs)"

fun absent_loop :: "rendered_object list \<Rightarrow> string option" where
  "absent_loop [] = None"
| "absent_loop (x # xs) =
     (case ro_get x of
        Some e \<Rightarrow> Some (ro_kind x @ ''/'' @ ro_name x @ '' is absent: '' @ err_msg e)
      | None \<Rightarrow> absent_loop xs)"

definition manifest_complete :: "rendered_object list res \<Rightarrow> rendered_object list res \<Rightarrow> helm_release \<Rightarrow> bool \<times> string" where
  "manifest_complete built built_again r =
     (if post_deploy_hooks (rel_hooks r) \<noteq> []
      then (False, ''cannot confirm completion: the chart declares post-deploy hooks ('' @
              join_with '', '' (post_deploy_hooks (rel_hooks r)) @ '') that run '' @
              ''before Helm records the release, so their having run is unprovable from the objects'')
      else (case built of
         Inl e \<Rightarrow> (False, ''building release manifest: '' @ err_msg e)
       | Inr xs \<Rightarrow>
           (case absent_loop xs of
              Some detail \<Rightarrow> (False, detail)
            | None \<Rightarrow> manifest_ready built_again)))"

definition set_status :: "helm_status \<Rightarrow> string \<Rightarrow> helm_release \<Rightarrow> helm_release" where
  "set_status st msg r =
     r\<lparr>rel_info := map_option (\<lambda>info. info\<lparr>ri_status := st, ri_description := msg\<rparr>) (rel_info r)\<rparr>"

definition status_text :: "helm_env \<Rightarrow> helm_release \<Rightarrow> string" where
  "status_text h r = (case rel_info r of Some info \<Rightarrow> hm_text h (ri_status info) | None \<Rightarrow> [])"

text \<open>The record as it is written back, and the status it settled on.\<close>

definition recovered_record :: "helm_env \<Rightarrow> bool \<times> string \<Rightarrow> helm_release \<Rightarrow> helm_status \<times> helm_release" where
  "recovered_record h verdict r =
     (case verdict of
        (True, detail) \<Rightarrow>
          (Status_deployed, set_status Status_deployed (''formae: recovered a release abandoned in '' @ status_text h r @
             ''; every object it renders is present and ready, so the install did complete and only the record was lost'') r)
      | (False, detail) \<Rightarrow>
          (Status_failed, set_status Status_failed (''formae: recovered a release abandoned in '' @ status_text h r @
             ''; its objects are incomplete ('' @ detail @ ''), so it is marked failed and the next apply upgrades over it'') r))"

definition recover_abandoned ::
  "helm_env \<Rightarrow> bool \<times> string \<Rightarrow> gerr option \<Rightarrow> helm_release \<Rightarrow> (helm_status \<times> helm_release) res" where
  "recover_abandoned h verdict update_err r =
     (case update_err of
        None \<Rightarrow> Inr (recovered_record h verdict r)
      | Some e \<Rightarrow> Inl (wrap_error (''recovering abandoned release '' @ rel_namespace r @ ''/'' @ rel_name r) e))"

definition last_release_error :: "string \<Rightarrow> gerr \<Rightarrow> gerr" where
  "last_release_error name e = wrap_error (''read helm release '' @ quoted name) e"

definition is_release_not_found :: "gerr \<Rightarrow> bool" where
  "is_release_not_found e \<longleftrightarrow>
     errors_is e ErrReleaseNotFound \<or> errors_is e ErrNoDeployedReleases \<or> contains (err_msg e) ''release: not found''"

definition last_release :: "string \<Rightarrow> helm_release res \<Rightarrow> helm_release option res" where
  "last_release name storage =
     (case storage of
        Inr r \<Rightarrow> Inr (Some r)
      | Inl e \<Rightarrow> if is_release_not_found e then Inr None else Inl (last_release_error name e))"

subsection \<open>The reported properties\<close>

text \<open>The objects a release renders, grouped by "apiVersion/Kind", each group sorted.\<close>

fun group_object :: "(object_id \<times> string) list \<Rightarrow> (string \<times> string list) list" where
  "group_object [] = []"
| "group_object ((ob, owner) # rest) =
     (let key = (if ob_api_version ob \<noteq> [] then ob_api_version ob @ ''/'' @ ob_kind ob else ob_kind ob);
          groups = group_object rest;
          names = (case map_of groups key of Some ns \<Rightarrow> ns | None \<Rightarrow> [])
      in AList.update key ((ob_namespace ob @ ''/'' @ ob_name ob) # names) groups)"

definition sorted_groups :: "(object_id \<times> string) list \<Rightarrow> (string \<times> string list) list" where
  "sorted_groups obs = map (\<lambda>(k, names). (k, sort names)) (group_object obs)"

definition resource_names :: "(string \<Rightarrow> manifest_head option) \<Rightarrow> helm_release \<Rightarrow> (string \<times> string list) list" where
  "resource_names yaml r =
     sorted_groups (inv_objects (index_manifest yaml (rel_manifest r) (rel_namespace r) (rel_name r) new_inventory))"

definition properties_from_release ::
  "helm_env \<Rightarrow> (string \<Rightarrow> manifest_head option) \<Rightarrow> helm_release \<Rightarrow> release_properties" where
  "properties_from_release h yaml r =
     \<lparr>rp_metadata = \<lparr>rm_name = rel_name r, rm_namespace = rel_namespace r,
        rm_labels = without_formae_labels (without_system_labels h (rel_labels r)), rm_annotations = []\<rparr>,
      rp_chart = (case stored_metadata (Some r) of
                    Some m \<Rightarrow> if formae_owns (Some r) then [] else cm_name m | None \<Rightarrow> []),
      rp_repo_url = [],
      rp_version = (case stored_metadata (Some r) of Some m \<Rightarrow> cm_version m | None \<Rightarrow> []),
      rp_values = rel_config r,
      rp_create_namespace = False, rp_skip_crds = False, rp_disable_hooks = False, rp_atomic = False,
      rp_timeout_seconds = 0, rp_revision = rel_version r,
      rp_status = status_text h r,
      rp_app_version = (case stored_metadata (Some r) of Some m \<Rightarrow> cm_app_version m | None \<Rightarrow> []),
      rp_resource_names = resource_names yaml r\<rparr>"

definition release_read ::
  "helm_env \<Rightarrow> (string \<Rightarrow> manifest_head option) \<Rightarrow> (string \<Rightarrow> helm_release res) \<Rightarrow> gerr option \<Rightarrow>
   read_request \<Rightarrow> read_result option \<times> gerr option" where
  "release_read h yaml storage config_err req =
     (case parse_namespaced_native_id (rd_native_id req) of
        Inl e \<Rightarrow> (None, Some (wrap_error (''invalid native id '' @ quoted (rd_native_id req) @ '' for '' @ rd_type req) e))
      | Inr (ns, name) \<Rightarrow>
          (case config_err of
             Some e \<Rightarrow> (None, Some e)
           | None \<Rightarrow>
               (case last_release name (storage name) of
                  Inl e \<Rightarrow> (None, Some e)
                | Inr None \<Rightarrow> (Some \<lparr>rr_type = rd_type req, rr_properties = None, rr_code = NotFound\<rparr>, None)
                | Inr (Some r) \<Rightarrow>
                    if release_is_pending h (Some r)
                    then (Some \<lparr>rr_type = rd_type req, rr_properties = None, rr_code = NotStabilized\<rparr>, None)
                    else (Some \<lparr>rr_type = rd_type req,
                        rr_properties = Some (Inr (encode_properties (properties_from_release h yaml r))),
                        rr_code = NoCode\<rparr>, None))))"

definition release_list :: "gerr option \<Rightarrow> listed_release list res \<Rightarrow> string list option \<times> gerr option" where
  "release_list config_err listed =
     (case config_err of
        Some e \<Rightarrow> (None, Some e)
      | None \<Rightarrow>
          (case listed of
             Inl e \<Rightarrow> (None, Some (wrap_error ''list helm releases'' e))
           | Inr rs \<Rightarrow> (Some (map (\<lambda>r. native_id (lr_namespace r) (lr_name r)) rs), None)))"

subsection \<open>Reported object names do not depend on the map's order\<close>

definition group_key :: "object_id \<Rightarrow> string" where
  "group_key ob = (if ob_api_version ob \<noteq> [] then ob_api_version ob @ ''/'' @ ob_kind ob else ob_kind ob)"

definition group_name :: "object_id \<Rightarrow> string" where
  "group_name ob = ob_namespace ob @ ''/'' @ ob_name ob"

definition names_under :: "string \<Rightarrow> (object_id \<times> string) list \<Rightarrow> string list" where
  "names_under key obs = map (\<lambda>x. group_name (fst x)) (filter (\<lambda>x. group_key (fst x) = key) obs)"

lemma group_object_Cons:
  "group_object (x # rest) =
     (let groups = group_object rest;
          names = (case map_of groups (group_key (fst x)) of Some ns \<Rightarrow> ns | None \<Rightarrow> [])
      in AList.update (group_key (fst x)) (group_name (fst x) # names) groups)"
  by (cases x) (simp add: group_key_def group_name_def Let_def)

lemma names_under_simps [simp]:
  "names_under key [] = []"
  "names_under key (x # rest) =
     (if group_key (fst x) = key then group_name (fst x) # names_under key rest else names_under key rest)"
  by (simp_all add: names_under_def)

lemma map_of_group_object:
  "map_of (group_object obs) key = (if names_under key obs = [] then None else Some (names_under key obs))"
proof (induction obs arbitrary: key)
  case (Cons x rest)
  let ?k = "group_key (fst x)"
  have "(case map_of (group_object rest) ?k of Some ns \<Rightarrow> ns | None \<Rightarrow> []) = names_under ?k rest"
    by (cases "names_under ?k rest = []") (simp_all add: Cons.IH)
  then show ?case
    by (simp add: group_object_Cons Let_def update_conv' Cons.IH del: group_object.simps)
qed simp

text \<open>The object names a Read reports are the same for every iteration order of the inventory: per
  kind they are exactly the rendered objects' names, sorted.\<close>

theorem reported_names_ignore_map_order:
  assumes "mset obs = mset obs'"
  shows "map_of (sorted_groups obs) = map_of (sorted_groups obs') \<and>
    map_of (sorted_groups obs) key =
      (if names_under key obs = [] then None else Some (sort (names_under key obs)))"
proof -
  have perm: "mset (names_under k obs) = mset (names_under k obs')" for k
    using assms by (simp add: names_under_def)
  have "sort (names_under k obs) = sort (names_under k obs')" for k
    using perm [of k] by (metis mset_sort properties_for_sort sorted_sort)
  moreover have "names_under k obs = [] \<longleftrightarrow> names_under k obs' = []" for k
    using perm [of k] by (metis mset_zero_iff)
  ultimately have same: "map_of (sorted_groups obs) k = map_of (sorted_groups obs') k" for k
    by (simp add: map_of_map_pair map_of_group_object sorted_groups_def)
  have at: "map_of (sorted_groups obs) key =
      (if names_under key obs = [] then None else Some (sort (names_under key obs)))"
    by (simp add: map_of_map_pair map_of_group_object sorted_groups_def)
  show ?thesis by (intro conjI ext same at)
qed

definition secret_object :: "string \<Rightarrow> object_id \<times> string" where
  "secret_object name =
     (\<lparr>ob_api_version = ''v1'', ob_kind = ''Secret'', ob_namespace = ''n'', ob_name = name\<rparr>, ''n/r'')"

theorem reported_names_ignore_map_order_witness:
  "map_of (sorted_groups [secret_object ''a'', secret_object ''b'']) =
     map_of (sorted_groups [secret_object ''b'', secret_object ''a''])"
proof -
  have "mset [secret_object ''a'', secret_object ''b''] = mset [secret_object ''b'', secret_object ''a'']"
    by (simp add: secret_object_def add_mset_commute)
  from reported_names_ignore_map_order [OF this] show ?thesis by blast
qed

subsection \<open>What a plan may do\<close>

text \<open>A Create never takes over a release formae did not install: it is refused, reported as blocked
  or retried later, never installed over, upgraded, recovered or called settled.\<close>

theorem create_never_takes_over_foreign:
  assumes "\<not> formae_owns (Some r)"
  shows "fst (plan_submit h digest now (Some r) True None want) \<in> {Action_foreign, Action_blocked, Action_retry}"
  using assms by (auto simp: plan_submit_def rejoinable_def abandoned_def settled_def split: option.split)

definition foreign_release :: helm_release where
  "foreign_release = sample_release\<lparr>rel_labels := []\<rparr>"

theorem create_never_takes_over_foreign_witness:
  "fst (plan_submit sample_helm (\<lambda>j. []) 0 (Some foreign_release) True None (Some sample_properties)) \<in>
     {Action_foreign, Action_blocked, Action_retry}"
  by (rule create_never_takes_over_foreign) (simp add: foreign_release_def formae_owns_def label_def)

text \<open>A submit that concludes there is nothing to do is right: the release is formae's, deployed, and
  a Read of it reports the pinned version and the very values that were asked for.\<close>

theorem settled_is_deployed_as_asked:
  assumes "fst (plan_submit h digest now current is_create fl (Some want)) = Action_settled"
  shows "\<exists>r info. current = Some r \<and> formae_owns (Some r) \<and> rel_info r = Some info \<and>
    ri_status info = Status_deployed \<and> rp_version want \<noteq> [] \<and>
    rp_version (properties_from_release h yaml r) = rp_version want \<and>
    values_equal (rp_values (properties_from_release h yaml r)) (rp_values want)"
proof -
  obtain r where r: "current = Some r" using assms by (cases current) (auto simp: plan_submit_def)
  then have "settled current (Some want)"
    using assms by (auto simp: plan_submit_def split: if_splits)
  then show ?thesis using r
    by (auto simp: settled_def stored_chart_usable_def properties_from_release_def split: option.splits if_splits)
qed

theorem settled_is_deployed_as_asked_witness:
  "fst (plan_submit sample_helm (\<lambda>j. []) 0 (Some sample_release) True None (Some sample_properties)) = Action_settled \<and>
   rp_version (properties_from_release sample_helm sample_yaml sample_release) = ''6.7.0''"
proof -
  have plan: "fst (plan_submit sample_helm (\<lambda>j. []) 0 (Some sample_release) True None (Some sample_properties)) =
      Action_settled"
    by code_simp
  show ?thesis
    using settled_is_deployed_as_asked [OF plan, of sample_yaml] plan by (auto simp: sample_properties_def)
qed

lemma ready_loop_True: "ready_loop xs = (True, d) \<longleftrightarrow> d = [] \<and> (\<forall>x \<in> set xs. ro_ready x = Inr True)"
  by (induction xs) (auto split: sum.splits)

lemma absent_loop_None: "absent_loop xs = None \<longleftrightarrow> (\<forall>x \<in> set xs. ro_get x = None)"
  by (induction xs) (auto split: option.splits)

lemma manifest_complete_iff:
  "fst (manifest_complete (Inr xs) (Inr xs) r) \<longleftrightarrow>
     post_deploy_hooks (rel_hooks r) = [] \<and> (\<forall>x \<in> set xs. ro_get x = None \<and> ro_ready x = Inr True)"
proof -
  have "fst (ready_loop xs) \<longleftrightarrow> (\<forall>x \<in> set xs. ro_ready x = Inr True)"
    using ready_loop_True [of xs] by (cases "ready_loop xs") auto
  moreover note absent_loop_None [of xs]
  ultimately show ?thesis
    by (cases "absent_loop xs") (auto simp: manifest_complete_def manifest_ready_def)
qed

lemma set_status_info [simp]:
  "rel_info (set_status st msg r) = map_option (\<lambda>info. info\<lparr>ri_status := st, ri_description := msg\<rparr>) (rel_info r)"
  "rel_labels (set_status st msg r) = rel_labels r" "rel_version (set_status st msg r) = rel_version r"
  by (simp_all add: set_status_def)

lemma recovered_not_pending:
  assumes "helm_documented h" "recover_abandoned h verdict None r = Inr (st, r')"
  shows "\<not> release_is_pending h (Some r')" and "formae_owns (Some r') = formae_owns (Some r)"
    and "rel_version r' = rel_version r"
  using assms
  by (auto simp: recover_abandoned_def recovered_record_def release_is_pending_def helm_documented_def formae_owns_def
      split: prod.splits bool.splits option.splits)

text \<open>Recovering an abandoned release of formae's settles it: it becomes deployed exactly when its
  chart has no post-deploy hooks and every object it renders exists and is ready, else failed; and the
  plan made from the written record is settled or an upgrade to the next revision, never another
  recovery, retry or refusal.\<close>

theorem recovery_settles_the_plan:
  assumes h: "helm_documented h" and pending: "release_is_pending h (Some r)" and owns: "formae_owns (Some r)"
    and recovered: "recover_abandoned h (manifest_complete (Inr xs) (Inr xs) r) None r = Inr (st, r')"
  shows "(st = Status_deployed \<longleftrightarrow> post_deploy_hooks (rel_hooks r) = [] \<and>
      (\<forall>x \<in> set xs. ro_get x = None \<and> ro_ready x = Inr True)) \<and>
    plan_submit h digest now (Some r') is_create None want \<in>
      {(Action_settled, rel_version r), (Action_upgrade, rel_version r + 1)}"
proof
  show "st = Status_deployed \<longleftrightarrow> post_deploy_hooks (rel_hooks r) = [] \<and>
      (\<forall>x \<in> set xs. ro_get x = None \<and> ro_ready x = Inr True)"
    unfolding manifest_complete_iff [symmetric] using recovered
    by (auto simp: recover_abandoned_def recovered_record_def split: prod.splits bool.splits)
  note r' = recovered_not_pending [OF h recovered]
  show "plan_submit h digest now (Some r') is_create None want \<in>
      {(Action_settled, rel_version r), (Action_upgrade, rel_version r + 1)}"
    using r' owns by (simp add: plan_submit_def)
qed

definition pending_release :: helm_release where
  "pending_release = sample_release\<lparr>rel_info := Some \<lparr>ri_status = Status_pending_install, ri_description = [],
     ri_first_deployed = 0, ri_last_deployed = 0\<rparr>\<rparr>"

theorem recovery_settles_the_plan_witness:
  "plan_submit sample_helm (\<lambda>j. []) 0 (Some (set_status Status_failed ''x'' pending_release)) True None
     (Some sample_properties) = (Action_upgrade, 2) \<and>
   (\<exists>st r'. recover_abandoned sample_helm (manifest_complete (Inr []) (Inr []) pending_release) None pending_release =
       Inr (st, r') \<and> st = Status_deployed)"
proof -
  have p: "release_is_pending sample_helm (Some pending_release)" "formae_owns (Some pending_release)" by code_simp+
  have hooks: "post_deploy_hooks (rel_hooks pending_release) = []"
    by (simp add: pending_release_def sample_release_def)
  obtain st r' where rec: "recover_abandoned sample_helm (manifest_complete (Inr []) (Inr []) pending_release) None
      pending_release = Inr (st, r')"
    by (cases "recovered_record sample_helm (manifest_complete (Inr []) (Inr []) pending_release) pending_release")
      (simp add: recover_abandoned_def)
  have "st = Status_deployed"
    using recovery_settles_the_plan [OF sample_helm_documented p rec] hooks by simp
  moreover have "plan_submit sample_helm (\<lambda>j. []) 0 (Some (set_status Status_failed ''x'' pending_release)) True None
     (Some sample_properties) = (Action_upgrade, 2)"
    by code_simp
  ultimately show ?thesis using rec by blast
qed

end
