(* ===== verification/Release_Status.thy ===== *)
theory Release_Status
  imports Release_Plan
begin

text \<open>
  What a Status poll concludes from a release record (\<open>deleteStatus\<close>, \<open>installStatus\<close>,
  \<open>readinessProgress\<close> and \<open>stalledMessage\<close> of \<open>pkg/resources/helm/release.go\<close>). What the cluster answers
  in the n-th round of \<open>installStatus\<close>, which calls itself after a recovery, is the n-th \<open>look\<close>. A nil
  record \<open>Info\<close> where the code dereferences it is a panic.
\<close>

record look =
  lk_built :: "rendered_object list res"
  lk_built_again :: "rendered_object list res"
  lk_update :: "gerr option"
  lk_reread :: "helm_release res"
  lk_now :: instant

definition status_of :: "helm_release \<Rightarrow> helm_status option" where
  "status_of r = map_option ri_status (rel_info r)"

definition last_deployed_text :: "helm_env \<Rightarrow> helm_release \<Rightarrow> string" where
  "last_deployed_text h r = (case rel_info r of Some info \<Rightarrow> hm_time h (ri_last_deployed info) | None \<Rightarrow> [])"

definition release_label :: "string \<Rightarrow> string \<Rightarrow> string" where
  "release_label ns name = ''release '' @ ns @ ''/'' @ name"

definition stalled_message :: "helm_env \<Rightarrow> helm_release \<Rightarrow> string \<Rightarrow> string \<Rightarrow> string" where
  "stalled_message h r ns name =
     (if status_of r = Some Status_pending_install
      then release_label ns name @ '' stuck in pending-install since '' @ last_deployed_text h r @
        ''. Helm refuses both install and upgrade in this state. Recovery requires `helm uninstall '' @ name @
        '' -n '' @ ns @ ''` before retrying, which re-runs pre-install hooks -- verify they are safe to repeat first''
      else release_label ns name @ '' stuck in '' @ status_text h r @ '' since '' @ last_deployed_text h r @
        ''. Recover with `helm rollback '' @ name @ '' -n '' @ ns @ ''`'')"

subsection \<open>An uninstall\<close>

definition delete_status ::
  "helm_env \<Rightarrow> instant \<Rightarrow> helm_release option \<Rightarrow> flight option \<Rightarrow> string \<Rightarrow> string \<Rightarrow> string \<Rightarrow> progress" where
  "delete_status h now current fl ns name reqid =
     (case current of
        None \<Rightarrow> empty_progress OpCheckStatus StSuccess
      | Some r \<Rightarrow>
          if rel_info r = None \<or> status_of r = Some Status_uninstalled
          then empty_progress OpCheckStatus StSuccess
          else if abandoned current fl
          then failure_result (native_id ns name) ResourceConflict
            (''uninstall of '' @ ns @ ''/'' @ name @ '' was abandoned mid-flight (release still '' @ status_text h r @
             ''); retrying it'')
          else if stalled now r fl
          then failure_result (native_id ns name) GeneralServiceException
            (release_label ns name @ '' stuck '' @ status_text h r @ '' since '' @ last_deployed_text h r @
             ''; no Helm process is finishing it. Inspect with `helm status '' @ name @ '' -n '' @ ns @
             ''`, then `helm uninstall '' @ name @ '' -n '' @ ns @ ''` to clear it'')
          else in_progress_result (native_id ns name) reqid None
            (release_label ns name @ '' still present ('' @ status_text h r @ '')''))"

subsection \<open>An install or an upgrade\<close>

definition readiness_progress ::
  "instant \<Rightarrow> helm_release \<Rightarrow> flight option \<Rightarrow> string \<Rightarrow> string \<Rightarrow> string \<Rightarrow> progress" where
  "readiness_progress now r fl pending_id reqid msg =
     (if \<not> stalled now r fl then in_progress_result pending_id reqid None msg
      else failure_result pending_id GeneralServiceException
        (release_label (rel_namespace r) (rel_name r) @
         '' is recorded deployed but its objects did not become ready within '' @
         duration_string (sint (2 * release_timeout r)) @ '': '' @ msg @
         ''. Helm writes `deployed` once the apiserver accepts the manifests, so that record will not change'' @
         '' on its own -- inspect the objects, fix the chart or its values, and apply again''))"

definition ready_success ::
  "helm_env \<Rightarrow> (string \<Rightarrow> manifest_head option) \<Rightarrow> helm_release \<Rightarrow> string \<Rightarrow> string \<Rightarrow> string \<Rightarrow> progress" where
  "ready_success h yaml r ns name reqid = (empty_progress OpCheckStatus StSuccess)
     \<lparr>pr_request_id := reqid, pr_native_id := native_id ns name,
      pr_properties := Some (Inr (encode_properties (properties_from_release h yaml r)))\<rparr>"

text \<open>The checks before the record's status is looked at: they need no recovery.\<close>

definition revision_verdict ::
  "instant \<Rightarrow> helm_release option \<Rightarrow> flight option \<Rightarrow> string \<Rightarrow> string \<Rightarrow> int \<Rightarrow> op_kind \<Rightarrow> string \<Rightarrow>
   progress option" where
  "revision_verdict now current fl ns name want op reqid =
     (let pending_id = native_id_unless (op = Kind_install) ns name in
      case current of
        None \<Rightarrow>
          if (case fl of Some f \<Rightarrow> fl_op f = op \<and> fl_revision f = want \<and> now < fl_deadline f | None \<Rightarrow> False)
          then Some (in_progress_result pending_id reqid None ''waiting for Helm release record'')
          else Some (failure_result pending_id NotFound (release_label ns name @ '' not found''))
      | Some r \<Rightarrow>
          if rel_version r > want
          then Some (failure_result pending_id GeneralServiceException
                 (release_label ns name @ '' advanced to revision '' @ itoa (rel_version r) @ '' while waiting for '' @
                  itoa want))
          else if rel_version r < want
          then Some (in_progress_result pending_id reqid None
                 (''waiting for revision '' @ itoa want @ '' (at '' @ itoa (rel_version r) @ '')''))
          else None)"

text \<open>The record at the wanted revision, when it is not pending.\<close>

definition settled_verdict ::
  "helm_env \<Rightarrow> (string \<Rightarrow> manifest_head option) \<Rightarrow> look \<Rightarrow> helm_release \<Rightarrow> flight option \<Rightarrow> string \<Rightarrow> string \<Rightarrow>
   op_kind \<Rightarrow> string \<Rightarrow> progress ret comp" where
  "settled_verdict h yaml lk r fl ns name op reqid =
     (let pending_id = native_id_unless (op = Kind_install) ns name in
      case rel_info r of
        None \<Rightarrow> Panic nil_dereference
      | Some info \<Rightarrow>
          if ri_status info = Status_failed
          then Ret (Some (failure_result pending_id GeneralServiceException
                 (release_label ns name @ '' failed: '' @ ri_description info)), None)
          else if ri_status info = Status_deployed
          then (case manifest_ready (lk_built_again lk) of (ready, msg) \<Rightarrow>
             if \<not> ready then Ret (Some (readiness_progress (lk_now lk) r fl pending_id reqid msg), None)
             else Ret (Some (ready_success h yaml r ns name reqid), None))
          else Ret (Some (in_progress_result pending_id reqid None (''release is '' @ hm_text h (ri_status info))), None))"

text \<open>A pending record nothing in this process works on. \<open>SetStatus\<close> has changed the record in place by
  the time the messages are built, so they name the new status.\<close>

datatype pending_outcome = Poll_again | Pending_verdict progress

definition pending_verdict ::
  "helm_env \<Rightarrow> look \<Rightarrow> helm_release \<Rightarrow> string \<Rightarrow> string \<Rightarrow> op_kind \<Rightarrow> pending_outcome" where
  "pending_verdict h lk r ns name op =
     (let pending_id = native_id_unless (op = Kind_install) ns name;
          verdict = manifest_complete (lk_built lk) (lk_built_again lk) r;
          written = snd (recovered_record h verdict r) in
      case recover_abandoned h verdict (lk_update lk) r of
        Inl e \<Rightarrow> Pending_verdict (failure_result pending_id GeneralServiceException
          (stalled_message h written ns name @ '' (recovery also failed: '' @ err_msg e @ '')''))
      | Inr (st, _) \<Rightarrow>
          if st = Status_deployed then Poll_again
          else Pending_verdict (failure_result pending_id ResourceConflict
            (release_label ns name @ '' was abandoned mid-'' @ status_text h written @
             '' and has been marked failed; retrying will upgrade over it'')))"

text \<open>One round: its answer, or the record re-read after a recovery, to be judged again.\<close>

definition install_round ::
  "helm_env \<Rightarrow> (string \<Rightarrow> manifest_head option) \<Rightarrow> look \<Rightarrow> helm_release option \<Rightarrow> flight option \<Rightarrow>
   string \<Rightarrow> string \<Rightarrow> int \<Rightarrow> op_kind \<Rightarrow> string \<Rightarrow> progress ret comp + helm_release option" where
  "install_round h yaml lk current fl ns name want op reqid =
     (case revision_verdict (lk_now lk) current fl ns name want op reqid of
        Some pr \<Rightarrow> Inl (Ret (Some pr, None))
      | None \<Rightarrow>
          if release_is_pending h current
          then (case fl of
             Some f \<Rightarrow> Inl (Ret (Some (in_progress_result (native_id_unless (op = Kind_install) ns name) reqid None
                         (''release is '' @ status_text h (the current))), None))
           | None \<Rightarrow>
               (case pending_verdict h lk (the current) ns name op of
                  Pending_verdict pr \<Rightarrow> Inl (Ret (Some pr, None))
                | Poll_again \<Rightarrow>
                    (case last_release name (lk_reread lk) of
                       Inl e \<Rightarrow> Inl (Ret (None, Some e))
                     | Inr fresh \<Rightarrow> Inr fresh)))
          else Inl (settled_verdict h yaml lk (the current) fl ns name op reqid))"

partial_function (option) install_status ::
  "helm_env \<Rightarrow> (string \<Rightarrow> manifest_head option) \<Rightarrow> (nat \<Rightarrow> look) \<Rightarrow> nat \<Rightarrow> helm_release option \<Rightarrow> flight option \<Rightarrow>
   string \<Rightarrow> string \<Rightarrow> int \<Rightarrow> op_kind \<Rightarrow> string \<Rightarrow> progress ret comp option" where
  "install_status h yaml looks n current fl ns name want op reqid =
     (case install_round h yaml (looks n) current fl ns name want op reqid of
        Inl answer \<Rightarrow> Some answer
      | Inr fresh \<Rightarrow> install_status h yaml looks (Suc n) fresh fl ns name want op reqid)"

subsection \<open>What the verdicts are\<close>

lemma revision_verdict_None:
  "revision_verdict now current fl ns name want op reqid = None \<longleftrightarrow> (\<exists>r. current = Some r \<and> rel_version r = want)"
  by (auto simp: revision_verdict_def Let_def split: option.split)

lemma revision_verdict_not_success:
  "revision_verdict now current fl ns name want op reqid = Some pr \<Longrightarrow> pr_status pr \<noteq> StSuccess"
  by (auto simp: revision_verdict_def Let_def in_progress_result_def failure_result_def empty_progress_def
      split: option.splits if_splits)

lemma pending_verdict_failure: "pending_verdict h lk r ns name op = Pending_verdict pr \<Longrightarrow> pr_status pr = StFailure"
  by (auto simp: pending_verdict_def Let_def failure_result_def empty_progress_def split: sum.splits if_splits)

lemma readiness_progress_not_success: "pr_status (readiness_progress now r fl pid reqid msg) \<noteq> StSuccess"
  by (simp add: readiness_progress_def in_progress_result_def failure_result_def empty_progress_def)

lemma manifest_ready_True:
  "fst (manifest_ready built) \<longleftrightarrow> (\<exists>xs. built = Inr xs \<and> (\<forall>x \<in> set xs. ro_ready x = Inr True))"
proof (cases built)
  case (Inr xs)
  then show ?thesis using ready_loop_True [of xs] by (cases "ready_loop xs") (auto simp: manifest_ready_def)
qed (simp add: manifest_ready_def)

lemma settled_verdict_success:
  assumes "settled_verdict h yaml lk r fl ns name op reqid = Ret (Some pr, err)" "pr_status pr = StSuccess"
  shows "status_of r = Some Status_deployed \<and> fst (manifest_ready (lk_built_again lk)) \<and>
    pr = ready_success h yaml r ns name reqid"
proof (cases "rel_info r")
  case (Some info)
  obtain ready msg where m: "manifest_ready (lk_built_again lk) = (ready, msg)" by fastforce
  show ?thesis
    using assms Some m readiness_progress_not_success [of "lk_now lk" r fl _ reqid msg]
    by (auto simp: settled_verdict_def Let_def status_of_def in_progress_result_def failure_result_def
        empty_progress_def split: if_splits)
qed (use assms in \<open>simp add: settled_verdict_def\<close>)

text \<open>The record the m-th round looks at.\<close>

definition seen_in_round :: "(nat \<Rightarrow> look) \<Rightarrow> nat \<Rightarrow> helm_release option \<Rightarrow> nat \<Rightarrow> helm_release \<Rightarrow> bool" where
  "seen_in_round looks n current m r \<longleftrightarrow>
     (m = n \<and> current = Some r) \<or> (n < m \<and> lk_reread (looks (m - 1)) = Inr r)"

lemma last_release_Some: "last_release name storage = Inr (Some r) \<longleftrightarrow> storage = Inr r"
  by (auto simp: last_release_def split: sum.splits)

lemma install_round_success:
  assumes "install_round h yaml lk current fl ns name want op reqid = Inl (Ret (Some pr, err))" "pr_status pr = StSuccess"
  shows "\<exists>r. current = Some r \<and> rel_version r = want \<and> status_of r = Some Status_deployed \<and>
    fst (manifest_ready (lk_built_again lk)) \<and> pr = ready_success h yaml r ns name reqid"
proof -
  have now: "revision_verdict (lk_now lk) current fl ns name want op reqid = None"
    using assms revision_verdict_not_success by (fastforce simp: install_round_def split: option.splits)
  then obtain r where r: "current = Some r" "rel_version r = want" by (auto simp: revision_verdict_None)
  have "\<not> release_is_pending h current"
    using assms now pending_verdict_failure
    by (auto simp: install_round_def in_progress_result_def empty_progress_def
        split: option.splits pending_outcome.splits sum.splits)
  then show ?thesis
    using assms now r settled_verdict_success [of h yaml lk r fl ns name op reqid pr err]
    by (auto simp: install_round_def)
qed

lemma install_round_again:
  assumes "install_round h yaml lk current fl ns name want op reqid = Inr fresh"
  shows "last_release name (lk_reread lk) = Inr fresh" and "release_is_pending h current" and "fl = None"
  using assms by (auto simp: install_round_def split: option.splits pending_outcome.splits sum.splits if_splits)

lemma install_status_success:
  assumes "install_status h yaml looks n current fl ns name want op reqid = Some answer"
  shows "answer = Ret (Some pr, err) \<Longrightarrow> pr_status pr = StSuccess \<Longrightarrow>
    \<exists>m r. seen_in_round looks n current m r \<and> rel_version r = want \<and> status_of r = Some Status_deployed \<and>
      fst (manifest_ready (lk_built_again (looks m))) \<and> pr = ready_success h yaml r ns name reqid"
  using assms
proof (induction rule: install_status.raw_induct [rotated, consumes 1, case_names step])
  case (step self h yaml looks n current fl ns name want op reqid answer)
  show ?case
  proof (cases "install_round h yaml (looks n) current fl ns name want op reqid")
    case (Inl a)
    then show ?thesis
      using step install_round_success [of h yaml "looks n" current fl ns name want op reqid pr err]
      by (auto simp: seen_in_round_def)
  next
    case (Inr fresh)
    have "self h yaml looks (Suc n) fresh fl ns name want op reqid = Some answer"
      using step(2) Inr by simp
    from step(1) [OF this step(3) step(4)]
    obtain m r where "seen_in_round looks (Suc n) fresh m r" and good: "rel_version r = want"
        "status_of r = Some Status_deployed" "fst (manifest_ready (lk_built_again (looks m)))"
        "pr = ready_success h yaml r ns name reqid"
      by blast
    then have "seen_in_round looks n current m r"
      using install_round_again(1) [OF Inr] by (auto simp: seen_in_round_def last_release_Some)
    then show ?thesis using good by blast
  qed
qed

text \<open>C4: an install or upgrade is reported successful only from a record Helm holds at the wanted revision
  as deployed, every object it renders being ready at that moment; the report carries the release's id
  and the properties of that very record. However many rounds the poll takes.\<close>

theorem install_success_is_deployed_and_ready:
  assumes "install_status h yaml looks n current fl ns name want op reqid = Some (Ret (Some pr, err))"
    and "pr_status pr = StSuccess"
  shows "\<exists>m r xs. seen_in_round looks n current m r \<and> rel_version r = want \<and> status_of r = Some Status_deployed \<and>
    lk_built_again (looks m) = Inr xs \<and> (\<forall>x \<in> set xs. ro_ready x = Inr True) \<and>
    pr = ready_success h yaml r ns name reqid"
  using install_status_success [OF assms(1) refl assms(2)] by (metis manifest_ready_True)

text \<open>A deployed, ready release answered in one round, and a lost record recovered first.\<close>

definition sample_look :: look where
  "sample_look = \<lparr>lk_built = Inr [], lk_built_again = Inr [], lk_update = None, lk_reread = Inr sample_release, lk_now = 0\<rparr>"

theorem install_success_is_deployed_and_ready_witness:
  "install_status sample_helm sample_yaml (\<lambda>_. sample_look) 0 (Some pending_release) None ''apps'' ''podinfo'' 1
     Kind_install ''id'' = Some (Ret (Some (ready_success sample_helm sample_yaml sample_release ''apps'' ''podinfo'' ''id''), None)) \<and>
   (\<exists>m r xs. seen_in_round (\<lambda>_. sample_look) 0 (Some pending_release) m r \<and> rel_version r = 1 \<and>
      status_of r = Some Status_deployed \<and> lk_built_again sample_look = Inr xs \<and> (\<forall>x \<in> set xs. ro_ready x = Inr True))"
proof -
  have first: "install_round sample_helm sample_yaml sample_look (Some pending_release) None ''apps'' ''podinfo'' 1
      Kind_install ''id'' = Inr (Some sample_release)"
    by (simp add: install_round_def revision_verdict_def release_is_pending_def pending_release_def sample_release_def
        sample_helm_def sample_look_def pending_verdict_def recover_abandoned_def recovered_record_def
        manifest_complete_def manifest_ready_def last_release_def)
  have second: "install_round sample_helm sample_yaml sample_look (Some sample_release) None ''apps'' ''podinfo'' 1
      Kind_install ''id'' = Inl (Ret (Some (ready_success sample_helm sample_yaml sample_release ''apps'' ''podinfo'' ''id''), None))"
    by (simp add: install_round_def revision_verdict_def release_is_pending_def sample_release_def sample_helm_def
        sample_look_def settled_verdict_def manifest_ready_def)
  have run: "install_status sample_helm sample_yaml (\<lambda>_. sample_look) 0 (Some pending_release) None ''apps'' ''podinfo'' 1
     Kind_install ''id'' = Some (Ret (Some (ready_success sample_helm sample_yaml sample_release ''apps'' ''podinfo'' ''id''), None))"
    by (subst install_status.simps, subst first, simp, subst install_status.simps, subst second, simp)
  have "pr_status (ready_success sample_helm sample_yaml sample_release ''apps'' ''podinfo'' ''id'') = StSuccess"
    by (simp add: ready_success_def empty_progress_def)
  from install_success_is_deployed_and_ready [OF run this] run show ?thesis by blast
qed

text \<open>C16: a pending record that nothing in this process works on reaches a verdict: the poll returns; and
  when the write of a recovery is what is read back, it reports progress only for a release now recorded
  as deployed whose objects were not all ready at the second look.\<close>

theorem abandoned_install_reaches_verdict:
  assumes h: "helm_documented h" and pending: "release_is_pending h (Some r)" and want: "rel_version r = want"
    and reread: "lk_reread (looks n) = Inr (snd (recovered_record h (manifest_complete (lk_built (looks n))
      (lk_built_again (looks n)) r) r))"
  shows "\<exists>pr. install_status h yaml looks n (Some r) None ns name want op reqid = Some (Ret (Some pr, None)) \<and>
    (pr_status pr = StInProgress \<longrightarrow> fst (manifest_complete (lk_built (looks n)) (lk_built_again (looks n)) r) \<and>
       \<not> fst (manifest_ready (lk_built_again (looks (Suc n)))))"
proof -
  let ?v = "manifest_complete (lk_built (looks n)) (lk_built_again (looks n)) r"
  let ?r' = "snd (recovered_record h ?v r)"
  obtain info where info: "rel_info r = Some info" "hm_pending h (ri_status info)"
    using pending by (auto simp: release_is_pending_def split: option.splits)
  have now: "revision_verdict t (Some x) None ns name want op reqid = None" if "rel_version x = want" for t x
    using that by (simp add: revision_verdict_None)
  show ?thesis
  proof (cases "pending_verdict h (looks n) r ns name op")
    case (Pending_verdict pr)
    then have "install_status h yaml looks n (Some r) None ns name want op reqid = Some (Ret (Some pr, None))"
      by (subst install_status.simps) (simp add: install_round_def now want pending)
    then show ?thesis using pending_verdict_failure [OF Pending_verdict] by simp
  next
    case Poll_again
    then have ok: "fst ?v"
      by (auto simp: pending_verdict_def Let_def recover_abandoned_def recovered_record_def
          split: option.splits prod.splits bool.splits if_splits)
    then obtain d where r': "?r' = set_status Status_deployed d r"
      by (cases ?v) (auto simp: recovered_record_def)
    then have deployed: "rel_info ?r' = Some (info\<lparr>ri_status := Status_deployed, ri_description := d\<rparr>)"
        "rel_version ?r' = want"
      using info want by simp_all
    have one: "install_round h yaml (looks n) (Some r) None ns name want op reqid = Inr (Some ?r')"
      using Poll_again reread by (simp add: install_round_def now want pending last_release_def)
    obtain ready msg where m: "manifest_ready (lk_built_again (looks (Suc n))) = (ready, msg)" by fastforce
    have two: "install_round h yaml (looks (Suc n)) (Some ?r') None ns name want op reqid =
        Inl (settled_verdict h yaml (looks (Suc n)) ?r' None ns name op reqid)"
      using deployed h by (simp add: install_round_def now release_is_pending_def helm_documented_def)
    have "install_status h yaml looks n (Some r) None ns name want op reqid =
        Some (settled_verdict h yaml (looks (Suc n)) ?r' None ns name op reqid)"
      by (subst install_status.simps, simp only: one sum.case, subst install_status.simps, simp only: two sum.case)
    then show ?thesis
      using m deployed ok by (cases ready) (auto simp: settled_verdict_def Let_def ready_success_def empty_progress_def)
  qed
qed

theorem abandoned_install_reaches_verdict_witness:
  "\<exists>pr. install_status sample_helm sample_yaml
      (\<lambda>n. sample_look\<lparr>lk_reread := Inr (snd (recovered_record sample_helm (True, []) pending_release))\<rparr>) 0
      (Some pending_release) None ''apps'' ''podinfo'' 1 Kind_install ''id'' = Some (Ret (Some pr, None)) \<and>
    pr_status pr \<noteq> StInProgress"
proof -
  let ?looks = "\<lambda>n :: nat. sample_look\<lparr>lk_reread := Inr (snd (recovered_record sample_helm (True, []) pending_release))\<rparr>"
  have v: "manifest_complete (lk_built (?looks 0)) (lk_built_again (?looks 0)) pending_release = (True, [])"
    by (simp add: sample_look_def manifest_complete_def manifest_ready_def pending_release_def sample_release_def)
  have p: "release_is_pending sample_helm (Some pending_release)" "rel_version pending_release = 1" by code_simp+
  have re: "lk_reread (?looks 0) = Inr (snd (recovered_record sample_helm (manifest_complete (lk_built (?looks 0))
      (lk_built_again (?looks 0)) pending_release) pending_release))"
    unfolding v by simp
  have "fst (manifest_ready (lk_built_again (?looks (Suc 0))))"
    by (simp add: sample_look_def manifest_ready_def)
  then show ?thesis
    using abandoned_install_reaches_verdict [where looks = ?looks and n = 0 and yaml = sample_yaml and
        ns = "''apps''" and name = "''podinfo''" and op = Kind_install and reqid = "''id''",
        OF sample_helm_documented p re] by blast
qed

text \<open>The report of a recovered release names the status the recovery has just written, not the one the
  release was abandoned in: the record was changed in place before the message is built.\<close>

lemma recovered_report_names_new_status:
  assumes "\<not> fst (manifest_complete (lk_built lk) (lk_built_again lk) r)" "lk_update lk = None" "rel_info r \<noteq> None"
  shows "pending_verdict h lk r ns name op = Pending_verdict
    (failure_result (native_id_unless (op = Kind_install) ns name) ResourceConflict
      (release_label ns name @ '' was abandoned mid-'' @ hm_text h Status_failed @
       '' and has been marked failed; retrying will upgrade over it''))"
  using assms
  by (cases "manifest_complete (lk_built lk) (lk_built_again lk) r")
    (auto simp: pending_verdict_def Let_def recover_abandoned_def recovered_record_def status_text_def)

lemma failed_recovery_is_reported:
  assumes "lk_update lk = Some e"
  shows "\<exists>pr. pending_verdict h lk r ns name op = Pending_verdict pr \<and> pr_status pr = StFailure"
  using assms
  by (simp add: pending_verdict_def Let_def recover_abandoned_def failure_result_def empty_progress_def)

text \<open>What an uninstall poll answers, by what is left of the release.\<close>

definition release_gone :: "helm_release option \<Rightarrow> bool" where
  "release_gone current =
     (case current of None \<Rightarrow> True | Some r \<Rightarrow> status_of r = None \<or> status_of r = Some Status_uninstalled)"

text \<open>An uninstall poll succeeds exactly when the record is gone; a record of formae's that no
  operation works on is handed back for a retry at once; every other one is in progress until it has
  been stale for twice its timeout.\<close>

theorem delete_status_verdict:
  "(pr_status (delete_status h now current fl ns name reqid),
    pr_code (delete_status h now current fl ns name reqid)) =
   (if release_gone current then (StSuccess, NoCode)
    else if fl = None \<and> formae_owns current then (StFailure, ResourceConflict)
    else if stalled now (the current) fl then (StFailure, GeneralServiceException)
    else (StInProgress, NoCode))"
  by (auto simp: delete_status_def release_gone_def status_of_def abandoned_def failure_result_def
      in_progress_result_def empty_progress_def split: option.splits)

end
