(* ===== verification/Release_Ops.thy ===== *)
theory Release_Ops
  imports Release_Status
begin

text \<open>
  The Helm release handlers as whole calls (\<open>submit\<close>, \<open>Create\<close>, \<open>Update\<close>, \<open>Delete\<close>, \<open>Status\<close> of
  \<open>pkg/resources/helm/release.go\<close>, with \<open>callback_budget.go\<close>, \<open>cluster_identity.go\<close> and \<open>flightIdentity\<close>):
  the gates, the reservation of the flight, the plan, the activation, the work handed to the
  background goroutine, the report, and what the deferred calls undo. Each call is a function of the
  registry; what everything outside it answers is the \<open>host\<close>, and \<open>ho_others\<close> is what the rest of the
  process does to the registry while the call waits.
\<close>

record host =
  ho_oidc :: bool
  ho_info :: "operation_info option"
  ho_identity :: "string res"
  ho_kube_system :: "string res"
  ho_uuid :: string
  ho_uuid_ok :: "string \<Rightarrow> bool"
  ho_now :: "nat \<Rightarrow> instant"
  ho_worker :: "gerr option"
  ho_done :: "gerr option"
  ho_minted :: "(string \<times> instant) res"
  ho_config :: "gerr option"
  ho_bridge_config :: "gerr option"
  ho_storage :: "nat \<Rightarrow> helm_release res"
  ho_looks :: "nat \<Rightarrow> look"
  ho_chart :: "chart res"
  ho_ctx :: "nat \<Rightarrow> gerr option"
  ho_run_ctx :: "gerr option"
  ho_await :: "gerr option"
  ho_digest :: "json \<Rightarrow> string"
  ho_yaml :: "string \<Rightarrow> manifest_head option"
  ho_cancel :: nat
  ho_run_cancel :: nat
  ho_addr :: nat
  ho_others :: "nat \<Rightarrow> registry \<Rightarrow> registry"

subsection \<open>Gates\<close>

definition untrusted_metadata :: gerr where
  "untrusted_metadata = new_error ''helm OIDC requires trusted operation metadata''"

text \<open>\<open>brokerCallbackContext\<close>: the error, or the budget of the bounded context.\<close>

definition broker_callback_context :: "operation_info \<Rightarrow> duration res" where
  "broker_callback_context info =
     (case bridge_window info of
        Inl e \<Rightarrow> Inl e
      | Inr w \<Rightarrow>
          if sint (oi_call_timeout info) \<le> 10 * second
          then Inl (new_error ''helm OIDC call timeout must exceed the 10s scheduling reserve'')
          else Inr (oi_call_timeout info - word_of_int (10 * second)))"

text \<open>\<open>NewCallbackContext\<close>: nothing is bounded without OIDC.\<close>

definition new_callback_context ::
  "bool \<Rightarrow> operation_info option \<Rightarrow> raw option \<Rightarrow> duration option res" where
  "new_callback_context oidc info properties =
     (if \<not> oidc then Inr None
      else (case info of
         None \<Rightarrow> Inl untrusted_metadata
       | Some i \<Rightarrow>
           (case broker_callback_context i of
              Inl e \<Rightarrow> Inl e
            | Inr budget \<Rightarrow>
                (case properties of
                   None \<Rightarrow> Inr (Some budget)
                 | Some raw \<Rightarrow>
                     (case decode_properties raw of
                        Inl e \<Rightarrow> Inl e
                      | Inr props \<Rightarrow>
                          (case validate_action_allowance i (release_properties_timeout props) of
                             Some e \<Rightarrow> Inl e
                           | None \<Rightarrow> Inr (Some budget)))))))"

definition callback_info :: "host \<Rightarrow> operation_info option res" where
  "callback_info ho =
     (if \<not> ho_oidc ho then Inr None
      else (case ho_info ho of
         None \<Rightarrow> Inl untrusted_metadata
       | Some info \<Rightarrow> (case broker_callback_context info of Inl e \<Rightarrow> Inl e | Inr _ \<Rightarrow> Inr (Some info))))"

definition flight_identity :: "host \<Rightarrow> (string \<times> string) res" where
  "flight_identity ho =
     (case ho_identity ho of
        Inl e \<Rightarrow> Inl e
      | Inr identity \<Rightarrow>
          if \<not> ho_oidc ho then Inr (identity, [])
          else (case ho_info ho of
             None \<Rightarrow> Inl untrusted_metadata
           | Some info \<Rightarrow> Inr (identity, oi_binding_id info)))"

definition resolve_flight_scope :: "string res \<Rightarrow> string res" where
  "resolve_flight_scope kube_system =
     (case kube_system of
        Inl e \<Rightarrow> Inl (wrap_error (''identify Helm cluster: get namespace kube-system '' @
            ''(requires get namespaces resourceNames=[kube-system])'') e)
      | Inr uid \<Rightarrow>
          if uid = [] then Inl (new_error ''identify Helm cluster: namespace kube-system has no UID'')
          else Inr (''UID|'' @ uid))"

text \<open>What \<open>submit\<close> and \<open>Delete\<close> check before they reserve: identity, binding and scope.\<close>

definition entry_gate :: "host \<Rightarrow> duration \<Rightarrow> (operation_info option \<times> string \<times> string \<times> string) res" where
  "entry_gate ho allowance =
     (case callback_info ho of
        Inl e \<Rightarrow> Inl e
      | Inr info \<Rightarrow>
          (case flight_identity ho of
             Inl e \<Rightarrow> Inl e
           | Inr (identity, binding) \<Rightarrow>
               (case (case info of Some i \<Rightarrow> validate_action_allowance i allowance | None \<Rightarrow> None) of
                  Some e \<Rightarrow> Inl e
                | None \<Rightarrow>
                    (case resolve_flight_scope (ho_kube_system ho) of
                       Inl e \<Rightarrow> Inl e
                     | Inr scope \<Rightarrow> Inr (info, identity, binding, scope)))))"

subsection \<open>Services\<close>

text \<open>One \<open>Service\<close> call from start to end.\<close>

definition bridge_service ::
  "gerr option \<Rightarrow> (string \<times> instant) res \<Rightarrow> instant \<Rightarrow> instant \<Rightarrow> auth_bridge \<Rightarrow> gerr option \<times> auth_bridge" where
  "bridge_service done_err minted now now' b =
     (case service_begin True done_err b of
        (Service_failed e, b) \<Rightarrow> (Some e, b)
      | (Service_blocked, b) \<Rightarrow> (Some deadline_exceeded, b)
      | (Service_begun gen fenced, b) \<Rightarrow> service_end gen done_err minted now now' b)"

text \<open>The bridge of a retained flight, serviced where it lives.\<close>

definition service_registered :: "host \<Rightarrow> nat \<Rightarrow> registry \<Rightarrow> gerr option \<times> registry" where
  "service_registered ho addr rg =
     (case map_of (rg_bridges rg) addr of
        None \<Rightarrow> (None, rg)
      | Some b \<Rightarrow>
          (case bridge_service (ho_done ho) (ho_minted ho) (ho_now ho 2) (ho_now ho 3) b of
             (err, b) \<Rightarrow> (err, rg\<lparr>rg_bridges := AList.update addr b (rg_bridges rg)\<rparr>)))"

text \<open>A bridge of the call's own, with its first credentials.\<close>

definition open_bridge :: "host \<Rightarrow> operation_info \<Rightarrow> string \<Rightarrow> duration \<Rightarrow> instant \<Rightarrow> auth_bridge res" where
  "open_bridge ho info identity allowance deadline =
     (case new_auth_bridge info identity allowance deadline (ho_now ho 1) of
        Inl e \<Rightarrow> Inl e
      | Inr b \<Rightarrow>
          (case ho_worker ho of
             Some e \<Rightarrow> Inl e
           | None \<Rightarrow>
               (case bridge_service (ho_done ho) (ho_minted ho) (ho_now ho 2) (ho_now ho 3) b of
                  (Some e, b) \<Rightarrow> Inl e
                | (None, b) \<Rightarrow> Inr b)))"

subsection \<open>Rejoining a running operation\<close>

text \<open>A submit or Delete that found the flight taken: \<open>own\<close> is the flight it may have retained, which
  the deferred release gives back.\<close>

definition rejoin_body ::
  "host \<Rightarrow> string \<Rightarrow> string \<Rightarrow> string \<Rightarrow> flight \<Rightarrow> bool \<Rightarrow> registry \<Rightarrow> progress ret \<times> registry" where
  "rejoin_body ho scope ns name own is_create rg =
     (case (if fl_finished own then None else fl_bridge own) of
        None \<Rightarrow> ((Some (flight_progress ns name own is_create), None), rg)
      | Some addr \<Rightarrow>
          (case ho_worker ho of
             Some e \<Rightarrow> progress_after_flight_error scope ns name own is_create e (ho_now ho 4) (ho_others ho 0 rg)
           | None \<Rightarrow>
               (case service_registered ho addr (ho_others ho 0 rg) of
                  (err, rg) \<Rightarrow>
                    (case service_flight scope ns name own err rg of
                       (fresh, Some e) \<Rightarrow> progress_after_flight_error scope ns name own is_create e (ho_now ho 4) rg
                     | (fresh, None) \<Rightarrow>
                         (case fresh of
                            None \<Rightarrow> ((Some (flight_conflict ns name), None), rg)
                          | Some f \<Rightarrow>
                              if fl_generation f \<noteq> fl_generation own
                              then ((Some (flight_conflict ns name), None), rg)
                              else ((Some (flight_progress ns name f is_create), None), rg))))))"

definition rejoin ::
  "host \<Rightarrow> string \<Rightarrow> string \<Rightarrow> string \<Rightarrow> flight option \<Rightarrow> flight \<Rightarrow> bool \<Rightarrow> registry \<Rightarrow> progress ret \<times> registry" where
  "rejoin ho scope ns name got candidate is_create rg =
     (case got of
        None \<Rightarrow> ((Some (flight_conflict ns name), None), rg)
      | Some own \<Rightarrow>
          if \<not> matches_rejoin own candidate then ((Some (flight_conflict ns name), None), rg)
          else (case rejoin_body ho scope ns name own is_create rg of
             (res, rg) \<Rightarrow> (res, release_status_flight scope ns name (fl_generation own) rg)))"

subsection \<open>The work handed to Helm\<close>

text \<open>The action objects \<open>runInstall\<close>, \<open>runUpgrade\<close> and \<open>Delete\<close> configure; \<open>Wait\<close> is off for the first two.\<close>

record install_action =
  ia_release_name :: string
  ia_namespace :: string
  ia_create_namespace :: bool
  ia_skip_crds :: bool
  ia_disable_hooks :: bool
  ia_atomic :: bool
  ia_timeout :: duration
  ia_labels :: "(string \<times> string) list"
  ia_wait :: bool
  ia_values :: jobject

record upgrade_action =
  ua_release_name :: string
  ua_namespace :: string
  ua_skip_crds :: bool
  ua_disable_hooks :: bool
  ua_atomic :: bool
  ua_timeout :: duration
  ua_labels :: "(string \<times> string) list"
  ua_wait :: bool
  ua_max_history :: int
  ua_values :: jobject

datatype helm_work =
    Work_install install_action "chart option"
  | Work_upgrade upgrade_action "chart option"
  | Work_uninstall string bool duration bool

definition run_install :: "helm_env \<Rightarrow> release_properties \<Rightarrow> install_action" where
  "run_install h p = \<lparr>ia_release_name = rm_name (rp_metadata p), ia_namespace = rm_namespace (rp_metadata p),
     ia_create_namespace = rp_create_namespace p, ia_skip_crds = rp_skip_crds p,
     ia_disable_hooks = rp_disable_hooks p, ia_atomic = rp_atomic p, ia_timeout = release_properties_timeout p,
     ia_labels = release_labels h p, ia_wait = False, ia_values = rp_values p\<rparr>"

definition run_upgrade :: "helm_env \<Rightarrow> release_properties \<Rightarrow> upgrade_action" where
  "run_upgrade h p = \<lparr>ua_release_name = rm_name (rp_metadata p), ua_namespace = rm_namespace (rp_metadata p),
     ua_skip_crds = rp_skip_crds p, ua_disable_hooks = rp_disable_hooks p, ua_atomic = rp_atomic p,
     ua_timeout = release_properties_timeout p, ua_labels = release_labels h p, ua_wait = False,
     ua_max_history = 10, ua_values = rp_values p\<rparr>"

text \<open>One event of the wait for Helm's record; the list is the schedule the select loop saw. Without a
  bridge there are no requests to serve, with one there is no timer of its own.\<close>

datatype await_event =
    Await_done "gerr option"
  | Await_tick "helm_release res"
  | Await_deadline
  | Await_context gerr
  | Await_request "gerr option"

fun await_recorded :: "string \<Rightarrow> int \<Rightarrow> await_event list \<Rightarrow> gerr option option" where
  "await_recorded name target [] = None"
| "await_recorded name target (Await_done err # evs) = Some err"
| "await_recorded name target (Await_tick storage # evs) =
     (case last_release name storage of
        Inl e \<Rightarrow> Some (Some e)
      | Inr (Some r) \<Rightarrow> if rel_version r \<ge> target then Some None else await_recorded name target evs
      | Inr None \<Rightarrow> await_recorded name target evs)"
| "await_recorded name target (Await_deadline # evs) =
     Some (Some (new_error (''helm did not record release '' @ quoted name @ '' at revision '' @ itoa target @
       '' within 1m0s'')))"
| "await_recorded name target (Await_context e # evs) = Some (Some e)"
| "await_recorded name target (Await_request err # evs) =
     (case err of Some e \<Rightarrow> Some (Some e) | None \<Rightarrow> await_recorded name target evs)"

subsection \<open>submit\<close>

text \<open>The plan, after an abandoned release has been recovered and re-read. The second component is the
  record a recovery wrote.\<close>

definition vanished :: "string \<Rightarrow> string \<Rightarrow> gerr" where
  "vanished ns name = new_error (release_label ns name @ '' vanished while being recovered'')"

definition submit_plan ::
  "helm_env \<Rightarrow> host \<Rightarrow> release_properties \<Rightarrow> bool \<Rightarrow>
   (helm_release option \<times> submit_action \<times> int) res \<times> helm_release option" where
  "submit_plan h ho props is_create =
     (let ns = rm_namespace (rp_metadata props); name = rm_name (rp_metadata props);
          plan = (\<lambda>current. plan_submit h (ho_digest ho) (ho_now ho 5) current is_create None (Some props)) in
      case last_release name (ho_storage ho 0) of
        Inl e \<Rightarrow> (Inl e, None)
      | Inr current \<Rightarrow>
          (case (current, plan current) of
             (Some r, (Action_recover, target)) \<Rightarrow>
               (case recover_abandoned h (manifest_complete (lk_built (ho_looks ho 0)) (lk_built_again (ho_looks ho 0)) r)
                       (lk_update (ho_looks ho 0)) r of
                  Inl e \<Rightarrow> (Inl e, None)
                | Inr (st, written) \<Rightarrow>
                    (case last_release name (ho_storage ho 1) of
                       Inl e \<Rightarrow> (Inl e, Some written)
                     | Inr None \<Rightarrow> (Inl (vanished ns name), Some written)
                     | Inr (Some r') \<Rightarrow> (Inr (Some r', plan (Some r')), Some written)))
           | (_, (action, target)) \<Rightarrow> (Inr (current, action, target), None)))"

text \<open>What the switch returns; \<open>None\<close> goes on to the chart. \<open>actionBlocked\<close> has no case.\<close>

definition submit_answer ::
  "helm_env \<Rightarrow> string \<Rightarrow> string \<Rightarrow> bool \<Rightarrow> helm_release option \<Rightarrow> submit_action \<Rightarrow> int \<Rightarrow> progress ret option" where
  "submit_answer h ns name is_create current action target =
     (let version = (case current of Some r \<Rightarrow> itoa (rel_version r) | None \<Rightarrow> []);
          status = (case current of Some r \<Rightarrow> status_text h r | None \<Rightarrow> []) in
      case action of
        Action_rejoin \<Rightarrow> Some (None, Some (new_error ''unexpected Helm rejoin after exclusive reservation''))
      | Action_settled \<Rightarrow>
          Some (Some ((empty_progress OpUnset StInProgress)\<lparr>pr_native_id := native_id_unless is_create ns name,
            pr_request_id := request_id ns name target (if is_create then Kind_install else Kind_upgrade),
            pr_message := release_label ns name @ '' is already at the desired state (revision '' @ version @
              ''); checking readiness''\<rparr>), None)
      | Action_retry \<Rightarrow>
          Some (Some ((empty_progress OpUnset StFailure)\<lparr>pr_code := ResourceConflict,
            pr_native_id := native_id_unless is_create ns name,
            pr_message := release_label ns name @ '' is '' @ status @
              '' from another operation; retrying once Helm releases the lock''\<rparr>), None)
      | Action_foreign \<Rightarrow>
          Some (None, Some (new_error (release_label ns name @ '' already exists at revision '' @ version @
            '' and was not created by formae: applying would overwrite that record and destroy its rollback history. '' @
            ''Adopt it first with `formae extract --query '' @ [CHR 0x27] @ ''type:'' @ resource_type_release @
            '' managed:false'' @ [CHR 0x27] @ ''`, '' @
            ''or choose a different metadata.name'')))
      | Action_recover \<Rightarrow> Some (None, Some (new_error (stalled_message h (the current) ns name)))
      | _ \<Rightarrow> None)"

text \<open>The chart, the checks of the contexts, the worker's own configuration.\<close>

definition submit_ready :: "host \<Rightarrow> helm_release option \<Rightarrow> release_properties \<Rightarrow> bool \<Rightarrow> chart option res" where
  "submit_ready ho current props bridged =
     (case choose_chart current props (ho_chart ho) of
        Inl e \<Rightarrow> Inl e
      | Inr chrt \<Rightarrow>
          (case ho_ctx ho 0 of
             Some e \<Rightarrow> Inl e
           | None \<Rightarrow>
               (case (if bridged then ho_bridge_config ho else None) of
                  Some e \<Rightarrow> Inl e
                | None \<Rightarrow>
                    (case ho_ctx ho 1 of
                       Some e \<Rightarrow> Inl e
                     | None \<Rightarrow> (case ho_run_ctx ho of Some e \<Rightarrow> Inl e | None \<Rightarrow> Inr chrt)))))"

record outcome =
  oc_result :: "progress ret"
  oc_registry :: registry
  oc_work :: "helm_work option"
  oc_written :: "helm_release option"

definition refused :: "progress ret \<Rightarrow> registry \<Rightarrow> outcome" where
  "refused res rg = \<lparr>oc_result = res, oc_registry = rg, oc_work = None, oc_written = None\<rparr>"

definition add_bridge :: "nat \<Rightarrow> auth_bridge option \<Rightarrow> registry \<Rightarrow> registry" where
  "add_bridge addr bridge rg =
     (case bridge of None \<Rightarrow> rg | Some b \<Rightarrow> rg\<lparr>rg_bridges := AList.update addr b (rg_bridges rg)\<rparr>)"

text \<open>The bridge of a worker, when OIDC asks for one.\<close>

definition worker_bridge :: "host \<Rightarrow> operation_info option \<Rightarrow> string \<Rightarrow> duration \<Rightarrow> instant \<Rightarrow> auth_bridge option res" where
  "worker_bridge ho info identity allowance deadline =
     (case info of
        None \<Rightarrow> Inr None
      | Some i \<Rightarrow> (case open_bridge ho i identity allowance deadline of Inl e \<Rightarrow> Inl e | Inr b \<Rightarrow> Inr (Some b)))"

text \<open>The activation, the worker, and the wait for the record it writes.\<close>

definition submit_launch ::
  "helm_env \<Rightarrow> host \<Rightarrow> release_properties \<Rightarrow> bool \<Rightarrow> string \<Rightarrow> flight \<Rightarrow> auth_bridge option \<Rightarrow> submit_action \<Rightarrow> int \<Rightarrow>
   chart option \<Rightarrow> helm_release option \<Rightarrow> registry \<Rightarrow> outcome" where
  "submit_launch h ho props is_create scope own bridge action target chrt written rg =
     (let ns = rm_namespace (rp_metadata props); name = rm_name (rp_metadata props);
          op = (if action = Action_upgrade then Kind_upgrade else Kind_install);
          work = (if op = Kind_install then Work_install (run_install h props) chrt
                  else Work_upgrade (run_upgrade h props) chrt) in
      case activate_flight scope ns name (fl_generation own) (ho_run_cancel ho)
          (publish (Publish_submit op target (map_option (\<lambda>_. ho_addr ho) bridge)) (ho_run_cancel ho)) rg of
        (None, rg) \<Rightarrow>
          (refused (None, Some context_canceled)
            (remove_owned_flight scope ns name (fl_generation own) rg))\<lparr>oc_written := written\<rparr>
      | (Some own, rg) \<Rightarrow>
          (let rg = ho_others ho 2 (add_bridge (ho_addr ho) bridge rg) in
           case ho_await ho of
             Some e \<Rightarrow>
               (case progress_after_flight_error scope ns name own is_create e (ho_now ho 6) rg of
                  (res, rg) \<Rightarrow> \<lparr>oc_result = res, oc_registry = rg, oc_work = Some work, oc_written = written\<rparr>)
           | None \<Rightarrow>
               \<lparr>oc_result = (Some ((empty_progress OpUnset StInProgress)
                   \<lparr>pr_native_id := native_id_unless is_create ns name,
                    pr_request_id := flight_request_id ns name own\<rparr>), None),
                oc_registry = rg, oc_work = Some work, oc_written = written\<rparr>))"

text \<open>With the flight reserved. Whatever returns before the worker starts removes the reservation.\<close>

definition submit_reserved ::
  "helm_env \<Rightarrow> host \<Rightarrow> release_properties \<Rightarrow> bool \<Rightarrow> operation_info option \<Rightarrow> string \<Rightarrow> string \<Rightarrow> flight \<Rightarrow> registry \<Rightarrow>
   outcome" where
  "submit_reserved h ho props is_create info identity scope own rg =
     (let ns = rm_namespace (rp_metadata props); name = rm_name (rp_metadata props);
          rg = ho_others ho 1 rg;
          gone = remove_owned_flight scope ns name (fl_generation own) rg in
      case worker_bridge ho info identity (release_properties_timeout props) (fl_deadline own) of
        Inl e \<Rightarrow> refused (None, Some e) gone
      | Inr bridge \<Rightarrow>
          (case ho_config ho of
             Some e \<Rightarrow> refused (None, Some e) gone
           | None \<Rightarrow>
               (case submit_plan h ho props is_create of
                  (Inl e, written) \<Rightarrow> (refused (None, Some e) gone)\<lparr>oc_written := written\<rparr>
                | (Inr (current, action, target), written) \<Rightarrow>
                    (case submit_answer h ns name is_create current action target of
                       Some res \<Rightarrow> (refused res gone)\<lparr>oc_written := written\<rparr>
                     | None \<Rightarrow>
                         (case submit_ready ho current props (bridge \<noteq> None) of
                            Inl e \<Rightarrow> (refused (None, Some e) gone)\<lparr>oc_written := written\<rparr>
                          | Inr chrt \<Rightarrow>
                              submit_launch h ho props is_create scope own bridge action target chrt written rg)))))"

definition submit_flight :: "host \<Rightarrow> release_properties \<Rightarrow> bool \<Rightarrow> string \<Rightarrow> string \<Rightarrow> flight" where
  "submit_flight ho props is_create identity binding =
     submit_candidate (if is_create then Kind_install else Kind_upgrade) (fingerprint (ho_digest ho) (Some props))
       identity binding (ho_uuid ho) (ho_cancel ho) (ho_now ho 0 + sint (release_properties_timeout props))"

definition submit :: "helm_env \<Rightarrow> host \<Rightarrow> release_properties \<Rightarrow> bool \<Rightarrow> registry \<Rightarrow> outcome" where
  "submit h ho props is_create rg =
     (let ns = rm_namespace (rp_metadata props); name = rm_name (rp_metadata props) in
      if ns = [] \<or> name = []
      then refused (None, Some (new_error (resource_type_release @ '': metadata.name and metadata.namespace are required''))) rg
      else (case entry_gate ho (release_properties_timeout props) of
         Inl e \<Rightarrow> refused (None, Some e) rg
       | Inr (info, identity, binding, scope) \<Rightarrow>
           (let candidate = submit_flight ho props is_create identity binding in
            case reserve_rejoin_flight scope ns name candidate (ho_now ho 0) rg of
              ((got, False), rg) \<Rightarrow>
                (case rejoin ho scope ns name got candidate is_create rg of (res, rg) \<Rightarrow> refused res rg)
            | ((got, True), rg) \<Rightarrow> submit_reserved h ho props is_create info identity scope (the got) rg)))"

definition with_operation :: "operation \<Rightarrow> outcome \<Rightarrow> outcome" where
  "with_operation oper oc = oc\<lparr>oc_result := (case oc_result oc of
       (res, Some e) \<Rightarrow> (None, Some e)
     | (res, None) \<Rightarrow> (map_option (\<lambda>pr. pr\<lparr>pr_operation := oper\<rparr>) res, None))\<rparr>"

definition release_create :: "helm_env \<Rightarrow> host \<Rightarrow> create_request \<Rightarrow> registry \<Rightarrow> outcome" where
  "release_create h ho req rg =
     (case decode_properties (cr_properties req) of
        Inl e \<Rightarrow> refused (None, Some e) rg
      | Inr props \<Rightarrow> with_operation OpCreate (submit h ho props True rg))"

definition release_update :: "helm_env \<Rightarrow> host \<Rightarrow> update_request \<Rightarrow> registry \<Rightarrow> outcome" where
  "release_update h ho req rg =
     (case decode_properties (up_desired req) of
        Inl e \<Rightarrow> refused (None, Some e) rg
      | Inr props \<Rightarrow> with_operation OpUpdate (submit h ho props False rg))"

subsection \<open>Delete\<close>

text \<open>The uninstall waits for the objects, keeps no history and has the release's own timeout.\<close>

definition uninstall_work :: "string \<Rightarrow> helm_release \<Rightarrow> helm_work" where
  "uninstall_work name r = Work_uninstall name True (release_timeout r) False"

definition delete_reserved ::
  "host \<Rightarrow> string \<Rightarrow> string \<Rightarrow> operation_info option \<Rightarrow> string \<Rightarrow> string \<Rightarrow> flight \<Rightarrow> registry \<Rightarrow> outcome" where
  "delete_reserved ho ns name info identity scope own rg =
     (let rg = ho_others ho 1 rg;
          gone = remove_owned_flight scope ns name (fl_generation own) rg in
      case ho_config ho of
        Some e \<Rightarrow> refused (None, Some e) gone
      | None \<Rightarrow>
          (case last_release name (ho_storage ho 0) of
             Inl e \<Rightarrow> refused (None, Some e) gone
           | Inr None \<Rightarrow> refused (Some (empty_progress OpDelete StSuccess), None) gone
           | Inr (Some r) \<Rightarrow>
               (case worker_bridge ho info identity (release_timeout r) (ho_now ho 5 + sint (release_timeout r)) of
                  Inl e \<Rightarrow> refused (None, Some e) gone
                | Inr bridge \<Rightarrow>
                    (case (if bridge = None then ho_ctx ho 0 else
                        case ho_bridge_config ho of Some e \<Rightarrow> Some e | None \<Rightarrow> ho_ctx ho 0) of
                       Some e \<Rightarrow> refused (None, Some e) gone
                     | None \<Rightarrow>
                         (case activate_flight scope ns name (fl_generation own) (ho_run_cancel ho)
                             (publish (Publish_delete (rel_version r) (map_option (\<lambda>_. ho_addr ho) bridge)
                                (ho_now ho 6 + sint (release_timeout r))) (ho_run_cancel ho)) rg of
                            (None, rg) \<Rightarrow>
                              refused (None, Some context_canceled) (remove_owned_flight scope ns name (fl_generation own) rg)
                          | (Some own, rg) \<Rightarrow>
                              \<lparr>oc_result = (Some ((empty_progress OpDelete StInProgress)\<lparr>pr_native_id := native_id ns name,
                                 pr_request_id := flight_request_id ns name own,
                                 pr_message := ''uninstalling '' @ release_label ns name\<rparr>), None),
                               oc_registry = add_bridge (ho_addr ho) bridge rg,
                               oc_work = Some (uninstall_work name r), oc_written = None\<rparr>)))))"

definition release_delete :: "host \<Rightarrow> delete_request \<Rightarrow> registry \<Rightarrow> outcome" where
  "release_delete ho req rg =
     (case parse_namespaced_native_id (de_native_id req) of
        Inl e \<Rightarrow> refused (None, Some (wrap_error (''invalid native id '' @ quoted (de_native_id req) @ '' for '' @ de_type req) e)) rg
      | Inr (ns, name) \<Rightarrow>
          (case entry_gate ho (seconds_duration default_timeout_seconds) of
             Inl e \<Rightarrow> refused (None, Some e) rg
           | Inr (info, identity, binding, scope) \<Rightarrow>
               (let candidate = delete_candidate identity binding (ho_uuid ho) (ho_cancel ho) in
                case reserve_rejoin_flight scope ns name candidate (ho_now ho 0) rg of
                  ((got, False), rg) \<Rightarrow>
                    (case rejoin ho scope ns name got candidate False rg of (res, rg) \<Rightarrow> refused res rg)
                | ((got, True), rg) \<Rightarrow> delete_reserved ho ns name info identity scope (the got) rg)))"

subsection \<open>Status\<close>

record status_key =
  sk_ns :: string
  sk_name :: string
  sk_revision :: int
  sk_op :: op_kind
  sk_reqid :: string
  sk_scope :: string
  sk_gen :: string

definition deadline_report :: "string \<Rightarrow> string \<Rightarrow> bool \<Rightarrow> progress" where
  "deadline_report ns name withhold =
     failure_result (native_id_unless withhold ns name) GeneralServiceException ''Helm action deadline exhausted''"

definition reconcile_key :: "status_key \<Rightarrow> progress option option \<Rightarrow> registry \<Rightarrow> progress ret \<times> registry" where
  "reconcile_key k result rg =
     (case reconcile_flight_result (sk_scope k) (sk_ns k) (sk_name k) (sk_gen k) (sk_reqid k) result rg of
        (res, rg) \<Rightarrow> ((case res of Some r \<Rightarrow> r | None \<Rightarrow> None, None), rg))"

text \<open>The cluster's part of the poll: the record, its verdict, and for a retained flight the
  reconciliation with the worker.\<close>

definition status_observe ::
  "helm_env \<Rightarrow> host \<Rightarrow> operation_info option \<Rightarrow> status_key \<Rightarrow> bool \<Rightarrow> flight option \<Rightarrow> registry \<Rightarrow>
   (progress ret comp \<times> registry) option" where
  "status_observe h ho info k recovery fl rg =
     (case ho_config ho of
        Some e \<Rightarrow> Some (Ret (None, Some e), rg)
      | None \<Rightarrow>
          (case last_release (sk_name k) (ho_storage ho 0) of
             Inl e \<Rightarrow> Some (Ret (None, Some e), rg)
           | Inr current \<Rightarrow>
               (case (case info of
                   Some i \<Rightarrow> if recovery \<and> release_is_pending h current
                             then validate_action_allowance i (release_timeout (the current)) else None
                 | None \<Rightarrow> None) of
                  Some e \<Rightarrow> Some (Ret (None, Some e), rg)
                | None \<Rightarrow>
                    (case (if sk_op k = Kind_delete
                           then Some (Ret (Some (delete_status h (ho_now ho 2) current fl (sk_ns k) (sk_name k) (sk_reqid k)), None))
                           else install_status h (ho_yaml ho) (ho_looks ho) 0 current fl (sk_ns k) (sk_name k) (sk_revision k)
                                  (sk_op k) (sk_reqid k)) of
                       None \<Rightarrow> None
                     | Some (Panic p) \<Rightarrow> Some (Panic p, rg)
                     | Some (Ret (res, err)) \<Rightarrow>
                         if \<not> recovery \<and> err = None
                         then (case reconcile_key k (Some res) (ho_others ho 1 rg) of (r, rg) \<Rightarrow> Some (Ret r, rg))
                         else Some (Ret (res, err), rg)))))"

text \<open>The zero value \<open>info\<close> keeps without OIDC.\<close>

definition no_operation_info :: operation_info where
  "no_operation_info = \<lparr>oi_binding_id = [], oi_call_timeout = 0, oi_poll_interval = 0, oi_retry_delay = 0,
     oi_throttle_max_delay = 0\<rparr>"

text \<open>The retained flight: a failure of the worker, the deadline, the service of its bridge.\<close>

definition status_matched ::
  "helm_env \<Rightarrow> host \<Rightarrow> operation_info option \<Rightarrow> status_key \<Rightarrow> flight \<Rightarrow> registry \<Rightarrow>
   (progress ret comp \<times> registry) option" where
  "status_matched h ho info k f rg =
     (let finish = (\<lambda>rg. case reconcile_key k None rg of (r, rg) \<Rightarrow> Some (Ret r, rg));
          observe = (\<lambda>fl rg. status_observe h ho info k False
             (case fl of Some f \<Rightarrow> if fl_finished f then None else Some f | None \<Rightarrow> None) rg) in
      if fl_finished f \<and> fl_outcome f \<noteq> None then finish rg
      else if \<not> fl_finished f \<and> deadline_passed (ho_now ho 1) f
      then Some (Ret (Some (deadline_report (sk_ns k) (sk_name k) (sk_op k = Kind_install)), None), call_cancel (fl_cancel f) rg)
      else (case (if fl_finished f then None else fl_bridge f) of
         None \<Rightarrow> observe (Some f) rg
       | Some addr \<Rightarrow>
           (case (case map_of (rg_bridges rg) addr of
               Some b \<Rightarrow> validate_action_allowance (case info of Some i \<Rightarrow> i | None \<Rightarrow> no_operation_info) (ab_allowance b)
             | None \<Rightarrow> None) of
              Some e \<Rightarrow> Some (Ret (None, Some e), rg)
            | None \<Rightarrow>
                (case ho_worker ho of
                   Some e \<Rightarrow> Some (Ret (None, Some e), rg)
                 | None \<Rightarrow>
                     (case service_registered ho addr (ho_others ho 0 rg) of
                        (err, rg) \<Rightarrow>
                          (case service_flight (sk_scope k) (sk_ns k) (sk_name k) f err rg of
                             (fresh, Some e) \<Rightarrow> Some (Ret (None, Some e), rg)
                           | (fresh, None) \<Rightarrow>
                               (case fresh of
                                  Some g \<Rightarrow> if fl_finished g \<and> fl_outcome g \<noteq> None then finish rg else observe fresh rg
                                | None \<Rightarrow> observe None rg)))))))"

text \<open>The two deferred functions, on an error and on the way out.\<close>

definition recover_transient ::
  "host \<Rightarrow> status_request \<Rightarrow> status_key option \<Rightarrow> progress option \<Rightarrow> progress ret comp \<Rightarrow> registry \<Rightarrow>
   progress ret comp \<times> registry" where
  "recover_transient ho req matched unidentified res rg =
     (case res of
        Panic p \<Rightarrow> (Panic p, rg)
      | Ret (r, err) \<Rightarrow>
          if \<not> is_flight_service_error err then (Ret (r, err), rg)
          else (case matched of
             None \<Rightarrow> (case unidentified of Some pr \<Rightarrow> (Ret (Some pr, None), rg) | None \<Rightarrow> (Ret (r, err), rg))
           | Some k \<Rightarrow>
               (case lookup_flight (sk_scope k) (sk_ns k) (sk_name k) rg of
                  None \<Rightarrow> (Ret (Some (flight_conflict (sk_ns k) (sk_name k)), None), rg)
                | Some f \<Rightarrow>
                    if fl_generation f \<noteq> sk_gen k
                    then (Ret (Some (flight_conflict (sk_ns k) (sk_name k)), None), rg)
                    else if \<not> fl_finished f \<and> deadline_passed (ho_now ho 3) f
                    then (Ret (Some (deadline_report (sk_ns k) (sk_name k) (fl_op f = Kind_install)), None),
                      call_cancel (fl_cancel f) rg)
                    else (case reconcile_key k (Some (Some (in_progress_result (st_native_id req) (st_request_id req) None
                             ''temporary Helm service failure; retrying status''))) rg of (r, rg) \<Rightarrow> (Ret r, rg)))))"

definition release_reader :: "status_key option \<Rightarrow> progress ret comp \<times> registry \<Rightarrow> progress ret comp \<times> registry" where
  "release_reader matched out =
     (case (matched, out) of
        (None, _) \<Rightarrow> out
      | (Some k, (res, rg)) \<Rightarrow> (res, release_status_flight (sk_scope k) (sk_ns k) (sk_name k) (sk_gen k) rg))"

definition status_identified ::
  "helm_env \<Rightarrow> host \<Rightarrow> status_request \<Rightarrow> operation_info option \<Rightarrow> string \<Rightarrow> string \<Rightarrow> status_key \<Rightarrow>
   (registry \<Rightarrow> progress option) \<Rightarrow> registry \<Rightarrow> (progress ret comp \<times> registry) option" where
  "status_identified h ho req info identity binding k unidentified rg =
     (let scope = sk_scope k; ns = sk_ns k; name = sk_name k;
          candidate = status_candidate (sk_op k) (sk_revision k) identity binding (ho_uuid ho) (ho_cancel ho) in
      case acquire_status_flight scope ns name (sk_gen k) candidate rg of
        ((got, True), rg) \<Rightarrow>
          (case status_observe h ho info k True None (ho_others ho 0 rg) of
             None \<Rightarrow> None
           | Some (res, rg) \<Rightarrow>
               (let rg = remove_owned_flight scope ns name (ho_uuid ho) rg in
                Some (recover_transient ho req None (unidentified rg) res rg)))
      | ((got, False), rg) \<Rightarrow>
          (case got of
             None \<Rightarrow> Some (Ret (Some (flight_conflict ns name), None), rg)
           | Some f \<Rightarrow>
               if \<not> matches_status f (sk_gen k) candidate
               then Some (Ret (Some (flight_conflict ns name), None), rg)
               else map_option (\<lambda>(res, rg). release_reader (Some k) (recover_transient ho req (Some k) None res rg))
                      (status_matched h ho info k f rg)))"

definition release_status :: "helm_env \<Rightarrow> host \<Rightarrow> status_request \<Rightarrow> registry \<Rightarrow> (progress ret comp \<times> registry) option" where
  "release_status h ho req rg =
     (case parse_request_id (ho_uuid_ok ho) (st_request_id req) of
        Inl e \<Rightarrow> Some (Ret (None, Some e), rg)
      | Inr (ns, name, revision, op) \<Rightarrow>
          (case callback_info ho of
             Inl e \<Rightarrow> Some (Ret (None, Some e), rg)
           | Inr info \<Rightarrow>
               (case flight_identity ho of
                  Inl e \<Rightarrow> Some (Ret (None, Some e), rg)
                | Inr (identity, binding) \<Rightarrow>
                    (case request_generation (ho_uuid_ok ho) (st_request_id req) of
                       Inl e \<Rightarrow> Some (Ret (None, Some e), rg)
                     | Inr gen \<Rightarrow>
                         (let unidentified = (\<lambda>rg. Some (observe_unidentified_flight ns name revision op gen identity
                                binding (st_request_id req) (ho_now ho 4) rg)) in
                          case resolve_flight_scope (ho_kube_system ho) of
                            Inl e \<Rightarrow> Some (recover_transient ho req None (unidentified rg) (Ret (None, Some e)) rg)
                          | Inr scope \<Rightarrow>
                              status_identified h ho req info identity binding
                                \<lparr>sk_ns = ns, sk_name = name, sk_revision = revision, sk_op = op,
                                 sk_reqid = st_request_id req, sk_scope = scope, sk_gen = gen\<rparr> unidentified rg)))))"

subsection \<open>A host\<close>

definition no_record :: gerr where
  "no_record = sentinel_error ErrReleaseNotFound ''release: not found''"

text \<open>No OIDC, no release yet, everything answers at once.\<close>

definition sample_host :: host where
  "sample_host = \<lparr>ho_oidc = False, ho_info = None, ho_identity = Inr ''id'', ho_kube_system = Inr ''u1'', ho_uuid = ''g1'',
     ho_uuid_ok = (\<lambda>g. g = ''g1''), ho_now = (\<lambda>n. 0), ho_worker = None, ho_done = None, ho_minted = Inl no_record,
     ho_config = None, ho_bridge_config = None, ho_storage = (\<lambda>n. Inl no_record), ho_looks = (\<lambda>n. sample_look),
     ho_chart = Inr \<lparr>ch_metadata = None, ch_dependencies = 0\<rparr>, ho_ctx = (\<lambda>n. None), ho_run_ctx = None, ho_await = None,
     ho_digest = (\<lambda>j. ''d''), ho_yaml = sample_yaml, ho_cancel = 1, ho_run_cancel = 2, ho_addr = 0,
     ho_others = (\<lambda>n rg. rg)\<rparr>"

lemma sample_submit:
  "map_option (\<lambda>w. case w of Work_install ia c \<Rightarrow> ia_release_name ia | _ \<Rightarrow> [])
     (oc_work (submit sample_helm sample_host sample_properties True empty_registry)) = Some ''podinfo''"
  by code_simp

end
