(* ===== verification/Release_Refinement.thy ===== *)
theory Release_Refinement
  imports Release_Ops
begin

text \<open>
  The handlers of \<open>Release_Ops\<close> refine the state machine of \<open>Flights\<close>: whatever the rest of the process
  does meanwhile, as long as that is itself a run of the machine and leaves the call's own reservation
  and reader alone, what a whole submit, Delete or Status does to the registry is a run of the machine.
  So the machine's invariants hold around every handler.
\<close>

definition scope_key :: "string \<Rightarrow> string \<Rightarrow> string \<Rightarrow> string" where
  "scope_key scope ns name = scope @ ''|'' @ native_id ns name"

lemma at_key_scope: "scope \<noteq> [] \<Longrightarrow> at_key scope ns name missing act = act (scope_key scope ns name)"
  by (simp add: at_key_def flight_key_def scope_key_def)

lemma resolved_scope: "resolve_flight_scope u = Inr scope \<Longrightarrow> scope \<noteq> []"
  by (auto simp: resolve_flight_scope_def split: sum.splits if_splits)

text \<open>What a call holds while it works: nothing, its reservation, its recovery, a reader it retained.\<close>

datatype token = No_token | Preparing | Recovering | Reader string

fun holds :: "token \<Rightarrow> string \<Rightarrow> string \<Rightarrow> flight_sys \<Rightarrow> bool" where
  "holds No_token key gen s = True"
| "holds Preparing key gen s = (gen \<in> fs_preparing s key)"
| "holds Recovering key gen s = (gen \<in> fs_recovering s key)"
| "holds (Reader g) key gen s = (g \<in># fs_readers s key)"

lemma holds_registry [simp]: "holds tok key gen (s\<lparr>fs_registry := rg\<rparr>) = holds tok key gen s"
  by (cases tok) simp_all

text \<open>What the others may do around a call that works on \<open>key\<close>.\<close>

definition others_behave :: "host \<Rightarrow> string \<Rightarrow> bool" where
  "others_behave ho key \<longleftrightarrow> (\<forall>i s. flight_reachable s \<longrightarrow>
     (\<exists>es s'. flight_run s es s' \<and> fs_registry s' = ho_others ho i (fs_registry s) \<and>
        (\<forall>tok. holds tok key (ho_uuid ho) s \<longrightarrow> holds tok key (ho_uuid ho) s') \<and>
        Activated key (ho_uuid ho) \<notin> set es))"

text \<open>A run to a registry that keeps the token, with or without the start of the call's worker.\<close>

definition runs_to :: "host \<Rightarrow> string \<Rightarrow> token \<Rightarrow> flight_sys \<Rightarrow> bool \<Rightarrow> registry \<Rightarrow> bool" where
  "runs_to ho key tok s started rg \<longleftrightarrow>
     (\<exists>es s'. flight_run s es s' \<and> fs_registry s' = rg \<and> holds tok key (ho_uuid ho) s' \<and>
        (Activated key (ho_uuid ho) \<in> set es \<longleftrightarrow> started))"

lemma flight_run_append: "flight_run s es s' \<Longrightarrow> flight_run s' es' s'' \<Longrightarrow> flight_run s (es @ es') s''"
  by (induction rule: flight_run.induct) (auto intro: run_cons)

lemma flight_run_reachable: "flight_run s es s' \<Longrightarrow> flight_reachable s \<Longrightarrow> flight_reachable s'"
  by (induction rule: flight_run.induct) (auto intro: flight_next)

lemma runs_to_refl: "fs_registry s = rg \<Longrightarrow> holds tok key (ho_uuid ho) s \<Longrightarrow> runs_to ho key tok s False rg"
  by (auto simp: runs_to_def intro!: exI [of _ "[]"] run_nil)

lemma runs_to_then:
  assumes "runs_to ho key tok s started rg" "flight_reachable s"
    and "\<And>s'. flight_reachable s' \<Longrightarrow> fs_registry s' = rg \<Longrightarrow> holds tok key (ho_uuid ho) s' \<Longrightarrow>
      runs_to ho key tok' s' started' rg'"
  shows "runs_to ho key tok' s (started \<or> started') rg'"
proof -
  obtain es s' where one: "flight_run s es s'" "fs_registry s' = rg" "holds tok key (ho_uuid ho) s'"
      "Activated key (ho_uuid ho) \<in> set es \<longleftrightarrow> started"
    using assms(1) by (auto simp: runs_to_def)
  from assms(3) [OF flight_run_reachable [OF one(1) assms(2)] one(2,3)]
  obtain es' s'' where "flight_run s' es' s''" "fs_registry s'' = rg'" "holds tok' key (ho_uuid ho) s''"
      "Activated key (ho_uuid ho) \<in> set es' \<longleftrightarrow> started'"
    by (auto simp: runs_to_def)
  then show ?thesis
    unfolding runs_to_def
    by (intro exI [of _ "es @ es'"] exI [of _ s'']) (use one flight_run_append [OF one(1)] in auto)
qed

lemma runs_to_later:
  assumes "runs_to ho key tok s False rg" "flight_reachable s"
    and "\<And>s'. flight_reachable s' \<Longrightarrow> fs_registry s' = rg \<Longrightarrow> holds tok key (ho_uuid ho) s' \<Longrightarrow>
      runs_to ho key tok' s' started rg'"
  shows "runs_to ho key tok' s started rg'"
  using runs_to_then [OF assms] by simp

lemma runs_to_step:
  assumes "flight_step s e s'" "fs_registry s' = rg" "holds tok key (ho_uuid ho) s'"
    and "started \<longleftrightarrow> e = Activated key (ho_uuid ho)"
  shows "runs_to ho key tok s started rg"
  unfolding runs_to_def
  by (intro exI [of _ "[e]"] exI [of _ s']) (use assms in \<open>auto intro: run_cons run_nil\<close>)

lemma runs_to_others:
  assumes "others_behave ho key" "flight_reachable s" "holds tok key (ho_uuid ho) s"
  shows "runs_to ho key tok s False (ho_others ho i (fs_registry s))"
proof -
  have "\<exists>es s'. flight_run s es s' \<and> fs_registry s' = ho_others ho i (fs_registry s) \<and>
        (\<forall>tok. holds tok key (ho_uuid ho) s \<longrightarrow> holds tok key (ho_uuid ho) s') \<and>
        Activated key (ho_uuid ho) \<notin> set es"
    using assms(1,2) unfolding others_behave_def by simp
  then show ?thesis using assms(3) unfolding runs_to_def by blast
qed

lemma runs_to_weaken: "runs_to ho key tok s started rg \<Longrightarrow> runs_to ho key No_token s started rg"
  by (auto simp: runs_to_def)

text \<open>Services and cancel calls.\<close>

definition outside_of :: "registry \<Rightarrow> registry \<Rightarrow> bool" where
  "outside_of rg rg' \<longleftrightarrow> rg_flights rg' = rg_flights rg \<and> rg_drains rg' = rg_drains rg"

lemma outside_eq: "outside_of rg rg' \<Longrightarrow> rg\<lparr>rg_bridges := rg_bridges rg', rg_cancelled := rg_cancelled rg'\<rparr> = rg'"
  by (cases rg, cases rg') (simp add: outside_of_def)

lemma runs_to_outside:
  assumes "outside_of (fs_registry s) rg" "holds tok key (ho_uuid ho) s"
  shows "runs_to ho key tok s False rg"
proof -
  have "flight_step s Outside (s\<lparr>fs_registry := rg\<rparr>)"
    using fs_outside [of s "rg_cancelled rg" "rg_bridges rg"] assms(1) by (simp add: outside_eq)
  then show ?thesis by (rule runs_to_step) (use assms(2) in simp_all)
qed

lemma outside_intros:
  "outside_of rg (call_cancel c rg)" "outside_of rg (add_bridge a b rg)"
  "service_registered ho a rg = (err, rg') \<Longrightarrow> outside_of rg rg'"
  by (auto simp: outside_of_def call_cancel_def add_bridge_def service_registered_def split: option.splits prod.splits)

subsection \<open>The sections a handler calls\<close>

lemma progress_after_runs:
  assumes "scope \<noteq> []" "key = scope_key scope ns name" "holds tok key (ho_uuid ho) s"
  shows "runs_to ho key tok s False (snd (progress_after_flight_error scope ns name own c e now (fs_registry s)))"
proof -
  let ?rg = "fs_registry s"
  let ?out = "snd (progress_after_flight_error scope ns name own c e now ?rg)"
  have "?out = ?rg \<or> (\<exists>gen out. ?out = consume_synchronous_at key gen out ?rg) \<or> (\<exists>h. ?out = call_cancel h ?rg)"
    using assms(1,2)
    by (auto simp: progress_after_flight_error_def consume_synchronous_failure_def at_key_scope split: option.split)
  then consider "?out = ?rg" | gen out where "?out = consume_synchronous_at key gen out ?rg" | h where "?out = call_cancel h ?rg"
    by blast
  then show ?thesis
  proof cases
    case 2
    show ?thesis
      unfolding 2 by (rule runs_to_step [OF fs_consume]) (use assms(3) in simp_all)
  qed (use assms(3) outside_intros(1) in \<open>auto intro: runs_to_refl runs_to_outside\<close>)
qed

lemma abandon_runs:
  assumes "scope \<noteq> []" "key = scope_key scope ns name"
    and "holds Preparing key (ho_uuid ho) s \<or> holds Recovering key (ho_uuid ho) s"
  shows "runs_to ho key No_token s False (remove_owned_flight scope ns name (ho_uuid ho) (fs_registry s))"
proof -
  have "ho_uuid ho \<in> fs_preparing s key \<union> fs_recovering s key" using assms(3) by auto
  from fs_abandon [OF this] show ?thesis
    by (rule runs_to_step) (use assms(1,2) in \<open>simp_all add: remove_owned_flight_def at_key_scope\<close>)
qed

lemma release_runs:
  assumes "scope \<noteq> []" "key = scope_key scope ns name" "holds (Reader gen) key (ho_uuid ho) s"
  shows "runs_to ho key No_token s False (release_status_flight scope ns name gen (fs_registry s))"
proof -
  have "gen \<in># fs_readers s key" using assms(3) by simp
  from fs_release [OF this] show ?thesis
    by (rule runs_to_step) (use assms(1,2) in \<open>simp_all add: release_status_flight_def at_key_scope\<close>)
qed

lemma reconcile_runs:
  assumes "sk_scope k \<noteq> []" "key = scope_key (sk_scope k) (sk_ns k) (sk_name k)" "holds (Reader (sk_gen k)) key (ho_uuid ho) s"
  shows "runs_to ho key (Reader (sk_gen k)) s False (snd (reconcile_key k result (fs_registry s)))"
proof -
  have "sk_gen k \<in># fs_readers s key" using assms(3) by simp
  from fs_reconcile [OF this, of "sk_ns k" "sk_name k" "sk_reqid k" result] show ?thesis
    by (rule runs_to_step)
      (use assms in \<open>simp_all add: reconcile_key_def reconcile_flight_result_def at_key_scope split: prod.split\<close>)
qed

lemma reserve_runs:
  assumes "scope \<noteq> []" "key = scope_key scope ns name" "new_candidate f" "fl_generation f = ho_uuid ho"
    and "ho_uuid ho \<notin> fs_used s" "reserve_rejoin_flight scope ns name f now (fs_registry s) = ((got, fresh), rg)"
  shows "fresh \<Longrightarrow> runs_to ho key Preparing s False rg \<and> (\<exists>own. got = Some own \<and> fl_generation own = ho_uuid ho)"
    and "\<not> fresh \<Longrightarrow> runs_to ho key No_token s False rg"
    and "\<not> fresh \<Longrightarrow> got = Some own \<Longrightarrow> matches_rejoin own f \<Longrightarrow> runs_to ho key (Reader (fl_generation own)) s False rg"
proof -
  have "fl_generation f \<notin> fs_used s" using assms(4,5) by simp
  have got: "reserve_flight_matching key f (\<lambda>e. matches_rejoin e f) now (fs_registry s) = ((got, fresh), rg)"
    using assms(1,2,6) by (simp add: reserve_rejoin_flight_def at_key_scope)
  note step = fs_reserve [OF assms(3) \<open>fl_generation f \<notin> fs_used s\<close> got]
  show "runs_to ho key Preparing s False rg \<and> (\<exists>own. got = Some own \<and> fl_generation own = ho_uuid ho)" if fresh
  proof
    show "runs_to ho key Preparing s False rg"
      by (rule runs_to_step [OF step]) (use that assms(4) in simp_all)
    show "\<exists>own. got = Some own \<and> fl_generation own = ho_uuid ho"
      by (rule reserve_entry [OF got]) (use that assms(4) in auto)
  qed
  show "runs_to ho key No_token s False rg" if "\<not> fresh"
    by (rule runs_to_step [OF step]) simp_all
  show "runs_to ho key (Reader (fl_generation own)) s False rg" if "\<not> fresh" "got = Some own" "matches_rejoin own f"
    by (rule runs_to_step [OF step]) (use that in simp_all)
qed

lemma activate_runs:
  assumes "scope \<noteq> []" "key = scope_key scope ns name" "holds Preparing key (ho_uuid ho) s"
    and "activate_flight scope ns name (ho_uuid ho) c (publish p c) (fs_registry s) = (got, rg)"
  shows "got = None \<Longrightarrow> rg = fs_registry s" and "got = Some f \<Longrightarrow> runs_to ho key No_token s True rg"
proof -
  have act: "activate_flight_at key (ho_uuid ho) c (publish p c) (fs_registry s) = (got, rg)"
    using assms(1,2,4) by (simp add: activate_flight_def at_key_scope)
  show "got = None \<Longrightarrow> rg = fs_registry s" using activate_fails act by blast
  have prep: "ho_uuid ho \<in> fs_preparing s key" using assms(3) by simp
  show "got = Some f \<Longrightarrow> runs_to ho key No_token s True rg"
    using act by (auto intro!: runs_to_step [OF fs_activate [OF prep]])
qed

subsection \<open>Rejoining\<close>

lemma rejoin_body_runs:
  assumes "scope \<noteq> []" "key = scope_key scope ns name" "others_behave ho key" "flight_reachable s"
    and "holds tok key (ho_uuid ho) s"
  shows "runs_to ho key tok s False (snd (rejoin_body ho scope ns name own c (fs_registry s)))"
proof (cases "if fl_finished own then None else fl_bridge own")
  case None
  then show ?thesis using assms(5) by (simp add: rejoin_body_def runs_to_refl)
next
  case (Some addr)
  let ?rg = "ho_others ho 0 (fs_registry s)"
  note others = runs_to_later [OF runs_to_others [OF assms(3,4,5), of 0] assms(4)]
  show ?thesis
  proof (cases "ho_worker ho")
    case (Some e)
    show ?thesis
    proof (rule others)
      fix s' assume s': "fs_registry s' = ?rg" "holds tok key (ho_uuid ho) s'"
      show "runs_to ho key tok s' False (snd (rejoin_body ho scope ns name own c (fs_registry s)))"
        using progress_after_runs [OF assms(1,2) s'(2)] \<open>(if fl_finished own then None else fl_bridge own) = Some addr\<close> Some
        by (simp add: rejoin_body_def s'(1))
    qed
  next
    case None
    obtain err rg where serve: "service_registered ho addr ?rg = (err, rg)" by fastforce
    show ?thesis
    proof (rule others)
      fix s' assume s': "flight_reachable s'" "fs_registry s' = ?rg" "holds tok key (ho_uuid ho) s'"
      have out: "runs_to ho key tok s' False rg"
        by (rule runs_to_outside) (use outside_intros(3) [OF serve] s' in simp_all)
      show "runs_to ho key tok s' False (snd (rejoin_body ho scope ns name own c (fs_registry s)))"
      proof (rule runs_to_later [OF out s'(1)])
        fix s'' assume s'': "fs_registry s'' = rg" "holds tok key (ho_uuid ho) s''"
        obtain fresh late where srv: "service_flight scope ns name own err rg = (fresh, late)" by fastforce
        have body: "snd (rejoin_body ho scope ns name own c (fs_registry s)) =
            (case late of Some e \<Rightarrow> snd (progress_after_flight_error scope ns name own c e (ho_now ho 4) rg) | None \<Rightarrow> rg)"
          using \<open>(if fl_finished own then None else fl_bridge own) = Some addr\<close> None serve srv
          by (simp add: rejoin_body_def split: option.split)
        show "runs_to ho key tok s'' False (snd (rejoin_body ho scope ns name own c (fs_registry s)))"
        proof (cases late)
          case None
          then show ?thesis unfolding body using runs_to_refl [OF s''] by simp
        next
          case (Some e)
          show ?thesis
            unfolding body Some option.case
            using progress_after_runs [OF assms(1,2) s''(2), of own c e "ho_now ho 4"] unfolding s''(1) .
        qed
      qed
    qed
  qed
qed

lemma rejoin_runs:
  assumes "scope \<noteq> []" "key = scope_key scope ns name" "others_behave ho key" "flight_reachable s"
    and "new_candidate f" "fl_generation f = ho_uuid ho" "ho_uuid ho \<notin> fs_used s"
    and "reserve_rejoin_flight scope ns name f now (fs_registry s) = ((got, False), rg)"
  shows "runs_to ho key No_token s False (snd (rejoin ho scope ns name got f c rg))"
proof (cases "\<exists>own. got = Some own \<and> matches_rejoin own f")
  case True
  then obtain own where own: "got = Some own" "matches_rejoin own f" by blast
  let ?tok = "Reader (fl_generation own)"
  have "runs_to ho key ?tok s False rg"
    using reserve_runs(3) [OF assms(1,2,5-8)] own by simp
  then have body: "runs_to ho key ?tok s False (snd (rejoin_body ho scope ns name own c rg))"
  proof (rule runs_to_later [OF _ assms(4)])
    fix s' assume s': "flight_reachable s'" "fs_registry s' = rg" "holds ?tok key (ho_uuid ho) s'"
    show "runs_to ho key ?tok s' False (snd (rejoin_body ho scope ns name own c rg))"
      using rejoin_body_runs [OF assms(1-3) s'(1,3), of own c] unfolding s'(2) .
  qed
  have "runs_to ho key No_token s False (release_status_flight scope ns name (fl_generation own)
      (snd (rejoin_body ho scope ns name own c rg)))"
  proof (rule runs_to_later [OF body assms(4)])
    fix s' assume s': "fs_registry s' = snd (rejoin_body ho scope ns name own c rg)" "holds ?tok key (ho_uuid ho) s'"
    show "runs_to ho key No_token s' False (release_status_flight scope ns name (fl_generation own)
        (snd (rejoin_body ho scope ns name own c rg)))"
      using release_runs [OF assms(1,2) s'(2)] unfolding s'(1) .
  qed
  then show ?thesis using own by (cases "rejoin_body ho scope ns name own c rg") (simp add: rejoin_def)
next
  case False
  then show ?thesis
    using reserve_runs(2) [OF assms(1,2,5-8)] by (auto simp: rejoin_def split: option.splits)
qed

subsection \<open>Whole calls\<close>

text \<open>The run of an outcome: its registry, with the call's worker started exactly when work is handed over.\<close>

definition outcome_runs :: "host \<Rightarrow> string \<Rightarrow> flight_sys \<Rightarrow> outcome \<Rightarrow> bool" where
  "outcome_runs ho key s oc \<longleftrightarrow> runs_to ho key No_token s (oc_work oc \<noteq> None) (oc_registry oc)"

lemma refused_runs:
  "runs_to ho key No_token s False rg \<Longrightarrow> outcome_runs ho key s (refused res rg)"
  "runs_to ho key No_token s False rg \<Longrightarrow> outcome_runs ho key s ((refused res rg)\<lparr>oc_written := w\<rparr>)"
  by (simp_all add: outcome_runs_def refused_def)

lemma activated_outcome_runs:
  assumes "scope \<noteq> []" "key = scope_key scope ns name" "others_behave ho key" "flight_reachable s"
    and started: "runs_to ho key No_token s True rg"
    and oc: "oc_work oc \<noteq> None" "oc_registry oc =
      (case ho_await ho of Some e \<Rightarrow> snd (progress_after_flight_error scope ns name own c e (ho_now ho 6)
           (ho_others ho 2 (add_bridge a b rg)))
       | None \<Rightarrow> ho_others ho 2 (add_bridge a b rg))"
  shows "outcome_runs ho key s oc"
proof -
  have bridge: "runs_to ho key No_token s' False (add_bridge a b rg)" if "fs_registry s' = rg" for s'
    by (rule runs_to_outside) (use outside_intros(2) that in simp_all)
  have others: "runs_to ho key No_token s' False (ho_others ho 2 (add_bridge a b rg))"
    if "fs_registry s' = rg" "flight_reachable s'" for s'
  proof (rule runs_to_later [OF bridge [OF that(1)] that(2)])
    fix s'' assume "flight_reachable s''" "fs_registry s'' = add_bridge a b rg"
    then show "runs_to ho key No_token s'' False (ho_others ho 2 (add_bridge a b rg))"
      using runs_to_others [OF assms(3), of s'' No_token 2] by simp
  qed
  have last: "runs_to ho key No_token s' False (oc_registry oc)" if "fs_registry s' = rg" "flight_reachable s'" for s'
  proof (rule runs_to_later [OF others [OF that] that(2)])
    fix s'' assume s'': "fs_registry s'' = ho_others ho 2 (add_bridge a b rg)" "holds No_token key (ho_uuid ho) s''"
    show "runs_to ho key No_token s'' False (oc_registry oc)"
    proof (cases "ho_await ho")
      case None
      show ?thesis unfolding oc(2) None option.case by (rule runs_to_refl [OF s''])
    next
      case (Some e)
      show ?thesis
        unfolding oc(2) Some option.case using progress_after_runs [OF assms(1,2) s''(2)] unfolding s''(1) .
    qed
  qed
  have "runs_to ho key No_token s (True \<or> False) (oc_registry oc)"
    by (rule runs_to_then [OF started assms(4)]) (rule last)
  then show ?thesis using oc(1) by (simp add: outcome_runs_def)
qed

lemma outcome_runs_later:
  assumes "runs_to ho key tok s False rg" "flight_reachable s"
    and "\<And>s'. flight_reachable s' \<Longrightarrow> fs_registry s' = rg \<Longrightarrow> holds tok key (ho_uuid ho) s' \<Longrightarrow>
      outcome_runs ho key s' oc"
  shows "outcome_runs ho key s oc"
  using runs_to_later [OF assms(1,2)] assms(3) unfolding outcome_runs_def by blast

lemma outcome_runs_cases:
  "(\<And>e. x = Inl e \<Longrightarrow> outcome_runs ho key s (f e)) \<Longrightarrow> (\<And>y. x = Inr y \<Longrightarrow> outcome_runs ho key s (g y)) \<Longrightarrow>
   outcome_runs ho key s (case x of Inl e \<Rightarrow> f e | Inr y \<Rightarrow> g y)"
  "(oo = None \<Longrightarrow> outcome_runs ho key s n) \<Longrightarrow> (\<And>y. oo = Some y \<Longrightarrow> outcome_runs ho key s (m y)) \<Longrightarrow>
   outcome_runs ho key s (case oo of None \<Rightarrow> n | Some y \<Rightarrow> m y)"
  "(\<And>a b. p = (a, b) \<Longrightarrow> outcome_runs ho key s (q a b)) \<Longrightarrow> outcome_runs ho key s (case p of (a, b) \<Rightarrow> q a b)"
  by (auto split: sum.split option.split prod.split)

lemma submit_launch_runs:
  assumes "scope \<noteq> []" "key = scope_key scope (rm_namespace (rp_metadata props)) (rm_name (rp_metadata props))"
    and "others_behave ho key" "flight_reachable s" "holds Preparing key (ho_uuid ho) s" "fl_generation own = ho_uuid ho"
  shows "outcome_runs ho key s (submit_launch h ho props c scope own bridge action target chrt written (fs_registry s))"
proof -
  let ?ns = "rm_namespace (rp_metadata props)" and ?name = "rm_name (rp_metadata props)"
  let ?op = "if action = Action_upgrade then Kind_upgrade else Kind_install"
  obtain got rg where act: "activate_flight scope ?ns ?name (ho_uuid ho) (ho_run_cancel ho)
      (publish (Publish_submit ?op target (map_option (\<lambda>_. ho_addr ho) bridge)) (ho_run_cancel ho))
      (fs_registry s) = (got, rg)" by fastforce
  note runs = activate_runs [OF assms(1,2,5) act]
  show ?thesis
  proof (cases got)
    case None
    then have "runs_to ho key No_token s False (remove_owned_flight scope ?ns ?name (ho_uuid ho) rg)"
      using runs(1) abandon_runs [OF assms(1,2)] assms(5) by simp
    from refused_runs(2) [OF this] show ?thesis
      using act None by (simp add: submit_launch_def Let_def assms(6) del: publish.simps)
  next
    case (Some f)
    show ?thesis
      by (rule activated_outcome_runs [OF assms(1-4) runs(2) [OF Some], where own = f and a = "ho_addr ho" and b = bridge
            and c = c])
        (use act Some in \<open>simp_all add: submit_launch_def Let_def assms(6) del: publish.simps split: option.split prod.split\<close>)
  qed
qed

lemma submit_reserved_runs:
  assumes "scope \<noteq> []" "key = scope_key scope (rm_namespace (rp_metadata props)) (rm_name (rp_metadata props))"
    and "others_behave ho key" "flight_reachable s" "holds Preparing key (ho_uuid ho) s" "fl_generation own = ho_uuid ho"
  shows "outcome_runs ho key s (submit_reserved h ho props c info identity scope own (fs_registry s))"
proof (rule outcome_runs_later [OF runs_to_others [OF assms(3-5), of 1] assms(4)])
  fix s' assume s': "flight_reachable s'" "fs_registry s' = ho_others ho 1 (fs_registry s)"
    "holds Preparing key (ho_uuid ho) s'"
  let ?ns = "rm_namespace (rp_metadata props)" and ?name = "rm_name (rp_metadata props)"
  let ?gone = "remove_owned_flight scope ?ns ?name (ho_uuid ho) (fs_registry s')"
  have gone: "runs_to ho key No_token s' False ?gone"
    using abandon_runs [OF assms(1,2)] s'(3) by blast
  have launch: "outcome_runs ho key s' (submit_launch h ho props c scope own bridge action target chrt written (fs_registry s'))"
    for bridge action target chrt written
    by (rule submit_launch_runs [OF assms(1-3) s'(1,3) assms(6)])
  show "outcome_runs ho key s' (submit_reserved h ho props c info identity scope own (fs_registry s))"
    unfolding submit_reserved_def Let_def s'(2) [symmetric] assms(6)
    by (intro outcome_runs_cases refused_runs [OF gone] launch)
qed

text \<open>The key a call works on.\<close>

definition call_key :: "host \<Rightarrow> string \<Rightarrow> string \<Rightarrow> string" where
  "call_key ho ns name =
     (case resolve_flight_scope (ho_kube_system ho) of Inr scope \<Rightarrow> scope_key scope ns name | Inl _ \<Rightarrow> [])"

lemma entry_gate_scope:
  "entry_gate ho allowance = Inr (info, identity, binding, scope) \<Longrightarrow> resolve_flight_scope (ho_kube_system ho) = Inr scope"
  by (auto simp: entry_gate_def split: sum.splits option.splits prod.splits)

lemma submit_flight_simps:
  "new_candidate (submit_flight ho props c identity binding)" "fl_generation (submit_flight ho props c identity binding) = ho_uuid ho"
  by (simp_all add: submit_flight_def candidates_new) (simp add: submit_candidate_def)

lemma delete_candidate_generation: "fl_generation (delete_candidate identity binding gen c) = gen"
  by (simp add: delete_candidate_def submit_candidate_def)

lemma submit_runs:
  assumes "flight_reachable s" "ho_uuid ho \<notin> fs_used s"
    and "others_behave ho (call_key ho (rm_namespace (rp_metadata props)) (rm_name (rp_metadata props)))"
  shows "outcome_runs ho (call_key ho (rm_namespace (rp_metadata props)) (rm_name (rp_metadata props))) s
    (submit h ho props c (fs_registry s))"
proof -
  let ?ns = "rm_namespace (rp_metadata props)" and ?name = "rm_name (rp_metadata props)"
  let ?key = "call_key ho ?ns ?name"
  have idle: "runs_to ho ?key No_token s False (fs_registry s)" by (rule runs_to_refl) simp_all
  show ?thesis
  proof (cases "entry_gate ho (release_properties_timeout props)")
    case (Inl e)
    then show ?thesis using refused_runs(1) [OF idle] by (simp add: submit_def Let_def)
  next
    case (Inr g)
    obtain info identity binding scope where g: "g = (info, identity, binding, scope)" by (cases g)
    note gate = Inr [unfolded g]
    have scope: "scope \<noteq> []" and key: "?key = scope_key scope ?ns ?name"
      using entry_gate_scope [OF gate] resolved_scope by (auto simp: call_key_def)
    let ?f = "submit_flight ho props c identity binding"
    obtain got fresh rg where res: "reserve_rejoin_flight scope ?ns ?name ?f (ho_now ho 0) (fs_registry s) = ((got, fresh), rg)"
      by (metis surj_pair)
    note reserved = reserve_runs [OF scope key submit_flight_simps assms(2) res]
    show ?thesis
    proof (cases "?ns = [] \<or> ?name = []")
      case True
      then show ?thesis using refused_runs(1) [OF idle] by (simp add: submit_def Let_def)
    next
      case named: False
      show ?thesis
      proof (cases fresh)
        case True
        obtain own where own: "got = Some own" "fl_generation own = ho_uuid ho" using reserved(1) [OF True] by blast
        have "outcome_runs ho ?key s (submit_reserved h ho props c info identity scope own rg)"
        proof (rule outcome_runs_later [OF conjunct1 [OF reserved(1) [OF True]] assms(1)])
          fix s' assume s': "flight_reachable s'" "fs_registry s' = rg" "holds Preparing ?key (ho_uuid ho) s'"
          show "outcome_runs ho ?key s' (submit_reserved h ho props c info identity scope own rg)"
            using submit_reserved_runs [OF scope key assms(3) s'(1,3) own(2)] unfolding s'(2) .
        qed
        then show ?thesis using gate named res True own by (simp add: submit_def Let_def)
      next
        case False
        have "runs_to ho ?key No_token s False (snd (rejoin ho scope ?ns ?name got ?f c rg))"
          by (rule rejoin_runs [OF scope key assms(3,1) submit_flight_simps assms(2)]) (use res False in simp)
        from refused_runs(1) [OF this] show ?thesis
          using gate named res False
          by (cases "rejoin ho scope ?ns ?name got ?f c rg") (simp add: submit_def Let_def)
      qed
    qed
  qed
qed

lemma delete_reserved_runs:
  assumes "scope \<noteq> []" "key = scope_key scope ns name" "others_behave ho key" "flight_reachable s"
    and "holds Preparing key (ho_uuid ho) s" "fl_generation own = ho_uuid ho"
  shows "outcome_runs ho key s (delete_reserved ho ns name info identity scope own (fs_registry s))"
proof (rule outcome_runs_later [OF runs_to_others [OF assms(3-5), of 1] assms(4)])
  fix s' assume s': "flight_reachable s'" "fs_registry s' = ho_others ho 1 (fs_registry s)"
    "holds Preparing key (ho_uuid ho) s'"
  have gone: "runs_to ho key No_token s' False (remove_owned_flight scope ns name (ho_uuid ho) (fs_registry s'))"
    using abandon_runs [OF assms(1,2)] s'(3) by blast
  have failed: "runs_to ho key No_token s' False (remove_owned_flight scope ns name (ho_uuid ho) rg)"
    if "activate_flight scope ns name (ho_uuid ho) c (publish p c) (fs_registry s') = (None, rg)" for c p rg
    using activate_runs(1) [OF assms(1,2) s'(3) that] gone by simp
  have launched: "outcome_runs ho key s' \<lparr>oc_result = res, oc_registry = add_bridge a b rg, oc_work = Some w, oc_written = None\<rparr>"
    if act: "activate_flight scope ns name (ho_uuid ho) c (publish p c) (fs_registry s') = (Some f, rg)" for c p f rg res a b w
  proof -
    have "runs_to ho key No_token s' True rg" using activate_runs(2) [OF assms(1,2) s'(3) act] by blast
    from runs_to_then [OF this s'(1)] have "runs_to ho key No_token s' (True \<or> False) (add_bridge a b rg)"
      using runs_to_outside outside_intros(2) by (metis holds.simps(1))
    then show ?thesis by (simp add: outcome_runs_def)
  qed
  show "outcome_runs ho key s' (delete_reserved ho ns name info identity scope own (fs_registry s))"
    unfolding delete_reserved_def Let_def s'(2) [symmetric] assms(6)
    by (intro outcome_runs_cases refused_runs(1) [OF gone] refused_runs(1) [OF failed] launched) (simp_all only: )
qed

lemma delete_runs:
  assumes "flight_reachable s" "ho_uuid ho \<notin> fs_used s" "parse_namespaced_native_id (de_native_id req) = Inr (ns, name)"
    and "others_behave ho (call_key ho ns name)"
  shows "outcome_runs ho (call_key ho ns name) s (release_delete ho req (fs_registry s))"
proof -
  let ?key = "call_key ho ns name"
  have idle: "runs_to ho ?key No_token s False (fs_registry s)" by (rule runs_to_refl) simp_all
  show ?thesis
  proof (cases "entry_gate ho (seconds_duration default_timeout_seconds)")
    case (Inl e)
    then show ?thesis using refused_runs(1) [OF idle] assms(3) by (simp add: release_delete_def)
  next
    case (Inr g)
    obtain info identity binding scope where g: "g = (info, identity, binding, scope)" by (cases g)
    note gate = Inr [unfolded g]
    have scope: "scope \<noteq> []" and key: "?key = scope_key scope ns name"
      using entry_gate_scope [OF gate] resolved_scope by (auto simp: call_key_def)
    let ?f = "delete_candidate identity binding (ho_uuid ho) (ho_cancel ho)"
    obtain got fresh rg where res: "reserve_rejoin_flight scope ns name ?f (ho_now ho 0) (fs_registry s) = ((got, fresh), rg)"
      by (metis surj_pair)
    note reserved = reserve_runs [OF scope key candidates_new(2) delete_candidate_generation assms(2) res]
    show ?thesis
    proof (cases fresh)
      case True
      obtain own where own: "got = Some own" "fl_generation own = ho_uuid ho" using reserved(1) [OF True] by blast
      have "outcome_runs ho ?key s (delete_reserved ho ns name info identity scope own rg)"
      proof (rule outcome_runs_later [OF conjunct1 [OF reserved(1) [OF True]] assms(1)])
        fix s' assume s': "flight_reachable s'" "fs_registry s' = rg" "holds Preparing ?key (ho_uuid ho) s'"
        show "outcome_runs ho ?key s' (delete_reserved ho ns name info identity scope own rg)"
          using delete_reserved_runs [OF scope key assms(4) s'(1,3) own(2)] unfolding s'(2) .
      qed
      then show ?thesis using gate res True own assms(3) by (simp add: release_delete_def Let_def)
    next
      case False
      have "runs_to ho ?key No_token s False (snd (rejoin ho scope ns name got ?f False rg))"
        by (rule rejoin_runs [OF scope key assms(4,1) candidates_new(2) delete_candidate_generation assms(2)])
          (use res False in simp)
      from refused_runs(1) [OF this] show ?thesis
        using gate res False assms(3)
        by (cases "rejoin ho scope ns name got ?f False rg") (simp add: release_delete_def Let_def)
    qed
  qed
qed

text \<open>C2: whatever the rest of the process does meanwhile within the machine's rules, what a submit does to
  the registry is a run of the flight machine, and it starts the worker of its own generation in that
  run exactly when it hands work to Helm. The same holds of a Delete.\<close>

theorem submit_and_delete_refine_flights:
  assumes "flight_reachable s" and "ho_uuid ho \<notin> fs_used s" and "others_behave ho (call_key ho ns name)"
    and "oc = submit h ho props is_create (fs_registry s) \<and> ns = rm_namespace (rp_metadata props) \<and>
           name = rm_name (rp_metadata props) \<or>
         oc = release_delete ho req (fs_registry s) \<and> parse_namespaced_native_id (de_native_id req) = Inr (ns, name)"
  shows "\<exists>es s'. flight_run s es s' \<and> flight_reachable s' \<and> fs_registry s' = oc_registry oc \<and>
    (Activated (call_key ho ns name) (ho_uuid ho) \<in> set es \<longleftrightarrow> oc_work oc \<noteq> None)"
proof -
  have "outcome_runs ho (call_key ho ns name) s oc"
    using assms(4) submit_runs [OF assms(1,2)] delete_runs [OF assms(1,2)] assms(3) by blast
  then show ?thesis
    using flight_run_reachable assms(1) unfolding outcome_runs_def runs_to_def by blast
qed

subsection \<open>Status polls\<close>

lemma reconcile_later:
  assumes "sk_scope k \<noteq> []" "key = scope_key (sk_scope k) (sk_ns k) (sk_name k)" "others_behave ho key"
    and "flight_reachable s" "holds (Reader (sk_gen k)) key (ho_uuid ho) s"
  shows "runs_to ho key (Reader (sk_gen k)) s False (snd (reconcile_key k result (ho_others ho i (fs_registry s))))"
proof (rule runs_to_later [OF runs_to_others [OF assms(3-5), of i] assms(4)])
  fix s' assume s': "fs_registry s' = ho_others ho i (fs_registry s)" "holds (Reader (sk_gen k)) key (ho_uuid ho) s'"
  show "runs_to ho key (Reader (sk_gen k)) s' False (snd (reconcile_key k result (ho_others ho i (fs_registry s))))"
    using reconcile_runs [OF assms(1,2) s'(2), of result] unfolding s'(1) .
qed

lemma reconcile_snd: "reconcile_key k r rg0 = (p, rg) \<Longrightarrow> \<exists>r. rg = snd (reconcile_key k r rg0)"
  by (metis snd_conv)

lemma observe_registry:
  assumes "status_observe h ho info k recovery fl rg0 = Some (res, rg)"
  shows "rg = rg0 \<or> \<not> recovery \<and> (\<exists>r. rg = snd (reconcile_key k r (ho_others ho 1 rg0)))"
  using assms unfolding status_observe_def
  by (auto dest: reconcile_snd split: option.splits sum.splits comp.splits prod.splits if_splits)

lemma observe_runs:
  assumes "sk_scope k \<noteq> []" "key = scope_key (sk_scope k) (sk_ns k) (sk_name k)" "others_behave ho key"
    and "flight_reachable s" "holds tok key (ho_uuid ho) s" "recovery \<or> tok = Reader (sk_gen k)"
    and "status_observe h ho info k recovery fl (fs_registry s) = Some (res, rg)"
  shows "runs_to ho key tok s False rg"
  using observe_registry [OF assms(7)]
proof (elim disjE conjE exE)
  assume "rg = fs_registry s"
  then show ?thesis using runs_to_refl assms(5) by blast
next
  fix r assume rec: "\<not> recovery" "rg = snd (reconcile_key k r (ho_others ho 1 (fs_registry s)))"
  then have tok: "tok = Reader (sk_gen k)" using assms(6) by simp
  show ?thesis unfolding rec(2) tok by (rule reconcile_later [OF assms(1-4) assms(5) [unfolded tok]])
qed

lemma transient_runs:
  assumes "sk_scope k \<noteq> []" "key = scope_key (sk_scope k) (sk_ns k) (sk_name k)"
    and "holds (Reader (sk_gen k)) key (ho_uuid ho) s"
  shows "runs_to ho key (Reader (sk_gen k)) s False (snd (recover_transient ho req (Some k) u res (fs_registry s)))"
proof -
  let ?rg = "fs_registry s"
  let ?out = "snd (recover_transient ho req (Some k) u res ?rg)"
  have "?out = ?rg \<or> (\<exists>h. ?out = call_cancel h ?rg) \<or> (\<exists>r. ?out = snd (reconcile_key k r ?rg))"
    by (auto simp: recover_transient_def dest: reconcile_snd split: comp.split option.split prod.split)
  then consider "?out = ?rg" | h where "?out = call_cancel h ?rg" | r where "?out = snd (reconcile_key k r ?rg)"
    by blast
  then show ?thesis
  proof cases
    case 1
    show ?thesis unfolding 1 by (rule runs_to_refl [OF refl assms(3)])
  next
    case 2
    show ?thesis unfolding 2 by (rule runs_to_outside [OF outside_intros(1) assms(3)])
  next
    case 3
    show ?thesis unfolding 3 by (rule reconcile_runs [OF assms])
  qed
qed

definition poll_runs :: "host \<Rightarrow> string \<Rightarrow> token \<Rightarrow> flight_sys \<Rightarrow> (progress ret comp \<times> registry) option \<Rightarrow> bool" where
  "poll_runs ho key tok s out \<longleftrightarrow> (\<forall>res rg. out = Some (res, rg) \<longrightarrow> runs_to ho key tok s False rg)"

lemma poll_runs_cases:
  "(\<And>y. x = Inl y \<Longrightarrow> poll_runs ho key tok s (f y)) \<Longrightarrow> (\<And>y. x = Inr y \<Longrightarrow> poll_runs ho key tok s (g y)) \<Longrightarrow>
   poll_runs ho key tok s (case x of Inl y \<Rightarrow> f y | Inr y \<Rightarrow> g y)"
  "(oo = None \<Longrightarrow> poll_runs ho key tok s n) \<Longrightarrow> (\<And>y. oo = Some y \<Longrightarrow> poll_runs ho key tok s (m y)) \<Longrightarrow>
   poll_runs ho key tok s (case oo of None \<Rightarrow> n | Some y \<Rightarrow> m y)"
  "(b \<Longrightarrow> poll_runs ho key tok s t) \<Longrightarrow> (\<not> b \<Longrightarrow> poll_runs ho key tok s e) \<Longrightarrow>
   poll_runs ho key tok s (if b then t else e)"
  "(\<And>a b. p = (a, b) \<Longrightarrow> poll_runs ho key tok s (q a b)) \<Longrightarrow> poll_runs ho key tok s (case p of (a, b) \<Rightarrow> q a b)"
  by (auto split: sum.split option.split prod.split)

lemma poll_runs_leaves:
  "runs_to ho key tok s False rg \<Longrightarrow> poll_runs ho key tok s (Some (res, rg))"
  "runs_to ho key tok s False (snd out) \<Longrightarrow> poll_runs ho key tok s (case out of (r, rg) \<Rightarrow> Some (Ret r, rg))"
  by (auto simp: poll_runs_def split: prod.splits)

lemma poll_runs_served:
  assumes "others_behave ho key" "flight_reachable s" "holds tok key (ho_uuid ho) s"
    and body: "\<And>s' err. flight_reachable s' \<Longrightarrow> holds tok key (ho_uuid ho) s' \<Longrightarrow>
      poll_runs ho key tok s' (body err (fs_registry s'))"
  shows "poll_runs ho key tok s (case service_registered ho addr (ho_others ho 0 (fs_registry s)) of (err, rg) \<Rightarrow> body err rg)"
proof -
  obtain err rg1 where serve: "service_registered ho addr (ho_others ho 0 (fs_registry s)) = (err, rg1)" by fastforce
  have "runs_to ho key tok s False rg" if out: "body err rg1 = Some (res, rg)" for res rg
  proof (rule runs_to_later [OF runs_to_others [OF assms(1-3), of 0] assms(2)])
    fix s' assume s': "flight_reachable s'" "fs_registry s' = ho_others ho 0 (fs_registry s)" "holds tok key (ho_uuid ho) s'"
    have "runs_to ho key tok s' False rg1"
      by (rule runs_to_outside [OF _ s'(3)]) (use outside_intros(3) [OF serve] s'(2) in simp)
    then show "runs_to ho key tok s' False rg"
    proof (rule runs_to_later [OF _ s'(1)])
      fix s'' assume s'': "flight_reachable s''" "fs_registry s'' = rg1" "holds tok key (ho_uuid ho) s''"
      show "runs_to ho key tok s'' False rg"
        using body [OF s''(1,3), of err] out unfolding s''(2) poll_runs_def by blast
    qed
  qed
  then show ?thesis by (simp add: poll_runs_def serve)
qed

lemma matched_runs:
  assumes "sk_scope k \<noteq> []" "key = scope_key (sk_scope k) (sk_ns k) (sk_name k)" "others_behave ho key"
    and "flight_reachable s" "holds (Reader (sk_gen k)) key (ho_uuid ho) s"
  shows "poll_runs ho key (Reader (sk_gen k)) s (status_matched h ho info k f (fs_registry s))"
proof -
  let ?tok = "Reader (sk_gen k)"
  have idle: "runs_to ho key ?tok s' False (fs_registry s')" if "holds ?tok key (ho_uuid ho) s'" for s'
    using that by (rule runs_to_refl [OF refl])
  have cancel: "runs_to ho key ?tok s False (call_cancel c (fs_registry s))" for c
    by (rule runs_to_outside [OF outside_intros(1) assms(5)])
  have observe: "poll_runs ho key ?tok s' (status_observe h ho info k False fl (fs_registry s'))"
    if "flight_reachable s'" "holds ?tok key (ho_uuid ho) s'" for s' fl
    using observe_runs [OF assms(1-3) that, of False] by (simp add: poll_runs_def)
  have finish: "runs_to ho key ?tok s' False (snd (reconcile_key k None (fs_registry s')))"
    if "holds ?tok key (ho_uuid ho) s'" for s'
    using that by (rule reconcile_runs [OF assms(1,2)])
  show ?thesis
    unfolding status_matched_def Let_def
    by (intro poll_runs_leaves(2) [OF finish [OF assms(5)]] poll_runs_leaves(1) [OF idle [OF assms(5)]]
        poll_runs_leaves(1) [OF cancel] observe [OF assms(4,5)] poll_runs_served [OF assms(3-5)]
        poll_runs_cases(2,3) poll_runs_cases(4) [of "service_flight _ _ _ _ _ _"])
      (intro poll_runs_leaves(2) [OF finish] poll_runs_leaves(1) [OF idle] observe poll_runs_cases; assumption)+
qed

lemma acquire_runs:
  assumes "scope \<noteq> []" "key = scope_key scope ns name" "new_candidate f" "fl_generation f = ho_uuid ho"
    and "ho_uuid ho \<notin> fs_used s" "acquire_status_flight scope ns name gen f (fs_registry s) = ((got, fresh), rg)"
  shows "fresh \<Longrightarrow> runs_to ho key Recovering s False rg"
    and "\<not> fresh \<Longrightarrow> runs_to ho key No_token s False rg"
    and "\<not> fresh \<Longrightarrow> got = Some own \<Longrightarrow> matches_status own gen f \<Longrightarrow> runs_to ho key (Reader gen) s False rg"
proof -
  have "fl_generation f \<notin> fs_used s" using assms(4,5) by simp
  have got: "acquire_status_at key gen f (fs_registry s) = ((got, fresh), rg)"
    using assms(1,2,6) by (simp add: acquire_status_flight_def at_key_scope)
  note step = fs_acquire [OF assms(3) \<open>fl_generation f \<notin> fs_used s\<close> got]
  show "runs_to ho key Recovering s False rg" if fresh
    by (rule runs_to_step [OF step]) (use that assms(4) in simp_all)
  show "runs_to ho key No_token s False rg" if "\<not> fresh"
    by (rule runs_to_step [OF step]) simp_all
  show "runs_to ho key (Reader gen) s False rg" if "\<not> fresh" "got = Some own" "matches_status own gen f"
    by (rule runs_to_step [OF step]) (use that in \<open>simp_all add: matches_status_def\<close>)
qed

lemma status_candidate_generation: "fl_generation (status_candidate op r identity binding gen c) = gen"
  by (simp add: status_candidate_def submit_candidate_def)

lemma transient_unmatched: "snd (recover_transient ho req None u res rg) = rg"
  by (simp add: recover_transient_def split: comp.split option.split)

lemma recovery_poll_runs:
  assumes "sk_scope k \<noteq> []" "key = scope_key (sk_scope k) (sk_ns k) (sk_name k)" "others_behave ho key"
    and "flight_reachable s" "runs_to ho key Recovering s False rg"
    and "status_observe h ho info k True None (ho_others ho 0 rg) = Some (res, rg')"
  shows "runs_to ho key No_token s False (remove_owned_flight (sk_scope k) (sk_ns k) (sk_name k) (ho_uuid ho) rg')"
proof (rule runs_to_later [OF assms(5,4)])
  fix s1 assume s1: "flight_reachable s1" "fs_registry s1 = rg" "holds Recovering key (ho_uuid ho) s1"
  have "runs_to ho key Recovering s1 False (ho_others ho 0 rg)"
    using runs_to_others [OF assms(3) s1(1,3), of 0] unfolding s1(2) .
  then show "runs_to ho key No_token s1 False (remove_owned_flight (sk_scope k) (sk_ns k) (sk_name k) (ho_uuid ho) rg')"
  proof (rule runs_to_later [OF _ s1(1)])
    fix s2 assume s2: "flight_reachable s2" "fs_registry s2 = ho_others ho 0 rg" "holds Recovering key (ho_uuid ho) s2"
    have "runs_to ho key Recovering s2 False rg'"
      by (rule observe_runs [OF assms(1-3) s2(1,3) _ assms(6) [folded s2(2)]]) simp
    then show "runs_to ho key No_token s2 False (remove_owned_flight (sk_scope k) (sk_ns k) (sk_name k) (ho_uuid ho) rg')"
    proof (rule runs_to_later [OF _ s2(1)])
      fix s3 assume s3: "fs_registry s3 = rg'" "holds Recovering key (ho_uuid ho) s3"
      show "runs_to ho key No_token s3 False (remove_owned_flight (sk_scope k) (sk_ns k) (sk_name k) (ho_uuid ho) rg')"
        using abandon_runs [OF assms(1,2), of ho s3] s3(2) unfolding s3(1) by blast
    qed
  qed
qed

lemma retained_poll_runs:
  assumes "sk_scope k \<noteq> []" "key = scope_key (sk_scope k) (sk_ns k) (sk_name k)" "others_behave ho key"
    and "flight_reachable s" "runs_to ho key (Reader (sk_gen k)) s False rg"
    and "status_matched h ho info k f rg = Some (res, rg')"
  shows "runs_to ho key No_token s False
    (snd (release_reader (Some k) (recover_transient ho req (Some k) u res rg')))"
proof (rule runs_to_later [OF assms(5,4)])
  let ?out = "recover_transient ho req (Some k) u res rg'"
  let ?done = "snd (release_reader (Some k) ?out)"
  have last: "?done = release_status_flight (sk_scope k) (sk_ns k) (sk_name k) (sk_gen k) (snd ?out)"
    by (simp add: release_reader_def split: prod.split)
  fix s1 assume s1: "flight_reachable s1" "fs_registry s1 = rg" "holds (Reader (sk_gen k)) key (ho_uuid ho) s1"
  have "runs_to ho key (Reader (sk_gen k)) s1 False rg'"
    using matched_runs [OF assms(1-3) s1(1,3), of h info f] assms(6) unfolding s1(2) poll_runs_def by blast
  then show "runs_to ho key No_token s1 False ?done"
  proof (rule runs_to_later [OF _ s1(1)])
    fix s2 assume s2: "flight_reachable s2" "fs_registry s2 = rg'" "holds (Reader (sk_gen k)) key (ho_uuid ho) s2"
    have "runs_to ho key (Reader (sk_gen k)) s2 False (snd ?out)"
      using transient_runs [OF assms(1,2) s2(3), of req u res] unfolding s2(2) .
    then show "runs_to ho key No_token s2 False ?done"
    proof (rule runs_to_later [OF _ s2(1)])
      fix s3 assume s3: "fs_registry s3 = snd ?out" "holds (Reader (sk_gen k)) key (ho_uuid ho) s3"
      show "runs_to ho key No_token s3 False ?done"
        unfolding last using release_runs [OF assms(1,2) s3(2)] unfolding s3(1) .
    qed
  qed
qed

lemma identified_runs:
  assumes "sk_scope k \<noteq> []" "key = scope_key (sk_scope k) (sk_ns k) (sk_name k)" "others_behave ho key"
    and "flight_reachable s" "ho_uuid ho \<notin> fs_used s"
  shows "poll_runs ho key No_token s (status_identified h ho req info identity binding k u (fs_registry s))"
proof -
  let ?f = "status_candidate (sk_op k) (sk_revision k) identity binding (ho_uuid ho) (ho_cancel ho)"
  obtain got fresh rg where acq: "acquire_status_flight (sk_scope k) (sk_ns k) (sk_name k) (sk_gen k) ?f (fs_registry s) =
      ((got, fresh), rg)"
    by (metis surj_pair)
  note acquired = acquire_runs [OF assms(1,2) candidates_new(3) status_candidate_generation assms(5) acq]
  show ?thesis
  proof (cases fresh)
    case True
    note rec = acquired(1) [OF True]
    show ?thesis
      unfolding poll_runs_def status_identified_def Let_def acq
      using recovery_poll_runs [OF assms(1-4) rec] True
      by (auto simp: transient_unmatched dest: arg_cong [of _ _ snd] split: option.splits prod.splits) (metis snd_conv transient_unmatched)
  next
    case False
    show ?thesis
    proof (cases "\<exists>own. got = Some own \<and> matches_status own (sk_gen k) ?f")
      case True
      then obtain own where own: "got = Some own" "matches_status own (sk_gen k) ?f" by blast
      note reader = acquired(3) [OF False own]
      show ?thesis
        unfolding poll_runs_def status_identified_def Let_def acq
        using retained_poll_runs [OF assms(1-4) reader] False own
        by (auto split: prod.splits) (metis snd_conv)
    next
      case none: False
      show ?thesis
        unfolding poll_runs_def status_identified_def Let_def acq
        using acquired(2) [OF False] False none by (auto split: option.splits)
    qed
  qed
qed

text \<open>C5: a Status poll is a run of the flight machine too, on every path: conflict, retained flight,
  recovery, transient failure, panic. It never starts a worker.\<close>

theorem status_refines_flights:
  assumes "flight_reachable s" and "ho_uuid ho \<notin> fs_used s" and "others_behave ho (call_key ho ns name)"
    and "parse_request_id (ho_uuid_ok ho) (st_request_id req) = Inr (ns, name, revision, op)"
    and "release_status h ho req (fs_registry s) = Some (res, rg)"
  shows "\<exists>es s'. flight_run s es s' \<and> flight_reachable s' \<and> fs_registry s' = rg \<and>
    Activated (call_key ho ns name) (ho_uuid ho) \<notin> set es"
proof -
  have idle: "runs_to ho (call_key ho ns name) No_token s False (fs_registry s)" by (rule runs_to_refl) simp_all
  have "runs_to ho (call_key ho ns name) No_token s False rg"
  proof (cases "\<exists>scope. resolve_flight_scope (ho_kube_system ho) = Inr scope")
    case True
    then obtain scope where scope: "resolve_flight_scope (ho_kube_system ho) = Inr scope" by blast
    have poll: "poll_runs ho (call_key ho ns name) No_token s (status_identified h ho req info identity binding
        \<lparr>sk_ns = ns, sk_name = name, sk_revision = revision, sk_op = op, sk_reqid = rid, sk_scope = scope, sk_gen = gen\<rparr>
        u (fs_registry s))" for info identity binding gen rid u
      by (rule identified_runs)
        (use assms(1-3) scope resolved_scope [OF scope] in \<open>simp_all add: call_key_def\<close>)
    show ?thesis
      using assms(4,5) scope idle poll unfolding release_status_def poll_runs_def
      by (auto simp: Let_def split: sum.splits)
  next
    case False
    then obtain e where e: "resolve_flight_scope (ho_kube_system ho) = Inl e"
      by (cases "resolve_flight_scope (ho_kube_system ho)") auto
    show ?thesis
      using assms(4,5) e idle unfolding release_status_def
      by (auto simp: Let_def transient_unmatched dest!: arg_cong [of "recover_transient _ _ _ _ _ _" _ snd] split: sum.splits)
  qed
  then show ?thesis
    using flight_run_reachable assms(1) unfolding runs_to_def by blast
qed

subsection \<open>A call that runs\<close>

lemma sample_others: "others_behave sample_host key"
  unfolding others_behave_def by (auto simp: sample_host_def intro!: exI [of _ "[]"] run_nil)

lemma sample_start:
  "flight_reachable flight_init" "ho_uuid sample_host \<notin> fs_used flight_init" "fs_registry flight_init = empty_registry"
  by (rule flight_start) (simp_all add: flight_init_def)

lemma sample_uuid: "ho_uuid sample_host = ''g1''"
  by (simp add: sample_host_def)

lemma sample_key: "call_key sample_host ''apps'' ''podinfo'' = ''UID|u1|apps/podinfo''"
  by code_simp

theorem submit_and_delete_refine_flights_witness:
  "\<exists>es s'. flight_run flight_init es s' \<and> flight_reachable s' \<and> Activated ''UID|u1|apps/podinfo'' ''g1'' \<in> set es"
proof -
  let ?oc = "submit sample_helm sample_host sample_properties True empty_registry"
  have worked: "oc_work ?oc \<noteq> None" using sample_submit by (cases "oc_work ?oc") simp_all
  have names: "?oc = submit sample_helm sample_host sample_properties True (fs_registry flight_init) \<and>
      ''apps'' = rm_namespace (rp_metadata sample_properties) \<and> ''podinfo'' = rm_name (rp_metadata sample_properties)"
    by (simp add: sample_start sample_properties_def)
  obtain es s' where "flight_run flight_init es s'" "flight_reachable s'"
      "Activated (call_key sample_host ''apps'' ''podinfo'') (ho_uuid sample_host) \<in> set es"
    using submit_and_delete_refine_flights [OF sample_start(1,2) sample_others disjI1 [OF names]] worked by blast
  then show ?thesis unfolding sample_key sample_uuid by blast
qed

definition sample_poll :: status_request where
  "sample_poll = \<lparr>st_native_id = [], st_request_id = ''apps/podinfo@1:delete'', st_type = resource_type_release\<rparr>"

theorem status_refines_flights_witness:
  "\<exists>res rg es s'. release_status sample_helm sample_host sample_poll empty_registry = Some (res, rg) \<and>
     flight_run flight_init es s' \<and> fs_registry s' = rg \<and> Activated ''UID|u1|apps/podinfo'' ''g1'' \<notin> set es"
proof -
  have parsed: "parse_request_id (ho_uuid_ok sample_host) (st_request_id sample_poll) = Inr (''apps'', ''podinfo'', 1, Kind_delete)"
    by code_simp
  have "release_status sample_helm sample_host sample_poll empty_registry \<noteq> None"
    by code_simp
  then obtain res rg where poll: "release_status sample_helm sample_host sample_poll (fs_registry flight_init) = Some (res, rg)"
    unfolding sample_start(3) by fastforce
  obtain es s' where "flight_run flight_init es s'" "fs_registry s' = rg"
      "Activated (call_key sample_host ''apps'' ''podinfo'') (ho_uuid sample_host) \<notin> set es"
    using status_refines_flights [OF sample_start(1,2) sample_others parsed poll] by blast
  then show ?thesis using poll unfolding sample_key sample_uuid sample_start(3) by blast
qed

end
