(* ===== verification/Release_Safety.thy ===== *)
theory Release_Safety
  imports Release_Refinement
begin

text \<open>
  What the Helm handlers promise: the work a submit hands to Helm is the planned one, a release formae
  did not install is left alone, a poll does not report success while the worker still runs. The gap in
  the switch of \<open>submit\<close> is stated too.
\<close>

subsection \<open>Work\<close>

lemma submit_answer_None:
  assumes "submit_answer h ns name c current action target = None"
  shows "action \<in> {Action_install, Action_upgrade, Action_blocked}"
  using assms by (cases action) (simp_all add: submit_answer_def Let_def)

lemma submit_ready_chart:
  "submit_ready ho current props b = Inr chrt \<Longrightarrow> choose_chart current props (ho_chart ho) = Inr chrt"
  by (auto simp: submit_ready_def split: sum.splits option.splits)

lemma submit_launch_work:
  assumes "oc_work (submit_launch h ho props c scope own bridge action target chrt written rg) = Some w"
  shows "w = (if action = Action_upgrade then Work_upgrade (run_upgrade h props) chrt
              else Work_install (run_install h props) chrt)"
  using assms by (auto simp: submit_launch_def Let_def refused_def split: option.splits prod.splits if_splits)

lemma submit_launch_written: "oc_written (submit_launch h ho props c scope own bridge action target chrt written rg) = written"
  by (simp add: submit_launch_def Let_def split: option.split prod.split)

text \<open>What a whole submit hands over and writes comes from its plan.\<close>

definition planned_outcome :: "helm_env \<Rightarrow> host \<Rightarrow> release_properties \<Rightarrow> bool \<Rightarrow> outcome \<Rightarrow> bool" where
  "planned_outcome h ho props c oc \<longleftrightarrow>
     (oc_written oc = None \<or> oc_written oc = snd (submit_plan h ho props c)) \<and>
     (oc_work oc = None \<or>
       (\<exists>current action target chrt. fst (submit_plan h ho props c) = Inr (current, action, target) \<and>
          action \<in> {Action_install, Action_upgrade, Action_blocked} \<and>
          choose_chart current props (ho_chart ho) = Inr chrt \<and>
          oc_work oc = Some (if action = Action_upgrade then Work_upgrade (run_upgrade h props) chrt
                             else Work_install (run_install h props) chrt)))"

lemma refused_planned:
  "planned_outcome h ho props c (refused res rg)"
  "snd (submit_plan h ho props c) = written \<Longrightarrow> planned_outcome h ho props c ((refused res rg)\<lparr>oc_written := written\<rparr>)"
  by (simp_all add: planned_outcome_def refused_def)

lemma launch_planned:
  assumes "submit_plan h ho props c = (Inr (current, action, target), written)"
    and "submit_answer h ns name c current action target = None"
    and "submit_ready ho current props b = Inr chrt"
  shows "planned_outcome h ho props c (submit_launch h ho props c scope own bridge action target chrt written rg)"
proof (cases "oc_work (submit_launch h ho props c scope own bridge action target chrt written rg)")
  case None
  then show ?thesis by (simp add: planned_outcome_def submit_launch_written assms(1))
next
  case (Some w)
  note work = submit_launch_work [OF Some]
  show ?thesis
    unfolding planned_outcome_def submit_launch_written Some work assms(1) fst_conv snd_conv
    using submit_answer_None [OF assms(2)] submit_ready_chart [OF assms(3)] by blast
qed

lemma planned_cases:
  "(\<And>e. x = Inl e \<Longrightarrow> planned_outcome h ho props c (f e)) \<Longrightarrow> (\<And>y. x = Inr y \<Longrightarrow> planned_outcome h ho props c (g y)) \<Longrightarrow>
   planned_outcome h ho props c (case x of Inl e \<Rightarrow> f e | Inr y \<Rightarrow> g y)"
  "(oo = None \<Longrightarrow> planned_outcome h ho props c n) \<Longrightarrow> (\<And>y. oo = Some y \<Longrightarrow> planned_outcome h ho props c (m y)) \<Longrightarrow>
   planned_outcome h ho props c (case oo of None \<Rightarrow> n | Some y \<Rightarrow> m y)"
  "(\<And>a b. p = (a, b) \<Longrightarrow> planned_outcome h ho props c (q a b)) \<Longrightarrow> planned_outcome h ho props c (case p of (a, b) \<Rightarrow> q a b)"
  by (auto split: sum.split option.split prod.split)

lemma submit_reserved_planned:
  "planned_outcome h ho props c (submit_reserved h ho props c info identity scope own rg)"
proof -
  obtain plan written where plan: "submit_plan h ho props c = (plan, written)" by fastforce
  show ?thesis
  proof (cases plan)
    case (Inl e)
    then show ?thesis
      unfolding submit_reserved_def Let_def plan
      by (intro planned_cases refused_planned) (simp_all add: plan refused_planned)
  next
    case (Inr p)
    obtain current action target where "p = (current, action, target)" by (cases p)
    with Inr plan have planned: "submit_plan h ho props c = (Inr (current, action, target), written)" by simp
    have written: "snd (submit_plan h ho props c) = written" by (simp add: planned)
    show ?thesis
      unfolding submit_reserved_def Let_def planned prod.case sum.case
      by (intro planned_cases refused_planned(1) refused_planned(2) [OF written] launch_planned [OF planned])
  qed
qed

lemma submit_planned: "planned_outcome h ho props is_create (submit h ho props is_create rg)"
  unfolding submit_def Let_def
  by (auto intro!: planned_cases refused_planned submit_reserved_planned split: bool.split)



subsection \<open>Releases of others\<close>

lemma foreign_plan:
  assumes "last_release name (ho_storage ho 0) = Inr (Some r)" "\<not> formae_owns (Some r)"
    and "name = rm_name (rp_metadata props)"
  shows "submit_plan h ho props True = (Inr (Some r,
    plan_submit h (ho_digest ho) (ho_now ho 5) (Some r) True None (Some props)), None)"
proof -
  have "fst (plan_submit h (ho_digest ho) (ho_now ho 5) (Some r) True None (Some props)) \<noteq> Action_recover"
    using assms(2) by (simp add: plan_submit_def abandoned_def rejoinable_def)
  then show ?thesis
    using assms by (auto simp: submit_plan_def Let_def split: submit_action.split prod.split)
qed

text \<open>C14: a Create leaves a release that formae did not install alone: no Helm work is started and no
  record is written, unless that release has been pending for more than twice its timeout.\<close>

theorem create_leaves_foreign_release_alone:
  assumes "last_release (rm_name (rp_metadata props)) (ho_storage ho 0) = Inr (Some r)" and "\<not> formae_owns (Some r)"
    and "\<not> (release_is_pending h (Some r) \<and> stalled (ho_now ho 5) r None)"
  shows "oc_work (submit h ho props True rg) = None \<and> oc_written (submit h ho props True rg) = None"
proof -
  let ?plan = "plan_submit h (ho_digest ho) (ho_now ho 5) (Some r) True None (Some props)"
  have plan: "submit_plan h ho props True = (Inr (Some r, ?plan), None)"
    using foreign_plan [OF assms(1,2) refl] .
  have "fst ?plan \<in> {Action_foreign, Action_retry}"
    using assms(2,3) by (auto simp: plan_submit_def abandoned_def rejoinable_def settled_def split: option.splits)
  then show ?thesis
    using submit_planned [of h ho props True rg] by (auto simp: planned_outcome_def plan)
qed

definition foreign_host :: "helm_status \<Rightarrow> host" where
  "foreign_host st = sample_host\<lparr>ho_storage := (\<lambda>n. Inr (foreign_release\<lparr>rel_info := Some \<lparr>ri_status = st,
     ri_description = [], ri_first_deployed = 0, ri_last_deployed = 0\<rparr>\<rparr>)), ho_now := (\<lambda>n. 2000 * second)\<rparr>"

theorem create_leaves_foreign_release_alone_witness:
  "oc_work (submit sample_helm (foreign_host Status_deployed) sample_properties True empty_registry) = None"
proof -
  let ?r = "foreign_release\<lparr>rel_info := Some \<lparr>ri_status = Status_deployed, ri_description = [], ri_first_deployed = 0,
     ri_last_deployed = 0\<rparr>\<rparr>"
  have "last_release (rm_name (rp_metadata sample_properties)) (ho_storage (foreign_host Status_deployed) 0) = Inr (Some ?r)"
    by (simp add: foreign_host_def last_release_def)
  moreover have "\<not> formae_owns (Some ?r)" by code_simp
  moreover have "\<not> release_is_pending sample_helm (Some ?r)" by code_simp
  ultimately show ?thesis using create_leaves_foreign_release_alone by blast
qed

text \<open>The exception is a gap: \<open>planSubmit\<close> answers \<open>actionBlocked\<close>, the switch has no case for it, and
  the submit goes on to an install over the pending release.\<close>

lemma blocked_submit_goes_on:
  assumes "release_is_pending h (Some r)" "stalled now r None" "\<not> formae_owns (Some r)"
  shows "plan_submit h digest now (Some r) c None want = (Action_blocked, rel_version r)"
    and "submit_answer h ns name c (Some r) Action_blocked (rel_version r) = None"
  using assms by (simp_all add: plan_submit_def abandoned_def rejoinable_def submit_answer_def)

lemma blocked_release_is_installed_over:
  "map_option (\<lambda>w. case w of Work_install ia c \<Rightarrow> ia_release_name ia | _ \<Rightarrow> [])
     (oc_work (submit sample_helm (foreign_host Status_pending_install) sample_properties True empty_registry)) = Some ''podinfo''"
  by code_simp

subsection \<open>Polls of a running operation\<close>

definition no_success :: "progress ret comp \<Rightarrow> bool" where
  "no_success res \<longleftrightarrow> (\<forall>pr. res = Ret (Some pr, None) \<longrightarrow> pr_status pr \<noteq> StSuccess)"

lemma no_success_simps [simp]:
  "no_success (Panic p)" "no_success (Ret (None, err))" "no_success (Ret (res, Some e))"
  "no_success (Ret (Some pr, None)) \<longleftrightarrow> pr_status pr \<noteq> StSuccess"
  by (simp_all add: no_success_def)

lemma report_status [simp]:
  "pr_status (in_progress_result nid rid props msg) = StInProgress" "pr_status (failure_result nid code msg) = StFailure"
  "pr_status (flight_conflict ns name) = StFailure" "pr_status (deadline_report ns name w) = StFailure"
  by (simp_all add: in_progress_result_def failure_result_def flight_conflict_def deadline_report_def empty_progress_def)

text \<open>Reconciled with an unfinished flight of its own generation, or with none, no report is a success
  unless it was one and the flight is another's.\<close>

lemma reconcile_unfinished:
  assumes "sk_scope k \<noteq> []" "key = scope_key (sk_scope k) (sk_ns k) (sk_name k)"
    and "flight_at rg key = Some f" "fl_generation f = sk_gen k" "\<not> fl_finished f"
  shows "no_success (Ret (fst (reconcile_key k result rg)))"
proof -
  have own: "owned_flight key (sk_gen k) rg = Some f" using assms(3,4) by (simp add: owned_flight_iff)
  show ?thesis
    using assms(1,2,5) own
    by (auto simp: reconcile_key_def reconcile_flight_result_def at_key_scope reconcile_flight_at_def
        split: option.splits if_splits op_status.splits)
qed

definition keeps_running :: "host \<Rightarrow> string \<Rightarrow> string \<Rightarrow> bool" where
  "keeps_running ho key gen \<longleftrightarrow> (\<forall>i rg f. flight_at rg key = Some f \<and> fl_generation f = gen \<and> \<not> fl_finished f \<longrightarrow>
     (\<exists>f'. flight_at (ho_others ho i rg) key = Some f' \<and> fl_generation f' = gen \<and> \<not> fl_finished f'))"

definition running_at :: "string \<Rightarrow> string \<Rightarrow> registry \<Rightarrow> bool" where
  "running_at key gen rg \<longleftrightarrow> (\<exists>f. flight_at rg key = Some f \<and> fl_generation f = gen \<and> \<not> fl_finished f)"

lemma keeps_running_at: "keeps_running ho key gen \<Longrightarrow> running_at key gen rg \<Longrightarrow> running_at key gen (ho_others ho i rg)"
  unfolding keeps_running_def running_at_def by blast

lemma running_at_outside: "outside_of rg rg' \<Longrightarrow> running_at key gen rg' = running_at key gen rg"
  by (simp add: running_at_def outside_of_def)

lemma reconcile_running:
  assumes "sk_scope k \<noteq> []" "key = scope_key (sk_scope k) (sk_ns k) (sk_name k)" "running_at key (sk_gen k) rg"
  shows "no_success (Ret (fst (reconcile_key k result rg)))"
  using reconcile_unfinished [OF assms(1,2)] assms(3) unfolding running_at_def by blast

text \<open>No success, and the flight still running when the answer is there.\<close>

definition quiet_poll :: "string \<Rightarrow> string \<Rightarrow> (progress ret comp \<times> registry) option \<Rightarrow> bool" where
  "quiet_poll key gen out \<longleftrightarrow> (\<forall>res rg. out = Some (res, rg) \<longrightarrow> no_success res \<and> running_at key gen rg)"

lemma reconcile_key_running:
  assumes "sk_scope k \<noteq> []" "key = scope_key (sk_scope k) (sk_ns k) (sk_name k)" "running_at key (sk_gen k) rg"
  shows "running_at key (sk_gen k) (snd (reconcile_key k result rg))"
proof -
  obtain f where f: "flight_at rg key = Some f" "fl_generation f = sk_gen k" "\<not> fl_finished f"
    using assms(3) by (auto simp: running_at_def)
  have "flight_at (snd (reconcile_key k result rg)) key = Some f"
    using assms(1,2) f
    by (auto simp: reconcile_key_def reconcile_flight_result_def at_key_scope entry_after_def reconciles_def
        entry_reconcile [of key "sk_ns k" "sk_name k", symmetric] split: prod.splits
        dest!: arg_cong [of "reconcile_flight_at _ _ _ _ _ _ _" _ "\<lambda>x. flight_at (snd x) key"])
      (simp_all add: entry_reconcile entry_after_def reconciles_def)
  then show ?thesis using f by (auto simp: running_at_def)
qed

lemma quiet_poll_cases:
  "(\<And>y. x = Inl y \<Longrightarrow> quiet_poll key gen (f y)) \<Longrightarrow> (\<And>y. x = Inr y \<Longrightarrow> quiet_poll key gen (g y)) \<Longrightarrow>
   quiet_poll key gen (case x of Inl y \<Rightarrow> f y | Inr y \<Rightarrow> g y)"
  "(oo = None \<Longrightarrow> quiet_poll key gen n) \<Longrightarrow> (\<And>y. oo = Some y \<Longrightarrow> quiet_poll key gen (m y)) \<Longrightarrow>
   quiet_poll key gen (case oo of None \<Rightarrow> n | Some y \<Rightarrow> m y)"
  "(b \<Longrightarrow> quiet_poll key gen t) \<Longrightarrow> (\<not> b \<Longrightarrow> quiet_poll key gen e) \<Longrightarrow> quiet_poll key gen (if b then t else e)"
  "(\<And>a b. p = (a, b) \<Longrightarrow> quiet_poll key gen (q a b)) \<Longrightarrow> quiet_poll key gen (case p of (a, b) \<Rightarrow> q a b)"
  by (auto split: sum.split option.split prod.split)

lemma quiet_poll_answer: "no_success res \<Longrightarrow> running_at key gen rg \<Longrightarrow> quiet_poll key gen (Some (res, rg))"
  by (simp add: quiet_poll_def)

lemma quiet_reconcile:
  assumes "sk_scope k \<noteq> []" "key = scope_key (sk_scope k) (sk_ns k) (sk_name k)" "running_at key (sk_gen k) rg"
  shows "quiet_poll key (sk_gen k) (case reconcile_key k result rg of (r, rg) \<Rightarrow> Some (Ret r, rg))"
  using reconcile_running [OF assms, of result] reconcile_key_running [OF assms, of result]
  by (cases "reconcile_key k result rg") (simp add: quiet_poll_def)

lemma quiet_observe:
  assumes "sk_scope k \<noteq> []" "key = scope_key (sk_scope k) (sk_ns k) (sk_name k)" "keeps_running ho key (sk_gen k)"
    and "running_at key (sk_gen k) rg"
  shows "quiet_poll key (sk_gen k) (status_observe h ho info k False fl rg)"
proof -
  note after = quiet_reconcile [OF assms(1,2) keeps_running_at [OF assms(3,4)]]
  have answer: "quiet_poll key (sk_gen k) (case out of None \<Rightarrow> None | Some (Panic p) \<Rightarrow> Some (Panic p, rg)
      | Some (Ret (res, err)) \<Rightarrow>
          if \<not> False \<and> err = None
          then (case reconcile_key k (Some res) (ho_others ho 1 rg) of (r, rg) \<Rightarrow> Some (Ret r, rg))
          else Some (Ret (res, err), rg))" for out
    using after assms(4)
    by (auto split: option.split comp.split intro: quiet_poll_answer) (simp add: quiet_poll_def)
  show ?thesis
    unfolding status_observe_def
    by (intro quiet_poll_cases(1,2) quiet_poll_answer [OF _ assms(4)] answer) simp_all
qed

lemma quiet_matched:
  assumes "sk_scope k \<noteq> []" "key = scope_key (sk_scope k) (sk_ns k) (sk_name k)" "keeps_running ho key (sk_gen k)"
    and "running_at key (sk_gen k) rg"
  shows "quiet_poll key (sk_gen k) (status_matched h ho info k f rg)"
proof -
  have cancel: "running_at key (sk_gen k) (call_cancel c rg)" for c
    using assms(4) running_at_outside [OF outside_intros(1)] by blast
  have served: "running_at key (sk_gen k) rg1" if "service_registered ho addr (ho_others ho 0 rg) = (err, rg1)" for addr err rg1
    using keeps_running_at [OF assms(3,4)] running_at_outside [OF outside_intros(3) [OF that]] by blast
  show ?thesis
    unfolding status_matched_def Let_def
    by (intro quiet_poll_cases quiet_reconcile [OF assms(1,2)] quiet_observe [OF assms(1-3)] quiet_poll_answer)
      (simp_all add: assms(4) cancel served)
qed

lemma quiet_transient:
  assumes "sk_scope k \<noteq> []" "key = scope_key (sk_scope k) (sk_ns k) (sk_name k)" "running_at key (sk_gen k) rg"
    and "no_success res"
  shows "no_success (fst (recover_transient ho req (Some k) u res rg))"
proof -
  have "no_success (Ret p)" if "reconcile_key k result rg = (p, rg')" for p rg' result
    using reconcile_running [OF assms(1-3), of result] that by simp
  then show ?thesis
    using assms(4) by (auto simp: recover_transient_def split: comp.split option.split prod.split)
qed

lemma observe_unidentified_no_success:
  "pr_status (observe_unidentified_flight ns name revision op gen identity binding rid now rg) \<noteq> StSuccess"
  by (simp add: observe_unidentified_flight_def Let_def split: option.split prod.split)

lemma acquire_running:
  assumes "running_at key gen rg" "acquire_status_at key requested f rg = ((got, fresh), rg')"
  shows "\<not> fresh" and "got = Some own \<Longrightarrow> matches_status own requested f \<Longrightarrow> requested = gen \<and> running_at key gen rg'"
  using assms
  by (auto simp: running_at_def acquire_status_at_def Let_def matches_status_def retain_reader_def flight_simps
      split: option.splits if_splits)

text \<open>C3: while a release's worker runs, no Status poll of that release reports success, whatever the
  release record says and however the poll is answered: by the record, by a transient failure, by
  another caller's request.\<close>

theorem running_operation_not_reported_successful:
  assumes "parse_request_id (ho_uuid_ok ho) (st_request_id req) = Inr (ns, name, revision, op)"
    and "running_at (call_key ho ns name) gen rg" and "keeps_running ho (call_key ho ns name) gen"
    and "release_status h ho req rg = Some (Ret (Some pr, None), rg')"
  shows "pr_status pr \<noteq> StSuccess"
proof -
  have identified: "no_success res"
    if scope: "resolve_flight_scope (ho_kube_system ho) = Inr scope"
      and k: "k = \<lparr>sk_ns = ns, sk_name = name, sk_revision = revision, sk_op = op, sk_reqid = rid, sk_scope = scope, sk_gen = g\<rparr>"
      and out: "status_identified h ho req info identity binding k u rg = Some (res, rg')"
    for scope k rid g info identity binding u res rg'
  proof -
    let ?key = "call_key ho ns name"
    let ?f = "status_candidate op revision identity binding (ho_uuid ho) (ho_cancel ho)"
    have key: "sk_scope k \<noteq> []" "?key = scope_key (sk_scope k) (sk_ns k) (sk_name k)"
      using scope resolved_scope [OF scope] by (simp_all add: k call_key_def)
    obtain got fresh rg1 where acq: "acquire_status_at ?key g ?f rg = ((got, fresh), rg1)" by (metis surj_pair)
    have flight: "acquire_status_flight (sk_scope k) ns name g ?f rg = ((got, fresh), rg1)"
      using key acq by (simp add: acquire_status_flight_def at_key_scope k)
    note run = acquire_running [OF assms(2) acq]
    show ?thesis
    proof (cases "\<exists>own. got = Some own \<and> matches_status own g ?f")
      case True
      then obtain own where own: "got = Some own" "matches_status own g ?f" by blast
      then have g: "sk_gen k = gen" "running_at ?key (sk_gen k) rg1" using run(2) [OF own] by (simp_all add: k)
      have quiet: "quiet_poll ?key (sk_gen k) (status_matched h ho info k own rg1)"
        by (rule quiet_matched [OF key]) (use g assms(3) in simp_all)
      obtain r rg2 where m: "status_matched h ho info k own rg1 = Some (r, rg2)"
          "res = fst (release_reader (Some k) (recover_transient ho req (Some k) None r rg2))"
        using out flight own run(1) by (auto simp: status_identified_def Let_def k split: prod.splits)
      have "fst (release_reader (Some k) x) = fst x" for x by (simp add: release_reader_def split: prod.split)
      then show ?thesis
        using quiet_transient [OF key, of rg2 r ho req None] quiet m by (simp add: quiet_poll_def)
    next
      case False
      then show ?thesis
        using out flight run(1) by (auto simp: status_identified_def Let_def k split: option.splits)
    qed
  qed
  have "no_success (Ret (Some pr, None))"
    using assms(4)
    by (auto simp: release_status_def assms(1) Let_def observe_unidentified_no_success recover_transient_def
        split: sum.splits option.splits if_splits dest!: identified [OF _ refl])
  then show ?thesis by simp
qed

text \<open>The record is purged, the uninstall has not returned.\<close>

definition purged_registry :: registry where
  "purged_registry = empty_registry\<lparr>rg_flights := [(''UID|u1|apps/podinfo'',
     (delete_candidate ''id'' [] ''g1'' 1)\<lparr>fl_revision := 1, fl_preparing := False\<rparr>)]\<rparr>"

definition purged_poll :: status_request where
  "purged_poll = \<lparr>st_native_id = [], st_request_id = ''apps/podinfo@1:delete#g1'', st_type = resource_type_release\<rparr>"

theorem running_operation_not_reported_successful_witness:
  "\<exists>pr rg. release_status sample_helm sample_host purged_poll purged_registry = Some (Ret (Some pr, None), rg) \<and>
     pr_status pr \<noteq> StSuccess \<and>
     pr_status (delete_status sample_helm 0 None None ''apps'' ''podinfo'' []) = StSuccess"
proof -
  have "(case release_status sample_helm sample_host purged_poll purged_registry of
      Some (Ret (Some pr, None), rg) \<Rightarrow> True | _ \<Rightarrow> False)"
    by code_simp
  then obtain pr rg where poll: "release_status sample_helm sample_host purged_poll purged_registry = Some (Ret (Some pr, None), rg)"
    by (auto split: option.splits prod.splits comp.splits)
  have parsed: "parse_request_id (ho_uuid_ok sample_host) (st_request_id purged_poll) = Inr (''apps'', ''podinfo'', 1, Kind_delete)"
    by code_simp
  have "running_at (call_key sample_host ''apps'' ''podinfo'') ''g1'' purged_registry"
    unfolding sample_key by (simp add: running_at_def purged_registry_def delete_candidate_def submit_candidate_def)
  moreover have "keeps_running sample_host (call_key sample_host ''apps'' ''podinfo'') ''g1''"
    by (simp add: keeps_running_def sample_host_def)
  ultimately have "pr_status pr \<noteq> StSuccess"
    using running_operation_not_reported_successful [OF parsed _ _ poll] by blast
  then show ?thesis using poll by (auto simp: delete_status_def empty_progress_def)
qed

end
