(* ===== verification/Transport.thy ===== *)
theory Transport
  imports Token_Cache
begin

text \<open>
  The authenticating HTTP transport (\<open>pkg/auth/transport.go\<close>). A request's fate is a log of what
  the transport did on the wire; the environment (the caller's context, the token source and the
  base transport) answers as a function of that log, so it may change over time in any way. As
  \<open>net/http\<close> documents of a \<open>RoundTripper\<close>, the base returns a response exactly when it returns no
  error, or both a response and an error it ignores.
\<close>

record url =
  u_scheme :: string
  u_host :: string
  u_has_user :: bool

text \<open>A body that is nil or \<open>http.NoBody\<close>, or one whose \<open>GetBody\<close> is nil (\<open>None\<close>) or has a result.\<close>

datatype body = No_body | Body (get_body: "unit res option")

record request =
  rq_url :: "url option"
  rq_host :: string
  rq_redirected :: bool
  rq_body :: body
  rq_authorization :: "string option"

record response =
  rs_status :: int
  rs_has_body :: bool

datatype wire =
    Close_request
  | Asked_token
  | Sent request
  | Close_response
  | Invalidate_token

record world =
  wd_ctx :: "wire list \<Rightarrow> gerr option"
  wd_token :: "wire list \<Rightarrow> string res"
  wd_base :: "wire list \<Rightarrow> request \<Rightarrow> (gerr \<times> response option) + response"
  wd_invalidator :: bool

record token_transport =
  tt_origin :: "url option"
  tt_restricted :: bool

definition new_token_transport :: token_transport where
  "new_token_transport = \<lparr>tt_origin = None, tt_restricted = False\<rparr>"

definition new_origin_token_transport :: "url option \<Rightarrow> token_transport" where
  "new_origin_token_transport origin = \<lparr>tt_origin = origin, tt_restricted = True\<rparr>"

subsection \<open>Origins\<close>

text \<open>\<open>url.URL.Hostname\<close> and \<open>Port\<close> of the standard library; \<open>strings.EqualFold\<close> on ASCII.\<close>

definition valid_optional_port :: "string \<Rightarrow> bool" where
  "valid_optional_port p \<longleftrightarrow>
     (case p of [] \<Rightarrow> True | c # ds \<Rightarrow> c = CHR '':'' \<and> list_all (\<lambda>d. digit_val d \<noteq> None) ds)"

definition strip_brackets :: "string \<Rightarrow> string" where
  "strip_brackets h =
     (if has_prefix h ''['' \<and> has_suffix h '']'' then take (length h - 2) (drop 1 h) else h)"

definition split_host_port :: "string \<Rightarrow> string \<times> string" where
  "split_host_port hp =
     (case last_index CHR '':'' hp of
        Some i \<Rightarrow> if valid_optional_port (drop i hp) then (strip_brackets (take i hp), drop (Suc i) hp)
                  else (strip_brackets hp, [])
      | None \<Rightarrow> (strip_brackets hp, []))"

definition fold_char :: "char \<Rightarrow> char" where
  "fold_char c =
     (let n = of_char c :: nat in if 65 \<le> n \<and> n \<le> 90 then char_of (n + 32) else c)"

definition equal_fold :: "string \<Rightarrow> string \<Rightarrow> bool" where
  "equal_fold s t \<longleftrightarrow> map fold_char s = map fold_char t"

definition port_of :: "url \<Rightarrow> string" where
  "port_of u = (let p = snd (split_host_port (u_host u)) in if p \<noteq> [] then p else ''443'')"

definition hostname :: "url \<Rightarrow> string" where
  "hostname u = fst (split_host_port (u_host u))"

definition same_origin :: "url option \<Rightarrow> url option \<Rightarrow> bool" where
  "same_origin origin target =
     (case (origin, target) of
        (Some o', Some t) \<Rightarrow>
          if u_scheme o' \<noteq> ''https'' \<or> u_scheme t \<noteq> ''https'' \<or> u_host o' = [] \<or> u_host t = [] \<or>
             u_has_user o' \<or> u_has_user t then False
          else equal_fold (hostname o') (hostname t) \<and> port_of o' = port_of t
      | _ \<Rightarrow> False)"

subsection \<open>One exchange\<close>

definition close_request :: "request \<Rightarrow> wire list" where
  "close_request req = (case rq_body req of No_body \<Rightarrow> [] | Body g \<Rightarrow> [Close_request])"

definition close_response :: "response option \<Rightarrow> wire list" where
  "close_response r =
     (case r of Some resp \<Rightarrow> if rs_has_body resp then [Close_response] else [] | None \<Rightarrow> [])"

definition authorized :: "request \<Rightarrow> string \<Rightarrow> request" where
  "authorized req token = req\<lparr>rq_authorization := Some (''Bearer '' @ token)\<rparr>"

lemma authorized_same [simp]:
  "rq_url (authorized req token) = rq_url req" "rq_redirected (authorized req token) = rq_redirected req"
  by (simp_all add: authorized_def)

text \<open>\<open>TokenTransport.do\<close>.\<close>

definition transport_do :: "world \<Rightarrow> request \<Rightarrow> wire list \<Rightarrow> response res \<times> wire list" where
  "transport_do w req log =
     (case wd_ctx w log of
        Some e \<Rightarrow> (Inl e, log @ close_request req)
      | None \<Rightarrow>
          let log1 = log @ [Asked_token] in
          (case (case wd_ctx w log1 of Some e \<Rightarrow> Inl e | None \<Rightarrow> wd_token w log) of
             Inl e \<Rightarrow> (Inl (redact_error e), log1 @ close_request req)
           | Inr token \<Rightarrow>
               let r = authorized req token; log2 = log1 @ [Sent r] in
               (case wd_base w log1 r of
                  Inl (e, resp) \<Rightarrow> (Inl (redact_error e), log2 @ close_response resp)
                | Inr resp \<Rightarrow> (Inr resp, log2))))"

definition rejected_origin :: gerr where
  "rejected_origin = new_error ''authentication transport rejected request origin or redirect''"

definition url_host :: "request \<Rightarrow> string" where
  "url_host req = (case rq_url req of Some u \<Rightarrow> u_host u | None \<Rightarrow> [])"

definition rejects :: "token_transport \<Rightarrow> request \<Rightarrow> bool" where
  "rejects t req \<longleftrightarrow>
     tt_restricted t \<and> (rq_redirected req \<or> \<not> same_origin (tt_origin t) (rq_url req) \<or>
        rq_host req \<noteq> [] \<and> \<not> equal_fold (rq_host req) (url_host req))"

text \<open>\<open>TokenTransport.RoundTrip\<close>: a 401 is answered once, with a fresh token, when the request can
  be replayed.\<close>

definition round_trip :: "token_transport \<Rightarrow> world \<Rightarrow> request \<Rightarrow> wire list \<Rightarrow> response res \<times> wire list" where
  "round_trip t w req log =
     (if rejects t req then (Inl rejected_origin, log @ close_request req)
      else (case transport_do w req log of
              (Inl e, log1) \<Rightarrow> (Inl e, log1)
            | (Inr resp, log1) \<Rightarrow>
                if rs_status resp \<noteq> 401 \<or> \<not> wd_invalidator w \<or>
                   (case rq_body req of No_body \<Rightarrow> False | Body g \<Rightarrow> g = None)
                then (Inr resp, log1)
                else if (case rq_body req of Body (Some (Inl e)) \<Rightarrow> True | _ \<Rightarrow> False)
                then (Inr resp, log1)
                else transport_do w req (log1 @ close_response (Some resp) @ [Invalidate_token])))"

definition sends :: "wire list \<Rightarrow> request list" where
  "sends log = concat (map (\<lambda>e. case e of Sent r \<Rightarrow> [r] | _ \<Rightarrow> []) log)"

lemma sends_append [simp]: "sends (xs @ ys) = sends xs @ sends ys"
  by (simp add: sends_def)

lemma sends_simps [simp]:
  "sends [] = []" "sends (Close_request # es) = sends es" "sends (Asked_token # es) = sends es"
  "sends (Sent r # es) = r # sends es" "sends (Close_response # es) = sends es"
  "sends (Invalidate_token # es) = sends es"
  "sends (close_request req) = []" "sends (close_response resp) = []"
  by (auto simp add: sends_def close_request_def close_response_def split: body.split option.split)

lemma transport_do_log:
  assumes "transport_do w req log = (r, log')"
  obtains (unsent) rest where "log' = log @ rest" "sends rest = []" "\<exists>e. r = Inl e" "Invalidate_token \<notin> set rest"
    "set rest \<subseteq> {Asked_token, Close_request}"
  | (sent) token rest where "log' = log @ rest"
    "sends rest = [authorized req token]" "Invalidate_token \<notin> set rest"
    "wd_token w log = Inr token"
proof -
  have nc: "set (close_request req) \<subseteq> {Close_request}"
    by (auto simp add: close_request_def split: body.split)
  have nr: "set (close_response x) \<subseteq> {Close_response}" for x
    by (auto simp add: close_response_def split: option.split)
  show thesis
  proof (cases "wd_ctx w log")
    case (Some e)
    then show thesis using assms nc by (intro unsent [of "close_request req"]) (auto simp: transport_do_def)
  next
    case None
    show thesis
    proof (cases "case wd_ctx w (log @ [Asked_token]) of Some e \<Rightarrow> Inl e | None \<Rightarrow> wd_token w log")
      case (Inl e)
      then show thesis using assms nc None
        by (intro unsent [of "Asked_token # close_request req"])
          (auto simp: transport_do_def Let_def sends_def close_request_def split: body.splits)
    next
      case (Inr token)
      define r' where "r' = authorized req token"
      have tok: "wd_token w log = Inr token" using Inr by (auto split: option.splits)
      show thesis
      proof (cases "wd_base w (log @ [Asked_token]) r'")
        case (Inl er)
        obtain e resp where er: "er = (e, resp)" by (cases er)
        have "log' = log @ [Asked_token, Sent r'] @ close_response resp"
          using assms None Inr Inl er by (simp add: transport_do_def Let_def r'_def)
        then show thesis using nr [of resp] tok
          by (intro sent [of "[Asked_token, Sent r'] @ close_response resp" token]) (auto simp: r'_def)
      next
        case (Inr resp)
        have "log' = log @ [Asked_token, Sent r']"
          using assms None \<open>(case _ of Some e \<Rightarrow> Inl e | None \<Rightarrow> wd_token w log) = Inr token\<close> Inr
          by (simp add: transport_do_def Let_def r'_def)
        then show thesis using tok
          by (intro sent [of "[Asked_token, Sent r']" token]) (auto simp: r'_def sends_def)
      qed
    qed
  qed
qed

text \<open>A cluster that rejects the first token.\<close>

definition rotating_world :: world where
  "rotating_world = \<lparr>wd_ctx = (\<lambda>log. None), wd_token = (\<lambda>log. Inr (if log = [] then ''old'' else ''new'')),
     wd_base = (\<lambda>log r. Inr \<lparr>rs_status = (if Invalidate_token \<in> set log then 200 else 401), rs_has_body = True\<rparr>),
     wd_invalidator = True\<rparr>"

definition sample_origin :: url where
  "sample_origin = \<lparr>u_scheme = ''https'', u_host = ''API.example'', u_has_user = False\<rparr>"

definition sample_request :: request where
  "sample_request = \<lparr>rq_url = Some \<lparr>u_scheme = ''https'', u_host = ''api.example:443'', u_has_user = False\<rparr>,
     rq_host = [], rq_redirected = False, rq_body = Body (Some (Inr ())), rq_authorization = None\<rparr>"

definition sample_log :: "wire list" where
  "sample_log = [Asked_token, Sent (authorized sample_request ''old''), Close_response, Invalidate_token,
     Asked_token, Sent (authorized sample_request ''new'')]"

lemma sample_exchange:
  "round_trip (new_origin_token_transport (Some sample_origin)) rotating_world sample_request [] =
     (Inr \<lparr>rs_status = 200, rs_has_body = True\<rparr>, sample_log)"
  by code_simp



text \<open>A request is sent at most twice, each time with a token just obtained; the second time only
  when the first answer was 401, the source could be invalidated, was, and the body can be replayed.\<close>

theorem one_replay_after_401:
  assumes "round_trip t w req [] = (r, log)"
  shows "sends log = [] \<or> (\<exists>token. sends log = [authorized req token]) \<or>
    (\<exists>pre post token token' resp. log = pre @ close_response (Some resp) @ [Invalidate_token] @ post \<and>
       sends pre = [authorized req token] \<and> sends post = [authorized req token'] \<and>
       Invalidate_token \<notin> set pre \<and> Invalidate_token \<notin> set post \<and>
       transport_do w req [] = (Inr resp, pre) \<and> rs_status resp = 401 \<and> wd_invalidator w \<and>
       rq_body req \<in> {No_body, Body (Some (Inr ()))})"
proof (cases "rejects t req")
  case True
  then show ?thesis using assms by (auto simp: round_trip_def)
next
  case False
  obtain x pre where first: "transport_do w req [] = (x, pre)" by fastforce
  have one: "sends pre = [] \<and> (\<exists>e. x = Inl e) \<or>
      (\<exists>token. sends pre = [authorized req token]) \<and> Invalidate_token \<notin> set pre"
    by (rule transport_do_log [OF first]) auto
  show ?thesis
  proof (cases "(r, log) = (x, pre)")
    case True
    then show ?thesis using one by auto
  next
    case differs: False
    then obtain resp where x: "x = Inr resp" and sta: "rs_status resp = 401" and inv: "wd_invalidator w"
      and body: "rq_body req \<in> {No_body, Body (Some (Inr ()))}"
      and second: "transport_do w req (pre @ close_response (Some resp) @ [Invalidate_token]) = (r, log)"
      using assms False first
      by (auto simp: round_trip_def split: sum.splits if_splits body.splits option.splits)
    have sent1: "\<exists>token. sends pre = [authorized req token]" "Invalidate_token \<notin> set pre"
      using one x by auto
    show ?thesis
    proof (rule transport_do_log [OF second])
      fix rest
      assume "log = (pre @ close_response (Some resp) @ [Invalidate_token]) @ rest" "sends rest = []"
      then show ?thesis using sent1 by auto
    next
      fix token' rest
      assume "log = (pre @ close_response (Some resp) @ [Invalidate_token]) @ rest"
        "sends rest = [authorized req token']" "Invalidate_token \<notin> set rest"
      then show ?thesis using sent1 first x sta inv body
        by (intro disjI2 exI [of _ pre] exI [of _ rest]) auto
    qed
  qed
qed

theorem one_replay_after_401_witness:
  "sends sample_log = [authorized sample_request ''old'', authorized sample_request ''new''] \<and>
   wd_invalidator rotating_world"
proof -
  have two: "sends sample_log = [authorized sample_request ''old'', authorized sample_request ''new'']"
    by (simp add: sample_log_def)
  then show ?thesis using one_replay_after_401 [OF sample_exchange] by auto
qed

subsection \<open>Binding a request to an operation\<close>

text \<open>\<open>WithOperationContext\<close> (\<open>context_transport.go\<close>): the request runs under a context that ends with
  the operation or with the request. \<open>cleanup\<close> (a \<open>sync.Once\<close>) unhooks both; after a response with
  a body it waits for the body's end. The operation's and the request's \<open>Err()\<close> are looked at
  twice; \<open>oe_cleaned\<close> is the once flag, \<open>oe_cleanups\<close> counts the effects of cleanup.\<close>

record op_exchange =
  oe_hooked :: bool
  oe_cleaned :: bool
  oe_cleanups :: nat
  oe_closed_request :: bool
  oe_base_called :: bool

definition op_start :: op_exchange where
  "op_start = \<lparr>oe_hooked = False, oe_cleaned = False, oe_cleanups = 0, oe_closed_request = False,
     oe_base_called = False\<rparr>"

definition cleanup :: "op_exchange \<Rightarrow> op_exchange" where
  "cleanup x = (if oe_cleaned x then x else x\<lparr>oe_cleaned := True, oe_cleanups := Suc (oe_cleanups x)\<rparr>)"

datatype op_result = Op_error gerr | Op_plain "response option" | Op_streaming response

definition operation_round_trip ::
  "gerr option \<times> gerr option \<Rightarrow> gerr option \<times> gerr option \<Rightarrow> gerr + response option \<Rightarrow>
   op_result \<times> op_exchange" where
  "operation_round_trip before after base =
     (case before of
        (Some e, _) \<Rightarrow> (Op_error e, op_start\<lparr>oe_closed_request := True\<rparr>)
      | (None, Some e) \<Rightarrow> (Op_error e, op_start\<lparr>oe_closed_request := True\<rparr>)
      | (None, None) \<Rightarrow>
          let x = op_start\<lparr>oe_hooked := True\<rparr> in
          (case after of
             (Some e, _) \<Rightarrow> (Op_error e, (cleanup x)\<lparr>oe_closed_request := True\<rparr>)
           | (None, Some e) \<Rightarrow> (Op_error e, (cleanup x)\<lparr>oe_closed_request := True\<rparr>)
           | (None, None) \<Rightarrow>
               let y = x\<lparr>oe_base_called := True\<rparr> in
               (case base of
                  Inl e \<Rightarrow> (Op_error e, cleanup y)
                | Inr None \<Rightarrow> (Op_plain None, cleanup y)
                | Inr (Some resp) \<Rightarrow>
                    if rs_has_body resp then (Op_streaming resp, y) else (Op_plain (Some resp), cleanup y))))"

datatype body_op = Read_body "gerr option" | Close_body

fun op_body :: "body_op \<Rightarrow> op_exchange \<Rightarrow> op_exchange" where
  "op_body (Read_body None) x = x"
| "op_body (Read_body (Some e)) x = cleanup x"
| "op_body Close_body x = cleanup x"

definition ends_body :: "body_op \<Rightarrow> bool" where
  "ends_body b \<longleftrightarrow> b \<noteq> Read_body None"

lemma op_body_ends: "op_body b x = (if ends_body b then cleanup x else x)"
  by (cases "(b, x)" rule: op_body.cases) (auto simp: ends_body_def)

lemma cleanups_of_body:
  "oe_cleanups (fold op_body ops x) =
     (if oe_cleaned x \<or> \<not> list_ex ends_body ops then oe_cleanups x else Suc (oe_cleanups x))"
  by (induction ops arbitrary: x) (auto simp: op_body_ends cleanup_def)

lemma cleanup_exactly_once:
  assumes "operation_round_trip before after base = (r, x)" "oe_hooked x"
  shows "oe_cleanups (fold op_body ops x) =
    (case r of Op_streaming resp \<Rightarrow> if list_ex ends_body ops then 1 else 0 | _ \<Rightarrow> 1)"
  using assms
  by (auto simp: operation_round_trip_def op_start_def cleanup_def cleanups_of_body Let_def
      split: prod.splits option.splits sum.splits if_splits)

end
