(* ===== verification/Auth_Formats.thy ===== *)
theory Auth_Formats
  imports Transport Json "HOL-Library.Word"
begin

text \<open>
  The textual formats a target's authentication block is checked against: base64, canonical UUIDs,
  Kubernetes audiences (\<open>pkg/internal/kubernetesaudience\<close>), AWS roles and regions
  (\<open>pkg/auth/eks\<close>), Google providers and service accounts (\<open>pkg/config/oidc.go\<close>), HTTPS origins and
  certificate bundles. Every regular expression is written out as the predicate it matches. What
  \<open>url.Parse\<close>, \<open>pem.Decode\<close> and \<open>x509.ParseCertificate\<close> answer comes in a parameter record, and so do the
  SHA-256 digests in hex.
\<close>

unbundle bit_operations_syntax

record parsed_url =
  pu_scheme :: string
  pu_opaque :: string
  pu_has_user :: bool
  pu_hostname :: string
  pu_port :: string
  pu_path :: string
  pu_raw_query :: string
  pu_force_query :: bool
  pu_fragment :: string

record pem_block =
  pb_type :: string
  pb_bytes :: string

record crypto =
  cy_parse_url :: "string \<Rightarrow> parsed_url option"
  cy_pem_decode :: "string \<Rightarrow> (pem_block \<times> string) option"
  cy_x509 :: "string \<Rightarrow> bool"
  cy_sha256 :: "string \<Rightarrow> string"
  cy_sha256_json :: "json \<Rightarrow> string"

subsection \<open>Character classes\<close>

definition code_in :: "nat \<Rightarrow> nat \<Rightarrow> char \<Rightarrow> bool" where
  "code_in lo hi c \<longleftrightarrow> lo \<le> of_char c \<and> (of_char c :: nat) \<le> hi"

definition is_digit :: "char \<Rightarrow> bool" where
  "is_digit = code_in 48 57"

definition is_lower :: "char \<Rightarrow> bool" where
  "is_lower = code_in 97 122"

definition is_upper :: "char \<Rightarrow> bool" where
  "is_upper = code_in 65 90"

definition is_name_char :: "char \<Rightarrow> bool" where
  "is_name_char c \<longleftrightarrow> is_lower c \<or> is_digit c \<or> c = CHR ''-''"

subsection \<open>Base64\<close>

text \<open>\<open>base64.StdEncoding\<close>: line breaks are skipped anywhere, padding is required, trailing bits are
  not checked.\<close>

definition b64_digit :: "char \<Rightarrow> nat option" where
  "b64_digit c =
     (let n = of_char c :: nat in
      if is_upper c then Some (n - 65)
      else if is_lower c then Some (n - 71)
      else if is_digit c then Some (n + 4)
      else if c = CHR ''+'' then Some 62
      else if c = CHR ''/'' then Some 63
      else None)"

definition b64_bits :: "char list \<Rightarrow> nat option" where
  "b64_bits cs = (if None \<in> set (map b64_digit cs) then None
     else Some (foldl (\<lambda>acc c. acc * 64 + the (b64_digit c)) 0 cs))"

definition nth_byte :: "nat \<Rightarrow> nat \<Rightarrow> char" where
  "nth_byte shift n = char_of (n div 2 ^ shift mod 256)"

fun b64_quanta :: "string \<Rightarrow> string option" where
  "b64_quanta [] = Some []"
| "b64_quanta (a # b # c # d # rest) =
     (if rest = [] \<and> d = CHR ''=''
      then (if c = CHR ''='' then map_option (\<lambda>n. [nth_byte 4 n]) (b64_bits [a, b])
            else map_option (\<lambda>n. [nth_byte 10 n, nth_byte 2 n]) (b64_bits [a, b, c]))
      else (case b64_bits [a, b, c, d] of
              None \<Rightarrow> None
            | Some n \<Rightarrow> map_option (\<lambda>bs. nth_byte 16 n # nth_byte 8 n # nth_byte 0 n # bs) (b64_quanta rest)))"
| "b64_quanta _ = None"

definition b64_decode :: "string \<Rightarrow> string option" where
  "b64_decode s = b64_quanta (filter (\<lambda>c. c \<noteq> CHR 0x0A \<and> c \<noteq> CHR 0x0D) s)"

subsection \<open>UUIDs\<close>

definition hex_digit :: "char \<Rightarrow> nat option" where
  "hex_digit c =
     (let n = of_char c :: nat in
      if is_digit c then Some (n - 48)
      else if code_in 97 102 c then Some (n - 87)
      else if code_in 65 70 c then Some (n - 55)
      else None)"

fun hex_decode :: "string \<Rightarrow> 8 word list option" where
  "hex_decode [] = Some []"
| "hex_decode (a # b # cs) =
     (case (hex_digit a, hex_digit b, hex_decode cs) of
        (Some x, Some y, Some bs) \<Rightarrow> Some (of_nat (16 * x + y) # bs)
      | _ \<Rightarrow> None)"
| "hex_decode [c] = None"

definition hex_char :: "nat \<Rightarrow> char" where
  "hex_char n = (if n < 10 then char_of (48 + n) else char_of (87 + n))"

definition hex_encode :: "8 word list \<Rightarrow> string" where
  "hex_encode bs = concat (map (\<lambda>b. [hex_char (unat b div 16), hex_char (unat b mod 16)]) bs)"

definition dashes_in_place :: "string \<Rightarrow> bool" where
  "dashes_in_place s \<longleftrightarrow> length s = 36 \<and> s ! 8 = CHR ''-'' \<and> s ! 13 = CHR ''-'' \<and>
     s ! 18 = CHR ''-'' \<and> s ! 23 = CHR ''-''"

definition valid_canonical_uuid :: "string \<Rightarrow> bool \<Rightarrow> bool" where
  "valid_canonical_uuid value require_known_version \<longleftrightarrow>
     (if \<not> dashes_in_place value \<or> map fold_char value \<noteq> value then False
      else (case hex_decode (filter (\<lambda>c. c \<noteq> CHR ''-'') value) of
              None \<Rightarrow> False
            | Some decoded \<Rightarrow>
                if length decoded \<noteq> 16 then False
                else if list_all (\<lambda>b. b = 0) decoded \<or> decoded ! 8 AND 0xc0 \<noteq> 0x80 then False
                else let version = drop_bit 4 (decoded ! 6) in
                  \<not> require_known_version \<or> (version \<ge> 1 \<and> version \<le> 5)))"

definition audience_prefix :: string where
  "audience_prefix = ''urn:formae:kubernetes:''"

definition between :: "nat \<Rightarrow> nat \<Rightarrow> 'a list \<Rightarrow> 'a list" where
  "between i j xs = take (j - i) (drop i xs)"

definition canonical_uuid_text :: "8 word list \<Rightarrow> string" where
  "canonical_uuid_text raw =
     hex_encode (between 0 4 raw) @ ''-'' @ hex_encode (between 4 6 raw) @ ''-'' @
     hex_encode (between 6 8 raw) @ ''-'' @ hex_encode (between 8 10 raw) @ ''-'' @ hex_encode (between 10 16 raw)"

definition valid_audience :: "string \<Rightarrow> bool" where
  "valid_audience audience \<longleftrightarrow>
     (if \<not> has_prefix audience audience_prefix then False
      else let i = drop (length audience_prefix) audience in
        if \<not> dashes_in_place i then False
        else (case hex_decode (between 0 8 i @ between 9 13 i @ between 14 18 i @ between 19 23 i @ between 24 36 i) of
                None \<Rightarrow> False
              | Some raw \<Rightarrow>
                  if length raw \<noteq> 16 \<or> i \<noteq> canonical_uuid_text raw then False
                  else let version = drop_bit 4 (raw ! 6) in
                    \<not> list_all (\<lambda>b. b = 0) raw \<and> \<not> list_all (\<lambda>b. b = 0xff) raw \<and>
                    raw ! 8 AND 0xc0 = 0x80 \<and> version \<ge> 1 \<and> version \<le> 5))"

subsection \<open>Cloud identifiers\<close>

definition role_name_char :: "char \<Rightarrow> bool" where
  "role_name_char c \<longleftrightarrow> is_lower c \<or> is_upper c \<or> is_digit c \<or> c \<in> set ''+=,.@_/-''"

definition aws_role_arn :: "string \<Rightarrow> bool" where
  "aws_role_arn s \<longleftrightarrow> has_prefix s ''arn:aws:iam::'' \<and>
     (let r = drop 13 s; name = drop 18 r in
      12 \<le> length r \<and> list_all is_digit (take 12 r) \<and> has_prefix (drop 12 r) '':role/'' \<and>
      1 \<le> length name \<and> length name \<le> 512 \<and> list_all role_name_char name)"

definition pool_name :: "string \<Rightarrow> bool" where
  "pool_name s \<longleftrightarrow> 4 \<le> length s \<and> length s \<le> 32 \<and> is_lower (hd s) \<and> list_all is_name_char (tl s)"

definition gcp_provider :: "string \<Rightarrow> bool" where
  "gcp_provider s \<longleftrightarrow>
     (case split_char CHR ''/'' s of
        [e1, e2, host, projects, project, locations, global, pools, pool, providers, provider] \<Rightarrow>
          e1 = [] \<and> e2 = [] \<and> host = ''iam.googleapis.com'' \<and> projects = ''projects'' \<and>
          project \<noteq> [] \<and> list_all is_digit project \<and> hd project \<noteq> CHR ''0'' \<and>
          locations = ''locations'' \<and> global = ''global'' \<and> pools = ''workloadIdentityPools'' \<and> pool_name pool \<and>
          providers = ''providers'' \<and> pool_name provider
      | _ \<Rightarrow> False)"

definition service_account :: "string \<Rightarrow> bool" where
  "service_account s \<longleftrightarrow>
     (case split_char CHR ''@'' s of
        [user, domain] \<Rightarrow>
          1 \<le> length user \<and> length user \<le> 63 \<and> (is_lower (hd user) \<or> is_digit (hd user)) \<and>
          list_all (\<lambda>c. is_lower c \<or> is_digit c \<or> c \<in> set ''._-'') (tl user) \<and>
          has_suffix domain ''.iam.gserviceaccount.com'' \<and>
          (let project = take (length domain - 24) domain in
           6 \<le> length project \<and> length project \<le> 30 \<and> is_lower (hd project) \<and>
           list_all is_name_char (butlast (tl project)) \<and>
           (is_lower (last project) \<or> is_digit (last project)))
      | _ \<Rightarrow> False)"

definition is_commercial_region :: "string \<Rightarrow> bool" where
  "is_commercial_region s \<longleftrightarrow>
     (case split_char CHR ''-'' s of
        [area, point, number] \<Rightarrow>
          area \<in> set [''af'', ''ap'', ''ca'', ''eu'', ''il'', ''me'', ''mx'', ''sa'', ''us''] \<and>
          point \<in> set [''central'', ''east'', ''north'', ''northeast'', ''northwest'', ''south'', ''southeast'', ''southwest'',
            ''west''] \<and>
          number \<noteq> [] \<and> list_all is_digit number
      | _ \<Rightarrow> False)"

definition region_from_endpoint :: "string \<Rightarrow> string" where
  "region_from_endpoint endpoint =
     (let host = trim_prefix (trim_prefix endpoint ''https://'') ''http://'';
          parts = split_char CHR ''.'' host in
      if length parts \<ge> 5 then parts ! (length parts - 4) else [])"

subsection \<open>Origins and certificates\<close>

text \<open>\<open>URL.String\<close> escapes the bytes of a host that RFC 3986 does not allow there.\<close>

definition host_char :: "char \<Rightarrow> bool" where
  "host_char c \<longleftrightarrow> is_lower c \<or> is_upper c \<or> is_digit c \<or> c \<in> set ''-_.~!$&()*+,;=:[]<>'' \<or> c = CHR 0x27 \<or> c = CHR 0x22"

definition hex_upper :: "nat \<Rightarrow> char" where
  "hex_upper n = (if n < 10 then char_of (48 + n) else char_of (55 + n))"

definition escape_host :: "string \<Rightarrow> string" where
  "escape_host h = concat (map (\<lambda>c. if host_char c then [c]
     else [CHR ''%'', hex_upper (of_char c div 16), hex_upper (of_char c mod 16)]) h)"

definition join_host_port :: "string \<Rightarrow> string \<Rightarrow> string" where
  "join_host_port host port =
     (if contains host '':'' then ''['' @ host @ '']:'' @ port else host @ '':'' @ port)"

definition invalid_origin :: gerr where
  "invalid_origin = new_error ''invalid HTTPS origin''"

definition canonical_https_origin :: "crypto \<Rightarrow> string \<Rightarrow> string res" where
  "canonical_https_origin cy raw =
     (case cy_parse_url cy raw of
        None \<Rightarrow> Inl invalid_origin
      | Some u \<Rightarrow>
          if \<not> equal_fold (pu_scheme u) ''https'' \<or> pu_hostname u = [] \<or> pu_has_user u \<or> pu_raw_query u \<noteq> [] \<or>
             pu_force_query u \<or> pu_fragment u \<noteq> [] \<or> (pu_path u \<noteq> [] \<and> pu_path u \<noteq> ''/'')
          then Inl invalid_origin
          else if pu_opaque u \<noteq> [] then Inl invalid_origin
          else let hostname = map fold_char (pu_hostname u); port = pu_port u;
                   host = (if port = [] \<or> port = ''443''
                           then (if contains hostname '':'' then ''['' @ hostname @ '']'' else hostname)
                           else join_host_port hostname port)
               in Inr (''https://'' @ escape_host host))"

text \<open>Every round consumes a block, so as many rounds as there are bytes are enough.\<close>

fun certificates :: "crypto \<Rightarrow> nat \<Rightarrow> bool \<Rightarrow> string \<Rightarrow> bool" where
  "certificates cy n found remaining =
     (if trim_space remaining = [] then found
      else (case n of
              0 \<Rightarrow> False
            | Suc m \<Rightarrow>
                (case cy_pem_decode cy remaining of
                   None \<Rightarrow> False
                 | Some (block, rest) \<Rightarrow>
                     if pb_type block \<noteq> ''CERTIFICATE'' \<or> \<not> cy_x509 cy (pb_bytes block) then False
                     else certificates cy m True rest)))"

declare certificates.simps [simp del]

text \<open>More rounds change nothing, when every block the decoder finds takes something off the text.\<close>

lemma certificates_fuel:
  assumes consumes: "\<And>s block rest. cy_pem_decode cy s = Some (block, rest) \<Longrightarrow> length rest < length s"
    and "length remaining \<le> n" "length remaining \<le> m"
  shows "certificates cy n found remaining = certificates cy m found remaining"
  using assms(2,3)
proof (induction n arbitrary: m found remaining)
  case 0
  then show ?case
    by (simp add: certificates.simps trim_space_def)
next
  case (Suc n)
  show ?case
  proof (cases "trim_space remaining = []")
    case True
    then show ?thesis
      by (simp add: certificates.simps)
  next
    case False
    then have "remaining \<noteq> []"
      by (auto simp: trim_space_def)
    with Suc.prems(2) obtain k where m: "m = Suc k"
      by (cases m) auto
    have "certificates cy n True rest = certificates cy k True rest"
      if "cy_pem_decode cy remaining = Some (block, rest)" for block rest
      using Suc.IH [of rest k True] consumes [OF that] Suc.prems m by simp
    with False m show ?thesis
      by (subst (1 2) certificates.simps) (auto split: option.splits)
  qed
qed

definition validate_certificate_authority :: "crypto \<Rightarrow> string \<Rightarrow> bool" where
  "validate_certificate_authority cy encoded \<longleftrightarrow>
     (if encoded = [] then False
      else (case b64_decode encoded of
              None \<Rightarrow> False
            | Some decoded \<Rightarrow> if decoded = [] then False else certificates cy (length decoded) False decoded))"

end
