(* ===== verification/Auth_Config.thy ===== *)
theory Auth_Config
  imports Auth_Formats Json_Canon
begin

text \<open>
  A target's configuration (\<open>pkg/config/config.go\<close>, \<open>oidc.go\<close>, \<open>settings.go\<close>): the authentication block,
  its validation, the effective method and the operator's policy, the identity that keys caches and the
  plugin's settings. A document is its JSON value; a Go struct is a record, an embedded struct the record
  it extends.
\<close>

subsection \<open>Data\<close>

record auth_dependencies =
  ad_oidc_source :: bool
  ad_allowed :: "string list"

record config =
  cf_auth :: json
  cf_version :: string
  cf_type :: string
  cf_deps :: auth_dependencies

record kubeconfig_auth =
  kc_context :: string
  kc_kubeconfig :: string

record cloud_auth =
  ca_endpoint :: string
  ca_certificate :: string

record eks_auth = cloud_auth +
  ea_cluster_name :: string
  ea_region :: string
  ea_profile :: string
  ea_credentials :: "json option"

record aks_auth = cloud_auth +
  aa_subscription :: string
  aa_resource_group :: string
  aa_cluster_name :: string
  aa_scope :: string
  aa_credentials :: "json option"

record gke_auth = cloud_auth +
  ga_project :: string
  ga_location :: string
  ga_cluster_name :: string
  ga_credentials :: "json option"

record oidc_auth = cloud_auth +
  oa_type :: string
  oa_audience :: string

record ovh_auth = cloud_auth +
  va_service_name :: string
  va_cluster_id :: string

record oci_auth = cloud_auth +
  ia_cluster_ocid :: string
  ia_region :: string

record aws_credentials =
  wc_type :: string
  wc_role_arn :: string

record azure_credentials =
  zc_type :: string
  zc_tenant :: string
  zc_client :: string

record gcp_credentials =
  gc_type :: string
  gc_provider :: string
  gc_email :: string

definition text_at :: "jobject \<Rightarrow> string \<Rightarrow> string" where
  "text_at kvs k = as_string (map_of kvs k)"

definition cloud_fields :: "string list" where
  "cloud_fields = [''Endpoint'', ''CertificateAuthority'']"

definition kubeconfig_of :: "json \<Rightarrow> kubeconfig_auth res" where
  "kubeconfig_of = unmarshal_strings [''Context'', ''Kubeconfig'']
     (\<lambda>kvs. \<lparr>kc_context = text_at kvs ''Context'', kc_kubeconfig = text_at kvs ''Kubeconfig''\<rparr>)"

definition cloud_of :: "json \<Rightarrow> cloud_auth res" where
  "cloud_of = unmarshal_strings cloud_fields
     (\<lambda>kvs. \<lparr>ca_endpoint = text_at kvs ''Endpoint'', ca_certificate = text_at kvs ''CertificateAuthority''\<rparr>)"

definition eks_of :: "json \<Rightarrow> eks_auth res" where
  "eks_of = unmarshal_strings (cloud_fields @ [''ClusterName'', ''Region'', ''Profile''])
     (\<lambda>kvs. \<lparr>ca_endpoint = text_at kvs ''Endpoint'', ca_certificate = text_at kvs ''CertificateAuthority'',
        ea_cluster_name = text_at kvs ''ClusterName'', ea_region = text_at kvs ''Region'',
        ea_profile = text_at kvs ''Profile'', ea_credentials = map_of kvs ''Credentials''\<rparr>)"

definition aks_of :: "json \<Rightarrow> aks_auth res" where
  "aks_of = unmarshal_strings (cloud_fields @ [''SubscriptionId'', ''ResourceGroup'', ''ClusterName'', ''Scope''])
     (\<lambda>kvs. \<lparr>ca_endpoint = text_at kvs ''Endpoint'', ca_certificate = text_at kvs ''CertificateAuthority'',
        aa_subscription = text_at kvs ''SubscriptionId'', aa_resource_group = text_at kvs ''ResourceGroup'',
        aa_cluster_name = text_at kvs ''ClusterName'', aa_scope = text_at kvs ''Scope'',
        aa_credentials = map_of kvs ''Credentials''\<rparr>)"

definition gke_of :: "json \<Rightarrow> gke_auth res" where
  "gke_of = unmarshal_strings (cloud_fields @ [''ProjectId'', ''Location'', ''ClusterName''])
     (\<lambda>kvs. \<lparr>ca_endpoint = text_at kvs ''Endpoint'', ca_certificate = text_at kvs ''CertificateAuthority'',
        ga_project = text_at kvs ''ProjectId'', ga_location = text_at kvs ''Location'',
        ga_cluster_name = text_at kvs ''ClusterName'', ga_credentials = map_of kvs ''Credentials''\<rparr>)"

definition oidc_fields :: "string list" where
  "oidc_fields = cloud_fields @ [''Type'', ''Audience'']"

definition oidc_build :: "jobject \<Rightarrow> oidc_auth" where
  "oidc_build kvs =
     \<lparr>ca_endpoint = text_at kvs ''Endpoint'', ca_certificate = text_at kvs ''CertificateAuthority'',
      oa_type = text_at kvs ''Type'', oa_audience = text_at kvs ''Audience''\<rparr>"

definition ovh_of :: "json \<Rightarrow> ovh_auth res" where
  "ovh_of = unmarshal_strings (cloud_fields @ [''ServiceName'', ''ClusterId''])
     (\<lambda>kvs. \<lparr>ca_endpoint = text_at kvs ''Endpoint'', ca_certificate = text_at kvs ''CertificateAuthority'',
        va_service_name = text_at kvs ''ServiceName'', va_cluster_id = text_at kvs ''ClusterId''\<rparr>)"

definition oci_of :: "json \<Rightarrow> oci_auth res" where
  "oci_of = unmarshal_strings (cloud_fields @ [''ClusterOcid'', ''Region''])
     (\<lambda>kvs. \<lparr>ca_endpoint = text_at kvs ''Endpoint'', ca_certificate = text_at kvs ''CertificateAuthority'',
        ia_cluster_ocid = text_at kvs ''ClusterOcid'', ia_region = text_at kvs ''Region''\<rparr>)"

subsection \<open>Credentials\<close>

text \<open>\<open>DisallowUnknownFields\<close>; a document is one value, so nothing trails it.\<close>

definition unknown_field :: "string \<Rightarrow> gerr" where
  "unknown_field k = new_error (''json: unknown field '' @ [CHR 0x22] @ k @ [CHR 0x22])"

definition decode_strict :: "string list \<Rightarrow> (jobject \<Rightarrow> 'r) \<Rightarrow> json \<Rightarrow> 'r res" where
  "decode_strict names build j =
     (case find (\<lambda>k. k \<notin> set names) (case j of JObj kvs \<Rightarrow> map fst kvs | _ \<Rightarrow> []) of
        Some k \<Rightarrow> Inl (unknown_field k)
      | None \<Rightarrow> unmarshal_strings names build j)"

definition aws_fields :: "string list" where "aws_fields = [''Type'', ''RoleArn'']"

definition azure_fields :: "string list" where "azure_fields = [''Type'', ''TenantId'', ''ClientId'']"

definition gcp_fields :: "string list" where
  "gcp_fields = [''Type'', ''WorkloadIdentityProvider'', ''ServiceAccountEmail'']"

definition aws_build :: "jobject \<Rightarrow> aws_credentials" where
  "aws_build kvs = \<lparr>wc_type = text_at kvs ''Type'', wc_role_arn = text_at kvs ''RoleArn''\<rparr>"

definition azure_build :: "jobject \<Rightarrow> azure_credentials" where
  "azure_build kvs = \<lparr>zc_type = text_at kvs ''Type'', zc_tenant = text_at kvs ''TenantId'', zc_client = text_at kvs ''ClientId''\<rparr>"

definition gcp_build :: "jobject \<Rightarrow> gcp_credentials" where
  "gcp_build kvs = \<lparr>gc_type = text_at kvs ''Type'', gc_provider = text_at kvs ''WorkloadIdentityProvider'',
     gc_email = text_at kvs ''ServiceAccountEmail''\<rparr>"

definition credentials_absent :: "json option \<Rightarrow> bool" where
  "credentials_absent c \<longleftrightarrow> c = None \<or> c = Some JNull"

definition decode_oidc_credentials :: "string \<Rightarrow> string list \<Rightarrow> (jobject \<Rightarrow> 'r) \<Rightarrow> json option \<Rightarrow> 'r res" where
  "decode_oidc_credentials provider names build c =
     (case c of
        None \<Rightarrow> Inl (new_error (provider @ '' auth Credentials: malformed object''))
      | Some raw \<Rightarrow>
          (case unmarshal_strings [''Type''] (\<lambda>kvs. text_at kvs ''Type'') raw of
             Inl e \<Rightarrow> Inl (new_error (provider @ '' auth Credentials: malformed object''))
           | Inr type \<Rightarrow>
               if type \<noteq> ''Oidc'' then Inl (new_error (provider @ '' auth Credentials.Type must be Oidc''))
               else (case decode_strict names build raw of
                       Inl e \<Rightarrow> Inl (wrap_error (provider @ '' auth Credentials'') e)
                     | Inr r \<Rightarrow> Inr r)))"

subsection \<open>Validation\<close>

definition validate_explicit_connection :: "crypto \<Rightarrow> 'a cloud_auth_scheme \<Rightarrow> string res" where
  "validate_explicit_connection cy connection =
     (case canonical_https_origin cy (ca_endpoint connection) of
        Inl e \<Rightarrow> Inl (new_error ''invalid Endpoint: must be an HTTPS origin'')
      | Inr endpoint \<Rightarrow>
          if validate_certificate_authority cy (ca_certificate connection) then Inr endpoint
          else Inl (new_error ''CertificateAuthority must be nonempty base64-encoded PEM certificates''))"

definition wrap_auth :: "string \<Rightarrow> gerr \<Rightarrow> gerr" where
  "wrap_auth prefix e = GErr (err_is e) (err_as e) (err_api e) (prefix @ err_msg e)"

definition default_aks_scope :: string where
  "default_aks_scope = ''6dae42f8-4368-4678-94ff-3960e28e3630/.default''"

definition validate_eks :: "crypto \<Rightarrow> eks_auth \<Rightarrow> gerr option" where
  "validate_eks cy a =
     (if credentials_absent (ea_credentials a) then None
      else if ea_profile a \<noteq> [] then Some (new_error ''EKS auth Profile cannot be combined with Credentials'')
      else (case validate_explicit_connection cy a of
              Inl e \<Rightarrow> Some (wrap_auth ''EKS auth '' e)
            | Inr _ \<Rightarrow>
                if ea_cluster_name a = [] then Some (new_error ''EKS auth ClusterName is required'')
                else if \<not> is_commercial_region (ea_region a)
                then Some (new_error ''EKS auth Region must be an explicit commercial AWS region'')
                else (case decode_oidc_credentials ''EKS'' aws_fields aws_build (ea_credentials a) of
                        Inl e \<Rightarrow> Some e
                      | Inr creds \<Rightarrow>
                          if aws_role_arn (wc_role_arn creds) then None
                          else Some (new_error ''EKS auth Credentials.RoleArn must be a commercial AWS IAM role ARN''))))"

definition validate_aks :: "crypto \<Rightarrow> aks_auth \<Rightarrow> gerr option" where
  "validate_aks cy a =
     (if credentials_absent (aa_credentials a) then None
      else (case validate_explicit_connection cy a of
              Inl e \<Rightarrow> Some (wrap_auth ''AKS auth '' e)
            | Inr _ \<Rightarrow>
                if aa_scope a \<noteq> [] \<and> aa_scope a \<noteq> default_aks_scope
                then Some (new_error ''AKS auth Scope must be the standard AKS scope'')
                else (case decode_oidc_credentials ''AKS'' azure_fields azure_build (aa_credentials a) of
                        Inl e \<Rightarrow> Some e
                      | Inr creds \<Rightarrow>
                          if \<not> valid_canonical_uuid (zc_tenant creds) False
                          then Some (new_error ''AKS auth Credentials.TenantId must be a canonical UUID'')
                          else if \<not> valid_canonical_uuid (zc_client creds) False
                          then Some (new_error ''AKS auth Credentials.ClientId must be a canonical UUID'')
                          else None)))"

definition validate_gke :: "crypto \<Rightarrow> gke_auth \<Rightarrow> gerr option" where
  "validate_gke cy a =
     (if credentials_absent (ga_credentials a) then None
      else (case validate_explicit_connection cy a of
              Inl e \<Rightarrow> Some (wrap_auth ''GKE auth '' e)
            | Inr _ \<Rightarrow>
                (case decode_oidc_credentials ''GKE'' gcp_fields gcp_build (ga_credentials a) of
                   Inl e \<Rightarrow> Some e
                 | Inr creds \<Rightarrow>
                     if \<not> gcp_provider (gc_provider creds)
                     then Some (new_error ''GKE auth Credentials.WorkloadIdentityProvider must be a canonical workload identity provider name'')
                     else if gc_email creds \<noteq> [] \<and> \<not> service_account (gc_email creds)
                     then Some (new_error ''GKE auth Credentials.ServiceAccountEmail must be a canonical service account email'')
                     else None)))"

definition validate_oidc :: "crypto \<Rightarrow> oidc_auth \<Rightarrow> gerr option" where
  "validate_oidc cy a =
     (case validate_explicit_connection cy a of
        Inl e \<Rightarrow> Some (wrap_auth ''oidc auth '' e)
      | Inr _ \<Rightarrow>
          if valid_audience (oa_audience a) then None
          else Some (new_error ''oidc auth Audience must be urn:formae:kubernetes:<canonical UUID>''))"

definition validate_auth_config :: "crypto \<Rightarrow> config \<Rightarrow> gerr option" where
  "validate_auth_config cy c =
     (if cf_type c = ''EKS'' then
        (case eks_of (cf_auth c) of Inl e \<Rightarrow> Some (wrap_error ''EKS auth config'' e) | Inr a \<Rightarrow> validate_eks cy a)
      else if cf_type c = ''AKS'' then
        (case aks_of (cf_auth c) of Inl e \<Rightarrow> Some (wrap_error ''AKS auth config'' e) | Inr a \<Rightarrow> validate_aks cy a)
      else if cf_type c = ''GKE'' then
        (case gke_of (cf_auth c) of Inl e \<Rightarrow> Some (wrap_error ''GKE auth config'' e) | Inr a \<Rightarrow> validate_gke cy a)
      else if cf_type c = ''Oidc'' then
        (case decode_strict oidc_fields oidc_build (cf_auth c) of
           Inl e \<Rightarrow> Some (wrap_error ''oidc auth config'' e)
         | Inr a \<Rightarrow> validate_oidc cy a)
      else None)"

subsection \<open>Unresolved references\<close>

definition child_path :: "string \<Rightarrow> string \<Rightarrow> string" where
  "child_path path name = (if path \<noteq> [] then path @ ''.'' @ name else name)"

definition item_path :: "string \<Rightarrow> nat \<Rightarrow> string" where
  "item_path path i = path @ ''['' @ itoa (int i) @ '']''"

function collect_unflattened_references :: "json \<Rightarrow> string \<Rightarrow> string list \<Rightarrow> string list" where
  "collect_unflattened_references (JObj kvs) path names =
     (if has_key kvs ''$res'' then names @ [path]
      else if has_key kvs ''$ref'' then names @ [path]
      else fold (\<lambda>(name, child) ns. collect_unflattened_references child (child_path path name) ns) kvs names)"
| "collect_unflattened_references (JArr vs) path names =
     fold (\<lambda>(i, child) ns. collect_unflattened_references child (item_path path i) ns) (enumerate 0 vs) names"
| "collect_unflattened_references JNull path names = names"
| "collect_unflattened_references (JBool b) path names = names"
| "collect_unflattened_references (JNum n) path names = names"
| "collect_unflattened_references (JStr s) path names = names"
  by pat_completeness auto

termination
  by (relation "measure (size \<circ> fst)")
    (auto simp: in_set_enumerate_eq intro: size_json_pair size_json_elem [OF nth_mem])

definition guard_no_unflattened_references :: "json \<Rightarrow> gerr option" where
  "guard_no_unflattened_references auth =
     (let names = collect_unflattened_references auth [] [] in
      if names = [] then None
      else Some (new_error (''target config Auth carries unresolved formae reference(s) in '' @
        join_with '', '' (sort names) @ '': formae flattens a resolved reference to its value before the plugin sees it, '' @
        ''so this reference did not resolve'')))"

subsection \<open>Parsing a target\<close>

definition no_dependencies :: auth_dependencies where
  "no_dependencies = \<lparr>ad_oidc_source = False, ad_allowed = []\<rparr>"

definition from_target_config :: "crypto \<Rightarrow> raw \<Rightarrow> config res" where
  "from_target_config cy target =
     (case target of
        None \<Rightarrow> Inl (new_error ''empty target config'')
      | Some (Inl e) \<Rightarrow> Inl (wrap_error ''failed to parse target config'' e)
      | Some (Inr doc) \<Rightarrow>
          (case unmarshal_strings [''KubernetesVersion'']
                  (\<lambda>kvs. (map_of kvs ''Auth'', text_at kvs ''KubernetesVersion'')) doc of
             Inl e \<Rightarrow> Inl (wrap_error ''failed to parse target config'' e)
           | Inr (auth, version) \<Rightarrow>
               (case (if auth = Some JNull then None else auth) of
                  None \<Rightarrow> Inl (new_error ''target config missing required Auth block'')
                | Some a \<Rightarrow>
                    (case unmarshal_strings [''Type''] (\<lambda>kvs. text_at kvs ''Type'') a of
                       Inl e \<Rightarrow> Inl (wrap_error ''failed to parse auth type'' e)
                     | Inr type \<Rightarrow>
                         if type = [] then Inl (new_error ''target config Auth block missing required Type field'')
                         else (case guard_no_unflattened_references a of
                                 Some e \<Rightarrow> Inl e
                               | None \<Rightarrow>
                                   let cfg = \<lparr>cf_auth = a, cf_version = version, cf_type = type,
                                              cf_deps = no_dependencies\<rparr>
                                   in (case validate_auth_config cy cfg of
                                         Some e \<Rightarrow> Inl e
                                       | None \<Rightarrow> Inr cfg))))))"

definition set_auth_dependencies :: "auth_dependencies \<Rightarrow> config \<Rightarrow> config" where
  "set_auth_dependencies deps c = c\<lparr>cf_deps := deps\<rparr>"

subsection \<open>Method and policy\<close>

definition unsupported_type :: "config \<Rightarrow> gerr" where
  "unsupported_type c = new_error (''unsupported auth type: '' @ cf_type c)"

definition auth_method :: "config \<Rightarrow> string res" where
  "auth_method c =
     (if cf_type c = ''EKS'' then
        (case eks_of (cf_auth c) of
           Inl e \<Rightarrow> Inl (wrap_error ''EKS auth config'' e)
         | Inr a \<Rightarrow> Inr (if \<not> credentials_absent (ea_credentials a) then ''EKS:Oidc'' else ''EKS:DefaultChain''))
      else if cf_type c = ''AKS'' then
        (case aks_of (cf_auth c) of
           Inl e \<Rightarrow> Inl (wrap_error ''AKS auth config'' e)
         | Inr a \<Rightarrow> Inr (if \<not> credentials_absent (aa_credentials a) then ''AKS:Oidc'' else ''AKS:DefaultChain''))
      else if cf_type c = ''GKE'' then
        (case gke_of (cf_auth c) of
           Inl e \<Rightarrow> Inl (wrap_error ''GKE auth config'' e)
         | Inr a \<Rightarrow> Inr (if \<not> credentials_absent (ga_credentials a) then ''GKE:Oidc'' else ''GKE:ADC''))
      else if cf_type c = ''Oidc'' \<or> cf_type c = ''Kubeconfig'' \<or> cf_type c = ''OVH'' \<or> cf_type c = ''OCI''
      then Inr (cf_type c)
      else Inl (unsupported_type c))"

definition uses_oidc :: "config \<Rightarrow> bool" where
  "uses_oidc c =
     (case auth_method c of
        Inl e \<Rightarrow> False
      | Inr method \<Rightarrow> method = ''Oidc'' \<or> has_suffix method '':Oidc'')"

definition validate_auth_policy :: "string list \<Rightarrow> config \<Rightarrow> gerr option" where
  "validate_auth_policy allowed c =
     (if allowed = [] then None
      else (case auth_method c of
              Inl e \<Rightarrow> Some e
            | Inr method \<Rightarrow>
                if list_ex (\<lambda>candidate. candidate = method) allowed then None
                else Some (new_error (''authentication method '' @ method @ '' is not allowed by operator policy''))))"

subsection \<open>Settings\<close>

definition supported_auth_methods :: "string list" where
  "supported_auth_methods =
     [''EKS:Oidc'', ''AKS:Oidc'', ''GKE:Oidc'', ''Oidc'', ''EKS:DefaultChain'', ''AKS:DefaultChain'', ''GKE:ADC'',
      ''Kubeconfig'', ''OVH'', ''OCI'']"

record settings =
  se_crd_seconds :: int
  se_allowed :: "string list"

definition settings_error :: "string \<Rightarrow> gerr" where
  "settings_error msg = new_error (''parse k8s plugin config: allowedAuthMethods contains '' @ msg)"

fun check_methods :: "string list \<Rightarrow> string list \<Rightarrow> gerr option" where
  "check_methods seen [] = None"
| "check_methods seen (m # ms) =
     (if m \<notin> set supported_auth_methods then Some (settings_error (''unsupported value '' @ quoted m))
      else if m \<in> set seen then Some (settings_error (''duplicate value '' @ quoted m))
      else check_methods (m # seen) ms)"

text \<open>An \<open>int\<close> is decoded from an integral number of 64 bits; a null element keeps the empty string.\<close>

definition decode_seconds :: "json option \<Rightarrow> int res" where
  "decode_seconds j =
     (case j of
        None \<Rightarrow> Inr 0
      | Some JNull \<Rightarrow> Inr 0
      | Some (JNum n) \<Rightarrow> if min_int64 \<le> n \<and> n \<le> max_int64 then Inr n else Inl (json_type_error ''crdEstablishTimeoutSeconds'')
      | _ \<Rightarrow> Inl (json_type_error ''crdEstablishTimeoutSeconds''))"

definition decode_methods :: "json option \<Rightarrow> string list res" where
  "decode_methods j =
     (case j of
        None \<Rightarrow> Inr []
      | Some JNull \<Rightarrow> Inr []
      | Some (JArr vs) \<Rightarrow>
          if list_all (\<lambda>v. v = JNull \<or> is_string (Some v)) vs then Inr (map (\<lambda>v. as_string (Some v)) vs)
          else Inl (json_type_error ''allowedAuthMethods'')
      | _ \<Rightarrow> Inl (json_type_error ''allowedAuthMethods''))"

definition no_settings :: settings where
  "no_settings = \<lparr>se_crd_seconds = 0, se_allowed = []\<rparr>"

definition parse_settings :: "raw \<Rightarrow> settings res" where
  "parse_settings raw =
     (case raw of
        None \<Rightarrow> Inr no_settings
      | Some (Inr JNull) \<Rightarrow> Inr no_settings
      | Some (Inl e) \<Rightarrow> Inl (wrap_error ''parse k8s plugin config'' e)
      | Some (Inr doc) \<Rightarrow>
          (case (case doc of
                   JObj kvs \<Rightarrow>
                     bind_res (decode_seconds (map_of kvs ''crdEstablishTimeoutSeconds'')) (\<lambda>secs.
                     bind_res (decode_methods (map_of kvs ''allowedAuthMethods'')) (\<lambda>methods.
                       Inr \<lparr>se_crd_seconds = secs, se_allowed = methods\<rparr>))
                 | _ \<Rightarrow> Inl (json_type_error [])) of
             Inl e \<Rightarrow> Inl (wrap_error ''parse k8s plugin config'' e)
           | Inr s \<Rightarrow> (case check_methods [] (se_allowed s) of Some e \<Rightarrow> Inl e | None \<Rightarrow> Inr s)))"

text \<open>The package's stored settings, of which only the timeout is kept; a 64-bit product of seconds.\<close>

definition set_settings :: "raw \<Rightarrow> settings option \<Rightarrow> gerr option \<times> settings option" where
  "set_settings raw stored =
     (case parse_settings raw of
        Inl e \<Rightarrow> (Some e, stored)
      | Inr s \<Rightarrow>
          if raw = None \<or> raw = Some (Inr JNull) then (None, stored)
          else (None, Some \<lparr>se_crd_seconds = se_crd_seconds s, se_allowed = []\<rparr>))"

definition crd_establish_timeout :: "settings option \<Rightarrow> duration" where
  "crd_establish_timeout stored =
     (case stored of
        Some s \<Rightarrow> if se_crd_seconds s > 0 then word_of_int (se_crd_seconds s) * word_of_int second
                  else 3 * 60 * word_of_int second
      | None \<Rightarrow> 3 * 60 * word_of_int second)"

subsection \<open>Identity\<close>

definition cloud_identity :: "crypto \<Rightarrow> 'a cloud_auth_scheme \<Rightarrow> (string \<times> string) list" where
  "cloud_identity cy a =
     [(''Endpoint'', case canonical_https_origin cy (ca_endpoint a) of Inr canonical \<Rightarrow> canonical | Inl e \<Rightarrow> ca_endpoint a),
      (''CertificateAuthority'', ca_certificate a)]"

definition strict_credentials ::
  "string list \<Rightarrow> (jobject \<Rightarrow> 'r) \<Rightarrow> json option \<Rightarrow> ('r \<Rightarrow> (string \<times> string) list) \<Rightarrow> (string \<times> string) list res" where
  "strict_credentials names build c entries =
     (case c of
        None \<Rightarrow> Inr []
      | Some JNull \<Rightarrow> Inr []
      | Some raw \<Rightarrow> (case decode_strict names build raw of Inl e \<Rightarrow> Inl e | Inr r \<Rightarrow> Inr (entries r)))"

definition eks_identity :: "crypto \<Rightarrow> eks_auth \<Rightarrow> (string \<times> string) list res" where
  "eks_identity cy a =
     bind_res (strict_credentials aws_fields aws_build (ea_credentials a)
        (\<lambda>r. [(''Credentials.Type'', wc_type r), (''Credentials.RoleArn'', wc_role_arn r)])) (\<lambda>creds.
       Inr (cloud_identity cy a @ [(''ClusterName'', ea_cluster_name a), (''Region'', ea_region a),
         (''Profile'', ea_profile a)] @ creds))"

definition aks_identity :: "crypto \<Rightarrow> aks_auth \<Rightarrow> (string \<times> string) list res" where
  "aks_identity cy a =
     bind_res (strict_credentials azure_fields azure_build (aa_credentials a)
        (\<lambda>r. [(''Credentials.Type'', zc_type r), (''Credentials.TenantId'', zc_tenant r),
           (''Credentials.ClientId'', zc_client r)])) (\<lambda>creds.
       Inr (cloud_identity cy a @ [(''SubscriptionId'', aa_subscription a), (''ResourceGroup'', aa_resource_group a),
         (''ClusterName'', aa_cluster_name a),
         (''Scope'', if aa_scope a = [] then default_aks_scope else aa_scope a)] @ creds))"

definition gke_identity :: "crypto \<Rightarrow> gke_auth \<Rightarrow> (string \<times> string) list res" where
  "gke_identity cy a =
     bind_res (strict_credentials gcp_fields gcp_build (ga_credentials a)
        (\<lambda>r. [(''Credentials.Type'', gc_type r), (''Credentials.WorkloadIdentityProvider'', gc_provider r),
           (''Credentials.ServiceAccountEmail'', gc_email r)])) (\<lambda>creds.
       Inr (cloud_identity cy a @ [(''ProjectId'', ga_project a), (''Location'', ga_location a),
         (''ClusterName'', ga_cluster_name a)] @ creds))"

definition oidc_of :: "json \<Rightarrow> oidc_auth res" where
  "oidc_of = unmarshal_strings oidc_fields oidc_build"

definition type_identity :: "crypto \<Rightarrow> config \<Rightarrow> (string \<times> string) list res" where
  "type_identity cy c =
     (if cf_type c = ''Kubeconfig'' then
        bind_res (kubeconfig_of (cf_auth c)) (\<lambda>a.
          Inr [(''Context'', kc_context a), (''Kubeconfig'', kc_kubeconfig a)])
      else if cf_type c = ''EKS'' then bind_res (eks_of (cf_auth c)) (eks_identity cy)
      else if cf_type c = ''AKS'' then bind_res (aks_of (cf_auth c)) (aks_identity cy)
      else if cf_type c = ''GKE'' then bind_res (gke_of (cf_auth c)) (gke_identity cy)
      else if cf_type c = ''Oidc'' then
        bind_res (oidc_of (cf_auth c)) (\<lambda>a. Inr (cloud_identity cy a @ [(''Audience'', oa_audience a)]))
      else if cf_type c = ''OVH'' then
        bind_res (ovh_of (cf_auth c)) (\<lambda>a. Inr (cloud_identity cy a @
          [(''ServiceName'', va_service_name a), (''ClusterId'', va_cluster_id a)]))
      else if cf_type c = ''OCI'' then
        bind_res (oci_of (cf_auth c)) (\<lambda>a. Inr (cloud_identity cy a @
          [(''ClusterOcid'', ia_cluster_ocid a), (''Region'', ia_region a)]))
      else Inl (unsupported_type c))"

definition auth_identity :: "crypto \<Rightarrow> config \<Rightarrow> (string \<times> string) list res" where
  "auth_identity cy c =
     bind_res (type_identity cy c) (\<lambda>entries.
       let identity = (''Type'', cf_type c) # entries in
       case map_of identity ''CertificateAuthority'' of
         None \<Rightarrow> Inr identity
       | Some ca \<Rightarrow>
           if ca = [] then Inr identity
           else (case b64_decode ca of
                   None \<Rightarrow> Inl (new_error ''CertificateAuthority must be valid base64'')
                 | Some decoded \<Rightarrow> Inr (AList.update ''CertificateAuthority'' (cy_sha256 cy decoded) identity)))"

definition auth_fingerprint :: "crypto \<Rightarrow> config \<Rightarrow> string res" where
  "auth_fingerprint cy c =
     (case auth_identity cy c of
        Inl e \<Rightarrow> Inl e
      | Inr identity \<Rightarrow>
          Inr (''sha256:'' @ cy_sha256_json cy (canon (JObj (map (\<lambda>(k, v). (k, JStr v)) identity)))))"

definition cluster_key :: "crypto \<Rightarrow> config \<Rightarrow> string res" where
  "cluster_key cy c =
     (if cf_type c = ''Kubeconfig'' then
        (case kubeconfig_of (cf_auth c) of
           Inl e \<Rightarrow> Inl e
         | Inr a \<Rightarrow> Inr (''Kubeconfig|'' @ kc_kubeconfig a @ ''|'' @ kc_context a))
      else (case cloud_of (cf_auth c) of
              Inl e \<Rightarrow> Inl (wrap_error (''ClusterKey: parse '' @ cf_type c @ '' auth'') e)
            | Inr cloud \<Rightarrow>
                if ca_endpoint cloud \<noteq> []
                then (case canonical_https_origin cy
                             (if contains (ca_endpoint cloud) ''://'' then ca_endpoint cloud
                              else ''https://'' @ ca_endpoint cloud) of
                        Inl e \<Rightarrow> Inl (new_error ''ClusterKey: Endpoint must be an HTTPS origin'')
                      | Inr canonical \<Rightarrow> Inr (''Endpoint|'' @ canonical))
                else if cf_type c = ''AKS''
                then (case aks_of (cf_auth c) of
                        Inl e \<Rightarrow> Inl e
                      | Inr a \<Rightarrow> Inr (''AKS|'' @ aa_subscription a @ ''|'' @ aa_resource_group a @ ''|'' @ aa_cluster_name a))
                else Inl (new_error (''ClusterKey: '' @ cf_type c @ '' auth missing Endpoint''))))"

subsection \<open>What the reference guard finds\<close>

text \<open>The envelopes reachable from a value, each by the path of the outermost one around it.\<close>

definition is_envelope :: "jobject \<Rightarrow> bool" where
  "is_envelope kvs \<longleftrightarrow> has_key kvs ''$res'' \<or> has_key kvs ''$ref''"

inductive reference_at :: "json \<Rightarrow> string \<Rightarrow> string \<Rightarrow> bool" where
  Here: "is_envelope kvs \<Longrightarrow> reference_at (JObj kvs) path path"
| Field: "\<lbrakk>\<not> is_envelope kvs; (k, v) \<in> set kvs; reference_at v (child_path path k) q\<rbrakk> \<Longrightarrow> reference_at (JObj kvs) path q"
| Item: "\<lbrakk>i < length vs; reference_at (vs ! i) (item_path path i) q\<rbrakk> \<Longrightarrow> reference_at (JArr vs) path q"

inductive carries_reference :: "json \<Rightarrow> bool" where
  "is_envelope kvs \<Longrightarrow> carries_reference (JObj kvs)"
| "\<lbrakk>(k, v) \<in> set kvs; carries_reference v\<rbrakk> \<Longrightarrow> carries_reference (JObj kvs)"
| "\<lbrakk>v \<in> set vs; carries_reference v\<rbrakk> \<Longrightarrow> carries_reference (JArr vs)"

inductive_simps reference_at_simps:
  "reference_at JNull path q" "reference_at (JBool b) path q" "reference_at (JNum n) path q"
  "reference_at (JStr s) path q" "reference_at (JArr vs) path q" "reference_at (JObj kvs) path q"

inductive_simps carries_reference_simps:
  "carries_reference JNull" "carries_reference (JBool b)" "carries_reference (JNum n)"
  "carries_reference (JStr s)" "carries_reference (JArr vs)" "carries_reference (JObj kvs)"

lemma set_fold_collect:
  assumes "\<And>x ns. x \<in> set xs \<Longrightarrow> set (f x ns) = set ns \<union> P x"
  shows "set (fold f xs ns) = set ns \<union> (\<Union>x \<in> set xs. P x)"
  using assms by (induction xs arbitrary: ns) auto

lemma set_collect_references:
  "set (collect_unflattened_references j path names) = set names \<union> {q. reference_at j path q}"
proof (induction j arbitrary: path names rule: json_induct)
  case (Arr vs)
  have "set (fold (\<lambda>(i, child) ns. collect_unflattened_references child (item_path path i) ns) (enumerate 0 vs) names) =
      set names \<union> (\<Union>x \<in> set (enumerate 0 vs). {q. reference_at (snd x) (item_path path (fst x)) q})"
    by (rule set_fold_collect) (auto simp: Arr in_set_enumerate_eq)
  moreover have "(\<Union>x \<in> set (enumerate 0 vs). {q. reference_at (snd x) (item_path path (fst x)) q}) =
      {q. \<exists>i < length vs. reference_at (vs ! i) (item_path path i) q}"
    by (simp add: set_eq_iff in_set_enumerate_eq Bex_def)
  ultimately show ?case
    by (auto simp: reference_at_simps)
next
  case (Obj kvs)
  have "set (fold (\<lambda>(name, child) ns. collect_unflattened_references child (child_path path name) ns) kvs names) =
      set names \<union> (\<Union>x \<in> set kvs. {q. reference_at (snd x) (child_path path (fst x)) q})"
    by (rule set_fold_collect) (auto simp: Obj)
  then show ?case
    by (auto simp: reference_at_simps is_envelope_def)
qed (auto simp: reference_at_simps)

lemma reference_at_carries: "(\<exists>q. reference_at j path q) \<longleftrightarrow> carries_reference j"
proof (induction j arbitrary: path rule: json_induct)
  case (Arr vs)
  then show ?case
    by (simp add: reference_at_simps carries_reference_simps) (metis in_set_conv_nth)
next
  case (Obj kvs)
  have "(\<exists>q k v. (k, v) \<in> set kvs \<and> reference_at v (child_path path k) q) \<longleftrightarrow>
      (\<exists>k v. (k, v) \<in> set kvs \<and> carries_reference v)"
    using Obj by metis
  then show ?case
    unfolding reference_at_simps carries_reference_simps by blast
qed (auto simp: reference_at_simps carries_reference_simps)

text \<open>C29: The guard accepts an authentication block exactly when no object in it, at any depth, is a
  reference envelope, and what it names otherwise are exactly the paths of the outermost envelopes.\<close>

theorem reference_guard_exact:
  "(guard_no_unflattened_references auth = None \<longleftrightarrow> \<not> carries_reference auth) \<and>
   set (collect_unflattened_references auth [] []) = {q. reference_at auth [] q}"
proof -
  have refs: "set (collect_unflattened_references auth [] []) = {q. reference_at auth [] q}"
    using set_collect_references [of auth "[]" "[]"] by simp
  moreover have "collect_unflattened_references auth [] [] = [] \<longleftrightarrow> \<not> carries_reference auth"
    unfolding set_empty [symmetric] refs using reference_at_carries [of auth "[]"] by auto
  ultimately show ?thesis
    by (simp add: guard_no_unflattened_references_def Let_def)
qed

subsection \<open>What a parsed target guarantees\<close>

lemma from_target_config_accepts:
  assumes "from_target_config cy target = Inr c"
  obtains kvs where "cf_auth c = JObj kvs" and "text_at kvs ''Type'' = cf_type c" and "cf_type c \<noteq> []"
    and "validate_auth_config cy c = None" and "cf_deps c = no_dependencies"
proof -
  from assms obtain doc auth version where doc: "target = Some (Inr doc)"
    and top: "unmarshal_strings [''KubernetesVersion'']
      (\<lambda>kvs. (map_of kvs ''Auth'', text_at kvs ''KubernetesVersion'')) doc = Inr (auth, version)"
    by (auto simp: from_target_config_def split: option.splits sum.splits)
  with assms obtain a type where a: "auth = Some a" "a \<noteq> JNull"
    and type: "unmarshal_strings [''Type''] (\<lambda>kvs. text_at kvs ''Type'') a = Inr type" "type \<noteq> []"
    and guard: "guard_no_unflattened_references a = None"
    and c: "c = \<lparr>cf_auth = a, cf_version = version, cf_type = type, cf_deps = no_dependencies\<rparr>"
    and valid: "validate_auth_config cy c = None"
    by (auto simp: from_target_config_def Let_def split: option.splits sum.splits if_splits)
  from type(1) a(2) obtain kvs where "a = JObj kvs" "type = text_at kvs ''Type''"
    by (cases a) (auto split: option.splits)
  then show thesis
    using that c valid type(2) by simp
qed

end
