(* ===== verification/Auth_Runtime.thy ===== *)
theory Auth_Runtime
  imports Auth_Config Auth_Bridge
begin

text \<open>
  How a configuration reaches the API server (\<open>pkg/config/config.go\<close>, \<open>runtime_auth.go\<close>): the checks before
  any cached access, the credential source behind each method, and the connection. \<open>clientcmd\<close>, the cloud
  providers' describe calls and their transports are parameters.
\<close>

subsection \<open>Operations\<close>

text \<open>What the code reads of a context: its error, and the marker \<open>NewOperationContext\<close> leaves, the
  done channel of the operation (\<open>None\<close> when there is none, otherwise whether it is closed).\<close>

record op_context =
  ox_err :: "gerr option"
  ox_done :: "bool option"

definition new_operation_context :: "gerr option \<Rightarrow> op_context" where
  "new_operation_context parent_err = \<lparr>ox_err = parent_err, ox_done = Some (parent_err \<noteq> None)\<rparr>"

definition no_oidc_broker :: gerr where
  "no_oidc_broker = sentinel_error ErrNoOidcBroker ''no OIDC broker''"

definition check_operation :: "op_context \<Rightarrow> gerr option" where
  "check_operation ctx =
     (case ox_err ctx of
        Some e \<Rightarrow> Some e
      | None \<Rightarrow>
          (case ox_done ctx of
             None \<Rightarrow> Some no_oidc_broker
           | Some True \<Rightarrow> Some context_canceled
           | Some False \<Rightarrow> None))"

definition check_runtime :: "config \<Rightarrow> op_context \<Rightarrow> gerr option" where
  "check_runtime c ctx =
     (case ox_err ctx of
        Some e \<Rightarrow> Some e
      | None \<Rightarrow>
          (case validate_auth_policy (ad_allowed (cf_deps c)) c of
             Some e \<Rightarrow> Some e
           | None \<Rightarrow>
               if uses_oidc c
               then (if \<not> ad_oidc_source (cf_deps c) then Some no_oidc_broker else check_operation ctx)
               else None))"

text \<open>A token request of an operation: the check, then the cache with a service deadline.\<close>

definition operation_token ::
  "(op_context \<Rightarrow> (string \<times> instant) res) \<Rightarrow> (op_context \<Rightarrow> op_context) \<Rightarrow> op_context \<Rightarrow> (string \<times> instant) res" where
  "operation_token cached with_timeout ctx =
     (case check_operation ctx of
        Some e \<Rightarrow> Inl e
      | None \<Rightarrow> cached (with_timeout ctx))"

subsection \<open>Broker-backed sources\<close>

datatype oidc_source =
    Direct_audience string
  | Aws_role string string string
  | Azure_app string string
  | Gcp_pool string string
  | No_source

record rest_config =
  rt_host :: string
  rt_ca :: string

definition object_of :: "json \<Rightarrow> jobject" where
  "object_of j = (case j of JObj kvs \<Rightarrow> kvs | _ \<Rightarrow> [])"

text \<open>Here the decoding errors are ignored: a field of another type keeps its zero value.\<close>

definition oidc_source_of :: "config \<Rightarrow> oidc_source" where
  "oidc_source_of c =
     (let a = object_of (cf_auth c);
          identity = (case map_of a ''Credentials'' of Some j \<Rightarrow> object_of j | None \<Rightarrow> []) in
      if cf_type c = ''Oidc'' then Direct_audience (text_at a ''Audience'')
      else if cf_type c = ''EKS''
      then Aws_role (text_at identity ''RoleArn'') (text_at a ''Region'') (text_at a ''ClusterName'')
      else if cf_type c = ''AKS'' then Azure_app (text_at identity ''TenantId'') (text_at identity ''ClientId'')
      else if cf_type c = ''GKE''
      then Gcp_pool (text_at identity ''WorkloadIdentityProvider'') (text_at identity ''ServiceAccountEmail'')
      else No_source)"

definition invalid_base64 :: gerr where
  "invalid_base64 = new_error ''illegal base64 data''"

definition oidc_parts :: "config \<Rightarrow> (rest_config \<times> oidc_source) res" where
  "oidc_parts c =
     (if \<not> ad_oidc_source (cf_deps c) then Inl no_oidc_broker
      else (case cloud_of (cf_auth c) of
              Inl e \<Rightarrow> Inl e
            | Inr cloud \<Rightarrow>
                (case b64_decode (ca_certificate cloud) of
                   None \<Rightarrow> Inl invalid_base64
                 | Some ca \<Rightarrow> Inr (\<lparr>rt_host = ca_endpoint cloud, rt_ca = ca\<rparr>, oidc_source_of c))))"

text \<open>The token source a client's transport is bound to: the callbacks' own, or a worker's queue.\<close>

datatype token_binding = Live_tokens oidc_source | Worker_tokens

record oidc_client =
  ol_rest :: rest_config
  ol_attached :: token_binding
  ol_live :: oidc_source

definition oidc_client_config :: "config \<Rightarrow> oidc_client res" where
  "oidc_client_config c =
     (case validate_auth_policy (ad_allowed (cf_deps c)) c of
        Some e \<Rightarrow> Inl e
      | None \<Rightarrow>
          if \<not> uses_oidc c then Inl (new_error ''OIDC client requires explicit OIDC'')
          else (case oidc_parts c of
                  Inl e \<Rightarrow> Inl e
                | Inr (rc, source) \<Rightarrow> Inr \<lparr>ol_rest = rc, ol_attached = Live_tokens source, ol_live = source\<rparr>))"

definition oidc_worker_config :: "config \<Rightarrow> op_context \<Rightarrow> bool \<Rightarrow> oidc_client res" where
  "oidc_worker_config c ctx has_worker =
     (case check_runtime c ctx of
        Some e \<Rightarrow> Inl e
      | None \<Rightarrow>
          if \<not> uses_oidc c \<or> \<not> has_worker
          then Inl (new_error ''OIDC worker requires explicit OIDC and a queue token source'')
          else (case oidc_parts c of
                  Inl e \<Rightarrow> Inl e
                | Inr (rc, source) \<Rightarrow> Inr \<lparr>ol_rest = rc, ol_attached = Worker_tokens, ol_live = source\<rparr>))"

subsection \<open>Provider-backed connections\<close>

definition require_auth_fields :: "string \<Rightarrow> (string \<times> string) list \<Rightarrow> gerr option" where
  "require_auth_fields auth_type entries =
     (let missing = map fst (filter (\<lambda>f. snd f = []) entries) in
      if missing = [] then None
      else Some (new_error (auth_type @ '' auth config missing required field(s): '' @ join_with '', '' (sort missing))))"

datatype provider =
    Eks_provider string string
  | Gke_provider string string string
  | Aks_provider string string string string
  | Ovh_provider string string
  | Oci_provider string string

definition connection_fields :: "'a cloud_auth_scheme \<Rightarrow> (string \<times> string) list" where
  "connection_fields a = [(''Endpoint'', ca_endpoint a), (''CertificateAuthority'', ca_certificate a)]"

definition plain_cloud :: "'a cloud_auth_scheme \<Rightarrow> cloud_auth" where
  "plain_cloud a = \<lparr>ca_endpoint = ca_endpoint a, ca_certificate = ca_certificate a\<rparr>"

definition new_eks_provider :: "config \<Rightarrow> (provider \<times> cloud_auth) res" where
  "new_eks_provider c =
     (case eks_of (cf_auth c) of
        Inl e \<Rightarrow> Inl (wrap_error ''failed to parse EKS auth config'' e)
      | Inr a \<Rightarrow>
          (case require_auth_fields ''EKS'' (connection_fields a @ [(''ClusterName'', ea_cluster_name a)]) of
             Some e \<Rightarrow> Inl e
           | None \<Rightarrow>
               let region = (if ea_region a = [] then region_from_endpoint (ca_endpoint a) else ea_region a) in
               Inr (Eks_provider (ea_cluster_name a) region, plain_cloud a)))"

definition new_gke_provider :: "config \<Rightarrow> (provider \<times> cloud_auth) res" where
  "new_gke_provider c =
     (case gke_of (cf_auth c) of
        Inl e \<Rightarrow> Inl (wrap_error ''failed to parse GKE auth config'' e)
      | Inr a \<Rightarrow>
          (case require_auth_fields ''GKE'' (connection_fields a) of
             Some e \<Rightarrow> Inl e
           | None \<Rightarrow> Inr (Gke_provider (ga_project a) (ga_location a) (ga_cluster_name a), plain_cloud a)))"

definition new_aks_provider :: "config \<Rightarrow> (provider \<times> cloud_auth) res" where
  "new_aks_provider c =
     (case aks_of (cf_auth c) of
        Inl e \<Rightarrow> Inl (wrap_error ''failed to parse AKS auth config'' e)
      | Inr a \<Rightarrow> Inr (Aks_provider (aa_subscription a) (aa_resource_group a) (aa_cluster_name a) (aa_scope a), plain_cloud a))"

definition new_ovh_provider :: "config \<Rightarrow> (provider \<times> cloud_auth) res" where
  "new_ovh_provider c =
     (case ovh_of (cf_auth c) of
        Inl e \<Rightarrow> Inl (wrap_error ''failed to parse OVH auth config'' e)
      | Inr a \<Rightarrow>
          (case require_auth_fields ''OVH'' (connection_fields a @
                  [(''ServiceName'', va_service_name a), (''ClusterId'', va_cluster_id a)]) of
             Some e \<Rightarrow> Inl e
           | None \<Rightarrow> Inr (Ovh_provider (va_service_name a) (va_cluster_id a), plain_cloud a)))"

definition new_oci_provider :: "config \<Rightarrow> (provider \<times> cloud_auth) res" where
  "new_oci_provider c =
     (case oci_of (cf_auth c) of
        Inl e \<Rightarrow> Inl (wrap_error ''failed to parse OCI auth config'' e)
      | Inr a \<Rightarrow>
          (case require_auth_fields ''OCI'' (connection_fields a @ [(''ClusterOcid'', ia_cluster_ocid a)]) of
             Some e \<Rightarrow> Inl e
           | None \<Rightarrow> Inr (Oci_provider (ia_cluster_ocid a) (ia_region a), plain_cloud a)))"

text \<open>\<open>None\<close> when the provider is not an \<open>auth.ClusterDescriber\<close>, otherwise what the cloud answers.\<close>

definition connection_details ::
  "config \<Rightarrow> (string \<times> string) res option \<Rightarrow> cloud_auth \<Rightarrow> (string \<times> string) res" where
  "connection_details c describer cloud =
     (case (if ca_certificate cloud = [] then Some [] else b64_decode (ca_certificate cloud)) of
        None \<Rightarrow> Inl (wrap_error ''failed to decode certificate authority'' invalid_base64)
      | Some ca \<Rightarrow>
          if ca_endpoint cloud \<noteq> [] \<and> ca \<noteq> [] then Inr (ca_endpoint cloud, ca)
          else (case describer of
                  None \<Rightarrow>
                    (case require_auth_fields (cf_type c) (connection_fields cloud) of
                       Some e \<Rightarrow> Inl e
                     | None \<Rightarrow> Inr ([], []))
                | Some (Inl e) \<Rightarrow> Inl e
                | Some (Inr (derived_endpoint, derived_ca)) \<Rightarrow>
                    let endpoint = (if ca_endpoint cloud = [] then derived_endpoint else ca_endpoint cloud);
                        ca = (if ca = [] then derived_ca else ca) in
                    if endpoint = [] \<or> ca = []
                    then Inl (new_error (cf_type c @
                           '' auth: the cloud returned no endpoint or certificate authority for this cluster''))
                    else Inr (endpoint, ca)))"

text \<open>The environment: \<open>$KUBECONFIG\<close>, the path of \<open>.kube/config\<close> under the home directory (\<open>None\<close> without
  one), \<open>clientcmd\<close>'s loading of a file and context, the providers' descriptions and transports.\<close>

record auth_host =
  ah_kubeconfig :: string
  ah_home_config :: "string option"
  ah_load :: "string \<Rightarrow> string \<Rightarrow> rest_config res"
  ah_describe :: "provider \<Rightarrow> (string \<times> string) res option"
  ah_transport :: "provider \<Rightarrow> rest_config \<Rightarrow> gerr option"

definition build_kubeconfig_config :: "auth_host \<Rightarrow> config \<Rightarrow> rest_config res" where
  "build_kubeconfig_config h c =
     (case kubeconfig_of (cf_auth c) of
        Inl e \<Rightarrow> Inl (wrap_error ''failed to parse kubeconfig auth'' e)
      | Inr kc \<Rightarrow>
          let path = (if kc_kubeconfig kc \<noteq> [] then kc_kubeconfig kc
                      else if ah_kubeconfig h \<noteq> [] then ah_kubeconfig h
                      else (case ah_home_config h of Some p \<Rightarrow> p | None \<Rightarrow> [])) in
          if path = [] then Inl (new_error ''no kubeconfig: set Auth.Kubeconfig, $KUBECONFIG, or $HOME'')
          else ah_load h path (kc_context kc))"

definition build_cloud_config :: "auth_host \<Rightarrow> config \<Rightarrow> (provider \<times> cloud_auth) res \<Rightarrow> rest_config res" where
  "build_cloud_config h c provided =
     (case provided of
        Inl e \<Rightarrow> Inl e
      | Inr (provider, cloud) \<Rightarrow>
          (case connection_details c (ah_describe h provider) cloud of
             Inl e \<Rightarrow> Inl e
           | Inr (endpoint, ca) \<Rightarrow>
               let rc = \<lparr>rt_host = endpoint, rt_ca = ca\<rparr> in
               (case ah_transport h provider rc of
                  Some e \<Rightarrow> Inl (wrap_error ''failed to configure auth transport'' e)
                | None \<Rightarrow> Inr rc)))"

definition to_k8s_config :: "auth_host \<Rightarrow> config \<Rightarrow> rest_config res" where
  "to_k8s_config h c =
     (case validate_auth_policy (ad_allowed (cf_deps c)) c of
        Some e \<Rightarrow> Inl e
      | None \<Rightarrow>
          if uses_oidc c then (case oidc_client_config c of Inl e \<Rightarrow> Inl e | Inr l \<Rightarrow> Inr (ol_rest l))
          else if cf_type c = ''Kubeconfig'' then build_kubeconfig_config h c
          else if cf_type c = ''EKS'' then build_cloud_config h c (new_eks_provider c)
          else if cf_type c = ''GKE'' then build_cloud_config h c (new_gke_provider c)
          else if cf_type c = ''AKS'' then build_cloud_config h c (new_aks_provider c)
          else if cf_type c = ''OVH'' then build_cloud_config h c (new_ovh_provider c)
          else if cf_type c = ''OCI'' then build_cloud_config h c (new_oci_provider c)
          else Inl (unsupported_type c))"

subsection \<open>OIDC targets are complete\<close>

lemmas unmarshal_defs = cloud_of_def eks_of_def aks_of_def gke_of_def oidc_of_def ovh_of_def oci_of_def
  kubeconfig_of_def cloud_fields_def

lemma decode_oidc_credentials_Inr:
  assumes "decode_oidc_credentials provider names build c = Inr r"
  obtains kvs where "c = Some (JObj kvs)" and "r = build kvs" and "text_at kvs ''Type'' = ''Oidc''"
proof -
  from assms obtain raw where raw: "c = Some raw" and strict: "decode_strict names build raw = Inr r"
    and type: "unmarshal_strings [''Type''] (\<lambda>kvs. text_at kvs ''Type'') raw = Inr ''Oidc''"
    by (auto simp: decode_oidc_credentials_def split: option.splits sum.splits if_splits)
  show thesis
  proof (cases raw)
    case (JObj kvs)
    then show ?thesis
      using that raw strict type by (auto simp: decode_strict_def split: option.splits)
  qed (use type in \<open>auto simp: text_at_def\<close>)
qed

lemma explicit_connection_Inr:
  "validate_explicit_connection cy a = Inr origin \<longleftrightarrow>
     canonical_https_origin cy (ca_endpoint a) = Inr origin \<and> validate_certificate_authority cy (ca_certificate a)"
  by (auto simp: validate_explicit_connection_def split: sum.splits)

fun source_well_formed :: "oidc_source \<Rightarrow> bool" where
  "source_well_formed (Direct_audience audience) = valid_audience audience"
| "source_well_formed (Aws_role arn region cluster) = (aws_role_arn arn \<and> is_commercial_region region \<and> cluster \<noteq> [])"
| "source_well_formed (Azure_app tenant client) = (valid_canonical_uuid tenant False \<and> valid_canonical_uuid client False)"
| "source_well_formed (Gcp_pool pool email) = (gcp_provider pool \<and> (email = [] \<or> service_account email))"
| "source_well_formed No_source = False"

definition connected :: "crypto \<Rightarrow> jobject \<Rightarrow> bool" where
  "connected cy kvs \<longleftrightarrow> (\<exists>origin. canonical_https_origin cy (text_at kvs ''Endpoint'') = Inr origin) \<and>
     validate_certificate_authority cy (text_at kvs ''CertificateAuthority'')"

lemma validate_eks_oidc:
  assumes "eks_of (JObj kvs) = Inr a" and "validate_eks cy a = None" and "\<not> credentials_absent (ea_credentials a)"
  shows "connected cy kvs \<and> (\<exists>cs. map_of kvs ''Credentials'' = Some (JObj cs) \<and>
    source_well_formed (Aws_role (text_at cs ''RoleArn'') (text_at kvs ''Region'') (text_at kvs ''ClusterName'')))"
  using assms
  by (auto simp: unmarshal_defs unmarshal_strings_object validate_eks_def connected_def explicit_connection_Inr aws_build_def
      elim!: decode_oidc_credentials_Inr split: if_splits sum.splits simp del: unmarshal_strings.simps)

lemma validate_aks_oidc:
  assumes "aks_of (JObj kvs) = Inr a" and "validate_aks cy a = None" and "\<not> credentials_absent (aa_credentials a)"
  shows "connected cy kvs \<and> (\<exists>cs. map_of kvs ''Credentials'' = Some (JObj cs) \<and>
    source_well_formed (Azure_app (text_at cs ''TenantId'') (text_at cs ''ClientId'')))"
  using assms
  by (auto simp: unmarshal_defs unmarshal_strings_object validate_aks_def connected_def explicit_connection_Inr azure_build_def
      elim!: decode_oidc_credentials_Inr split: if_splits sum.splits simp del: unmarshal_strings.simps)

lemma validate_gke_oidc:
  assumes "gke_of (JObj kvs) = Inr a" and "validate_gke cy a = None" and "\<not> credentials_absent (ga_credentials a)"
  shows "connected cy kvs \<and> (\<exists>cs. map_of kvs ''Credentials'' = Some (JObj cs) \<and>
    source_well_formed (Gcp_pool (text_at cs ''WorkloadIdentityProvider'') (text_at cs ''ServiceAccountEmail'')))"
  using assms
  by (auto simp: unmarshal_defs unmarshal_strings_object validate_gke_def connected_def explicit_connection_Inr gcp_build_def
      elim!: decode_oidc_credentials_Inr split: if_splits sum.splits simp del: unmarshal_strings.simps)

lemma b64_decode_certificates:
  assumes "validate_certificate_authority cy ca"
  obtains bytes where "b64_decode ca = Some bytes" and "bytes \<noteq> []"
  using assms by (auto simp: validate_certificate_authority_def split: if_splits option.splits)

lemma cloud_fields_typed:
  "eks_of (JObj kvs) = Inr ea \<Longrightarrow> string_field kvs ''Endpoint'' \<and> string_field kvs ''CertificateAuthority''"
  "aks_of (JObj kvs) = Inr aa \<Longrightarrow> string_field kvs ''Endpoint'' \<and> string_field kvs ''CertificateAuthority''"
  "gke_of (JObj kvs) = Inr ga \<Longrightarrow> string_field kvs ''Endpoint'' \<and> string_field kvs ''CertificateAuthority''"
  by (simp_all add: eks_of_def aks_of_def gke_of_def cloud_fields_def unmarshal_strings_object del: unmarshal_strings.simps)

lemma oidc_target_connected:
  assumes "from_target_config cy target = Inr c" and "uses_oidc c"
  obtains kvs where "cf_auth c = JObj kvs" and "connected cy kvs" and "source_well_formed (oidc_source_of c)"
    and "string_field kvs ''Endpoint''" and "string_field kvs ''CertificateAuthority''"
proof -
  from assms(1) obtain kvs where kvs: "cf_auth c = JObj kvs" and valid: "validate_auth_config cy c = None"
    by (rule from_target_config_accepts)
  consider (oidc) "cf_type c = ''Oidc''"
    | (eks) a where "cf_type c = ''EKS''" "eks_of (JObj kvs) = Inr a" "\<not> credentials_absent (ea_credentials a)"
    | (aks) a where "cf_type c = ''AKS''" "aks_of (JObj kvs) = Inr a" "\<not> credentials_absent (aa_credentials a)"
    | (gke) a where "cf_type c = ''GKE''" "gke_of (JObj kvs) = Inr a" "\<not> credentials_absent (ga_credentials a)"
    using assms(2) kvs
    by (auto simp: uses_oidc_def auth_method_def has_suffix_def has_prefix_def split: if_splits sum.splits)
  then have "connected cy kvs \<and> source_well_formed (oidc_source_of c) \<and>
    string_field kvs ''Endpoint'' \<and> string_field kvs ''CertificateAuthority''"
  proof cases
    case oidc
    from valid oidc kvs obtain a where "decode_strict oidc_fields oidc_build (JObj kvs) = Inr a" "validate_oidc cy a = None"
      by (auto simp: validate_auth_config_def split: sum.splits)
    then show ?thesis
      using oidc kvs
      by (auto simp: decode_strict_def validate_oidc_def connected_def explicit_connection_Inr oidc_build_def
          oidc_source_of_def object_of_def Let_def oidc_fields_def cloud_fields_def find_None_iff
          split: option.splits sum.splits if_splits)
  next
    case (eks a)
    then show ?thesis
      using validate_eks_oidc [OF eks(2) _ eks(3), of cy] valid kvs cloud_fields_typed(1) [OF eks(2)]
      by (auto simp: validate_auth_config_def oidc_source_of_def object_of_def Let_def)
  next
    case (aks a)
    then show ?thesis
      using validate_aks_oidc [OF aks(2) _ aks(3), of cy] valid kvs cloud_fields_typed(2) [OF aks(2)]
      by (auto simp: validate_auth_config_def oidc_source_of_def object_of_def Let_def)
  next
    case (gke a)
    then show ?thesis
      using validate_gke_oidc [OF gke(2) _ gke(3), of cy] valid kvs cloud_fields_typed(3) [OF gke(2)]
      by (auto simp: validate_auth_config_def oidc_source_of_def object_of_def Let_def)
  qed
  then show thesis
    using that kvs by blast
qed

lemma connected_parts:
  assumes "cf_auth c = JObj kvs" and "connected cy kvs" and "ad_oidc_source (cf_deps c)"
    and "string_field kvs ''Endpoint''" and "string_field kvs ''CertificateAuthority''"
  obtains ca where "ca \<noteq> []" and "oidc_parts c = Inr (\<lparr>rt_host = text_at kvs ''Endpoint'', rt_ca = ca\<rparr>, oidc_source_of c)"
proof -
  from assms(2) obtain ca where "b64_decode (text_at kvs ''CertificateAuthority'') = Some ca" "ca \<noteq> []"
    unfolding connected_def by (blast elim: b64_decode_certificates)
  then show thesis
    using assms that by (auto simp: oidc_parts_def cloud_of_def cloud_fields_def)
qed

text \<open>C24: Once a target that selects OIDC has parsed, building its client under any dependencies with a broker
  cannot fail on the configuration: it connects to the target's endpoint, which is an HTTPS origin, with a nonempty
  decoded certificate bundle, and its source holds identifiers in their canonical formats, although
  \<open>oidcParts\<close> ignores decoding errors.\<close>

theorem oidc_target_well_formed:
  assumes "from_target_config cy target = Inr c" and "uses_oidc c" and "ad_oidc_source deps"
  shows "\<exists>ca. ca \<noteq> [] \<and> oidc_parts (set_auth_dependencies deps c) =
      Inr (\<lparr>rt_host = text_at (object_of (cf_auth c)) ''Endpoint'', rt_ca = ca\<rparr>, oidc_source_of c) \<and>
    (\<exists>origin. canonical_https_origin cy (text_at (object_of (cf_auth c)) ''Endpoint'') = Inr origin) \<and>
    source_well_formed (oidc_source_of c)"
proof -
  obtain kvs where kvs: "cf_auth c = JObj kvs" "connected cy kvs" "source_well_formed (oidc_source_of c)"
    "string_field kvs ''Endpoint''" "string_field kvs ''CertificateAuthority''"
    using assms(1,2) by (rule oidc_target_connected)
  have same: "cf_auth (set_auth_dependencies deps c) = JObj kvs"
    "oidc_source_of (set_auth_dependencies deps c) = oidc_source_of c"
    using kvs(1) by (simp_all add: set_auth_dependencies_def oidc_source_of_def Let_def cong: if_cong)
  obtain ca where "ca \<noteq> []" "oidc_parts (set_auth_dependencies deps c) =
      Inr (\<lparr>rt_host = text_at kvs ''Endpoint'', rt_ca = ca\<rparr>, oidc_source_of (set_auth_dependencies deps c))"
    by (rule connected_parts [of "set_auth_dependencies deps c" kvs cy])
      (use same(1) kvs assms(3) in \<open>simp_all add: set_auth_dependencies_def\<close>)
  with same kvs show ?thesis
    by (auto simp: object_of_def connected_def)
qed

subsection \<open>A sample target\<close>

definition sample_crypto :: crypto where
  "sample_crypto = \<lparr>
     cy_parse_url = (\<lambda>s. if s = ''https://k8s.test'' then
        Some \<lparr>pu_scheme = ''https'', pu_opaque = [], pu_has_user = False, pu_hostname = ''k8s.test'', pu_port = [],
          pu_path = [], pu_raw_query = [], pu_force_query = False, pu_fragment = []\<rparr> else None),
     cy_pem_decode = (\<lambda>s. Some (\<lparr>pb_type = ''CERTIFICATE'', pb_bytes = s\<rparr>, [])), cy_x509 = (\<lambda>_. True),
     cy_sha256 = id, cy_sha256_json = fmt_v\<rparr>"

definition sample_provider :: string where
  "sample_provider = ''//iam.googleapis.com/projects/12/locations/global/workloadIdentityPools/abcd/providers/efgh''"

definition sample_fields :: jobject where
  "sample_fields = [(''Type'', JStr ''GKE''), (''Endpoint'', JStr ''https://k8s.test''),
     (''CertificateAuthority'', JStr ''aGVsbG8=''),
     (''Credentials'', JObj [(''Type'', JStr ''Oidc''), (''WorkloadIdentityProvider'', JStr sample_provider)])]"

definition sample_config :: config where
  "sample_config = \<lparr>cf_auth = JObj sample_fields, cf_version = [], cf_type = ''GKE'', cf_deps = no_dependencies\<rparr>"

lemmas char_class_defs = is_upper_def is_lower_def is_digit_def is_name_char_def code_in_def

lemma sample_b64: "b64_decode ''aGVsbG8='' = Some ''hello''"
  by (simp add: b64_decode_def b64_bits_def b64_digit_def nth_byte_def char_class_defs char_of_def bit_0)

lemma sample_certificate: "validate_certificate_authority sample_crypto ''aGVsbG8=''"
  by (simp add: validate_certificate_authority_def sample_b64 certificates.simps [of _ _ False]
      certificates.simps [of _ _ True] sample_crypto_def trim_space_def is_space_def)

lemma sample_origin_canonical: "canonical_https_origin sample_crypto ''https://k8s.test'' = Inr ''https://k8s.test''"
  by (simp add: canonical_https_origin_def sample_crypto_def equal_fold_def fold_char_def Let_def has_prefix_def
      escape_host_def host_char_def char_class_defs char_of_def)

lemma sample_provider_ok: "gcp_provider sample_provider"
  by (simp add: gcp_provider_def pool_name_def char_class_defs sample_provider_def)

lemma sample_gke: "gke_of (JObj sample_fields) = Inr \<lparr>ca_endpoint = ''https://k8s.test'', ca_certificate = ''aGVsbG8='',
    ga_project = [], ga_location = [], ga_cluster_name = [],
    ga_credentials = Some (JObj [(''Type'', JStr ''Oidc''), (''WorkloadIdentityProvider'', JStr sample_provider)])\<rparr>"
  by (simp add: gke_of_def sample_fields_def cloud_fields_def string_field_def text_at_def)

lemma sample_parses:
  "from_target_config sample_crypto (Some (Inr (JObj [(''Auth'', JObj sample_fields)]))) = Inr sample_config"
proof -
  have "guard_no_unflattened_references (JObj sample_fields) = None"
    by (simp add: guard_no_unflattened_references_def sample_fields_def Let_def has_key_def)
  moreover have "validate_auth_config sample_crypto sample_config = None"
    by (simp add: validate_auth_config_def sample_config_def sample_gke validate_gke_def credentials_absent_def
        validate_explicit_connection_def sample_origin_canonical sample_certificate decode_oidc_credentials_def
        decode_strict_def gcp_fields_def gcp_build_def text_at_def string_field_def sample_provider_ok)
  ultimately show ?thesis
    by (simp add: from_target_config_def string_field_def text_at_def Let_def sample_config_def sample_fields_def)
qed

lemma sample_uses_oidc: "uses_oidc sample_config"
  by (simp add: uses_oidc_def auth_method_def sample_config_def sample_gke credentials_absent_def has_suffix_def has_prefix_def)

theorem oidc_target_well_formed_witness:
  "source_well_formed (oidc_source_of sample_config) \<and> oidc_source_of sample_config = Gcp_pool sample_provider []"
proof -
  have "source_well_formed (oidc_source_of sample_config)"
    using oidc_target_well_formed [OF sample_parses sample_uses_oidc, of "\<lparr>ad_oidc_source = True, ad_allowed = []\<rparr>"]
    unfolding auth_dependencies.simps by blast
  moreover have "oidc_source_of sample_config = Gcp_pool sample_provider []"
    by (simp add: oidc_source_of_def sample_config_def sample_fields_def object_of_def text_at_def)
  ultimately show ?thesis by simp
qed

end
