(* ===== verification/Auth_Identity.thy ===== *)
theory Auth_Identity
  imports Auth_Runtime "HOL-Library.Countable"
begin

text \<open>
  What a fingerprint of a target's authentication separates (\<open>AuthFingerprint\<close> of
  \<open>pkg/config/oidc.go\<close>): everything that decides whom the program authenticates as and where. SHA-256 is
  assumed free of collisions.
\<close>

subsection \<open>What a target selects\<close>

definition auth_text :: "config \<Rightarrow> string \<Rightarrow> string" where
  "auth_text c f = text_at (object_of (cf_auth c)) f"

definition selection_fields :: "string \<Rightarrow> string list" where
  "selection_fields t =
     (if t = ''Kubeconfig'' then [''Context'', ''Kubeconfig'']
      else if t = ''EKS'' then [''ClusterName'', ''Region'', ''Profile'']
      else if t = ''AKS'' then [''SubscriptionId'', ''ResourceGroup'', ''ClusterName'']
      else if t = ''GKE'' then [''ProjectId'', ''Location'', ''ClusterName'']
      else if t = ''Oidc'' then [''Audience'']
      else if t = ''OVH'' then [''ServiceName'', ''ClusterId'']
      else if t = ''OCI'' then [''ClusterOcid'', ''Region'']
      else [])"

definition endpoint_identity :: "crypto \<Rightarrow> config \<Rightarrow> string" where
  "endpoint_identity cy c =
     (case canonical_https_origin cy (auth_text c ''Endpoint'') of
        Inr canonical \<Rightarrow> canonical
      | Inl _ \<Rightarrow> auth_text c ''Endpoint'')"

definition certificate_bytes :: "config \<Rightarrow> string option" where
  "certificate_bytes c =
     (if auth_text c ''CertificateAuthority'' = [] then None else b64_decode (auth_text c ''CertificateAuthority''))"

definition collision_free :: "crypto \<Rightarrow> bool" where
  "collision_free cy \<longleftrightarrow> inj (cy_sha256 cy) \<and> inj (cy_sha256_json cy) \<and> (\<forall>b. cy_sha256 cy b \<noteq> [])"

subsection \<open>The entries of an identity\<close>

lemma unmarshal_strings_Inr: "unmarshal_strings names build j = Inr r \<Longrightarrow> r = build (object_of j)"
  by (cases j) (auto simp: object_of_def split: option.splits)

lemma strict_credentials_Inr:
  assumes "strict_credentials names build c entries = Inr es"
  shows "if credentials_absent c then es = []
    else \<exists>j. c = Some j \<and> es = entries (build (object_of j))"
proof (cases "credentials_absent c")
  case True
  then show ?thesis
    using assms by (auto simp: credentials_absent_def strict_credentials_def)
next
  case False
  then obtain j where "c = Some j" "j \<noteq> JNull"
    by (auto simp: credentials_absent_def)
  moreover from this assms have "decode_strict names build j \<in> range Inr" "es = entries (projr (decode_strict names build j))"
    by (auto simp: strict_credentials_def split: json.splits sum.splits)
  moreover have "decode_strict names build j = Inr r \<Longrightarrow> r = build (object_of j)" for r
    by (auto simp: decode_strict_def split: option.splits dest: unmarshal_strings_Inr)
  ultimately show ?thesis
    using False by fastforce
qed

definition credential_text :: "config \<Rightarrow> string \<Rightarrow> string" where
  "credential_text c f =
     text_at (case map_of (object_of (cf_auth c)) ''Credentials'' of Some j \<Rightarrow> object_of j | None \<Rightarrow> []) f"

definition has_credentials :: "config \<Rightarrow> bool" where
  "has_credentials c \<longleftrightarrow> \<not> credentials_absent (map_of (object_of (cf_auth c)) ''Credentials'')"

lemma absent_credential_text: "\<not> has_credentials c \<Longrightarrow> credential_text c f = []"
  by (auto simp: has_credentials_def credential_text_def credentials_absent_def text_at_def object_of_def)

definition connection_entries :: "crypto \<Rightarrow> config \<Rightarrow> (string \<times> string) list" where
  "connection_entries cy c =
     [(''Endpoint'', endpoint_identity cy c), (''CertificateAuthority'', auth_text c ''CertificateAuthority'')]"

text \<open>The entries by type, read off the block.\<close>

definition expected_entries :: "crypto \<Rightarrow> config \<Rightarrow> (string \<times> string) list" where
  "expected_entries cy c =
     (let t = cf_type c; texts = map (\<lambda>f. (f, auth_text c f)) (selection_fields t) in
      if t = ''Kubeconfig'' then texts
      else connection_entries cy c @ texts @
        (if t = ''AKS'' then [(''Scope'', if auth_text c ''Scope'' = [] then default_aks_scope else auth_text c ''Scope'')]
         else []) @
        (if \<not> has_credentials c \<or> t \<notin> set [''EKS'', ''AKS'', ''GKE''] then []
         else (''Credentials.Type'', credential_text c ''Type'') #
           map (\<lambda>f. (''Credentials.'' @ f, credential_text c f))
             (if t = ''EKS'' then [''RoleArn'']
              else if t = ''AKS'' then [''TenantId'', ''ClientId'']
              else [''WorkloadIdentityProvider'', ''ServiceAccountEmail''])))"

lemma cloud_identity_entries:
  "\<lbrakk>ca_endpoint a = auth_text c ''Endpoint''; ca_certificate a = auth_text c ''CertificateAuthority''\<rbrakk> \<Longrightarrow>
   cloud_identity cy a = connection_entries cy c"
  by (simp add: cloud_identity_def connection_entries_def endpoint_identity_def split: sum.split)

lemma strict_credential_entries:
  assumes "strict_credentials names build (map_of (object_of (cf_auth c)) ''Credentials'') entries = Inr es"
  shows "es = (if has_credentials c then entries (build (case map_of (object_of (cf_auth c)) ''Credentials'' of
      Some j \<Rightarrow> object_of j | None \<Rightarrow> [])) else [])"
  using strict_credentials_Inr [OF assms] by (auto simp: has_credentials_def split: if_splits)

lemma eks_entries:
  assumes "eks_of (cf_auth c) = Inr a" and "eks_identity cy a = Inr es" and "cf_type c = ''EKS''"
  shows "es = expected_entries cy c"
proof -
  have a: "a = \<lparr>ca_endpoint = auth_text c ''Endpoint'', ca_certificate = auth_text c ''CertificateAuthority'',
      ea_cluster_name = auth_text c ''ClusterName'', ea_region = auth_text c ''Region'',
      ea_profile = auth_text c ''Profile'', ea_credentials = map_of (object_of (cf_auth c)) ''Credentials''\<rparr>"
    using unmarshal_strings_Inr [OF assms(1) [unfolded eks_of_def]] by (simp add: auth_text_def)
  from assms(2) show ?thesis
    by (cases "has_credentials c") (auto simp: a eks_identity_def bind_res_Inr_iff cloud_identity_entries expected_entries_def
        selection_fields_def aws_build_def credential_text_def assms(3) Let_def dest!: strict_credential_entries)
qed

lemma aks_entries:
  assumes "aks_of (cf_auth c) = Inr a" and "aks_identity cy a = Inr es" and "cf_type c = ''AKS''"
  shows "es = expected_entries cy c"
proof -
  have a: "a = \<lparr>ca_endpoint = auth_text c ''Endpoint'', ca_certificate = auth_text c ''CertificateAuthority'',
      aa_subscription = auth_text c ''SubscriptionId'', aa_resource_group = auth_text c ''ResourceGroup'',
      aa_cluster_name = auth_text c ''ClusterName'', aa_scope = auth_text c ''Scope'',
      aa_credentials = map_of (object_of (cf_auth c)) ''Credentials''\<rparr>"
    using unmarshal_strings_Inr [OF assms(1) [unfolded aks_of_def]] by (simp add: auth_text_def)
  from assms(2) show ?thesis
    by (cases "has_credentials c") (auto simp: a aks_identity_def bind_res_Inr_iff cloud_identity_entries expected_entries_def
        selection_fields_def azure_build_def credential_text_def assms(3) Let_def dest!: strict_credential_entries)
qed

lemma gke_entries:
  assumes "gke_of (cf_auth c) = Inr a" and "gke_identity cy a = Inr es" and "cf_type c = ''GKE''"
  shows "es = expected_entries cy c"
proof -
  have a: "a = \<lparr>ca_endpoint = auth_text c ''Endpoint'', ca_certificate = auth_text c ''CertificateAuthority'',
      ga_project = auth_text c ''ProjectId'', ga_location = auth_text c ''Location'',
      ga_cluster_name = auth_text c ''ClusterName'',
      ga_credentials = map_of (object_of (cf_auth c)) ''Credentials''\<rparr>"
    using unmarshal_strings_Inr [OF assms(1) [unfolded gke_of_def]] by (simp add: auth_text_def)
  from assms(2) show ?thesis
    by (cases "has_credentials c") (auto simp: a gke_identity_def bind_res_Inr_iff cloud_identity_entries expected_entries_def
        selection_fields_def gcp_build_def credential_text_def assms(3) Let_def dest!: strict_credential_entries)
qed

lemma plain_entries:
  assumes "type_identity cy c = Inr es" and "cf_type c \<notin> {''EKS'', ''AKS'', ''GKE''}"
  shows "es = expected_entries cy c"
  using assms
  by (auto simp: type_identity_def bind_res_Inr_iff expected_entries_def selection_fields_def Let_def
      kubeconfig_of_def oidc_of_def oidc_build_def ovh_of_def oci_of_def cloud_identity_entries auth_text_def
      dest!: unmarshal_strings_Inr split: if_splits)

lemma type_identity_entries: "type_identity cy c = Inr es \<Longrightarrow> es = expected_entries cy c"
  by (cases "cf_type c \<in> {''EKS'', ''AKS'', ''GKE''}")
    (auto simp: type_identity_def bind_res_Inr_iff intro: eks_entries aks_entries gke_entries plain_entries)

subsection \<open>Separation\<close>

lemma canonical_entries:
  assumes "distinct (map fst xs)" and "distinct (map fst ys)"
    and "canon (JObj (map (\<lambda>(k, v). (k, JStr v)) xs)) = canon (JObj (map (\<lambda>(k, v). (k, JStr v)) ys))"
  shows "map_of xs = map_of ys"
proof -
  have texts: "map (\<lambda>(k, v). (k, canon v)) (map (\<lambda>(k, v). (k, JStr v)) zs) = map (\<lambda>(k, v). (k, JStr v)) zs" for zs
    by (induction zs) auto
  have "set (sort_key fst (map (\<lambda>(k, v). (k, JStr v)) xs)) = set (sort_key fst (map (\<lambda>(k, v). (k, JStr v)) ys))"
    using assms(3) by (simp only: canon.simps texts json.inject)
  moreover have "inj (\<lambda>(k :: string, v). (k, JStr v))"
    by (auto simp: inj_on_def)
  ultimately have "set xs = set ys"
    by (simp add: inj_image_eq_iff)
  then show ?thesis
    using assms(1,2) map_of_inject_set by blast
qed

lemma expected_entries_keys:
  assumes "type_identity cy c = Inr es"
  shows "distinct (map fst ((''Type'', cf_type c) # es))"
proof -
  have "cf_type c \<in> set [''Kubeconfig'', ''EKS'', ''AKS'', ''GKE'', ''Oidc'', ''OVH'', ''OCI'']"
    using assms by (auto simp: type_identity_def split: if_splits)
  then show ?thesis
    using type_identity_entries [OF assms]
    by (cases "has_credentials c") (auto simp: expected_entries_def selection_fields_def connection_entries_def Let_def)
qed

text \<open>What an identity holds, with the certificate by its digest.\<close>

definition identity_map :: "crypto \<Rightarrow> config \<Rightarrow> string \<Rightarrow> string option" where
  "identity_map cy c =
     (map_of ((''Type'', cf_type c) # expected_entries cy c))
       (''CertificateAuthority'' :=
          if cf_type c = ''Kubeconfig'' then None
          else Some (case certificate_bytes c of Some bytes \<Rightarrow> cy_sha256 cy bytes | None \<Rightarrow> []))"

lemma auth_identity_map:
  assumes "auth_identity cy c = Inr ids"
  shows "distinct (map fst ids)" and "map_of ids = identity_map cy c"
proof -
  from assms obtain es where es: "type_identity cy c = Inr es"
    by (auto simp: auth_identity_def bind_res_Inr_iff)
  have eq: "es = expected_entries cy c"
    by (rule type_identity_entries [OF es])
  have ca: "map_of ((''Type'', cf_type c) # es) ''CertificateAuthority'' =
      (if cf_type c = ''Kubeconfig'' then None else Some (auth_text c ''CertificateAuthority''))"
    by (simp add: eq expected_entries_def connection_entries_def selection_fields_def Let_def)
  show "distinct (map fst ids)"
    using assms expected_entries_keys [OF es]
    by (auto simp: auth_identity_def es Let_def split: option.splits if_splits
        intro: distinct_update [OF expected_entries_keys [OF es]] simp del: AList.update.simps)
  show "map_of ids = identity_map cy c"
    using assms ca unfolding identity_map_def eq [symmetric]
    by (auto simp: auth_identity_def es Let_def certificate_bytes_def fun_eq_iff split: option.splits if_splits)
qed

lemma fingerprints_agree:
  assumes "collision_free cy" and "auth_fingerprint cy c1 = Inr k" and "auth_fingerprint cy c2 = Inr k"
  shows "identity_map cy c1 = identity_map cy c2"
proof -
  obtain ids1 ids2 where ids: "auth_identity cy c1 = Inr ids1" "auth_identity cy c2 = Inr ids2"
    and digest: "cy_sha256_json cy (canon (JObj (map (\<lambda>(k, v). (k, JStr v)) ids1))) =
      cy_sha256_json cy (canon (JObj (map (\<lambda>(k, v). (k, JStr v)) ids2)))"
    using assms(2,3) by (auto simp: auth_fingerprint_def split: sum.splits)
  have "canon (JObj (map (\<lambda>(k, v). (k, JStr v)) ids1)) = canon (JObj (map (\<lambda>(k, v). (k, JStr v)) ids2))"
    using assms(1) digest by (auto simp: collision_free_def dest: injD)
  then show ?thesis
    using canonical_entries auth_identity_map [OF ids(1)] auth_identity_map [OF ids(2)] by metis
qed

lemma identity_map_type: "identity_map cy c ''Type'' = Some (cf_type c)"
  by (simp add: identity_map_def)

lemma identity_map_field:
  "f \<in> set (selection_fields (cf_type c)) \<Longrightarrow> identity_map cy c f = Some (auth_text c f)"
proof -
  assume f: "f \<in> set (selection_fields (cf_type c))"
  then have "f \<noteq> ''Type'' \<and> f \<noteq> ''Endpoint'' \<and> f \<noteq> ''CertificateAuthority''"
    unfolding selection_fields_def by (auto split: if_splits)
  moreover have "map_of (map (\<lambda>f. (f, auth_text c f)) (selection_fields (cf_type c))) f = Some (auth_text c f)"
    using f by (simp add: map_of_map_restrict)
  ultimately show ?thesis
    by (cases "cf_type c = ''Kubeconfig''") (simp_all add: identity_map_def expected_entries_def connection_entries_def Let_def map_add_def)
qed

lemma identity_map_connection:
  assumes "cf_type c \<noteq> ''Kubeconfig''"
  shows "identity_map cy c ''Endpoint'' = Some (endpoint_identity cy c)"
    and "identity_map cy c ''CertificateAuthority'' =
      Some (case certificate_bytes c of Some bytes \<Rightarrow> cy_sha256 cy bytes | None \<Rightarrow> [])"
  using assms by (simp_all add: identity_map_def expected_entries_def connection_entries_def Let_def)

lemma identity_map_credentials:
  assumes "cf_type c \<in> set [''EKS'', ''AKS'', ''GKE'']"
  shows "identity_map cy c ''Credentials.Type'' = (if has_credentials c then Some (credential_text c ''Type'') else None)"
    and "cf_type c = ''EKS'' \<Longrightarrow> identity_map cy c ''Credentials.RoleArn'' =
      (if has_credentials c then Some (credential_text c ''RoleArn'') else None)"
    and "cf_type c = ''AKS'' \<Longrightarrow> identity_map cy c ''Credentials.TenantId'' =
      (if has_credentials c then Some (credential_text c ''TenantId'') else None)"
    and "cf_type c = ''AKS'' \<Longrightarrow> identity_map cy c ''Credentials.ClientId'' =
      (if has_credentials c then Some (credential_text c ''ClientId'') else None)"
    and "cf_type c = ''GKE'' \<Longrightarrow> identity_map cy c ''Credentials.WorkloadIdentityProvider'' =
      (if has_credentials c then Some (credential_text c ''WorkloadIdentityProvider'') else None)"
    and "cf_type c = ''GKE'' \<Longrightarrow> identity_map cy c ''Credentials.ServiceAccountEmail'' =
      (if has_credentials c then Some (credential_text c ''ServiceAccountEmail'') else None)"
proof -
  note defs = identity_map_def expected_entries_def selection_fields_def connection_entries_def Let_def
  from assms consider "cf_type c = ''EKS''" | "cf_type c = ''AKS''" | "cf_type c = ''GKE''"
    by auto
  then show "identity_map cy c ''Credentials.Type'' = (if has_credentials c then Some (credential_text c ''Type'') else None)"
    by cases (simp_all add: defs)
qed (simp_all add: identity_map_def expected_entries_def selection_fields_def connection_entries_def Let_def)

lemma oidc_source_text:
  "oidc_source_of c =
     (if cf_type c = ''Oidc'' then Direct_audience (auth_text c ''Audience'')
      else if cf_type c = ''EKS''
      then Aws_role (credential_text c ''RoleArn'') (auth_text c ''Region'') (auth_text c ''ClusterName'')
      else if cf_type c = ''AKS'' then Azure_app (credential_text c ''TenantId'') (credential_text c ''ClientId'')
      else if cf_type c = ''GKE''
      then Gcp_pool (credential_text c ''WorkloadIdentityProvider'') (credential_text c ''ServiceAccountEmail'')
      else No_source)"
  by (simp add: oidc_source_of_def auth_text_def credential_text_def Let_def)

definition method_name :: "string \<Rightarrow> bool \<Rightarrow> string" where
  "method_name t creds =
     (if t = ''EKS'' then (if creds then ''EKS:Oidc'' else ''EKS:DefaultChain'')
      else if t = ''AKS'' then (if creds then ''AKS:Oidc'' else ''AKS:DefaultChain'')
      else if t = ''GKE'' then (if creds then ''GKE:Oidc'' else ''GKE:ADC'')
      else t)"

lemma block_credentials:
  "eks_of j = Inr ea \<Longrightarrow> ea_credentials ea = map_of (object_of j) ''Credentials''"
  "aks_of j = Inr aa \<Longrightarrow> aa_credentials aa = map_of (object_of j) ''Credentials''"
  "gke_of j = Inr ga \<Longrightarrow> ga_credentials ga = map_of (object_of j) ''Credentials''"
  by (auto simp: eks_of_def aks_of_def gke_of_def dest!: unmarshal_strings_Inr)

lemma fingerprint_method:
  assumes "auth_fingerprint cy c = Inr k"
  shows "auth_method c = Inr (method_name (cf_type c) (has_credentials c))"
proof -
  obtain es where "type_identity cy c = Inr es"
    using assms by (auto simp: auth_fingerprint_def auth_identity_def bind_res_Inr_iff split: sum.splits)
  then show ?thesis
    by (auto simp: type_identity_def bind_res_Inr_iff auth_method_def method_name_def has_credentials_def block_credentials
        split: if_splits)
qed

lemma same_credentials:
  assumes "identity_map cy c1 = identity_map cy c2" and "cf_type c1 = cf_type c2" and "cf_type c1 \<in> set [''EKS'', ''AKS'', ''GKE'']"
  shows "has_credentials c1 = has_credentials c2" and "oidc_source_of c1 = oidc_source_of c2"
proof -
  have t2: "cf_type c2 \<in> set [''EKS'', ''AKS'', ''GKE'']"
    using assms(2,3) by simp
  show creds: "has_credentials c1 = has_credentials c2"
    using identity_map_credentials(1) [OF assms(3), of cy] identity_map_credentials(1) [OF t2, of cy] assms(1)
    by (auto split: if_splits)
  have texts: "\<forall>f \<in> set (selection_fields (cf_type c1)). auth_text c1 f = auth_text c2 f"
    using assms(1,2) identity_map_field [of _ c1 cy] identity_map_field [of _ c2 cy] by auto
  show "oidc_source_of c1 = oidc_source_of c2"
  proof (cases "has_credentials c1")
    case True
    with creds have "has_credentials c2" by simp
    with True show ?thesis
      using identity_map_credentials [OF assms(3), of cy] identity_map_credentials [OF t2, of cy] assms texts
      by (auto simp: oidc_source_text selection_fields_def)
  next
    case False
    with creds show ?thesis
      using texts assms(2) by (auto simp: oidc_source_text absent_credential_text selection_fields_def)
  qed
qed

lemma same_certificates:
  assumes "collision_free cy" and "identity_map cy c1 = identity_map cy c2"
    and "cf_type c1 \<noteq> ''Kubeconfig''" and "cf_type c2 \<noteq> ''Kubeconfig''"
  shows "certificate_bytes c1 = certificate_bytes c2"
  using assms(1,2) identity_map_connection(2) [OF assms(3), of cy] identity_map_connection(2) [OF assms(4), of cy]
  by (auto simp: collision_free_def split: option.splits dest: injD) (metis)+

lemma fingerprints_agree_on:
  assumes "collision_free cy" and "auth_fingerprint cy c1 = Inr k" and "auth_fingerprint cy c2 = Inr k"
  shows "cf_type c1 = cf_type c2 \<and> auth_method c1 = auth_method c2 \<and> oidc_source_of c1 = oidc_source_of c2 \<and>
    (\<forall>f \<in> set (selection_fields (cf_type c1)). auth_text c1 f = auth_text c2 f) \<and>
    (cf_type c1 \<noteq> ''Kubeconfig'' \<longrightarrow>
       endpoint_identity cy c1 = endpoint_identity cy c2 \<and> certificate_bytes c1 = certificate_bytes c2)"
proof -
  have same: "identity_map cy c1 = identity_map cy c2"
    by (rule fingerprints_agree [OF assms])
  then have type: "cf_type c1 = cf_type c2"
    using identity_map_type [of cy] by (metis option.inject)
  have fields: "\<forall>f \<in> set (selection_fields (cf_type c1)). auth_text c1 f = auth_text c2 f"
    using same type identity_map_field [of _ c1 cy] identity_map_field [of _ c2 cy] by auto
  have "method_name (cf_type c1) (has_credentials c1) = method_name (cf_type c2) (has_credentials c2) \<and>
      oidc_source_of c1 = oidc_source_of c2"
  proof (cases "cf_type c1 \<in> set [''EKS'', ''AKS'', ''GKE'']")
    case True
    then show ?thesis
      using same_credentials [OF same type] type by simp
  next
    case False
    then show ?thesis
      using type fields by (auto simp: method_name_def oidc_source_text selection_fields_def)
  qed
  moreover have "endpoint_identity cy c1 = endpoint_identity cy c2 \<and> certificate_bytes c1 = certificate_bytes c2"
    if "cf_type c1 \<noteq> ''Kubeconfig''"
    using that type same same_certificates [OF assms(1) same] identity_map_connection(1) [of _ cy] by (metis option.inject)
  ultimately show ?thesis
    using type fields fingerprint_method [OF assms(2)] fingerprint_method [OF assms(3)] by simp
qed

text \<open>C23: Two targets with the same fingerprint are interchangeable to whatever the fingerprint keys: they
  have the same type and effective method, reach the same origin with the same certificates, and every
  identifier of the cluster and of the federated identity agrees. So no cached client or token is shared between
  two identities, as long as SHA-256 has no collision.\<close>

theorem fingerprint_separates_identities:
  assumes "collision_free cy" and "auth_fingerprint cy c1 = Inr k" and "auth_fingerprint cy c2 = Inr k"
  shows "cf_type c1 = cf_type c2 \<and> auth_method c1 = auth_method c2 \<and> oidc_source_of c1 = oidc_source_of c2 \<and>
    (\<forall>f \<in> set (selection_fields (cf_type c1)). auth_text c1 f = auth_text c2 f) \<and>
    (cf_type c1 \<noteq> ''Kubeconfig'' \<longrightarrow>
       endpoint_identity cy c1 = endpoint_identity cy c2 \<and> certificate_bytes c1 = certificate_bytes c2)"
  using assms by (rule fingerprints_agree_on)

text \<open>The version override is no part of the identity.\<close>

lemma fingerprint_version: "auth_fingerprint cy (c\<lparr>cf_version := v\<rparr>) = auth_fingerprint cy c"
proof -
  have "type_identity cy (c\<lparr>cf_version := v\<rparr>) = type_identity cy c"
    by (simp add: type_identity_def unsupported_type_def cong: if_cong)
  then show ?thesis
    by (simp add: auth_fingerprint_def auth_identity_def)
qed

text \<open>A concrete digest without collisions: a document's place in an enumeration, in unary.\<close>

instance json :: countable
  by countable_datatype

definition unary :: "('a :: countable) \<Rightarrow> string" where
  "unary x = replicate (Suc (to_nat x)) (CHR ''x'')"

lemma inj_unary: "inj unary"
  by (metis (no_types, lifting) injI length_replicate nat.inject to_nat_split unary_def)

definition enumerated_crypto :: crypto where
  "enumerated_crypto = sample_crypto\<lparr>cy_sha256 := unary, cy_sha256_json := unary\<rparr>"

lemma enumerated_collision_free: "collision_free enumerated_crypto"
  by (auto simp: collision_free_def enumerated_crypto_def inj_unary unary_def)

theorem fingerprint_separates_identities_witness:
  "\<exists>k. auth_fingerprint enumerated_crypto sample_config = Inr k \<and>
     auth_fingerprint enumerated_crypto (sample_config\<lparr>cf_version := ''1.30''\<rparr>) = Inr k \<and>
     oidc_source_of sample_config = oidc_source_of (sample_config\<lparr>cf_version := ''1.30''\<rparr>)"
proof -
  have "auth_identity enumerated_crypto sample_config \<in> range Inr"
    by (simp add: auth_identity_def type_identity_def sample_config_def sample_gke gke_identity_def strict_credentials_def
        decode_strict_def gcp_fields_def string_field_def cloud_identity_def sample_b64)
  then obtain k where k: "auth_fingerprint enumerated_crypto sample_config = Inr k"
    by (auto simp: auth_fingerprint_def)
  then have k': "auth_fingerprint enumerated_crypto (sample_config\<lparr>cf_version := ''1.30''\<rparr>) = Inr k"
    by (simp add: fingerprint_version)
  show ?thesis
    using k k' fingerprint_separates_identities [OF enumerated_collision_free k k'] by blast
qed

end
