(* ===== verification/Client_Cache.thy ===== *)
theory Client_Cache
  imports Auth_Identity K8s_Version
begin

text \<open>
  The cluster clients and their cache (\<open>pkg/transport/client.go\<close>, \<open>cache.go\<close>). A client is shared by
  address: the cache holds the numbers of clients, and a store maps each number to the client's
  configuration and the discovery data it has kept so far. \<open>Get\<close> consists of two critical sections with the
  building of a client between them, so that callers interleave. client-go, REST mappers and the live version
  are parameters.
\<close>

subsection \<open>Clients\<close>

record kind_mapping =
  km_resource :: string
  km_namespaced :: bool

record 'g cluster_client =
  cl_config :: "config option"
  cl_version :: "string option"
  cl_kinds :: "(string \<times> kind_mapping) list option"
  cl_groups :: "'g option"

definition check_client_operation :: "'g cluster_client \<Rightarrow> op_context \<Rightarrow> gerr option" where
  "check_client_operation cl ctx =
     (case ox_err ctx of
        Some e \<Rightarrow> Some e
      | None \<Rightarrow>
          (case cl_config cl of
             Some c \<Rightarrow> if uses_oidc c then check_runtime c ctx else None
           | None \<Rightarrow> None))"

text \<open>A list of the server's preferred resources: its group and version, \<open>None\<close> when that does not parse,
  and per resource its kind, name and scope.\<close>

record api_list =
  al_group_version :: "string option"
  al_resources :: "(string \<times> string \<times> bool) list"

fun index_resources :: "string \<Rightarrow> (string \<times> string \<times> bool) list \<Rightarrow> (string \<times> kind_mapping) list \<Rightarrow>
    (string \<times> kind_mapping) list" where
  "index_resources gv [] m = m"
| "index_resources gv ((kind, name, namespaced) # rs) m =
     index_resources gv rs
       (if has_key m kind then m
        else AList.update kind \<lparr>km_resource = gv @ ''/'' @ name, km_namespaced = namespaced\<rparr> m)"

fun index_kinds :: "api_list list \<Rightarrow> (string \<times> kind_mapping) list \<Rightarrow> (string \<times> kind_mapping) list" where
  "index_kinds [] m = m"
| "index_kinds (l # ls) m =
     (case al_group_version l of
        None \<Rightarrow> index_kinds ls m
      | Some gv \<Rightarrow> index_kinds ls (index_resources gv (al_resources l) m))"

text \<open>\<open>disc\<close>: the failure to build a discovery client, or the lists with the error that may come with them
  (\<open>None\<close> for no lists). No mapping stands for the false answer.\<close>

definition resolve_kind ::
  "op_context \<Rightarrow> (api_list list option \<times> gerr option) res \<Rightarrow> string \<Rightarrow> 'g cluster_client \<Rightarrow> kind_mapping option \<times> 'g cluster_client" where
  "resolve_kind ctx disc kind cl =
     (case check_client_operation cl ctx of
        Some e \<Rightarrow> (None, cl)
      | None \<Rightarrow>
          (case cl_kinds cl of
             Some m \<Rightarrow> (map_of m kind, cl)
           | None \<Rightarrow>
               (case disc of
                  Inl e \<Rightarrow> (None, cl)
                | Inr (served, err) \<Rightarrow>
                    if served = None \<and> err \<noteq> None then (None, cl)
                    else let m = index_kinds (case served of Some ls \<Rightarrow> ls | None \<Rightarrow> []) [] in
                      (map_of m kind, cl\<lparr>cl_kinds := Some m\<rparr>))))"

text \<open>\<open>disc\<close>: the failure to build a discovery client, or \<open>ServerVersion\<close>'s answer.\<close>

definition resolve_version ::
  "op_context \<Rightarrow> string \<Rightarrow> (string \<times> string) res option res \<Rightarrow> 'g cluster_client \<Rightarrow> string res \<times> 'g cluster_client" where
  "resolve_version ctx env disc cl =
     (case check_client_operation cl ctx of
        Some e \<Rightarrow> (Inl e, cl)
      | None \<Rightarrow>
          (case cl_version cl of
             Some v \<Rightarrow> (Inr v, cl)
           | None \<Rightarrow>
               (case disc of
                  Inl e \<Rightarrow> (Inl e, cl)
                | Inr server \<Rightarrow>
                    (case resolve_k8s_version (map_option cf_version (cl_config cl)) env server of
                       Inl e \<Rightarrow> (Inl e, cl)
                     | Inr v \<Rightarrow> (Inr v, cl\<lparr>cl_version := Some v\<rparr>)))))"

text \<open>\<open>fetch\<close> answers the discovery of one attempt, \<open>look\<close> is the lookup of \<open>resolveMappingWith\<close> in its data.\<close>

fun mapping_attempts ::
  "nat \<Rightarrow> (nat \<Rightarrow> 'g res) \<Rightarrow> ('g \<Rightarrow> kind_mapping res) \<Rightarrow> 'g cluster_client \<Rightarrow> kind_mapping res \<times> 'g cluster_client" where
  "mapping_attempts left fetch look cl =
     (case (case cl_groups cl of Some g \<Rightarrow> Inr g | None \<Rightarrow> fetch left) of
        Inl e \<Rightarrow> (Inl e, cl)
      | Inr g \<Rightarrow>
          (case look g of
             Inr m \<Rightarrow> (Inr m, cl\<lparr>cl_groups := Some g\<rparr>)
           | Inl e \<Rightarrow>
               (case left of
                  0 \<Rightarrow> (Inl e, cl\<lparr>cl_groups := None\<rparr>)
                | Suc n \<Rightarrow> mapping_attempts n fetch look (cl\<lparr>cl_groups := None\<rparr>))))"

declare mapping_attempts.simps [simp del]

definition resolve_mapping ::
  "op_context \<Rightarrow> (nat \<Rightarrow> 'g res) \<Rightarrow> ('g \<Rightarrow> kind_mapping res) \<Rightarrow> 'g cluster_client \<Rightarrow> kind_mapping res \<times> 'g cluster_client" where
  "resolve_mapping ctx fetch look cl =
     (case check_client_operation cl ctx of
        Some e \<Rightarrow> (Inl e, cl)
      | None \<Rightarrow> mapping_attempts 1 fetch look cl)"

text \<open>\<open>resolveMappingWith\<close>: the version is parsed first, then the mapper is asked.\<close>

definition resolve_mapping_with ::
  "(string \<Rightarrow> 'v res) \<Rightarrow> ('g \<Rightarrow> 'v \<Rightarrow> string \<Rightarrow> kind_mapping res) \<Rightarrow> string \<Rightarrow> string \<Rightarrow> 'g \<Rightarrow> kind_mapping res" where
  "resolve_mapping_with parse mapper apiVersion kind g =
     (case parse apiVersion of
        Inl e \<Rightarrow> Inl (wrap_error (''parse apiVersion '' @ quoted apiVersion) e)
      | Inr gv \<Rightarrow>
          (case mapper g gv kind of
             Inl e \<Rightarrow> Inl (wrap_error (''no REST mapping for '' @ apiVersion @ ''/'' @ kind) e)
           | Inr m \<Rightarrow> Inr m))"

definition reset_mapper :: "'g cluster_client \<Rightarrow> 'g cluster_client" where
  "reset_mapper cl = cl\<lparr>cl_groups := None, cl_kinds := None\<rparr>"

text \<open>\<open>clientset\<close> and \<open>dynamic\<close>: the errors of client-go's constructors.\<close>

definition new_client ::
  "auth_host \<Rightarrow> (rest_config \<Rightarrow> gerr option) \<Rightarrow> (rest_config \<Rightarrow> gerr option) \<Rightarrow> config \<Rightarrow> 'g cluster_client res" where
  "new_client h clientset dynamic c =
     (case (if uses_oidc c then map_sum id ol_rest (oidc_client_config c) else to_k8s_config h c) of
        Inl e \<Rightarrow> Inl e
      | Inr rc \<Rightarrow>
          (case clientset rc of
             Some e \<Rightarrow> Inl e
           | None \<Rightarrow>
               (case dynamic rc of
                  Some e \<Rightarrow> Inl e
                | None \<Rightarrow> Inr \<lparr>cl_config = Some c, cl_version = None, cl_kinds = None, cl_groups = None\<rparr>)))"

text \<open>\<open>rc\<close> is the configuration the client was built with, \<open>own\<close> its callback source.\<close>

definition callback_rest_config :: "rest_config \<Rightarrow> op_context \<Rightarrow> 'g cluster_client \<Rightarrow> rest_config res" where
  "callback_rest_config rc ctx cl = (case check_client_operation cl ctx of Some e \<Rightarrow> Inl e | None \<Rightarrow> Inr rc)"

definition client_worker_config ::
  "config \<Rightarrow> oidc_source \<Rightarrow> op_context \<Rightarrow> bool \<Rightarrow> (rest_config \<times> oidc_source) res" where
  "client_worker_config c own ctx has_worker =
     (case oidc_worker_config c ctx has_worker of Inl e \<Rightarrow> Inl e | Inr l \<Rightarrow> Inr (ol_rest l, own))"

subsection \<open>The cache\<close>

definition cache_ttl :: int where
  "cache_ttl = 10 * 60 * second"

record entry =
  en_client :: nat
  en_created :: instant

type_synonym entries = "(string \<times> entry) list"

definition fresh_entry :: "instant \<Rightarrow> string \<Rightarrow> entries \<Rightarrow> nat option" where
  "fresh_entry now key es =
     (case map_of es key of
        Some e \<Rightarrow> if time_sub now (en_created e) < cache_ttl then Some (en_client e) else None
      | None \<Rightarrow> None)"

text \<open>What \<open>Get\<close> does up to its first lock: an error, a client for this call alone, or a key.\<close>

datatype cache_plan = Cache_error gerr | Call_local | Cache_key string

definition cache_plan_of :: "crypto \<Rightarrow> op_context \<Rightarrow> operation_info option \<Rightarrow> config \<Rightarrow> cache_plan" where
  "cache_plan_of cy ctx info c =
     (case check_runtime c ctx of
        Some e \<Rightarrow> Cache_error e
      | None \<Rightarrow>
          (case auth_fingerprint cy c of
             Inl e \<Rightarrow> Cache_error (wrap_error ''client cache'' e)
           | Inr key \<Rightarrow>
               if uses_oidc c
               then (case info of
                       None \<Rightarrow> Call_local
                     | Some i \<Rightarrow> if oi_binding_id i = [] then Call_local
                                 else Cache_key (key @ ''|'' @ oi_binding_id i))
               else Cache_key key))"

text \<open>The second critical section, at \<open>now\<close> and then \<open>stamp\<close>: the client the caller gets, and the entries.\<close>

definition cache_store :: "instant \<Rightarrow> instant \<Rightarrow> string \<Rightarrow> nat \<Rightarrow> entries \<Rightarrow> nat \<times> entries" where
  "cache_store now stamp key built es =
     (case fresh_entry now key es of
        Some existing \<Rightarrow> (existing, es)
      | None \<Rightarrow> (built, AList.update key \<lparr>en_client = built, en_created = stamp\<rparr> es))"


text \<open>A whole \<open>Get\<close>: the first lookup at \<open>now\<close>, then, after whatever others do to the cache during the build,
  the store.\<close>

definition client_cache_get ::
  "crypto \<Rightarrow> op_context \<Rightarrow> operation_info option \<Rightarrow> config \<Rightarrow> nat res \<Rightarrow> instant \<Rightarrow> instant \<Rightarrow> instant \<Rightarrow>
   (entries \<Rightarrow> entries) \<Rightarrow> entries \<Rightarrow> nat res \<times> entries" where
  "client_cache_get cy ctx info c build now later stamp others es =
     (case cache_plan_of cy ctx info c of
        Cache_error e \<Rightarrow> (Inl e, es)
      | Call_local \<Rightarrow> (build, es)
      | Cache_key key \<Rightarrow>
          (case fresh_entry now key es of
             Some i \<Rightarrow> (Inr i, es)
           | None \<Rightarrow>
               (case build of
                  Inl e \<Rightarrow> (Inl e, others es)
                | Inr i \<Rightarrow> (case cache_store later stamp key i (others es) of (j, es') \<Rightarrow> (Inr j, es')))))"

subsection \<open>Callers\<close>

text \<open>
  The system of all callers of one cache. A caller is its configuration with the binding its context carries
  (empty unless it uses OIDC). Ghost fields record for whom each client was built. Time advances between
  events; \<open>cs_builds\<close> holds the callers that have missed and are building, with the client they build.
\<close>

record cache_users =
  cu_entries :: entries
  cu_now :: instant
  cu_owner :: "nat \<Rightarrow> (config \<times> string) option"
  cu_builds :: "(string \<times> nat) list"

definition no_users :: cache_users where
  "no_users = \<lparr>cu_entries = [], cu_now = 0, cu_owner = (\<lambda>_. None), cu_builds = []\<rparr>"

datatype cache_event =
    Elapsed
  | Hit_entry config string nat
  | Built config string nat
  | Stored config string nat nat

definition caller_binding :: "operation_info option \<Rightarrow> config \<Rightarrow> string" where
  "caller_binding info c = (if uses_oidc c then (case info of Some i \<Rightarrow> oi_binding_id i | None \<Rightarrow> []) else [])"

inductive cache_use :: "crypto \<Rightarrow> cache_users \<Rightarrow> cache_event \<Rightarrow> cache_users \<Rightarrow> bool" for cy where
  Elapsed: "now \<ge> cu_now s \<Longrightarrow> cache_use cy s Elapsed (s\<lparr>cu_now := now\<rparr>)"
| Hit_entry: "\<lbrakk>cache_plan_of cy ctx info c = Cache_key key; fresh_entry (cu_now s) key (cu_entries s) = Some i\<rbrakk> \<Longrightarrow>
    cache_use cy s (Hit_entry c (caller_binding info c) i) s"
| Built: "\<lbrakk>cache_plan_of cy ctx info c = Cache_key key; cu_owner s i = None\<rbrakk> \<Longrightarrow>
    cache_use cy s (Built c (caller_binding info c) i)
      (s\<lparr>cu_owner := (cu_owner s)(i \<mapsto> (c, caller_binding info c)), cu_builds := (key, i) # cu_builds s\<rparr>)"
| Stored: "\<lbrakk>(key, i) \<in> set (cu_builds s); cu_owner s i = Some (c, b);
     cache_store (cu_now s) stamp key i (cu_entries s) = (j, es); cu_now s \<le> stamp\<rbrakk> \<Longrightarrow>
    cache_use cy s (Stored c b i j)
      (s\<lparr>cu_entries := es, cu_now := stamp, cu_builds := remove1 (key, i) (cu_builds s)\<rparr>)"

inductive cache_users_reachable :: "crypto \<Rightarrow> cache_users \<Rightarrow> bool" for cy where
  Init: "cache_users_reachable cy no_users"
| Step: "\<lbrakk>cache_users_reachable cy s; cache_use cy s e s'\<rbrakk> \<Longrightarrow> cache_users_reachable cy s'"

inductive_cases cache_use_cases: "cache_use cy s (Hit_entry c b i) s'" "cache_use cy s (Stored c b i j) s'"

text \<open>The key of a caller.\<close>

definition caller_key :: "crypto \<Rightarrow> config \<Rightarrow> string \<Rightarrow> string \<Rightarrow> bool" where
  "caller_key cy c b key \<longleftrightarrow>
     (\<exists>k. auth_fingerprint cy c = Inr k \<and> (if uses_oidc c then b \<noteq> [] \<and> key = k @ ''|'' @ b else b = [] \<and> key = k))"

lemma plan_caller_key:
  "cache_plan_of cy ctx info c = Cache_key key \<Longrightarrow> caller_key cy c (caller_binding info c) key"
  by (auto simp: cache_plan_of_def caller_key_def caller_binding_def split: option.splits sum.splits if_splits)

definition owned_by_key :: "crypto \<Rightarrow> cache_users \<Rightarrow> bool" where
  "owned_by_key cy s \<longleftrightarrow>
     (\<forall>key e. map_of (cu_entries s) key = Some e \<longrightarrow>
        (\<exists>c b. cu_owner s (en_client e) = Some (c, b) \<and> caller_key cy c b key)) \<and>
     (\<forall>(key, i) \<in> set (cu_builds s). \<exists>c b. cu_owner s i = Some (c, b) \<and> caller_key cy c b key)"

lemma fresh_entry_Some:
  "fresh_entry now key es = Some i \<longleftrightarrow>
     (\<exists>e. map_of es key = Some e \<and> i = en_client e \<and> time_sub now (en_created e) < cache_ttl)"
  by (auto simp: fresh_entry_def split: option.splits)

lemma owned_by_keyI:
  assumes "\<And>key e. map_of (cu_entries s) key = Some e \<Longrightarrow>
      \<exists>c b. cu_owner s (en_client e) = Some (c, b) \<and> caller_key cy c b key"
    and "\<And>key i. (key, i) \<in> set (cu_builds s) \<Longrightarrow> \<exists>c b. cu_owner s i = Some (c, b) \<and> caller_key cy c b key"
  shows "owned_by_key cy s"
  using assms by (auto simp: owned_by_key_def)

lemma owned_by_keyD:
  assumes "owned_by_key cy s"
  shows "map_of (cu_entries s) key = Some e \<Longrightarrow> \<exists>c b. cu_owner s (en_client e) = Some (c, b) \<and> caller_key cy c b key"
    and "(key, i) \<in> set (cu_builds s) \<Longrightarrow> \<exists>c b. cu_owner s i = Some (c, b) \<and> caller_key cy c b key"
  using assms by (auto simp: owned_by_key_def)

lemma fresh_owner:
  "\<lbrakk>owned_by_key cy s; fresh_entry now key (cu_entries s) = Some i\<rbrakk> \<Longrightarrow>
   \<exists>c b. cu_owner s i = Some (c, b) \<and> caller_key cy c b key"
  using owned_by_keyD(1) by (auto simp: fresh_entry_Some)

lemma stored_entry:
  assumes "cache_store now stamp key i es = (j, es')" and "map_of es' k = Some e"
  shows "map_of es k = Some e \<or> k = key \<and> en_client e = i"
  using assms by (auto simp: cache_store_def update_conv' split: option.splits if_splits)

lemma owned_by_key_step:
  assumes "cache_use cy s e s'" and "owned_by_key cy s"
  shows "owned_by_key cy s'"
  using assms
proof cases
  case (Built ctx info c key i)
  note own = plan_caller_key [OF Built(3)]
  show ?thesis
    unfolding Built(2)
  proof (rule owned_by_keyI)
    fix k en
    assume "map_of (cu_entries (s\<lparr>cu_owner := (cu_owner s)(i \<mapsto> (c, caller_binding info c)),
      cu_builds := (key, i) # cu_builds s\<rparr>)) k = Some en"
    then show "\<exists>c' b. cu_owner (s\<lparr>cu_owner := (cu_owner s)(i \<mapsto> (c, caller_binding info c)),
      cu_builds := (key, i) # cu_builds s\<rparr>) (en_client en) = Some (c', b) \<and> caller_key cy c' b k"
      using owned_by_keyD(1) [OF assms(2), of k en] Built(4) by auto
  next
    fix k n
    assume "(k, n) \<in> set (cu_builds (s\<lparr>cu_owner := (cu_owner s)(i \<mapsto> (c, caller_binding info c)),
      cu_builds := (key, i) # cu_builds s\<rparr>))"
    then show "\<exists>c' b. cu_owner (s\<lparr>cu_owner := (cu_owner s)(i \<mapsto> (c, caller_binding info c)),
      cu_builds := (key, i) # cu_builds s\<rparr>) n = Some (c', b) \<and> caller_key cy c' b k"
      using owned_by_keyD(2) [OF assms(2), of k n] own Built(4) by auto
  qed
next
  case (Stored key i c b stamp j es)
  note own = owned_by_keyD(2) [OF assms(2) Stored(3)]
  show ?thesis
  proof (rule owned_by_keyI)
    fix k en
    assume "map_of (cu_entries s') k = Some en"
    then have "map_of es k = Some en" using Stored(2) by simp
    then have "map_of (cu_entries s) k = Some en \<or> k = key \<and> en_client en = i"
      by (rule stored_entry [OF Stored(5)])
    then show "\<exists>c b. cu_owner s' (en_client en) = Some (c, b) \<and> caller_key cy c b k"
      using owned_by_keyD(1) [OF assms(2)] own Stored(2) by auto
  next
    fix k n
    assume "(k, n) \<in> set (cu_builds s')"
    then have "(k, n) \<in> set (cu_builds s)"
      using Stored(2) set_remove1_subset [of "(key, i)" "cu_builds s"] by auto
    then show "\<exists>c b. cu_owner s' n = Some (c, b) \<and> caller_key cy c b k"
      using owned_by_keyD(2) [OF assms(2)] Stored(2) by auto
  qed
qed (auto simp: owned_by_key_def)

lemma owned_by_key_reachable: "cache_users_reachable cy s \<Longrightarrow> owned_by_key cy s"
proof (induction rule: cache_users_reachable.induct)
  case Init
  show ?case by (simp add: owned_by_key_def no_users_def)
next
  case (Step s e s')
  then show ?case by (blast intro: owned_by_key_step)
qed

definition hex_digests :: "crypto \<Rightarrow> bool" where
  "hex_digests cy \<longleftrightarrow> (\<forall>j. CHR ''|'' \<notin> set (cy_sha256_json cy j))"

lemma fingerprint_no_bar: "\<lbrakk>hex_digests cy; auth_fingerprint cy c = Inr k\<rbrakk> \<Longrightarrow> CHR ''|'' \<notin> set k"
  by (auto simp: auth_fingerprint_def hex_digests_def split: sum.splits)

lemma caller_key_unique:
  assumes "hex_digests cy" and "caller_key cy c1 b1 key" and "caller_key cy c2 b2 key"
  obtains k where "auth_fingerprint cy c1 = Inr k" and "auth_fingerprint cy c2 = Inr k" and "b1 = b2"
proof -
  from assms(2,3) obtain k1 k2 where k: "auth_fingerprint cy c1 = Inr k1" "auth_fingerprint cy c2 = Inr k2"
    and keys: "if uses_oidc c1 then b1 \<noteq> [] \<and> key = k1 @ ''|'' @ b1 else b1 = [] \<and> key = k1"
      "if uses_oidc c2 then b2 \<noteq> [] \<and> key = k2 @ ''|'' @ b2 else b2 = [] \<and> key = k2"
    by (auto simp: caller_key_def)
  have bars: "CHR ''|'' \<notin> set k1" "CHR ''|'' \<notin> set k2"
    using fingerprint_no_bar [OF assms(1)] k by auto
  then have "cut_char CHR ''|'' key = (if uses_oidc c1 then Some (k1, b1) else None)"
    "cut_char CHR ''|'' key = (if uses_oidc c2 then Some (k2, b2) else None)"
    using keys by (auto split: if_splits)
  then have "k1 = k2 \<and> b1 = b2"
    using keys by (auto split: if_splits)
  then show thesis
    using that k by blast
qed

lemma caller_of_event:
  assumes "cache_users_reachable cy s" and "cache_use cy s e s'" and "e = Hit_entry c b i \<or> e = Stored c b j i"
  obtains key c' b' where "caller_key cy c b key" and "cu_owner s' i = Some (c', b')" and "caller_key cy c' b' key"
proof -
  note inv = owned_by_key_reachable [OF assms(1)] and result = that
  have hit: thesis if "e = Hit_entry c b i"
  proof -
    from assms(2) obtain ctx info key where hit: "b = caller_binding info c" "s' = s"
      "cache_plan_of cy ctx info c = Cache_key key" "fresh_entry (cu_now s) key (cu_entries s) = Some i"
      unfolding \<open>e = _\<close> by (rule cache_use_cases(1))
    then show thesis
      using result fresh_owner [OF inv hit(4)] plan_caller_key [OF hit(3)] by blast
  qed
  have stored: thesis if "e = Stored c b j i"
  proof -
    from assms(2) obtain key stamp es where st:
      "s' = s\<lparr>cu_entries := es, cu_now := stamp, cu_builds := remove1 (key, j) (cu_builds s)\<rparr>"
      "(key, j) \<in> set (cu_builds s)" "cu_owner s j = Some (c, b)" "cache_store (cu_now s) stamp key j (cu_entries s) = (i, es)"
      unfolding \<open>e = _\<close> by (rule cache_use_cases(2))
    have own: "caller_key cy c b key"
      using owned_by_keyD(2) [OF inv st(2)] st(3) by simp
    have "\<exists>c' b'. cu_owner s i = Some (c', b') \<and> caller_key cy c' b' key"
      using st(3,4) own fresh_owner [OF inv, of "cu_now s" key]
      by (cases "fresh_entry (cu_now s) key (cu_entries s)") (auto simp: cache_store_def)
    then show thesis
      using result own st(1) by auto
  qed
  from assms(3) hit stored show thesis by blast
qed

text \<open>C22: However callers interleave and race, the client \<open>Get\<close> hands to a caller, from the cache or after
  building, was built for the same broker binding and for a target with the same method, origin, certificates,
  cluster and federated identity.\<close>

theorem client_served_to_its_identity:
  assumes "collision_free cy" and "hex_digests cy"
    and "cache_users_reachable cy s" and "cache_use cy s e s'"
    and "e = Hit_entry c b i \<or> e = Stored c b j i"
  shows "\<exists>c'. cu_owner s' i = Some (c', b) \<and> cf_type c' = cf_type c \<and> auth_method c' = auth_method c \<and>
    oidc_source_of c' = oidc_source_of c \<and>
    (\<forall>f \<in> set (selection_fields (cf_type c)). auth_text c' f = auth_text c f) \<and>
    (cf_type c \<noteq> ''Kubeconfig'' \<longrightarrow>
       endpoint_identity cy c' = endpoint_identity cy c \<and> certificate_bytes c' = certificate_bytes c)"
proof -
  obtain key c' b' where own: "caller_key cy c b key" "cu_owner s' i = Some (c', b')" "caller_key cy c' b' key"
    using assms(3-5) by (rule caller_of_event)
  obtain k where "auth_fingerprint cy c = Inr k" "auth_fingerprint cy c' = Inr k" "b = b'"
    using assms(2) own(1,3) by (rule caller_key_unique)
  then show ?thesis
    using own(2) fingerprints_agree_on [OF assms(1), of c k c'] by auto
qed

lemma caller_binding_None [simp]: "caller_binding None c = []"
  by (simp add: caller_binding_def)

definition sample_kube :: config where
  "sample_kube = \<lparr>cf_auth = JObj [(''Type'', JStr ''Kubeconfig'')], cf_version = ''1.31'', cf_type = ''Kubeconfig'',
     cf_deps = no_dependencies\<rparr>"

definition sample_context :: op_context where
  "sample_context = \<lparr>ox_err = None, ox_done = None\<rparr>"

lemma sample_kube_plan:
  obtains key where "cache_plan_of enumerated_crypto sample_context None sample_kube = Cache_key key"
  by (auto simp: cache_plan_of_def check_runtime_def sample_context_def sample_kube_def validate_auth_policy_def no_dependencies_def
      uses_oidc_def auth_method_def has_suffix_def has_prefix_def auth_fingerprint_def auth_identity_def type_identity_def
      kubeconfig_of_def string_field_def Let_def)

lemma enumerated_hex: "hex_digests enumerated_crypto"
  by (auto simp: hex_digests_def enumerated_crypto_def unary_def)

theorem client_served_to_its_identity_witness:
  "\<exists>s s'. cache_users_reachable enumerated_crypto s \<and> cache_use enumerated_crypto s (Stored sample_kube [] 7 7) s' \<and>
     (\<exists>c'. cu_owner s' 7 = Some (c', []) \<and> auth_method c' = auth_method sample_kube)"
proof -
  obtain key where plan: "cache_plan_of enumerated_crypto sample_context None sample_kube = Cache_key key"
    by (rule sample_kube_plan)
  define s where "s = no_users\<lparr>cu_owner := (\<lambda>_. None)(7 \<mapsto> (sample_kube, [])), cu_builds := [(key, 7)]\<rparr>"
  have "cache_use enumerated_crypto no_users (Built sample_kube (caller_binding None sample_kube) 7) s"
    using cache_use.Built [OF plan, of no_users 7] by (simp add: s_def no_users_def)
  then have reach: "cache_users_reachable enumerated_crypto s"
    by (blast intro: cache_users_reachable.intros)
  have "cache_use enumerated_crypto s (Stored sample_kube [] 7 7)
      (s\<lparr>cu_entries := [(key, \<lparr>en_client = 7, en_created = 1\<rparr>)], cu_now := 1, cu_builds := remove1 (key, 7) (cu_builds s)\<rparr>)"
    by (rule cache_use.Stored) (simp_all add: s_def no_users_def cache_store_def fresh_entry_def)
  then show ?thesis
    using reach client_served_to_its_identity [OF enumerated_collision_free enumerated_hex reach] by blast
qed

subsection \<open>The version override\<close>

lemma plan_cong:
  assumes "auth_method c' = auth_method c" and "cf_deps c' = cf_deps c" and "auth_fingerprint cy c' = auth_fingerprint cy c"
  shows "cache_plan_of cy ctx info c' = cache_plan_of cy ctx info c"
  unfolding cache_plan_of_def check_runtime_def validate_auth_policy_def uses_oidc_def assms by (rule refl)

lemma plan_version: "cache_plan_of cy ctx info (c\<lparr>cf_version := w\<rparr>) = cache_plan_of cy ctx info c"
  by (rule plan_cong) (simp_all add: auth_method_def unsupported_type_def fingerprint_version cong: if_cong)

text \<open>The cache key leaves out the target's version override, and a client keeps the configuration and the
  version of the caller that built it: a target that differs only in its override is given the same client
  and is gated against the other target's version.\<close>

theorem version_override_shared:
  assumes "cl_config cl = Some c" and "cl_version cl = None" and "check_client_operation cl ctx = None"
    and "cf_version c \<noteq> []" and "normalize_k8s_version (cf_version c) = Inr v"
  shows "cache_plan_of cy ctx' info (c\<lparr>cf_version := w\<rparr>) = cache_plan_of cy ctx' info c \<and>
    (let cl' = snd (resolve_version ctx env (Inr server) cl) in
     check_client_operation cl' ctx2 = None \<longrightarrow> fst (resolve_version ctx2 env2 disc cl') = Inr v)"
  using assms by (simp add: plan_version resolve_version_def resolve_k8s_version_def Let_def)

theorem version_override_shared_witness:
  "fst (resolve_version sample_context [] (Inr None)
     (snd (resolve_version sample_context [] (Inr None)
        \<lparr>cl_config = Some sample_kube, cl_version = None, cl_kinds = None, cl_groups = (None :: nat option)\<rparr>))) = Inr ''1.31''"
proof -
  let ?cl = "\<lparr>cl_config = Some sample_kube, cl_version = None, cl_kinds = None, cl_groups = (None :: nat option)\<rparr>"
  have idle: "check_client_operation (cl :: nat cluster_client) sample_context = None" if "cl_config cl = Some sample_kube" for cl
    using that by (simp add: check_client_operation_def sample_context_def sample_kube_def uses_oidc_def auth_method_def
        has_suffix_def has_prefix_def)
  have v: "normalize_k8s_version ''1.31'' = Inr ''1.31''"
    by code_simp
  have "cl_config (snd (resolve_version sample_context [] (Inr None) ?cl)) = Some sample_kube"
    by (simp add: resolve_version_def idle split: sum.split)
  from idle [OF this] show ?thesis
    using version_override_shared [of ?cl sample_kube sample_context "''1.31''" undefined undefined None "''1.30''" "[]" None
        sample_context "[]" "Inr None"] v idle [of ?cl]
    by (simp add: sample_kube_def Let_def)
qed

subsection \<open>Discovery data\<close>

text \<open>A mapping comes from the discovery data the client holds afterwards; a kind is only reported missing
  after a lookup in data fetched by this very call, and then no data is kept, so that the next call starts over.\<close>

theorem resolve_mapping_outcome:
  assumes "check_client_operation cl ctx = None" and "resolve_mapping ctx fetch look cl = (r, cl')"
  shows "case r of
      Inr m \<Rightarrow> \<exists>g. cl_groups cl' = Some g \<and> look g = Inr m \<and> (cl_groups cl = Some g \<or> (\<exists>n. fetch n = Inr g))
    | Inl e \<Rightarrow> cl_groups cl' = None \<and> (\<exists>n. fetch n = Inl e \<or> (\<exists>g. fetch n = Inr g \<and> look g = Inl e))"
  using assms
  by (auto simp: resolve_mapping_def mapping_attempts.simps [of "Suc 0"] mapping_attempts.simps [of 0]
      split: option.splits sum.splits)

theorem resolve_mapping_outcome_witness:
  "\<exists>cl'. resolve_mapping sample_context (\<lambda>_. Inr (5 :: nat))
     (\<lambda>g. if g = 5 then Inr \<lparr>km_resource = ''v1/pods'', km_namespaced = True\<rparr> else Inl (new_error ''stale''))
     \<lparr>cl_config = None, cl_version = None, cl_kinds = None, cl_groups = Some 4\<rparr> =
     (Inr \<lparr>km_resource = ''v1/pods'', km_namespaced = True\<rparr>, cl') \<and> cl_groups cl' = Some 5"
proof -
  let ?cl = "\<lparr>cl_config = None, cl_version = None, cl_kinds = None, cl_groups = Some (4 :: nat)\<rparr>"
  let ?look = "\<lambda>g :: nat. if g = 5 then Inr \<lparr>km_resource = ''v1/pods'', km_namespaced = True\<rparr> else Inl (new_error ''stale'')"
  have idle: "check_client_operation ?cl sample_context = None"
    by (simp add: check_client_operation_def sample_context_def)
  then obtain cl' where run: "resolve_mapping sample_context (\<lambda>_. Inr (5 :: nat)) ?look ?cl =
      (Inr \<lparr>km_resource = ''v1/pods'', km_namespaced = True\<rparr>, cl')"
    by (simp add: resolve_mapping_def mapping_attempts.simps [of "Suc 0"] mapping_attempts.simps [of 0])
  then show ?thesis
    using resolve_mapping_outcome [OF idle run] by auto
qed

end
