(* ===== verification/Custom.thy ===== *)
theory Custom
  imports Client_Cache Live_State Kind_Provisioner
begin

text \<open>
  The generic provisioner of custom resources (\<open>pkg/resources/custom/customresource.go\<close>,
  \<open>customlist.go\<close>). The dynamic client, the REST mapper, the accessors of an unstructured object, the clock and
  the context come in a parameter record over the state \<open>'s\<close> of the cluster and the client; the loop that waits
  for a kind to be served may not return, so it is a partial function.
\<close>

text \<open>\<open>da_text\<close> and \<open>da_slice\<close> are the values of \<open>NestedString\<close> and \<open>NestedSlice\<close>, on which the accessors
  of an object rest; a handle is a mapping with the namespace it is bound to. \<open>da_now n\<close> is the
  clock after attempt \<open>n\<close>, \<open>da_ctx n\<close> whether the context ends the wait after it.\<close>

record 's dynamic_api =
  da_text :: "jobject \<Rightarrow> string list \<Rightarrow> string"
  da_slice :: "jobject \<Rightarrow> string list \<Rightarrow> json list"
  da_set_namespace :: "string \<Rightarrow> jobject \<Rightarrow> jobject"
  da_resolve :: "string \<Rightarrow> string \<Rightarrow> 's \<Rightarrow> kind_mapping res \<times> 's"
  da_reset :: "'s \<Rightarrow> 's"
  da_apply :: "kind_mapping \<Rightarrow> string option \<Rightarrow> string \<Rightarrow> jobject \<Rightarrow> 's \<Rightarrow> jobject res \<times> 's"
  da_get :: "kind_mapping \<Rightarrow> string option \<Rightarrow> string \<Rightarrow> 's \<Rightarrow> jobject res \<times> 's"
  da_delete :: "kind_mapping \<Rightarrow> string option \<Rightarrow> string \<Rightarrow> 's \<Rightarrow> gerr option \<times> 's"
  da_list_crds :: "'s \<Rightarrow> jobject list res \<times> 's"
  da_list :: "string \<Rightarrow> string \<Rightarrow> string \<Rightarrow> 's \<Rightarrow> jobject list res \<times> 's"
  da_start :: instant
  da_now :: "nat \<Rightarrow> instant"
  da_ctx :: "nat \<Rightarrow> gerr option"
  da_settings :: "settings option"

abbreviation api_version_of :: "'s dynamic_api \<Rightarrow> jobject \<Rightarrow> string" where
  "api_version_of d obj \<equiv> da_text d obj [''apiVersion'']"

abbreviation kind_of :: "'s dynamic_api \<Rightarrow> jobject \<Rightarrow> string" where
  "kind_of d obj \<equiv> da_text d obj [''kind'']"

abbreviation name_of :: "'s dynamic_api \<Rightarrow> jobject \<Rightarrow> string" where
  "name_of d obj \<equiv> da_text d obj [''metadata'', ''name'']"

abbreviation namespace_of :: "'s dynamic_api \<Rightarrow> jobject \<Rightarrow> string" where
  "namespace_of d obj \<equiv> da_text d obj [''metadata'', ''namespace'']"

subsection \<open>Manifests\<close>

definition missing_kind :: gerr where
  "missing_kind = new_error ''custom manifest missing apiVersion or kind''"

definition parse_manifest :: "'s dynamic_api \<Rightarrow> raw \<Rightarrow> jobject res" where
  "parse_manifest d raw =
     (case normalize_metadata raw of
        None \<Rightarrow> Inl (wrap_error ''unmarshal custom manifest'' (new_error ''unexpected end of JSON input''))
      | Some (Inl e) \<Rightarrow> Inl e
      | Some (Inr doc) \<Rightarrow>
          (case (case doc of JObj kvs \<Rightarrow> Inr kvs | JNull \<Rightarrow> Inr [] | _ \<Rightarrow> Inl (json_type_error [])) of
             Inl e \<Rightarrow> Inl (wrap_error ''unmarshal custom manifest'' e)
           | Inr m \<Rightarrow>
               let obj = del_key ''formaeId'' m in
               if api_version_of d obj = [] \<or> kind_of d obj = [] then Inl missing_kind else Inr obj))"

definition bound_namespace :: "kind_mapping \<Rightarrow> string \<Rightarrow> string option" where
  "bound_namespace m ns = (if km_namespaced m then Some ns else None)"

subsection \<open>Waiting for a kind\<close>

definition is_establish_retryable :: "gerr \<Rightarrow> bool" where
  "is_establish_retryable e \<longleftrightarrow>
     is_api ApiNoMatch e \<or> is_api ApiNotFound e \<or> is_api ApiConflict e \<or> is_api ApiServerTimeout e \<or>
     is_api ApiInternalError e \<or> is_api ApiTooManyRequests e"

text \<open>One attempt; the object may have been given the default namespace.\<close>

definition apply_attempt :: "'s dynamic_api \<Rightarrow> string \<times> string \<Rightarrow> jobject \<Rightarrow> 's \<Rightarrow> jobject res \<times> jobject \<times> 's" where
  "apply_attempt d gvk obj s =
     (case da_resolve d (fst gvk) (snd gvk) s of
        (Inl e, s') \<Rightarrow> (Inl e, obj, s')
      | (Inr m, s') \<Rightarrow>
          (let ns = namespace_of d obj;
               defaulted = km_namespaced m \<and> ns = [];
               ns = (if defaulted then ''default'' else ns);
               obj = (if defaulted then da_set_namespace d ns obj else obj) in
           case da_apply d m (bound_namespace m ns) (name_of d obj) obj s' of
             (r, s'') \<Rightarrow> (r, obj, s'')))"

partial_function (option) establish ::
  "'s dynamic_api \<Rightarrow> string \<times> string \<Rightarrow> instant \<Rightarrow> nat \<Rightarrow> jobject \<Rightarrow> 's \<Rightarrow> (jobject res \<times> 's) option" where
  "establish d gvk deadline n obj s =
     (case apply_attempt d gvk obj s of
        (Inr result, _, s') \<Rightarrow> Some (Inr result, s')
      | (Inl e, obj', s') \<Rightarrow>
          if \<not> is_establish_retryable e \<or> da_now d n > deadline then Some (Inl e, s')
          else (case da_ctx d n of
                  Some ended \<Rightarrow> Some (Inl ended, da_reset d s')
                | None \<Rightarrow> establish d gvk deadline (Suc n) obj' (da_reset d s')))"

definition establish_deadline :: "'s dynamic_api \<Rightarrow> instant" where
  "establish_deadline d = da_start d + sint (crd_establish_timeout (da_settings d))"

definition resolve_and_apply :: "'s dynamic_api \<Rightarrow> jobject \<Rightarrow> 's \<Rightarrow> (jobject res \<times> 's) option" where
  "resolve_and_apply d obj s = establish d (api_version_of d obj, kind_of d obj) (establish_deadline d) 0 obj s"

subsection \<open>Operations\<close>

text \<open>\<open>CustomLiveState\<close> works on the object in place, so what is read of it afterwards is the stripped
  object.\<close>

definition custom_id :: "'s dynamic_api \<Rightarrow> jobject \<Rightarrow> string" where
  "custom_id d obj = custom_resource_id (api_version_of d obj) (kind_of d obj) (namespace_of d obj) (name_of d obj)"

definition custom_progress :: "'s dynamic_api \<Rightarrow> operation \<Rightarrow> string \<Rightarrow> jobject \<Rightarrow> progress" where
  "custom_progress d oper rid shown = (empty_progress oper StSuccess)
     \<lparr>pr_request_id := rid, pr_native_id := custom_id d shown, pr_properties := Some (Inr (JObj shown))\<rparr>"

definition custom_apply :: "'s dynamic_api \<Rightarrow> raw \<Rightarrow> operation \<Rightarrow> 's \<Rightarrow> (progress res \<times> 's) option" where
  "custom_apply d raw oper s =
     (case parse_manifest d raw of
        Inl e \<Rightarrow> Some (Inl e, s)
      | Inr obj \<Rightarrow>
          (case resolve_and_apply d obj s of
             None \<Rightarrow> None
           | Some (Inl e, s') \<Rightarrow>
               Some (Inl (wrap_error (''failed to apply '' @ api_version_of d obj @ ''/'' @ kind_of d obj) e), s')
           | Some (Inr result, s') \<Rightarrow>
               let shown = custom_live_state result in
               Some (Inr (custom_progress d oper (da_text d shown [''metadata'', ''resourceVersion'']) shown), s')))"

definition custom_create :: "'s dynamic_api \<Rightarrow> create_request \<Rightarrow> 's \<Rightarrow> (progress res \<times> 's) option" where
  "custom_create d req s = custom_apply d (cr_properties req) OpCreate s"

definition custom_update :: "'s dynamic_api \<Rightarrow> update_request \<Rightarrow> 's \<Rightarrow> (progress res \<times> 's) option" where
  "custom_update d req s = custom_apply d (up_desired req) OpUpdate s"

definition get_by_id :: "'s dynamic_api \<Rightarrow> string \<Rightarrow> 's \<Rightarrow> jobject res \<times> 's" where
  "get_by_id d nid s =
     (case parse_custom_resource_id nid of
        Inl e \<Rightarrow> (Inl e, s)
      | Inr (apiVersion, kind, ns, name) \<Rightarrow>
          (case da_resolve d apiVersion kind s of
             (Inl e, s') \<Rightarrow> (Inl e, s')
           | (Inr m, s') \<Rightarrow> da_get d m (bound_namespace m ns) name s'))"

definition custom_read :: "'s dynamic_api \<Rightarrow> read_request \<Rightarrow> 's \<Rightarrow> read_result res \<times> 's" where
  "custom_read d req s =
     (case get_by_id d (rd_native_id req) s of
        (Inl e, s') \<Rightarrow>
          (if is_api ApiNotFound e then Inr \<lparr>rr_type = rd_type req, rr_properties = None, rr_code = NotFound\<rparr> else Inl e, s')
      | (Inr result, s') \<Rightarrow>
          (Inr \<lparr>rr_type = rd_type req, rr_properties = Some (Inr (JObj (custom_live_state result))), rr_code = NoCode\<rparr>, s'))"

definition custom_status :: "'s dynamic_api \<Rightarrow> status_request \<Rightarrow> 's \<Rightarrow> progress res \<times> 's" where
  "custom_status d req s =
     (case get_by_id d (st_native_id req) s of
        (Inl e, s') \<Rightarrow>
          (if is_api ApiNotFound e then Inr ((empty_progress OpCheckStatus StFailure)\<lparr>pr_code := NotFound\<rparr>) else Inl e, s')
      | (Inr result, s') \<Rightarrow> (Inr (custom_progress d OpCheckStatus (st_request_id req) (custom_live_state result)), s'))"

definition custom_delete :: "'s dynamic_api \<Rightarrow> delete_request \<Rightarrow> 's \<Rightarrow> progress res \<times> 's" where
  "custom_delete d req s =
     (case parse_custom_resource_id (de_native_id req) of
        Inl e \<Rightarrow> (Inl e, s)
      | Inr (apiVersion, kind, ns, name) \<Rightarrow>
          (case da_resolve d apiVersion kind s of
             (Inl e, s') \<Rightarrow> (Inl e, s')
           | (Inr m, s') \<Rightarrow>
               (case da_delete d m (bound_namespace m ns) name s' of
                  (Some e, s'') \<Rightarrow>
                    (if is_api ApiNotFound e then Inr (empty_progress OpDelete StSuccess)
                     else Inl (wrap_error (''failed to delete '' @ apiVersion @ ''/'' @ kind) e), s'')
                | (None, s'') \<Rightarrow> (Inr (empty_progress OpDelete StSuccess), s''))))"

subsection \<open>Listing\<close>

definition first_served :: "json list \<Rightarrow> string" where
  "first_served versions =
     (case find (\<lambda>v. case v of
            JObj vm \<Rightarrow> map_of vm ''served'' = Some (JBool True) \<and> as_string (map_of vm ''name'') \<noteq> []
          | _ \<Rightarrow> False) versions of
        Some (JObj vm) \<Rightarrow> as_string (map_of vm ''name'')
      | _ \<Rightarrow> [])"

definition crd_served_gvr :: "'s dynamic_api \<Rightarrow> jobject \<Rightarrow> string \<times> string \<times> string" where
  "crd_served_gvr d crd =
     (da_text d crd [''spec'', ''group''], da_text d crd [''spec'', ''names'', ''plural''],
      first_served (da_slice d crd [''spec'', ''versions'']))"

fun list_kinds :: "'s dynamic_api \<Rightarrow> jobject list \<Rightarrow> string list \<Rightarrow> 's \<Rightarrow> string list \<times> 's" where
  "list_kinds d [] ids s = (ids, s)"
| "list_kinds d (crd # crds) ids s =
     (case crd_served_gvr d crd of (grp, plural, version) \<Rightarrow>
        if grp = [] \<or> plural = [] \<or> version = [] then list_kinds d crds ids s
        else (case da_list d grp version plural s of
                (Inl e, s') \<Rightarrow> list_kinds d crds ids s'
              | (Inr items, s') \<Rightarrow> list_kinds d crds (ids @ map (custom_id d) items) s'))"

definition custom_list :: "'s dynamic_api \<Rightarrow> 's \<Rightarrow> string list res \<times> 's" where
  "custom_list d s =
     (case da_list_crds d s of
        (Inl e, s') \<Rightarrow> (Inl (wrap_error ''list CustomResourceDefinitions'' e), s')
      | (Inr crds, s') \<Rightarrow> (case list_kinds d crds [] s' of (ids, s'') \<Rightarrow> (Inr ids, s'')))"

subsection \<open>The wait converges\<close>

text \<open>The object and the state before attempt \<open>n\<close>, when every attempt before failed.\<close>

fun before_attempt :: "'s dynamic_api \<Rightarrow> string \<times> string \<Rightarrow> nat \<Rightarrow> jobject \<Rightarrow> 's \<Rightarrow> jobject \<times> 's" where
  "before_attempt d gvk 0 obj s = (obj, s)"
| "before_attempt d gvk (Suc n) obj s = (case apply_attempt d gvk obj s of (_, obj', s') \<Rightarrow> before_attempt d gvk n obj' (da_reset d s'))"

definition attempt_result :: "'s dynamic_api \<Rightarrow> string \<times> string \<Rightarrow> nat \<Rightarrow> jobject \<Rightarrow> 's \<Rightarrow> jobject res \<times> jobject \<times> 's" where
  "attempt_result d gvk n obj s = (case before_attempt d gvk n obj s of (obj', s') \<Rightarrow> apply_attempt d gvk obj' s')"

lemma attempt_result_Suc:
  "apply_attempt d gvk obj s = (r, obj', s') \<Longrightarrow> attempt_result d gvk (Suc n) obj s = attempt_result d gvk n obj' (da_reset d s')"
  by (simp add: attempt_result_def)

definition keeps_waiting :: "'s dynamic_api \<Rightarrow> instant \<Rightarrow> nat \<Rightarrow> jobject res \<Rightarrow> bool" where
  "keeps_waiting d deadline n r \<longleftrightarrow>
     (\<exists>e. r = Inl e \<and> is_establish_retryable e) \<and> da_now d n \<le> deadline \<and> da_ctx d n = None"

lemma establish_waits:
  assumes "apply_attempt d gvk obj s = (r, obj', s')" and "keeps_waiting d deadline n r"
  shows "establish d gvk deadline n obj s = establish d gvk deadline (Suc n) obj' (da_reset d s')"
  using assms by (subst establish.simps) (auto simp: keeps_waiting_def)

lemma establish_after:
  assumes "\<And>k. k < m \<Longrightarrow> keeps_waiting d deadline (n + k) (fst (attempt_result d gvk k obj s))"
  shows "establish d gvk deadline n obj s =
    (case before_attempt d gvk m obj s of (obj', s') \<Rightarrow> establish d gvk deadline (n + m) obj' s')"
  using assms
proof (induction m arbitrary: n obj s)
  case (Suc m)
  obtain r obj' s' where att: "apply_attempt d gvk obj s = (r, obj', s')"
    by (cases "apply_attempt d gvk obj s") auto
  have "keeps_waiting d deadline n r"
    using Suc.prems [of 0] att by (simp add: attempt_result_def)
  then have "establish d gvk deadline n obj s = establish d gvk deadline (Suc n) obj' (da_reset d s')"
    by (rule establish_waits [OF att])
  also have "\<dots> = (case before_attempt d gvk m obj' (da_reset d s') of (obj'', s'') \<Rightarrow> establish d gvk deadline (Suc n + m) obj'' s'')"
    by (rule Suc.IH) (use Suc.prems attempt_result_Suc [OF att] in force)
  finally show ?case
    by (simp add: att)
qed simp

text \<open>C31: An apply whose kind is not served yet waits as long as its attempts fail in a retryable way within
  the configured time, and ends with the object of the first attempt that succeeds.\<close>

theorem custom_apply_converges:
  assumes "gvk = (api_version_of d obj, kind_of d obj)"
    and "\<forall>k < m. keeps_waiting d (establish_deadline d) k (fst (attempt_result d gvk k obj s))"
    and "attempt_result d gvk m obj s = (Inr result, obj', s')"
  shows "resolve_and_apply d obj s = Some (Inr result, s')"
proof -
  have "resolve_and_apply d obj s =
      (case before_attempt d gvk m obj s of (obj', s') \<Rightarrow> establish d gvk (establish_deadline d) m obj' s')"
    unfolding resolve_and_apply_def assms(1) [symmetric] by (subst establish_after [where m = m]) (use assms(2) in auto)
  then show ?thesis
    using assms(3) by (auto simp: attempt_result_def establish.simps [of d gvk _ m] split: prod.splits)
qed

lemma establish_ends:
  assumes "deadline < da_now d m" and "n \<le> m"
  shows "\<exists>r. establish d gvk deadline n obj s = Some r"
  using assms(2)
proof (induction "m - n" arbitrary: n obj s)
  case 0
  then have "n = m" by simp
  then show ?case
    using assms(1) by (subst establish.simps) (auto split: sum.split prod.split)
next
  case (Suc k)
  have "\<exists>r. establish d gvk deadline (Suc n) o' s' = Some r" for o' s'
    using Suc.hyps(1) [of "Suc n"] Suc.hyps(2) by simp
  then show ?case
    by (subst establish.simps) (auto split: sum.split prod.split option.split)
qed

text \<open>C32: Create and Update of a custom resource return as soon as the clock passes the deadline, whatever the
  API server answers.\<close>

theorem custom_apply_terminates:
  assumes "establish_deadline d < da_now d m"
  shows "custom_create d req s \<noteq> None \<and> custom_update d ureq s \<noteq> None"
proof -
  have "custom_apply d raw oper s \<noteq> None" for raw oper
  proof (cases "parse_manifest d raw")
    case (Inr obj)
    obtain r s' where "resolve_and_apply d obj s = Some (r, s')"
      using establish_ends [OF assms, of 0] by (fastforce simp: resolve_and_apply_def)
    then show ?thesis
      using Inr by (cases r) (simp_all add: custom_apply_def Let_def)
  qed (simp add: custom_apply_def)
  then show ?thesis
    by (simp add: custom_create_def custom_update_def)
qed

subsection \<open>What an apply reports\<close>

fun text_path :: "json option \<Rightarrow> string list \<Rightarrow> string" where
  "text_path j [] = as_string j"
| "text_path j (f # fs) = (case as_object j of Some kvs \<Rightarrow> text_path (map_of kvs f) fs | None \<Rightarrow> [])"

text \<open>What \<open>NestedString\<close> is documented to return.\<close>

definition reads_fields :: "'s dynamic_api \<Rightarrow> bool" where
  "reads_fields d \<longleftrightarrow> (\<forall>obj path. da_text d obj path = text_path (Some (JObj obj)) path)"

lemma live_state_top:
  "k \<notin> {''formaeId'', ''status'', ''metadata'', ''spec''} \<Longrightarrow> map_of (custom_live_state obj) k = map_of obj k"
  by (auto simp: custom_live_state_def strip_crd_server_defaults_def Let_def split: prod.splits)

lemma live_state_metadata:
  "map_of (custom_live_state obj) ''metadata'' =
     (case map_of obj ''metadata'' of
        Some (JObj meta) \<Rightarrow> Some (JObj (del_key ''managedFields'' (del_keys server_managed_meta_fields meta)))
      | j \<Rightarrow> j)"
proof -
  have "map_of (on_object ''metadata'' f (del_key ''status'' obj)) ''metadata'' =
      (case map_of obj ''metadata'' of Some (JObj meta) \<Rightarrow> Some (JObj (f meta)) | j \<Rightarrow> j)" for f
    by (auto simp: on_object_def split: option.splits json.splits)
  then show ?thesis
    by (simp add: custom_live_state_def strip_crd_server_defaults_def Let_def split: prod.split)
qed

lemma live_state_texts:
  assumes "reads_fields d"
  shows "api_version_of d (custom_live_state obj) = api_version_of d obj"
    and "kind_of d (custom_live_state obj) = kind_of d obj"
    and "name_of d (custom_live_state obj) = name_of d obj"
    and "namespace_of d (custom_live_state obj) = namespace_of d obj"
    and "da_text d (custom_live_state obj) [''metadata'', ''resourceVersion''] = []"
proof -
  have meta: "text_path (map_of (custom_live_state obj) ''metadata'') [k] =
      (if k \<in> set (''managedFields'' # server_managed_meta_fields) then [] else text_path (map_of obj ''metadata'') [k])" for k
    by (auto simp: live_state_metadata map_of_del_keys split: option.splits json.splits)
  show "api_version_of d (custom_live_state obj) = api_version_of d obj" "kind_of d (custom_live_state obj) = kind_of d obj"
    using assms by (simp_all add: reads_fields_def live_state_top)
  show "name_of d (custom_live_state obj) = name_of d obj" "namespace_of d (custom_live_state obj) = namespace_of d obj"
    "da_text d (custom_live_state obj) [''metadata'', ''resourceVersion''] = []"
    using assms meta [of "''name''"] meta [of "''namespace''"] meta [of "''resourceVersion''"]
    by (simp_all add: reads_fields_def server_managed_meta_fields_def)
qed

lemma live_state_id: "reads_fields d \<Longrightarrow> custom_id d (custom_live_state obj) = custom_id d obj"
  by (simp add: custom_id_def live_state_texts)

text \<open>An apply reports the id of the object the API server returned and, because the live state is rendered
  in place before the version is read, never a resource version: the request id is always empty.\<close>

theorem custom_apply_reports:
  assumes "reads_fields d" and "custom_apply d raw oper s = Some (Inr pr, s')"
  shows "\<exists>obj result. parse_manifest d raw = Inr obj \<and> resolve_and_apply d obj s = Some (Inr result, s') \<and>
    pr_status pr = StSuccess \<and> pr_operation pr = oper \<and> pr_native_id pr = custom_id d result \<and>
    pr_properties pr = Some (Inr (JObj (custom_live_state result))) \<and> pr_request_id pr = []"
  using assms(2)
  by (auto simp: custom_apply_def custom_progress_def empty_progress_def Let_def live_state_id [OF assms(1)]
      live_state_texts [OF assms(1)] split: sum.splits option.splits)

text \<open>The id Create reports leads Read back to the object: if the API server still holds it, Read returns the
  very properties Create reported.\<close>

theorem custom_read_agrees_with_create:
  assumes "reads_fields d" and "parse_manifest d (cr_properties q) = Inr obj"
    and "resolve_and_apply d obj s = Some (Inr result, s')"
    and "api_version_of d result \<noteq> []" and "kind_of d result \<noteq> []" and "name_of d result \<noteq> []"
    and "CHR ''/'' \<notin> set (kind_of d result @ namespace_of d result @ name_of d result)"
    and "da_resolve d (api_version_of d result) (kind_of d result) s' = (Inr m, s1)"
    and "da_get d m (bound_namespace m (namespace_of d result)) (name_of d result) s1 = (Inr result, s2)"
  shows "\<exists>pr. custom_create d q s = Some (Inr pr, s') \<and>
    custom_read d \<lparr>rd_native_id = pr_native_id pr, rd_type = t\<rparr> s' =
      (Inr \<lparr>rr_type = t, rr_properties = pr_properties pr, rr_code = NoCode\<rparr>, s2)"
proof -
  have "parse_custom_resource_id (custom_id d result) =
      Inr (api_version_of d result, kind_of d result, namespace_of d result, name_of d result)"
    using assms(4-7) by (subst parse_custom_iff) (auto simp: custom_id_def)
  then show ?thesis
    using assms(2,3,8,9)
    by (simp add: custom_create_def custom_apply_def custom_progress_def empty_progress_def Let_def live_state_id [OF assms(1)]
        custom_read_def get_by_id_def)
qed

text \<open>Listing is one pass over the served kinds: one that cannot be listed contributes nothing and hides no other.
  \<open>read_only\<close> says that listing leaves the cluster as it is.\<close>

definition read_only :: "'s dynamic_api \<Rightarrow> bool" where
  "read_only d \<longleftrightarrow> (\<forall>g v p s. snd (da_list d g v p s) = s)"

definition kind_ids :: "'s dynamic_api \<Rightarrow> 's \<Rightarrow> jobject \<Rightarrow> string list" where
  "kind_ids d s crd =
     (case crd_served_gvr d crd of (grp, plural, version) \<Rightarrow>
        if grp = [] \<or> plural = [] \<or> version = [] then []
        else (case fst (da_list d grp version plural s) of Inl e \<Rightarrow> [] | Inr items \<Rightarrow> map (custom_id d) items))"

lemma list_kinds_exact: "read_only d \<Longrightarrow> list_kinds d crds ids s = (ids @ concat (map (kind_ids d s) crds), s)"
proof (induction crds arbitrary: ids)
  case (Cons crd crds)
  have same: "da_list d g v p s = (r, s') \<Longrightarrow> s' = s" for g v p r s'
    using Cons.prems by (metis snd_conv read_only_def)
  show ?case
    using Cons by (auto simp: kind_ids_def [of _ _ crd] split: prod.split sum.split dest!: same)
qed simp

subsection \<open>A sample cluster\<close>

text \<open>Its only kind is served from the second attempt on.\<close>

definition widget :: jobject where
  "widget = [(''apiVersion'', JStr ''example.com/v1''), (''kind'', JStr ''Widget''),
     (''metadata'', JObj [(''name'', JStr ''w''), (''namespace'', JStr ''ns''), (''resourceVersion'', JStr ''41'')])]"

definition widget_mapping :: kind_mapping where
  "widget_mapping = \<lparr>km_resource = ''example.com/v1/widgets'', km_namespaced = True\<rparr>"

definition sample_api :: "nat dynamic_api" where
  "sample_api = \<lparr>
     da_text = (\<lambda>obj path. text_path (Some (JObj obj)) path), da_slice = (\<lambda>_ _. []), da_set_namespace = (\<lambda>_ obj. obj),
     da_resolve = (\<lambda>_ _ s. (if s = 0 then Inl (GErr [] [] ApiNoMatch ''no match'') else Inr widget_mapping, s)),
     da_reset = Suc, da_apply = (\<lambda>_ _ _ obj s. (Inr obj, s)), da_get = (\<lambda>_ _ _ s. (Inr widget, s)),
     da_delete = (\<lambda>_ _ _ s. (None, s)), da_list_crds = (\<lambda>s. (Inr [], s)), da_list = (\<lambda>_ _ _ s. (Inr [], s)),
     da_start = 0, da_now = (\<lambda>n. int n * second), da_ctx = (\<lambda>_. None), da_settings = None\<rparr>"

lemma sample_reads_fields: "reads_fields sample_api"
  by (simp add: reads_fields_def sample_api_def)

lemma sample_deadline: "establish_deadline sample_api = 180 * second"
  by (simp add: establish_deadline_def sample_api_def crd_establish_timeout_def second_def)

lemmas sample_api_simps = sample_api_def widget_def widget_mapping_def bound_namespace_def

theorem custom_apply_converges_witness: "resolve_and_apply sample_api widget 0 = Some (Inr widget, 1)"
proof (rule custom_apply_converges)
  show "(''example.com/v1'', ''Widget'') = (api_version_of sample_api widget, kind_of sample_api widget)"
    by (simp add: sample_api_simps)
  show "attempt_result sample_api (''example.com/v1'', ''Widget'') 1 widget 0 = (Inr widget, widget, 1)"
    by (simp add: attempt_result_def apply_attempt_def sample_api_simps Let_def)
  show "\<forall>k < 1. keeps_waiting sample_api (establish_deadline sample_api) k (fst (attempt_result sample_api (''example.com/v1'', ''Widget'') k widget 0))"
    unfolding sample_deadline
    by (simp add: keeps_waiting_def attempt_result_def apply_attempt_def sample_api_simps is_establish_retryable_def is_api_def
        second_def)
qed

theorem custom_apply_terminates_witness:
  "custom_create sample_api \<lparr>cr_type = [], cr_properties = None\<rparr> 0 \<noteq> None"
  using custom_apply_terminates [of sample_api 181 "\<lparr>cr_type = [], cr_properties = None\<rparr>" 0] unfolding sample_deadline
  by (simp add: sample_api_def)

lemma sample_manifest: "parse_manifest sample_api (Some (Inr (JObj widget))) = Inr widget"
  by (simp add: parse_manifest_def normalize_metadata_def sample_api_simps must_collapse_def del_key_def has_nested_object_value_def
      Let_def)

lemma sample_applied [simp]: "resolve_and_apply sample_api widget (Suc 0) = Some (Inr widget, 1)"
  by (simp add: resolve_and_apply_def establish.simps apply_attempt_def sample_api_simps Let_def)

theorem custom_apply_reports_witness:
  "\<exists>pr s'. custom_apply sample_api (Some (Inr (JObj widget))) OpCreate 1 = Some (Inr pr, s') \<and> pr_request_id pr = [] \<and>
     pr_native_id pr = ''example.com/v1/Widget/ns/w''"
proof -
  obtain pr s' where run: "custom_apply sample_api (Some (Inr (JObj widget))) OpCreate 1 = Some (Inr pr, s')"
    by (simp add: custom_apply_def sample_manifest sample_applied Let_def)
  then obtain obj result where "parse_manifest sample_api (Some (Inr (JObj widget))) = Inr obj"
      and "resolve_and_apply sample_api obj 1 = Some (Inr result, s')"
      and pr: "pr_native_id pr = custom_id sample_api result" "pr_request_id pr = []"
    using custom_apply_reports [OF sample_reads_fields run] by blast
  then have "result = widget"
    by (simp add: sample_manifest)
  then have "pr_native_id pr = ''example.com/v1/Widget/ns/w''"
    using pr(1) by (simp add: custom_id_def sample_api_simps custom_resource_id_def)
  then show ?thesis
    using run pr(2) by blast
qed

theorem custom_read_agrees_with_create_witness:
  "\<exists>pr. custom_create sample_api \<lparr>cr_type = ''K8S::Custom::Resource'', cr_properties = Some (Inr (JObj widget))\<rparr> 1 = Some (Inr pr, 1) \<and>
     custom_read sample_api \<lparr>rd_native_id = pr_native_id pr, rd_type = ''K8S::Custom::Resource''\<rparr> 1 =
       (Inr \<lparr>rr_type = ''K8S::Custom::Resource'', rr_properties = pr_properties pr, rr_code = NoCode\<rparr>, 1)"
proof (rule custom_read_agrees_with_create)
  show "parse_manifest sample_api (cr_properties \<lparr>cr_type = ''K8S::Custom::Resource'', cr_properties = Some (Inr (JObj widget))\<rparr>) = Inr widget"
    by (simp add: sample_manifest)
  show "resolve_and_apply sample_api widget 1 = Some (Inr widget, 1)"
    by simp
  show "da_resolve sample_api (api_version_of sample_api widget) (kind_of sample_api widget) 1 = (Inr widget_mapping, 1)"
    by (simp add: sample_api_simps)
qed (simp_all add: sample_reads_fields, simp_all add: sample_api_simps)

end
