(* ===== verification/Discovery.thy ===== *)
theory Discovery
  imports Client_Cache Release_Record
begin

text \<open>
  The table of resource types (\<open>pkg/resources/registry/registry.go\<close>) and what discovery skips
  (\<open>src/k8s.go\<close>: the filters the plugin hands to formae). The table is filled by \<open>Register\<close> at start-up; Go
  iterates over it in any order, here the order is that of the list.
\<close>

subsection \<open>The table of types\<close>

record 's registration =
  rg_factory :: "nat \<Rightarrow> config \<Rightarrow> 's provisioner"
  rg_operations :: "operation list"

type_synonym 's registrations = "(string \<times> 's registration) list"

definition register ::
  "sdk \<Rightarrow> string \<Rightarrow> operation list \<Rightarrow> (nat \<Rightarrow> config \<Rightarrow> 's provisioner) \<Rightarrow> 's registrations \<Rightarrow> 's registrations comp" where
  "register env rtype operations factory regs =
     (case map_of regs rtype of
        Some _ \<Rightarrow> Panic (''duplicate registration for resource type '' @ quoted rtype)
      | None \<Rightarrow>
          Ret ((rtype, \<lparr>rg_factory = (\<lambda>client c. lifecycle_wrap env (factory client c)), rg_operations = operations\<rparr>) # regs))"

definition get_factory :: "'s registrations \<Rightarrow> string \<Rightarrow> (nat \<Rightarrow> config \<Rightarrow> 's provisioner) option" where
  "get_factory regs rtype = map_option rg_factory (map_of regs rtype)"

definition get_operations :: "'s registrations \<Rightarrow> string \<Rightarrow> operation list" where
  "get_operations regs rtype = (case map_of regs rtype of None \<Rightarrow> [] | Some reg \<Rightarrow> rg_operations reg)"

definition has_provisioner :: "'s registrations \<Rightarrow> string \<Rightarrow> bool" where
  "has_provisioner regs rtype \<longleftrightarrow> map_of regs rtype \<noteq> None"

definition resource_types :: "'s registrations \<Rightarrow> string list" where
  "resource_types regs = map fst regs"

text \<open>The tables start-up can produce.\<close>

inductive started :: "sdk \<Rightarrow> 's registrations \<Rightarrow> bool" for env where
  Empty: "started env []"
| Registered: "\<lbrakk>started env regs; register env rtype operations factory regs = Ret regs'\<rbrakk> \<Longrightarrow> started env regs'"

subsection \<open>Filters\<close>

text \<open>A filter selects the objects of its types that meet every condition: a path, and the value it must have
  or the empty string where it only has to exist.\<close>

record match_filter =
  mf_types :: "string list"
  mf_conditions :: "(string \<times> string) list"

definition quote_char :: string where "quote_char = [CHR 0x27]"

definition name_path :: string where "name_path = ''$.metadata.name''"

definition named :: "string \<Rightarrow> string \<Rightarrow> match_filter" where
  "named rtype name = \<lparr>mf_types = [rtype], mf_conditions = [(name_path, name)]\<rparr>"

definition exists_at :: "string list \<Rightarrow> string \<Rightarrow> match_filter" where
  "exists_at rtypes path = \<lparr>mf_types = rtypes, mf_conditions = [(path, [])]\<rparr>"

definition name_search :: "string \<Rightarrow> string" where
  "name_search start = ''$.metadata[?search(@, '' @ quote_char @ ''^'' @ start @ quote_char @ '')]''"

definition owner_of_kind :: "string \<Rightarrow> string" where
  "owner_of_kind kind = ''$.metadata.ownerReferences[?@.kind == '' @ quoted kind @ '']''"

definition label_path :: "string \<Rightarrow> string" where
  "label_path key = ''$.metadata.labels['' @ quote_char @ key @ quote_char @ '']''"

definition release_annotation_path :: string where
  "release_annotation_path = ''$.metadata.annotations['' @ quote_char @ ''meta.helm.sh/release-name'' @ quote_char @ '']''"

definition is_discovery_anchor :: "string \<Rightarrow> bool" where
  "is_discovery_anchor rtype \<longleftrightarrow>
     rtype = resource_type_release \<or> rtype = ''K8S::Core::Namespace'' \<or> has_prefix rtype ''K8S::Test::''"

definition helm_applied_filters :: "'s registrations \<Rightarrow> match_filter list" where
  "helm_applied_filters regs =
     map (\<lambda>rtype. exists_at [rtype] release_annotation_path)
       (filter (\<lambda>rtype. \<not> is_discovery_anchor rtype) (resource_types regs))"

definition namespace_filters :: "match_filter list" where
  "namespace_filters =
     [named ''K8S::Core::Namespace'' ''kube-system'',
      named ''K8S::Core::Namespace'' ''kube-public'',
      named ''K8S::Core::Namespace'' ''kube-node-lease'',
      named ''K8S::Core::ServiceAccount'' ''default'',
      named ''K8S::Core::ConfigMap'' ''kube-root-ca.crt'',
      named ''K8S::Core::Namespace'' ''local-path-storage'',
      named ''K8S::Rbac::ClusterRoleBinding'' ''local-path-provisioner-bind'']"

definition default_object_filters :: "match_filter list" where
  "default_object_filters =
     [named ''K8S::Core::Service'' ''kubernetes'',
      \<lparr>mf_types = [''K8S::Core::Endpoints''], mf_conditions = [(''$.metadata.namespace'', ''default''), (name_path, ''kubernetes'')]\<rparr>,
      exists_at [''K8S::Batch::Job''] (owner_of_kind ''CronJob''),
      exists_at [''K8S::Apps::ReplicaSet''] (''$.metadata.ownerReferences[0]''),
      exists_at [''K8S::Core::Pod''] (''$.metadata.ownerReferences[0]''),
      \<lparr>mf_types = [''K8S::Core::Endpoints''], mf_conditions = [(label_path ''endpoints.kubernetes.io/managed-by'', ''endpoint-controller'')]\<rparr>,
      \<lparr>mf_types = [''K8S::Core::Secret''], mf_conditions = [(''$.type'', ''kubernetes.io/service-account-token'')]\<rparr>,
      \<lparr>mf_types = [''K8S::Core::Secret''], mf_conditions = [(''$.type'', ''helm.sh/release.v1'')]\<rparr>]"

definition flow_filters :: "match_filter list" where
  "flow_filters =
     [\<lparr>mf_types = [''K8S::Coordination::Lease''], mf_conditions = [(''$.metadata.namespace'', ''kube-system'')]\<rparr>,
      exists_at [''K8S::Flowcontrol::FlowSchema''] (name_search ''system-''),
      named ''K8S::Flowcontrol::FlowSchema'' ''exempt'',
      named ''K8S::Flowcontrol::FlowSchema'' ''global-default'',
      exists_at [''K8S::Flowcontrol::PriorityLevelConfiguration''] (name_search ''system-''),
      exists_at [''K8S::Scheduling::PriorityClass''] (name_search ''system-''),
      named ''K8S::Flowcontrol::FlowSchema'' ''catch-all'',
      named ''K8S::Flowcontrol::FlowSchema'' ''probes'',
      named ''K8S::Flowcontrol::FlowSchema'' ''service-accounts'',
      named ''K8S::Flowcontrol::FlowSchema'' ''kube-controller-manager'',
      named ''K8S::Flowcontrol::FlowSchema'' ''kube-scheduler'',
      named ''K8S::Flowcontrol::FlowSchema'' ''endpoint-controller'',
      named ''K8S::Flowcontrol::FlowSchema'' ''workload-high'',
      named ''K8S::Flowcontrol::FlowSchema'' ''workload-low'',
      named ''K8S::Flowcontrol::PriorityLevelConfiguration'' ''system'',
      named ''K8S::Flowcontrol::PriorityLevelConfiguration'' ''catch-all'',
      named ''K8S::Flowcontrol::PriorityLevelConfiguration'' ''exempt'',
      named ''K8S::Flowcontrol::PriorityLevelConfiguration'' ''workload-high'',
      named ''K8S::Flowcontrol::PriorityLevelConfiguration'' ''workload-low'',
      named ''K8S::Flowcontrol::PriorityLevelConfiguration'' ''node-high'',
      named ''K8S::Flowcontrol::PriorityLevelConfiguration'' ''leader-election'',
      named ''K8S::Flowcontrol::PriorityLevelConfiguration'' ''global-default'']"

definition storage_filters :: "match_filter list" where
  "storage_filters =
     [named ''K8S::Storage::StorageClass'' ''gp2'',
      named ''K8S::Storage::StorageClass'' ''gp3'',
      named ''K8S::Storage::StorageClass'' ''standard'',
      named ''K8S::Storage::StorageClass'' ''standard-rwo'',
      named ''K8S::Storage::StorageClass'' ''premium-rwo'',
      named ''K8S::Storage::StorageClass'' ''default'',
      named ''K8S::Storage::StorageClass'' ''managed-premium'',
      named ''K8S::Storage::StorageClass'' ''local-path'',
      named ''K8S::Storage::StorageClass'' ''orbstack'']"

definition webhook_filters :: "match_filter list" where
  "webhook_filters =
     [exists_at [''K8S::Admissionregistration::MutatingWebhookConfiguration'', ''K8S::Admissionregistration::ValidatingWebhookConfiguration''] (name_search ''eks-''),
      exists_at [''K8S::Admissionregistration::MutatingWebhookConfiguration'', ''K8S::Admissionregistration::ValidatingWebhookConfiguration''] (name_search ''gke-''),
      exists_at [''K8S::Admissionregistration::MutatingWebhookConfiguration'', ''K8S::Admissionregistration::ValidatingWebhookConfiguration''] (name_search ''aks-'')]"

definition rbac_filters :: "match_filter list" where
  "rbac_filters =
     [exists_at [''K8S::Rbac::ClusterRole''] (name_search ''system:''),
      exists_at [''K8S::Rbac::ClusterRoleBinding''] (name_search ''system:''),
      exists_at [''K8S::Rbac::ClusterRoleBinding''] (name_search ''kubeadm:''),
      exists_at [''K8S::Rbac::ClusterRole''] (name_search ''kubeadm:''),
      exists_at [''K8S::Rbac::RoleBinding''] (name_search ''kubeadm:''),
      exists_at [''K8S::Rbac::Role''] (name_search ''kubeadm:''),
      named ''K8S::Rbac::ClusterRoleBinding'' ''cluster-admin'',
      named ''K8S::Rbac::ClusterRoleBinding'' ''kindnet'',
      named ''K8S::Flowcontrol::FlowSchema'' ''kube-system-service-accounts'']"

definition static_filters :: "match_filter list" where
  "static_filters =
     namespace_filters @ default_object_filters @ flow_filters @ storage_filters @ webhook_filters @ rbac_filters"

definition discovery_filters :: "'s registrations \<Rightarrow> match_filter list" where
  "discovery_filters regs = helm_applied_filters regs @ static_filters"

subsection \<open>Lemmas\<close>

lemma started_distinct: "started env regs \<Longrightarrow> distinct (resource_types regs)"
  by (induction rule: started.induct)
    (auto simp: register_def resource_types_def map_of_eq_None_iff split: option.splits)

text \<open>A factory whose provisioners all carry the lifecycle decorator.\<close>

definition wrapped :: "sdk \<Rightarrow> (nat \<Rightarrow> config \<Rightarrow> 's provisioner) \<Rightarrow> bool" where
  "wrapped env factory \<longleftrightarrow> (\<exists>inner. factory = (\<lambda>client c. lifecycle_wrap env (inner client c)))"

lemma wrappedI [simp, intro]: "wrapped env (\<lambda>client c. lifecycle_wrap env (inner client c))"
  unfolding wrapped_def by blast

lemma started_wrapped: "\<lbrakk>started env regs; map_of regs rtype = Some reg\<rbrakk> \<Longrightarrow> wrapped env (rg_factory reg)"
  by (induction arbitrary: reg rule: started.induct) (auto simp: register_def split: option.splits if_splits)

lemma static_namespace_filters:
  "filter (\<lambda>f. ''K8S::Core::Namespace'' \<in> set (mf_types f)) static_filters =
     map (named ''K8S::Core::Namespace'') [''kube-system'', ''kube-public'', ''kube-node-lease'', ''local-path-storage'']"
  by (simp add: static_filters_def namespace_filters_def default_object_filters_def flow_filters_def storage_filters_def
      webhook_filters_def rbac_filters_def named_def exists_at_def)

lemma static_release_filters: "list_all (\<lambda>f. resource_type_release \<notin> set (mf_types f)) static_filters"
  by (simp add: static_filters_def namespace_filters_def default_object_filters_def flow_filters_def storage_filters_def
      webhook_filters_def rbac_filters_def named_def exists_at_def resource_type_release_def)

text \<open>Discovery never hides a Helm release, hides a namespace only by four names, and hides whatever Helm
  applied of every other registered type, whatever types have been registered.\<close>

theorem discovery_anchors_stay_visible:
  "(\<forall>f \<in> set (discovery_filters regs). resource_type_release \<notin> set (mf_types f)) \<and>
   {f \<in> set (discovery_filters regs). ''K8S::Core::Namespace'' \<in> set (mf_types f)} =
     named ''K8S::Core::Namespace'' ` {''kube-system'', ''kube-public'', ''kube-node-lease'', ''local-path-storage''} \<and>
   (\<forall>rtype. has_provisioner regs rtype \<and> \<not> is_discovery_anchor rtype \<longrightarrow>
      exists_at [rtype] release_annotation_path \<in> set (discovery_filters regs))"
proof (intro conjI allI impI ballI)
  have anchors: "is_discovery_anchor resource_type_release" "is_discovery_anchor ''K8S::Core::Namespace''"
    by (simp_all add: is_discovery_anchor_def)
  then have applied: "f \<in> set (helm_applied_filters regs) \<Longrightarrow> t \<in> {resource_type_release, ''K8S::Core::Namespace''} \<Longrightarrow>
      t \<notin> set (mf_types f)" for f t
    by (auto simp: helm_applied_filters_def exists_at_def)
  show "resource_type_release \<notin> set (mf_types f)" if "f \<in> set (discovery_filters regs)" for f
    using that applied static_release_filters by (auto simp: discovery_filters_def list_all_iff)
  have "{f \<in> set static_filters. ''K8S::Core::Namespace'' \<in> set (mf_types f)} =
      set (map (named ''K8S::Core::Namespace'') [''kube-system'', ''kube-public'', ''kube-node-lease'', ''local-path-storage''])"
    unfolding static_namespace_filters [symmetric] by simp
  then show "{f \<in> set (discovery_filters regs). ''K8S::Core::Namespace'' \<in> set (mf_types f)} =
     named ''K8S::Core::Namespace'' ` {''kube-system'', ''kube-public'', ''kube-node-lease'', ''local-path-storage''}"
    using applied by (auto simp: discovery_filters_def)
  show "exists_at [rtype] release_annotation_path \<in> set (discovery_filters regs)"
    if "has_provisioner regs rtype \<and> \<not> is_discovery_anchor rtype" for rtype
    using that
    by (auto simp: discovery_filters_def helm_applied_filters_def has_provisioner_def resource_types_def image_iff
        dest!: map_of_SomeD)
qed

theorem discovery_anchors_stay_visible_witness:
  "\<exists>regs :: unit registrations.
     register sample_sdk ''K8S::Core::Pod'' [OpRead] (\<lambda>_ _. fixed_provisioner sample_success None (None, None)) [] = Ret regs \<and>
     exists_at [''K8S::Core::Pod''] release_annotation_path \<in> set (discovery_filters regs)"
proof -
  obtain regs :: "unit registrations" where regs:
    "register sample_sdk ''K8S::Core::Pod'' [OpRead] (\<lambda>_ _. fixed_provisioner sample_success None (None, None)) [] = Ret regs"
    "has_provisioner regs ''K8S::Core::Pod''"
    by (simp add: register_def has_provisioner_def)
  have "\<not> is_discovery_anchor ''K8S::Core::Pod''"
    by code_simp
  with discovery_anchors_stay_visible [of regs] regs(2)
  have "exists_at [''K8S::Core::Pod''] release_annotation_path \<in> set (discovery_filters regs)"
    by blast
  with regs(1) show ?thesis
    by blast
qed

text \<open>A type can be registered once: the second registration panics and the first stays in force, so every
  table has one entry per type, and every provisioner it hands out is a wrapped one.\<close>

theorem registrations_are_final:
  assumes "started env regs"
  shows "distinct (resource_types regs) \<and>
    (\<forall>rtype factory. get_factory regs rtype = Some factory \<longrightarrow>
       wrapped env factory \<and>
       (\<forall>ops other. \<exists>msg. register env rtype ops other regs = Panic msg)) \<and>
    (\<forall>rtype ops other regs' old. register env rtype ops other regs = Ret regs' \<and> get_factory regs old \<noteq> None \<longrightarrow>
       get_factory regs' old = get_factory regs old)"
proof (intro conjI allI impI)
  show "distinct (resource_types regs)"
    using assms by (rule started_distinct)
  fix rtype and factory :: "nat \<Rightarrow> config \<Rightarrow> 'a provisioner"
  assume found: "get_factory regs rtype = Some factory"
  then show "wrapped env factory"
    using started_wrapped [OF assms] by (auto simp: get_factory_def)
  show "\<exists>msg. register env rtype ops other regs = Panic msg" for ops other
    using found by (auto simp: register_def get_factory_def)
qed (auto simp: register_def get_factory_def split: option.splits)

theorem registrations_are_final_witness:
  "\<exists>regs :: unit registrations.
     register sample_sdk ''K8S::Core::Pod'' [OpRead] (\<lambda>_ _. fixed_provisioner sample_success None (None, None)) [] = Ret regs \<and>
     get_operations regs ''K8S::Core::Pod'' = [OpRead] \<and> distinct (resource_types regs) \<and>
     (\<exists>msg. register sample_sdk ''K8S::Core::Pod'' [] (\<lambda>_ _. fixed_provisioner sample_success None (None, None)) regs = Panic msg)"
proof -
  obtain regs :: "unit registrations" where regs:
    "register sample_sdk ''K8S::Core::Pod'' [OpRead] (\<lambda>_ _. fixed_provisioner sample_success None (None, None)) [] = Ret regs"
    "get_operations regs ''K8S::Core::Pod'' = [OpRead]" "get_factory regs ''K8S::Core::Pod'' \<noteq> None"
    by (simp add: register_def get_operations_def get_factory_def)
  have "started sample_sdk regs"
    by (rule started.Registered [OF started.Empty regs(1)])
  from registrations_are_final [OF this] regs show ?thesis
    by blast
qed

end
