(* ===== verification/Plugin.thy ===== *)
theory Plugin
  imports Discovery Release_Ops Inventory
begin

text \<open>
  The plugin object (\<open>src/k8s.go\<close>): its configuration and the six operations formae calls. Each opens an
  operation context (for Helm with its budget), parses the target under the operator's policy, takes a client
  from the cache, asks whether the cluster's version serves the type, and hands the request to the type's
  provisioner; listing then drops what Helm releases own. Logging is left out.
\<close>

subsection \<open>The plugin and one call\<close>

text \<open>Clients are known by number; \<open>ps_clients\<close> is the store of them. \<open>'s\<close> is the state of the cluster.\<close>

record ('s, 'g) plugin_state =
  ps_deps :: auth_dependencies
  ps_settings :: "settings option"
  ps_entries :: entries
  ps_clients :: "nat \<Rightarrow> 'g cluster_client"
  ps_inventory :: inventory_cache
  ps_cluster :: 's

text \<open>What surrounds one call: the error its context has at the stages of the call (0 opening, 1 client,
  2 version, 3 inventory, 4 owner lookups), the operation metadata, the answers of client-go, discovery, Helm and
  the API server, the clocks, and what other calls do to the two caches meanwhile.\<close>

record plugin_call =
  pc_err :: "nat \<Rightarrow> gerr option"
  pc_info :: "operation_info option"
  pc_host :: auth_host
  pc_clientset :: "rest_config \<Rightarrow> gerr option"
  pc_dynamic :: "rest_config \<Rightarrow> gerr option"
  pc_fresh :: nat
  pc_now :: instant
  pc_later :: instant
  pc_stamp :: instant
  pc_others :: "entries \<Rightarrow> entries"
  pc_version :: string
  pc_server :: "(string \<times> string) res option res"
  pc_kinds :: "(api_list list option \<times> gerr option) res"
  pc_owners :: "kind_mapping \<Rightarrow> string option \<Rightarrow> string \<Rightarrow> owner_ref list res"
  pc_identity :: "string res"
  pc_listed :: "listed_release list res"
  pc_yaml :: "string \<Rightarrow> manifest_head option"
  pc_inventory_now :: instant
  pc_inventory_later :: instant
  pc_invalidate :: "inventory_cache \<Rightarrow> inventory_cache"

definition stage_context :: "plugin_call \<Rightarrow> nat \<Rightarrow> op_context" where
  "stage_context call k = new_operation_context (pc_err call k)"

subsection \<open>Configuration\<close>

definition set_oidc_token_source :: "bool \<Rightarrow> ('s, 'g) plugin_state \<Rightarrow> ('s, 'g) plugin_state" where
  "set_oidc_token_source present p = p\<lparr>ps_deps := (ps_deps p)\<lparr>ad_oidc_source := present\<rparr>\<rparr>"

definition configure :: "raw \<Rightarrow> ('s, 'g) plugin_state \<Rightarrow> gerr option \<times> ('s, 'g) plugin_state" where
  "configure cfg p =
     (case parse_settings cfg of
        Inl e \<Rightarrow> (Some e, p)
      | Inr settings \<Rightarrow>
          (case set_settings cfg (ps_settings p) of
             (Some e, stored) \<Rightarrow> (Some e, p\<lparr>ps_settings := stored\<rparr>)
           | (None, stored) \<Rightarrow>
               (None, p\<lparr>ps_settings := stored, ps_deps := (ps_deps p)\<lparr>ad_allowed := se_allowed settings\<rparr>\<rparr>)))"

text \<open>Requests per second in a namespace. \<open>LabelConfig\<close> is empty.\<close>

definition rate_limit :: nat where
  "rate_limit = 10"

subsection \<open>The common part of an operation\<close>

definition parse_target_config :: "crypto \<Rightarrow> raw \<Rightarrow> ('s, 'g) plugin_state \<Rightarrow> config res" where
  "parse_target_config cy target p =
     (case from_target_config cy target of
        Inl e \<Rightarrow> Inl e
      | Inr cfg \<Rightarrow>
          (case validate_auth_policy (ad_allowed (ps_deps p)) (set_auth_dependencies (ps_deps p) cfg) of
             Some e \<Rightarrow> Inl e
           | None \<Rightarrow> Inr (set_auth_dependencies (ps_deps p) cfg)))"

definition get_provisioner ::
  "crypto \<Rightarrow> 's registrations \<Rightarrow> plugin_call \<Rightarrow> string \<Rightarrow> raw \<Rightarrow> ('s, 'g) plugin_state \<Rightarrow>
   ('s provisioner \<times> nat) res \<times> ('s, 'g) plugin_state" where
  "get_provisioner cy regs call rtype target p =
     (case get_factory regs rtype of
        None \<Rightarrow> (Inl (new_error (''unsupported resource type: '' @ rtype)), p)
      | Some factory \<Rightarrow>
          (case parse_target_config cy target p of
             Inl e \<Rightarrow> (Inl (wrap_error ''failed to extract config'' e), p)
           | Inr cfg \<Rightarrow>
               let built = new_client (pc_host call) (pc_clientset call) (pc_dynamic call) cfg in
               (case client_cache_get cy (stage_context call 1) (pc_info call) cfg (map_sum id (\<lambda>_. pc_fresh call) built)
                       (pc_now call) (pc_later call) (pc_stamp call) (pc_others call) (ps_entries p) of
                  (Inl e, es) \<Rightarrow> (Inl (wrap_error ''failed to create K8S client'' e), p\<lparr>ps_entries := es\<rparr>)
                | (Inr i, es) \<Rightarrow>
                    (Inr (factory i cfg, i),
                     p\<lparr>ps_entries := es,
                       ps_clients := (case built of
                          Inr cl \<Rightarrow> if i = pc_fresh call then (ps_clients p)(i := cl) else ps_clients p
                        | Inl _ \<Rightarrow> ps_clients p)\<rparr>))))"

definition type_unsupported ::
  "plugin_call \<Rightarrow> string \<Rightarrow> nat \<Rightarrow> ('s, 'g) plugin_state \<Rightarrow> (bool \<times> string) \<times> ('s, 'g) plugin_state" where
  "type_unsupported call rtype i p =
     (case resolve_version (stage_context call 2) (pc_version call) (pc_server call) (ps_clients p i) of
        (v, cl) \<Rightarrow>
          (case v of
             Inl e \<Rightarrow> (False, [])
           | Inr version \<Rightarrow> (case type_supported rtype version of (ok, reason) \<Rightarrow> (\<not> ok, reason)),
           p\<lparr>ps_clients := (ps_clients p)(i := cl)\<rparr>))"

text \<open>The budget is that of the context Helm's callback is bounded by. Absent properties are nil.\<close>

definition operation_context ::
  "crypto \<Rightarrow> plugin_call \<Rightarrow> string \<Rightarrow> raw \<Rightarrow> raw \<Rightarrow> ('s, 'g) plugin_state \<Rightarrow> duration option res" where
  "operation_context cy call rtype target properties p =
     (if rtype \<noteq> resource_type_release then Inr None
      else (case parse_target_config cy target p of
              Inl e \<Rightarrow> Inl e
            | Inr cfg \<Rightarrow>
                new_callback_context (uses_oidc cfg) (pc_info call)
                  (if properties = None then None else Some properties)))"

text \<open>What every operation does before it looks at its request: the context, the provisioner, the version.\<close>

definition plugin_entry ::
  "crypto \<Rightarrow> 's registrations \<Rightarrow> plugin_call \<Rightarrow> string \<Rightarrow> raw \<Rightarrow> raw \<Rightarrow> ('s, 'g) plugin_state \<Rightarrow>
   ('s provisioner \<times> nat \<times> bool \<times> string) res \<times> ('s, 'g) plugin_state" where
  "plugin_entry cy regs call rtype target properties p =
     (case operation_context cy call rtype target properties p of
        Inl e \<Rightarrow> (Inl e, p)
      | Inr budget \<Rightarrow>
          (case get_provisioner cy regs call rtype target p of
             (Inl e, p1) \<Rightarrow> (Inl e, p1)
           | (Inr (provisioner, i), p1) \<Rightarrow>
               (case type_unsupported call rtype i p1 of
                  ((bad, reason), p2) \<Rightarrow> (Inr (provisioner, i, bad, reason), p2))))"

definition not_supported :: "string \<Rightarrow> string \<Rightarrow> gerr" where
  "not_supported rtype reason = new_error (rtype @ '' is not supported on the target: '' @ reason)"

definition on_cluster :: "('r ret comp \<times> 's) \<Rightarrow> ('s, 'g) plugin_state \<Rightarrow> 'r ret comp \<times> ('s, 'g) plugin_state" where
  "on_cluster rs p = (fst rs, p\<lparr>ps_cluster := snd rs\<rparr>)"

subsection \<open>The operations\<close>

definition plugin_create ::
  "crypto \<Rightarrow> 's registrations \<Rightarrow> plugin_call \<Rightarrow> raw \<Rightarrow> create_request \<Rightarrow> ('s, 'g) plugin_state \<Rightarrow>
   progress option ret comp \<times> ('s, 'g) plugin_state" where
  "plugin_create cy regs call target q p =
     (case plugin_entry cy regs call (cr_type q) target (cr_properties q) p of
        (Inl e, p) \<Rightarrow> (Ret (None, Some e), p)
      | (Inr (provisioner, i, bad, reason), p) \<Rightarrow>
          if bad then (Ret (None, Some (not_supported (cr_type q) reason)), p)
          else on_cluster (p_create provisioner (Some q) (ps_cluster p)) p)"

definition plugin_read ::
  "crypto \<Rightarrow> 's registrations \<Rightarrow> plugin_call \<Rightarrow> raw \<Rightarrow> read_request \<Rightarrow> ('s, 'g) plugin_state \<Rightarrow>
   read_result ret comp \<times> ('s, 'g) plugin_state" where
  "plugin_read cy regs call target q p =
     (case plugin_entry cy regs call (rd_type q) target None p of
        (Inl e, p) \<Rightarrow> (Ret (None, Some e), p)
      | (Inr (provisioner, i, bad, reason), p) \<Rightarrow>
          if bad then (Ret (Some \<lparr>rr_type = rd_type q, rr_properties = None, rr_code = NotFound\<rparr>, None), p)
          else on_cluster (p_read provisioner (Some q) (ps_cluster p)) p)"

definition plugin_update ::
  "crypto \<Rightarrow> 's registrations \<Rightarrow> plugin_call \<Rightarrow> raw \<Rightarrow> update_request \<Rightarrow> ('s, 'g) plugin_state \<Rightarrow>
   progress option ret comp \<times> ('s, 'g) plugin_state" where
  "plugin_update cy regs call target q p =
     (case plugin_entry cy regs call (up_type q) target (up_desired q) p of
        (Inl e, p) \<Rightarrow> (Ret (None, Some e), p)
      | (Inr (provisioner, i, bad, reason), p) \<Rightarrow>
          if bad then (Ret (None, Some (not_supported (up_type q) reason)), p)
          else on_cluster (p_update provisioner (Some q) (ps_cluster p)) p)"

definition plugin_delete ::
  "crypto \<Rightarrow> 's registrations \<Rightarrow> plugin_call \<Rightarrow> raw \<Rightarrow> delete_request \<Rightarrow> ('s, 'g) plugin_state \<Rightarrow>
   progress option ret comp \<times> ('s, 'g) plugin_state" where
  "plugin_delete cy regs call target q p =
     (case plugin_entry cy regs call (de_type q) target None p of
        (Inl e, p) \<Rightarrow> (Ret (None, Some e), p)
      | (Inr (provisioner, i, bad, reason), p) \<Rightarrow>
          if bad then (Ret (Some (Some (empty_progress OpDelete StSuccess)), None), p)
          else on_cluster (p_delete provisioner (Some q) (ps_cluster p)) p)"

definition plugin_status ::
  "crypto \<Rightarrow> 's registrations \<Rightarrow> plugin_call \<Rightarrow> raw \<Rightarrow> status_request \<Rightarrow> ('s, 'g) plugin_state \<Rightarrow>
   progress option ret comp \<times> ('s, 'g) plugin_state" where
  "plugin_status cy regs call target q p =
     (case plugin_entry cy regs call (st_type q) target None p of
        (Inl e, p) \<Rightarrow> (Ret (None, Some e), p)
      | (Inr (provisioner, i, bad, reason), p) \<Rightarrow>
          if bad then (Ret (Some (Some ((empty_progress OpCheckStatus StFailure)\<lparr>pr_code := NotFound\<rparr>)), None), p)
          else on_cluster (p_status provisioner (Some q) (ps_cluster p)) p)"

subsection \<open>Listing\<close>

text \<open>\<open>ownerLookup\<close>. The kinds a lookup leaves in the client change no later answer of the same call
  (\<open>owner_lookup_memo\<close>), so the lookup reads the client as it was.\<close>

definition owner_lookup_of :: "plugin_call \<Rightarrow> 'g cluster_client \<Rightarrow> owner_lookup" where
  "owner_lookup_of call cl kind ns name =
     (case fst (resolve_kind (stage_context call 4) (pc_kinds call) kind cl) of
        None \<Rightarrow> Inr []
      | Some m \<Rightarrow>
          (case pc_owners call m (if km_namespaced m \<and> ns \<noteq> [] then Some ns else None) name of
             Inl e \<Rightarrow> if is_api ApiNotFound e then Inr [] else Inl e
           | Inr refs \<Rightarrow> Inr refs))"

definition inventory_for ::
  "crypto \<Rightarrow> plugin_call \<Rightarrow> config \<Rightarrow> inventory_cache \<Rightarrow> inventory res \<times> inventory_cache" where
  "inventory_for cy call c cache =
     cached_inventory
       (inventory_cache_key (check_runtime c (stage_context call 3)) (auth_fingerprint cy c) (uses_oidc c)
          (map_option oi_binding_id (pc_info call)))
       (pc_identity call) (build_inventory (pc_yaml call) (pc_listed call)) (pc_inventory_now call) (pc_inventory_later call)
       cache (pc_invalidate call)"

text \<open>A client without configuration would be dereferenced.\<close>

definition collapse_helm_owned ::
  "crypto \<Rightarrow> plugin_call \<Rightarrow> nat \<Rightarrow> string \<Rightarrow> string list option \<Rightarrow> ('s, 'g) plugin_state \<Rightarrow>
   string list option comp \<times> ('s, 'g) plugin_state" where
  "collapse_helm_owned cy call i rtype result p =
     (case result of
        None \<Rightarrow> (Ret None, p)
      | Some ids \<Rightarrow>
          if ids = [] \<or> rtype = resource_type_release then (Ret (Some ids), p)
          else (case cl_config (ps_clients p i) of
             None \<Rightarrow> (Panic nil_dereference, p)
           | Some c \<Rightarrow>
               (case inventory_for cy call c (ps_inventory p) of
                  (Inl e, cache) \<Rightarrow> (Ret (Some ids), p\<lparr>ps_inventory := cache\<rparr>)
                | (Inr iv, cache) \<Rightarrow>
                    (Ret (Some (filter_controller_owned (Some iv) rtype (filter_helm_owned (Some iv) rtype ids)
                            (Some (owner_lookup_of call (ps_clients p i))))),
                     p\<lparr>ps_inventory := cache\<rparr>))))"

definition plugin_list ::
  "crypto \<Rightarrow> 's registrations \<Rightarrow> plugin_call \<Rightarrow> raw \<Rightarrow> list_request \<Rightarrow> ('s, 'g) plugin_state \<Rightarrow>
   (string list ret comp \<times> ('s, 'g) plugin_state) option" where
  "plugin_list cy regs call target q p =
     (case plugin_entry cy regs call (li_type q) target None p of
        (Inl e, p) \<Rightarrow> Some (Ret (None, Some e), p)
      | (Inr (provisioner, i, bad, reason), p) \<Rightarrow>
          if bad then Some (Ret (Some [], None), p)
          else (case p_list provisioner (Some q) (ps_cluster p) of
             None \<Rightarrow> None
           | Some (Panic v, s) \<Rightarrow> Some (Panic v, p\<lparr>ps_cluster := s\<rparr>)
           | Some (Ret (result, Some e), s) \<Rightarrow> Some (Ret (None, Some e), p\<lparr>ps_cluster := s\<rparr>)
           | Some (Ret (result, None), s) \<Rightarrow>
               (case collapse_helm_owned cy call i (li_type q) result (p\<lparr>ps_cluster := s\<rparr>) of
                  (Ret ids, p) \<Rightarrow> Some (Ret (ids, None), p)
                | (Panic v, p) \<Rightarrow> Some (Panic v, p))))"

end
