(* ===== verification/Plugin_Safety.thy ===== *)
theory Plugin_Safety
  imports Plugin
begin

text \<open>
  What the plugin guarantees whatever it is asked: the operator's policy and the cluster's version guard the
  cluster, no panic leaves it, and listing hides only what Helm releases own. The contract the six operations share
  is a locale, interpreted for each of them.
\<close>

subsection \<open>The common part\<close>

text \<open>A request is admitted when its type is registered, its target parses, and the target's method is one the
  operator allows, if any are named.\<close>

definition admitted :: "crypto \<Rightarrow> 's registrations \<Rightarrow> string \<Rightarrow> raw \<Rightarrow> ('s, 'g) plugin_state \<Rightarrow> config \<Rightarrow> bool" where
  "admitted cy regs rtype target p c \<longleftrightarrow>
     has_provisioner regs rtype \<and> from_target_config cy target = Inr c \<and>
     (ad_allowed (ps_deps p) = [] \<or> (\<exists>m \<in> set (ad_allowed (ps_deps p)). auth_method c = Inr m))"

fun returns :: "'a comp \<Rightarrow> bool" where
  "returns (Ret a) = True"
| "returns (Panic v) = False"

definition configured_clients :: "('s, 'g) plugin_state \<Rightarrow> bool" where
  "configured_clients p \<longleftrightarrow> (\<forall>i. cl_config (ps_clients p i) \<noteq> None)"

lemma configured_cluster [simp]: "configured_clients (p\<lparr>ps_cluster := s\<rparr>) = configured_clients p"
  by (simp add: configured_clients_def)

lemma auth_method_deps [simp]: "auth_method (set_auth_dependencies deps c) = auth_method c"
  by (simp add: auth_method_def set_auth_dependencies_def unsupported_type_def)

lemma policy_admits:
  assumes "parse_target_config cy target p = Inr c"
  shows "\<exists>c0. from_target_config cy target = Inr c0 \<and>
    (ad_allowed (ps_deps p) = [] \<or> (\<exists>m \<in> set (ad_allowed (ps_deps p)). auth_method c0 = Inr m))"
  using assms
  by (auto simp: parse_target_config_def validate_auth_policy_def list_ex_iff split: sum.splits option.splits if_splits)

lemma new_client_configured: "new_client h clientset dynamic c = Inr cl \<Longrightarrow> cl_config cl = Some c"
  by (auto simp: new_client_def split: sum.splits option.splits)

lemma resolve_version_config: "resolve_version ctx env disc cl = (v, cl') \<Longrightarrow> cl_config cl' = cl_config cl"
  by (auto simp: resolve_version_def split: option.splits sum.splits)

text \<open>The configuration stays, and so does that every client has one.\<close>

definition setup_kept :: "('s, 'g) plugin_state \<Rightarrow> ('s, 'g) plugin_state \<Rightarrow> bool" where
  "setup_kept p p' \<longleftrightarrow>
     ps_deps p' = ps_deps p \<and> ps_settings p' = ps_settings p \<and> (configured_clients p \<longrightarrow> configured_clients p')"

lemma setup_kept_refl [simp]: "setup_kept p p"
  by (simp add: setup_kept_def)

lemma setup_kept_trans: "setup_kept p q \<Longrightarrow> setup_kept q r \<Longrightarrow> setup_kept p r"
  by (simp add: setup_kept_def)

lemma setup_kept_updates [simp]:
  "setup_kept p (q\<lparr>ps_cluster := s\<rparr>) = setup_kept p q" "setup_kept p (q\<lparr>ps_inventory := cache\<rparr>) = setup_kept p q"
  "setup_kept p (q\<lparr>ps_entries := es\<rparr>) = setup_kept p q"
  by (simp_all add: setup_kept_def configured_clients_def)

lemma setup_kept_client: "cl_config cl \<noteq> None \<or> cl_config cl = cl_config (ps_clients p i) \<Longrightarrow>
    setup_kept p (p\<lparr>ps_clients := (ps_clients p)(i := cl)\<rparr>)"
  by (auto simp: setup_kept_def configured_clients_def)

lemma get_provisioner_keeps:
  assumes "get_provisioner cy regs call rtype target p = (r, p')"
  shows "ps_cluster p' = ps_cluster p \<and> setup_kept p p'"
  using assms
  by (auto simp: get_provisioner_def Let_def setup_kept_def configured_clients_def dest: new_client_configured
      split: option.splits sum.splits prod.splits if_splits)

lemma type_unsupported_keeps:
  assumes "type_unsupported call rtype i p = (r, p')"
  shows "ps_cluster p' = ps_cluster p \<and> setup_kept p p'"
  using assms
  by (auto simp: type_unsupported_def dest: resolve_version_config intro!: setup_kept_client split: prod.splits)

lemma plugin_entry_keeps:
  assumes "plugin_entry cy regs call rtype target properties p = (r, p')"
  shows "ps_cluster p' = ps_cluster p \<and> setup_kept p p'"
proof -
  obtain g p1 where g: "get_provisioner cy regs call rtype target p = (g, p1)" by fastforce
  note kept = get_provisioner_keeps [OF g]
  have "ps_cluster p2 = ps_cluster p \<and> setup_kept p p2" if "type_unsupported call rtype i p1 = (u, p2)" for i u p2
    using type_unsupported_keeps [OF that] kept setup_kept_trans by metis
  then show ?thesis
    using assms g kept by (auto simp: plugin_entry_def split: sum.splits prod.splits)
qed

lemma plugin_entry_admits:
  assumes "plugin_entry cy regs call rtype target properties p = (Inr (prov, i, bad, reason), p')"
  shows "\<exists>c. admitted cy regs rtype target p c"
    and "\<exists>factory c. get_factory regs rtype = Some factory \<and> prov = factory i c"
  using assms policy_admits [of cy target p]
  by (auto simp: plugin_entry_def get_provisioner_def admitted_def get_factory_def has_provisioner_def Let_def
      split: sum.splits prod.splits option.splits)

subsection \<open>The contract of an operation\<close>

text \<open>An operation that returns reaches the cluster only through an entry that succeeded on a supported type, and
  keeps the configuration.\<close>

locale guarded_operation =
  fixes rtype_of :: "'q \<Rightarrow> string" and properties_of_request :: "'q \<Rightarrow> raw"
    and handler :: "crypto \<Rightarrow> 's registrations \<Rightarrow> plugin_call \<Rightarrow> raw \<Rightarrow> 'q \<Rightarrow> ('s, 'g) plugin_state \<Rightarrow>
      ('r ret comp \<times> ('s, 'g) plugin_state) option"
  assumes gated: "handler cy regs call target q p = Some (r, p') \<Longrightarrow> ps_cluster p' \<noteq> ps_cluster p \<Longrightarrow>
      \<exists>prov i reason p1. plugin_entry cy regs call (rtype_of q) target (properties_of_request q) p =
        (Inr (prov, i, False, reason), p1)"
    and keeps: "handler cy regs call target q p = Some (r, p') \<Longrightarrow> setup_kept p p'"
    and unpanicked: "handler cy regs call target q p = Some (r, p') \<Longrightarrow> started env regs \<Longrightarrow> configured_clients p \<Longrightarrow>
      returns r"
begin

lemma reaches_only_admitted:
  assumes "handler cy regs call target q p = Some (r, p')" and "ps_cluster p' \<noteq> ps_cluster p"
  shows "\<exists>c. admitted cy regs (rtype_of q) target p c"
  using gated [OF assms] plugin_entry_admits(1) by blast

end

lemma deferred_returns: "returns (fst (deferred env oper cs))"
  using deferred_Ret [of env oper cs] by auto

lemma wrapped_returns:
  "returns (fst (p_create (lifecycle_wrap env inner) rc s))" "returns (fst (p_read (lifecycle_wrap env inner) rd s))"
  "returns (fst (p_update (lifecycle_wrap env inner) ru s))" "returns (fst (p_delete (lifecycle_wrap env inner) re s))"
  "returns (fst (p_status (lifecycle_wrap env inner) rs s))"
  "p_list (lifecycle_wrap env inner) rl s = Some (r, s') \<Longrightarrow> returns r"
  using lifecycle_read_Ret [of env inner rd s] lifecycle_list_Ret [of env inner rl s]
  by (auto simp: lifecycle_wrap_def lifecycle_create_def lifecycle_update_def lifecycle_delete_def
      lifecycle_status_def deferred_returns)

lemma entry_wrapped:
  assumes "plugin_entry cy regs call rtype target properties p = (Inr (prov, i, bad, reason), p')" and "started env regs"
  shows "\<exists>inner. prov = lifecycle_wrap env inner"
proof -
  obtain reg c where reg: "map_of regs rtype = Some reg" "prov = rg_factory reg i c"
    using plugin_entry_admits(2) [OF assms(1)] by (auto simp: get_factory_def)
  then obtain inner where "rg_factory reg = (\<lambda>client c. lifecycle_wrap env (inner client c))"
    using started_wrapped [OF assms(2)] unfolding wrapped_def by blast
  then show ?thesis
    using reg by auto
qed

text \<open>Five of the operations have this form.\<close>

definition guarded ::
  "('s provisioner \<times> nat \<times> bool \<times> string) res \<times> ('s, 'g) plugin_state \<Rightarrow> (string \<Rightarrow> 'r ret) \<Rightarrow>
   ('s provisioner \<Rightarrow> 's \<Rightarrow> 'r ret comp \<times> 's) \<Rightarrow> 'r ret comp \<times> ('s, 'g) plugin_state" where
  "guarded entered answer run =
     (case entered of
        (Inl e, p) \<Rightarrow> (Ret (None, Some e), p)
      | (Inr (provisioner, i, bad, reason), p) \<Rightarrow>
          if bad then (Ret (answer reason), p) else on_cluster (run provisioner (ps_cluster p)) p)"

lemma guarded_contract:
  assumes "guarded (plugin_entry cy regs call rtype target properties p) answer run = (r, p')"
  shows "ps_cluster p' \<noteq> ps_cluster p \<Longrightarrow>
      \<exists>prov i reason p1. plugin_entry cy regs call rtype target properties p = (Inr (prov, i, False, reason), p1)"
    and "setup_kept p p'"
    and "\<lbrakk>started env regs; \<And>inner s. returns (fst (run (lifecycle_wrap env inner) s))\<rbrakk> \<Longrightarrow> returns r"
proof -
  obtain er p1 where e: "plugin_entry cy regs call rtype target properties p = (er, p1)" by fastforce
  note kept = plugin_entry_keeps [OF e]
  show "setup_kept p p'"
    using assms e kept by (auto simp: guarded_def on_cluster_def split: sum.splits prod.splits if_splits)
  show "\<exists>prov i reason p1. plugin_entry cy regs call rtype target properties p = (Inr (prov, i, False, reason), p1)"
    if "ps_cluster p' \<noteq> ps_cluster p"
    using assms e kept that by (auto simp: guarded_def split: sum.splits prod.splits if_splits)
  show "returns r" if st: "started env regs" and ret: "\<And>inner s. returns (fst (run (lifecycle_wrap env inner) s))"
  proof (cases er)
    case (Inr x)
    then obtain prov i bad reason where x: "er = Inr (prov, i, bad, reason)" by (cases x) auto
    then obtain inner where "prov = lifecycle_wrap env inner"
      using entry_wrapped [OF _ st] e by blast
    then show ?thesis
      using assms e x ret [of inner "ps_cluster p1"] by (auto simp: guarded_def on_cluster_def split: if_splits)
  qed (use assms e in \<open>auto simp: guarded_def\<close>)
qed

lemma guarded_operations:
  "plugin_create cy regs call target qc p = guarded (plugin_entry cy regs call (cr_type qc) target (cr_properties qc) p)
     (\<lambda>reason. (None, Some (not_supported (cr_type qc) reason))) (\<lambda>prov. p_create prov (Some qc))"
  "plugin_read cy regs call target qr p = guarded (plugin_entry cy regs call (rd_type qr) target None p)
     (\<lambda>_. (Some \<lparr>rr_type = rd_type qr, rr_properties = None, rr_code = NotFound\<rparr>, None)) (\<lambda>prov. p_read prov (Some qr))"
  "plugin_update cy regs call target qu p = guarded (plugin_entry cy regs call (up_type qu) target (up_desired qu) p)
     (\<lambda>reason. (None, Some (not_supported (up_type qu) reason))) (\<lambda>prov. p_update prov (Some qu))"
  "plugin_delete cy regs call target qd p = guarded (plugin_entry cy regs call (de_type qd) target None p)
     (\<lambda>_. (Some (Some (empty_progress OpDelete StSuccess)), None)) (\<lambda>prov. p_delete prov (Some qd))"
  "plugin_status cy regs call target qs p = guarded (plugin_entry cy regs call (st_type qs) target None p)
     (\<lambda>_. (Some (Some ((empty_progress OpCheckStatus StFailure)\<lparr>pr_code := NotFound\<rparr>)), None)) (\<lambda>prov. p_status prov (Some qs))"
  by (simp_all add: guarded_def plugin_create_def plugin_read_def plugin_update_def plugin_delete_def plugin_status_def)

interpretation create: guarded_operation cr_type cr_properties "\<lambda>cy regs call t q p. Some (plugin_create cy regs call t q p)"
  by unfold_locales (auto simp: guarded_operations dest: guarded_contract(1,2) elim: guarded_contract(3) intro: wrapped_returns)

interpretation read: guarded_operation rd_type "\<lambda>_. None" "\<lambda>cy regs call t q p. Some (plugin_read cy regs call t q p)"
  by unfold_locales (auto simp: guarded_operations dest: guarded_contract(1,2) elim: guarded_contract(3) intro: wrapped_returns)

interpretation update: guarded_operation up_type up_desired "\<lambda>cy regs call t q p. Some (plugin_update cy regs call t q p)"
  by unfold_locales (auto simp: guarded_operations dest: guarded_contract(1,2) elim: guarded_contract(3) intro: wrapped_returns)

interpretation delete: guarded_operation de_type "\<lambda>_. None" "\<lambda>cy regs call t q p. Some (plugin_delete cy regs call t q p)"
  by unfold_locales (auto simp: guarded_operations dest: guarded_contract(1,2) elim: guarded_contract(3) intro: wrapped_returns)

interpretation status: guarded_operation st_type "\<lambda>_. None" "\<lambda>cy regs call t q p. Some (plugin_status cy regs call t q p)"
  by unfold_locales (auto simp: guarded_operations dest: guarded_contract(1,2) elim: guarded_contract(3) intro: wrapped_returns)

subsection \<open>Listing\<close>

lemma collapse_keeps:
  assumes "collapse_helm_owned cy call i rtype result p = (r, p')"
  shows "ps_cluster p' = ps_cluster p \<and> setup_kept p p' \<and> (configured_clients p \<longrightarrow> returns r)"
  using assms
  by (auto simp: collapse_helm_owned_def configured_clients_def split: option.splits sum.splits prod.splits if_splits
      dest: spec [where x = i])

lemma list_contract:
  assumes "plugin_list cy regs call target q p = Some (r, p')"
  shows "ps_cluster p' \<noteq> ps_cluster p \<Longrightarrow>
      \<exists>prov i reason p1. plugin_entry cy regs call (li_type q) target None p = (Inr (prov, i, False, reason), p1)"
    and "setup_kept p p' \<and> (started env regs \<and> configured_clients p \<longrightarrow> returns r)"
proof -
  obtain er p1 where e: "plugin_entry cy regs call (li_type q) target None p = (er, p1)" by fastforce
  note kept = plugin_entry_keeps [OF e]
  show "\<exists>prov i reason p1. plugin_entry cy regs call (li_type q) target None p = (Inr (prov, i, False, reason), p1)"
    if "ps_cluster p' \<noteq> ps_cluster p"
    using assms e kept that by (auto simp: plugin_list_def split: sum.splits prod.splits if_splits)
  show "setup_kept p p' \<and> (started env regs \<and> configured_clients p \<longrightarrow> returns r)"
  proof (cases "\<exists>prov i reason. er = Inr (prov, i, False, reason)")
    case False
    then show ?thesis
      using assms e kept by (auto simp: plugin_list_def split: sum.splits prod.splits if_splits)
  next
    case True
    then obtain prov i reason where er: "er = Inr (prov, i, False, reason)" by blast
    then obtain lr s where listed: "p_list prov (Some q) (ps_cluster p1) = Some (lr, s)"
      using assms e by (cases "p_list prov (Some q) (ps_cluster p1)") (auto simp: plugin_list_def)
    have lr: "started env regs \<longrightarrow> returns lr"
      using entry_wrapped [OF e [unfolded er]] listed wrapped_returns(6) by metis
    define c where "c ids = collapse_helm_owned cy call i (li_type q) ids (p1\<lparr>ps_cluster := s\<rparr>)" for ids
    have ck: "setup_kept p1 (snd (c ids)) \<and> (configured_clients p1 \<longrightarrow> returns (fst (c ids)))" for ids
      using collapse_keeps [of cy call i "li_type q" ids "p1\<lparr>ps_cluster := s\<rparr>" "fst (c ids)" "snd (c ids)"]
      by (simp add: setup_kept_def configured_clients_def c_def)
    show ?thesis
    proof (cases lr)
      case (Ret lre)
      then show ?thesis
        using assms e er listed lr kept ck [of "fst lre"]
        by (cases lre) (auto simp: plugin_list_def setup_kept_def c_def [symmetric] split: option.splits comp.splits prod.splits)
    qed (use assms e er listed kept lr in \<open>auto simp: plugin_list_def\<close>)
  qed
qed

interpretation list: guarded_operation li_type "\<lambda>_. None" plugin_list
  by unfold_locales (auto dest: list_contract)

subsection \<open>Runs\<close>

datatype plugin_request =
    Do_create raw create_request
  | Do_read raw read_request
  | Do_update raw update_request
  | Do_delete raw delete_request
  | Do_status raw status_request
  | Do_list raw list_request

fun requested_type :: "plugin_request \<Rightarrow> string" where
  "requested_type (Do_create t q) = cr_type q"
| "requested_type (Do_read t q) = rd_type q"
| "requested_type (Do_update t q) = up_type q"
| "requested_type (Do_delete t q) = de_type q"
| "requested_type (Do_status t q) = st_type q"
| "requested_type (Do_list t q) = li_type q"

fun requested_target :: "plugin_request \<Rightarrow> raw" where
  "requested_target (Do_create t q) = t"
| "requested_target (Do_read t q) = t"
| "requested_target (Do_update t q) = t"
| "requested_target (Do_delete t q) = t"
| "requested_target (Do_status t q) = t"
| "requested_target (Do_list t q) = t"

text \<open>One operation; \<open>answered\<close> says that it did not panic.\<close>

inductive plugin_step ::
  "crypto \<Rightarrow> 's registrations \<Rightarrow> ('s, 'g) plugin_state \<Rightarrow> plugin_request \<Rightarrow> bool \<Rightarrow> ('s, 'g) plugin_state \<Rightarrow> bool" for cy regs where
  Create: "plugin_create cy regs call t q p = (r, p') \<Longrightarrow> plugin_step cy regs p (Do_create t q) (returns r) p'"
| Read: "plugin_read cy regs call t q p = (r, p') \<Longrightarrow> plugin_step cy regs p (Do_read t q) (returns r) p'"
| Update: "plugin_update cy regs call t q p = (r, p') \<Longrightarrow> plugin_step cy regs p (Do_update t q) (returns r) p'"
| Delete: "plugin_delete cy regs call t q p = (r, p') \<Longrightarrow> plugin_step cy regs p (Do_delete t q) (returns r) p'"
| Status: "plugin_status cy regs call t q p = (r, p') \<Longrightarrow> plugin_step cy regs p (Do_status t q) (returns r) p'"
| List: "plugin_list cy regs call t q p = Some (r, p') \<Longrightarrow> plugin_step cy regs p (Do_list t q) (returns r) p'"

inductive plugin_run :: "crypto \<Rightarrow> 's registrations \<Rightarrow> ('s, 'g) plugin_state \<Rightarrow> ('s, 'g) plugin_state \<Rightarrow> bool" for cy regs p0 where
  Start: "plugin_run cy regs p0 p0"
| Step: "\<lbrakk>plugin_run cy regs p0 p; plugin_step cy regs p rq ok p'\<rbrakk> \<Longrightarrow> plugin_run cy regs p0 p'"

lemma step_setup_kept: "plugin_step cy regs p rq ok p' \<Longrightarrow> setup_kept p p'"
  by (induction rule: plugin_step.induct)
    (auto intro: create.keeps read.keeps update.keeps delete.keeps status.keeps list.keeps)

lemma run_setup_kept: "plugin_run cy regs p0 p \<Longrightarrow> setup_kept p0 p"
  by (induction rule: plugin_run.induct) (auto intro: setup_kept_trans step_setup_kept)

lemma step_admitted:
  "\<lbrakk>plugin_step cy regs p rq ok p'; ps_cluster p' \<noteq> ps_cluster p\<rbrakk> \<Longrightarrow>
     \<exists>c. admitted cy regs (requested_type rq) (requested_target rq) p c"
proof (induction rule: plugin_step.induct)
  case (Create call t q p r p')
  then show ?case using create.reaches_only_admitted by simp
next
  case (Read call t q p r p')
  then show ?case using read.reaches_only_admitted by simp
next
  case (Update call t q p r p')
  then show ?case using update.reaches_only_admitted by simp
next
  case (Delete call t q p r p')
  then show ?case using delete.reaches_only_admitted by simp
next
  case (Status call t q p r p')
  then show ?case using status.reaches_only_admitted by simp
next
  case (List call t q p r p')
  then show ?case using list.reaches_only_admitted by simp
qed

lemma check_methods_iff:
  "check_methods seen ms = None \<longleftrightarrow> set ms \<subseteq> set supported_auth_methods \<and> distinct ms \<and> set ms \<inter> set seen = {}"
  by (induction ms arbitrary: seen) auto

lemma configure_cases:
  assumes "configure cfg p = (r, p')"
  shows "(\<exists>e. r = Some e \<and> parse_settings cfg = Inl e \<and> p' = p) \<or>
    (\<exists>s. r = None \<and> parse_settings cfg = Inr s \<and> ps_deps p' = (ps_deps p)\<lparr>ad_allowed := se_allowed s\<rparr> \<and>
       ps_clients p' = ps_clients p)"
  using assms
  by (auto simp: configure_def set_settings_def split: sum.splits if_splits)

lemma parsed_methods:
  "parse_settings cfg = Inr s \<Longrightarrow> set (se_allowed s) \<subseteq> set supported_auth_methods \<and> distinct (se_allowed s)"
  by (auto simp: parse_settings_def no_settings_def check_methods_iff
      split: option.splits sum.splits json.splits)

text \<open>C6: Once the plugin is configured, whatever operations run, the cluster changes only in an operation on a
  registered type whose target parses to a method the operator allowed in that configuration, unless none was named.\<close>

theorem cluster_changes_under_policy:
  assumes "configure cfg p = (None, p0)" and "plugin_run cy regs p0 p1"
    and "plugin_step cy regs p1 rq ok p2" and "ps_cluster p2 \<noteq> ps_cluster p1"
  shows "\<exists>s c. parse_settings cfg = Inr s \<and> has_provisioner regs (requested_type rq) \<and>
    from_target_config cy (requested_target rq) = Inr c \<and>
    (se_allowed s = [] \<or> (\<exists>m \<in> set (se_allowed s) \<inter> set supported_auth_methods. auth_method c = Inr m))"
proof -
  obtain s where s: "parse_settings cfg = Inr s" "ps_deps p0 = (ps_deps p)\<lparr>ad_allowed := se_allowed s\<rparr>"
    using configure_cases [OF assms(1)] by auto
  moreover have "ps_deps p1 = ps_deps p0"
    using run_setup_kept [OF assms(2)] by (simp add: setup_kept_def)
  moreover obtain c where "admitted cy regs (requested_type rq) (requested_target rq) p1 c"
    using step_admitted [OF assms(3,4)] by blast
  ultimately show ?thesis
    using parsed_methods [OF s(1)] by (auto simp: admitted_def)
qed

text \<open>A rejected configuration changes nothing; an accepted one makes the operator's methods, all of them
  supported and different, the policy of every later operation.\<close>

theorem configuration_all_or_nothing:
  assumes "configure cfg p = (r, p')"
  shows "(r \<noteq> None \<longleftrightarrow> (\<exists>e. parse_settings cfg = Inl e)) \<and> (r \<noteq> None \<longrightarrow> p' = p) \<and>
    (r = None \<longrightarrow> (\<exists>s. parse_settings cfg = Inr s \<and> set (se_allowed s) \<subseteq> set supported_auth_methods \<and>
       distinct (se_allowed s) \<and> (\<forall>p''. plugin_run cy regs p' p'' \<longrightarrow> ad_allowed (ps_deps p'') = se_allowed s)))"
proof -
  have "ad_allowed (ps_deps p'') = ad_allowed (ps_deps p')" if "plugin_run cy regs p' p''" for p''
    using run_setup_kept [OF that] by (simp add: setup_kept_def)
  then show ?thesis
    using configure_cases [OF assms] parsed_methods by auto
qed

text \<open>C21: No operation of a plugin whose types were registered at start-up ends in a panic, whatever their
  provisioners do, as long as every client has a configuration, as \<open>NewClient\<close> gives it; operations keep that.\<close>

theorem plugin_never_panics:
  assumes "started env regs" and "configured_clients p0" and "plugin_run cy regs p0 p" and "plugin_step cy regs p rq ok p'"
  shows "ok \<and> configured_clients p'"
proof
  have p: "configured_clients p"
    using run_setup_kept [OF assms(3)] assms(2) by (simp add: setup_kept_def)
  then show "configured_clients p'"
    using step_setup_kept [OF assms(4)] by (simp add: setup_kept_def)
  show ok
    using assms(4) p
    by (cases rule: plugin_step.cases)
      (auto intro: create.unpanicked [OF _ assms(1)] read.unpanicked [OF _ assms(1)] update.unpanicked [OF _ assms(1)]
        delete.unpanicked [OF _ assms(1)] status.unpanicked [OF _ assms(1)] list.unpanicked [OF _ assms(1)])
qed

subsection \<open>Types the cluster does not serve\<close>

lemma unsupported_not_release: "type_supported rtype v = (False, reason) \<Longrightarrow> rtype \<noteq> resource_type_release"
  by (auto simp: type_supported_def lookup_type_def type_registry_def resource_type_release_def)

lemma unsupported_entry:
  assumes "get_provisioner cy regs call rtype target p = (Inr (prov, i), p1)"
    and "resolve_version (stage_context call 2) (pc_version call) (pc_server call) (ps_clients p1 i) = (Inr v, cl)"
    and "type_supported rtype v = (False, reason)"
  shows "plugin_entry cy regs call rtype target properties p =
    (Inr (prov, i, True, reason), p1\<lparr>ps_clients := (ps_clients p1)(i := cl)\<rparr>)"
  using assms unsupported_not_release [OF assms(3)]
  by (simp add: plugin_entry_def operation_context_def type_unsupported_def)

text \<open>C20: An operation on a type the cluster's version does not serve never reaches the cluster: Create and Update
  report why, Read and Status that there is no such object, Delete succeeds and List finds nothing.\<close>

theorem unsupported_types_never_reached:
  assumes "get_provisioner cy regs call rtype target p = (Inr (prov, i), p1)"
    and "resolve_version (stage_context call 2) (pc_version call) (pc_server call) (ps_clients p1 i) = (Inr v, cl)"
    and "type_supported rtype v = (False, reason)"
  shows "\<exists>p2. ps_cluster p2 = ps_cluster p \<and>
    plugin_create cy regs call target \<lparr>cr_type = rtype, cr_properties = props\<rparr> p = (Ret (None, Some (not_supported rtype reason)), p2) \<and>
    plugin_update cy regs call target \<lparr>up_native_id = nid, up_type = rtype, up_desired = props\<rparr> p =
      (Ret (None, Some (not_supported rtype reason)), p2) \<and>
    plugin_read cy regs call target \<lparr>rd_native_id = nid, rd_type = rtype\<rparr> p =
      (Ret (Some \<lparr>rr_type = rtype, rr_properties = None, rr_code = NotFound\<rparr>, None), p2) \<and>
    plugin_delete cy regs call target \<lparr>de_native_id = nid, de_type = rtype\<rparr> p =
      (Ret (Some (Some (empty_progress OpDelete StSuccess)), None), p2) \<and>
    plugin_status cy regs call target \<lparr>st_native_id = nid, st_request_id = rid, st_type = rtype\<rparr> p =
      (Ret (Some (Some ((empty_progress OpCheckStatus StFailure)\<lparr>pr_code := NotFound\<rparr>)), None), p2) \<and>
    plugin_list cy regs call target \<lparr>li_type = rtype, li_additional = extra\<rparr> p = Some (Ret (Some [], None), p2)"
  using get_provisioner_keeps [OF assms(1)] unsupported_entry [OF assms]
  by (simp add: plugin_create_def plugin_read_def plugin_update_def plugin_delete_def plugin_status_def plugin_list_def)

subsection \<open>What listing hides\<close>

lemma owner_lookup_memo:
  "fst (resolve_kind ctx disc kind (snd (resolve_kind ctx disc other cl))) = fst (resolve_kind ctx disc kind cl)"
proof -
  have same: "check_client_operation (cl\<lparr>cl_kinds := m\<rparr>) ctx = check_client_operation cl ctx" for m
    by (simp add: check_client_operation_def split: option.split)
  show ?thesis
    by (cases "check_client_operation cl ctx"; cases "cl_kinds cl"; cases disc)
      (auto simp: resolve_kind_def same Let_def split: prod.splits)
qed

lemma filter_controller_loop_subset: "set (filter_controller_loop iv lookup kind ids memo) \<subseteq> set ids"
proof (induction ids arbitrary: memo)
  case (Cons nid ids)
  show ?case
  proof (cases "split_native_id nid")
    case (Inr p)
    obtain ns name where p: "p = (ns, name)" by (cases p)
    obtain r memo' where "reaches_release iv lookup memo kind ns name = (r, memo')" by fastforce
    then show ?thesis
      using Inr p Cons.IH [of memo'] by (cases r) (auto simp del: filter_controller_loop.simps(1))
  qed (use Cons.IH in auto)
qed simp

lemma filter_controller_owned_subset: "set (filter_controller_owned iv rtype ids lookup) \<subseteq> set ids"
  using filter_controller_loop_subset by (auto simp: filter_controller_owned_def Let_def split: option.splits if_splits)

lemma filter_helm_owned_hidden:
  assumes "nid \<in> set ids" and "nid \<notin> set (filter_helm_owned iv rtype ids)"
  shows "\<exists>ns name. split_native_id nid = Inr (ns, name) \<and> owned_by iv (kind_from_resource_type rtype) ns name \<noteq> None"
  using assms by (auto simp: filter_helm_owned_def keeps_id_def Let_def split: if_splits sum.splits)

lemma filter_helm_owned_subset: "set (filter_helm_owned iv rtype ids) \<subseteq> set ids"
  by (auto simp: filter_helm_owned_def Let_def)

lemma filters_keep_namespaces:
  assumes "kind_from_resource_type rtype = kind_namespace"
  shows "filter_controller_owned iv rtype (filter_helm_owned iv rtype ids) lookup = ids"
  using assms by (auto simp: filter_controller_owned_def filter_helm_owned_def Let_def split: option.splits)

text \<open>C7: A List that reaches its provisioner returns a sublist of what it lists: nothing is hidden of Helm
  releases and namespaces or when the inventory fails, and an object is hidden only if a release renders it or its
  first owner references lead to an object a release renders.\<close>

theorem listing_hides_only_owned:
  assumes "plugin_entry cy regs call (li_type q) target None p = (Inr (prov, i, False, reason), p1)"
    and "p_list prov (Some q) (ps_cluster p1) = Some (Ret (Some ids, None), s)"
    and "cl_config (ps_clients p1 i) = Some c" and "inventory_for cy call c (ps_inventory p1) = (found, cache)"
    and "slash_free_refs (owner_lookup_of call (ps_clients p1 i))" and "kind = kind_from_resource_type (li_type q)"
    and "CHR ''/'' \<notin> set kind"
  shows "\<exists>kept p2. plugin_list cy regs call target q p = Some (Ret (Some kept, None), p2) \<and> set kept \<subseteq> set ids \<and>
    (li_type q = resource_type_release \<or> kind = kind_namespace \<or> (\<exists>e. found = Inl e) \<longrightarrow> kept = ids) \<and>
    (\<forall>nid \<in> set ids - set kept. \<exists>iv ns name. found = Inr iv \<and> split_native_id nid = Inr (ns, name) \<and>
       (owned_by (Some iv) kind ns name \<noteq> None \<or>
        climbs (Some iv) (owner_lookup_of call (ps_clients p1 i)) ns kind name))"
proof (cases "ids = [] \<or> li_type q = resource_type_release \<or> (\<exists>e. found = Inl e)")
  case True
  then show ?thesis
    using assms by (auto simp: plugin_list_def collapse_helm_owned_def split: sum.splits)
next
  case False
  then obtain iv where iv: "found = Inr iv" by (cases found) auto
  let ?lookup = "owner_lookup_of call (ps_clients p1 i)" and ?own = "filter_helm_owned (Some iv) (li_type q) ids"
  let ?kept = "filter_controller_owned (Some iv) (li_type q) ?own (Some ?lookup)"
  have "plugin_list cy regs call target q p =
      Some (Ret (Some ?kept, None), p1\<lparr>ps_cluster := s, ps_inventory := cache\<rparr>)"
    using assms(1-4) False iv by (simp add: plugin_list_def collapse_helm_owned_def)
  moreover have "set ?kept \<subseteq> set ids"
    using filter_controller_owned_subset [of "Some iv" "li_type q" ?own "Some ?lookup"] filter_helm_owned_subset
    by (rule order_trans)
  moreover have "\<exists>ns name. split_native_id nid = Inr (ns, name) \<and>
      (owned_by (Some iv) kind ns name \<noteq> None \<or> climbs (Some iv) ?lookup ns kind name)"
    if "nid \<in> set ids - set ?kept" for nid
  proof (cases "nid \<in> set ?own")
    case True
    then show ?thesis
      using hidden_objects_are_owned [OF assms(5), of "li_type q" nid ?own "Some iv"] assms(6,7) that by blast
  next
    case False
    then show ?thesis
      using filter_helm_owned_hidden [of nid ids "Some iv" "li_type q"] assms(6) that by blast
  qed
  ultimately show ?thesis
    using False iv filters_keep_namespaces [of "li_type q" "Some iv" ids "Some ?lookup"] assms(6) by blast
qed

subsection \<open>A sample plugin\<close>

text \<open>Its only type is \<open>Pod\<close>, its provisioner sets the state of the cluster and lists three pods; the operator allows
  kubeconfigs only.\<close>

definition sample_provisioner :: "bool provisioner" where
  "sample_provisioner = (fixed_provisioner sample_success (Some [''apps/cm'', ''apps/p'', ''apps/q'']) (None, None))
     \<lparr>p_create := \<lambda>_ s. (Ret (Some (Some sample_success), None), True)\<rparr>"

definition sample_regs :: "string \<Rightarrow> bool registrations" where
  "sample_regs rtype = [(rtype, \<lparr>rg_factory = \<lambda>client c. lifecycle_wrap sample_sdk sample_provisioner, rg_operations = []\<rparr>)]"

definition local_fields :: jobject where
  "local_fields = [(''Type'', JStr ''Kubeconfig''), (''Kubeconfig'', JStr ''/k'')]"

definition local_config :: config where
  "local_config = \<lparr>cf_auth = JObj local_fields, cf_version = ''1.19'', cf_type = ''Kubeconfig'', cf_deps = no_dependencies\<rparr>"

definition local_target :: raw where
  "local_target = Some (Inr (JObj [(''Auth'', JObj local_fields), (''KubernetesVersion'', JStr ''1.19'')]))"

definition local_settings :: raw where
  "local_settings = Some (Inr (JObj [(''allowedAuthMethods'', JArr [JStr ''Kubeconfig''])]))"

definition sample_call :: plugin_call where
  "sample_call = \<lparr>pc_err = \<lambda>_. None, pc_info = None,
     pc_host = \<lparr>ah_kubeconfig = [], ah_home_config = None, ah_load = \<lambda>_ _. Inr \<lparr>rt_host = ''h'', rt_ca = []\<rparr>,
       ah_describe = \<lambda>_. None, ah_transport = \<lambda>_ _. None\<rparr>,
     pc_clientset = \<lambda>_. None, pc_dynamic = \<lambda>_. None, pc_fresh = 0, pc_now = 0, pc_later = 0, pc_stamp = 0, pc_others = id,
     pc_version = [], pc_server = Inr None, pc_kinds = Inr (None, None), pc_owners = \<lambda>_ _ _. Inr [],
     pc_identity = Inr ''uid'', pc_listed = Inr [sample_listed], pc_yaml = sample_yaml, pc_inventory_now = 0,
     pc_inventory_later = 0, pc_invalidate = id\<rparr>"

definition blank_client :: "unit cluster_client" where
  "blank_client = \<lparr>cl_config = Some local_config, cl_version = None, cl_kinds = None, cl_groups = None\<rparr>"

definition sample_plugin :: "(bool, unit) plugin_state" where
  "sample_plugin = \<lparr>ps_deps = no_dependencies, ps_settings = None, ps_entries = [], ps_clients = \<lambda>_. blank_client,
     ps_inventory = \<lparr>ic_entries = [], ic_generation = 0\<rparr>, ps_cluster = False\<rparr>"

definition ready_plugin :: "(bool, unit) plugin_state" where
  "ready_plugin = snd (configure local_settings sample_plugin)"

lemma sample_registered: "started sample_sdk (sample_regs rtype)"
proof (rule started.Registered [OF started.Empty])
  show "register sample_sdk rtype [] (\<lambda>_ _. sample_provisioner) [] = Ret (sample_regs rtype)"
    by (simp add: register_def sample_regs_def)
qed

lemma sample_configured:
  "configure local_settings sample_plugin = (None, ready_plugin) \<and> ps_deps ready_plugin = no_dependencies\<lparr>ad_allowed := [''Kubeconfig'']\<rparr> \<and>
   ps_cluster ready_plugin = False \<and> configured_clients ready_plugin \<and> ps_entries ready_plugin = [] \<and>
   ps_inventory ready_plugin = \<lparr>ic_entries = [], ic_generation = 0\<rparr>"
proof -
  have "parse_settings local_settings = Inr \<lparr>se_crd_seconds = 0, se_allowed = [''Kubeconfig'']\<rparr>"
    by (simp add: parse_settings_def local_settings_def decode_seconds_def decode_methods_def supported_auth_methods_def)
  then show ?thesis
    by (simp add: ready_plugin_def configure_def set_settings_def sample_plugin_def local_settings_def configured_clients_def
        blank_client_def)
qed

lemma local_parses: "from_target_config cy local_target = Inr local_config"
  by (simp add: from_target_config_def local_target_def local_config_def local_fields_def string_field_def text_at_def
      guard_no_unflattened_references_def Let_def has_key_def validate_auth_config_def)

lemma local_method: "auth_method local_config = Inr ''Kubeconfig''"
  by (simp add: auth_method_def local_config_def)

lemma local_not_oidc: "\<not> uses_oidc (local_config\<lparr>cf_deps := deps\<rparr>)"
  by (simp add: uses_oidc_def auth_method_def local_config_def has_suffix_def has_prefix_def)

lemma local_fingerprint: "\<exists>k. auth_fingerprint cy (local_config\<lparr>cf_deps := deps\<rparr>) = Inr k"
  by (simp add: auth_fingerprint_def auth_identity_def type_identity_def local_config_def kubeconfig_of_def local_fields_def
      string_field_def text_at_def Let_def)

lemma sample_call_fields:
  "pc_info sample_call = None" "pc_fresh sample_call = 0" "pc_others sample_call = id" "pc_server sample_call = Inr None"
  "pc_version sample_call = []" "pc_err sample_call k = None" "pc_identity sample_call = Inr ''uid''"
  "pc_listed sample_call = Inr [sample_listed]" "pc_yaml sample_call = sample_yaml" "pc_invalidate sample_call = id"
  "pc_kinds sample_call = Inr (None, None)"
  by (simp_all add: sample_call_def)

lemma sample_provisioned:
  "\<exists>p1. get_provisioner cy (sample_regs rtype) sample_call rtype local_target ready_plugin =
     (Inr (lifecycle_wrap sample_sdk sample_provisioner, 0), p1) \<and> ps_cluster p1 = False \<and>
     cl_version (ps_clients p1 0) = None \<and> cl_config (ps_clients p1 0) = Some (local_config\<lparr>cf_deps := ps_deps ready_plugin\<rparr>) \<and>
     ps_inventory p1 = \<lparr>ic_entries = [], ic_generation = 0\<rparr> \<and> cl_kinds (ps_clients p1 0) = None"
proof -
  let ?c = "local_config\<lparr>cf_deps := no_dependencies\<lparr>ad_allowed := [''Kubeconfig'']\<rparr>\<rparr>"
  have "parse_target_config cy local_target ready_plugin = Inr ?c"
    using sample_configured local_method auth_method_deps [of "ps_deps ready_plugin" local_config]
    by (simp add: parse_target_config_def local_parses validate_auth_policy_def set_auth_dependencies_def)
  moreover obtain k where "auth_fingerprint cy ?c = Inr k"
    using local_fingerprint by blast
  moreover have "check_runtime ?c (stage_context sample_call 1) = None"
    using local_not_oidc local_method auth_method_deps [of "no_dependencies\<lparr>ad_allowed := [''Kubeconfig'']\<rparr>" local_config]
    by (simp add: check_runtime_def stage_context_def sample_call_def new_operation_context_def validate_auth_policy_def
        set_auth_dependencies_def)
  moreover have "new_client (pc_host sample_call) (pc_clientset sample_call) (pc_dynamic sample_call) ?c =
      (Inr \<lparr>cl_config = Some ?c, cl_version = None, cl_kinds = None, cl_groups = None\<rparr> :: unit cluster_client res)"
    using local_not_oidc local_method auth_method_deps [of "no_dependencies\<lparr>ad_allowed := [''Kubeconfig'']\<rparr>" local_config]
    by (simp add: new_client_def to_k8s_config_def build_kubeconfig_config_def validate_auth_policy_def set_auth_dependencies_def
        sample_call_def, simp add: local_config_def local_fields_def kubeconfig_of_def string_field_def text_at_def)
  ultimately show ?thesis
    using local_not_oidc sample_configured
    by (simp add: get_provisioner_def get_factory_def sample_regs_def client_cache_get_def cache_plan_of_def fresh_entry_def
        Client_Cache.cache_store_def sample_call_fields Let_def)
qed

lemma sample_version:
  assumes "cl_config cl = Some (local_config\<lparr>cf_deps := deps\<rparr>)" and "cl_version cl = None"
  shows "resolve_version (stage_context sample_call 2) [] (Inr None) cl = (Inr ''1.19'', cl\<lparr>cl_version := Some ''1.19''\<rparr>)"
proof -
  have "normalize_k8s_version ''1.19'' = Inr ''1.19''" by code_simp
  then show ?thesis
    using assms local_not_oidc
    by (simp add: resolve_version_def check_client_operation_def stage_context_def new_operation_context_def sample_call_fields
        resolve_k8s_version_def local_config_def)
qed

lemma sample_entry:
  assumes "fst (type_supported rtype ''1.19'')" and "rtype \<noteq> resource_type_release"
  shows "\<exists>p1 reason. plugin_entry cy (sample_regs rtype) sample_call rtype local_target props ready_plugin =
     (Inr (lifecycle_wrap sample_sdk sample_provisioner, 0, False, reason), p1) \<and> ps_cluster p1 = False \<and>
     cl_config (ps_clients p1 0) = Some (local_config\<lparr>cf_deps := ps_deps ready_plugin\<rparr>) \<and>
     ps_inventory p1 = \<lparr>ic_entries = [], ic_generation = 0\<rparr> \<and> cl_kinds (ps_clients p1 0) = None"
proof -
  obtain p1 where p1: "get_provisioner cy (sample_regs rtype) sample_call rtype local_target ready_plugin =
      (Inr (lifecycle_wrap sample_sdk sample_provisioner, 0), p1)" "ps_cluster p1 = False" "cl_version (ps_clients p1 0) = None"
      "cl_config (ps_clients p1 0) = Some (local_config\<lparr>cf_deps := ps_deps ready_plugin\<rparr>)"
      "ps_inventory p1 = \<lparr>ic_entries = [], ic_generation = 0\<rparr>" "cl_kinds (ps_clients p1 0) = None"
    using sample_provisioned by blast
  then show ?thesis
    using assms sample_version [of "ps_clients p1 0" "ps_deps ready_plugin"]
    by (cases "type_supported rtype ''1.19''")
      (simp add: plugin_entry_def operation_context_def type_unsupported_def sample_call_fields)
qed

lemma pod_supported: "fst (type_supported ''K8S::Core::Pod'' v)" "''K8S::Core::Pod'' \<noteq> resource_type_release"
  by (simp_all add: type_supported_def lookup_type_def type_registry_def resource_type_release_def)

definition pod_request :: create_request where
  "pod_request = \<lparr>cr_type = ''K8S::Core::Pod'', cr_properties = None\<rparr>"

lemma sample_creates:
  "\<exists>r p2. plugin_create cy (sample_regs ''K8S::Core::Pod'') sample_call local_target pod_request ready_plugin = (r, p2) \<and>
     ps_cluster p2"
proof -
  obtain p1 reason where "plugin_entry cy (sample_regs ''K8S::Core::Pod'') sample_call ''K8S::Core::Pod'' local_target None ready_plugin =
     (Inr (lifecycle_wrap sample_sdk sample_provisioner, 0, False, reason), p1)"
    using sample_entry [OF pod_supported] by blast
  then show ?thesis
    by (simp add: plugin_create_def pod_request_def on_cluster_def lifecycle_wrap_def lifecycle_create_def sample_provisioner_def
        deferred_def split: prod.split)
qed

theorem cluster_changes_under_policy_witness:
  "\<exists>s c. parse_settings local_settings = Inr s \<and> se_allowed s = [''Kubeconfig''] \<and>
     from_target_config sample_crypto local_target = Inr c \<and> auth_method c = Inr ''Kubeconfig''"
proof -
  obtain r p2 where create: "plugin_create sample_crypto (sample_regs ''K8S::Core::Pod'') sample_call local_target pod_request ready_plugin = (r, p2)"
      and "ps_cluster p2"
    using sample_creates by blast
  then have changed: "ps_cluster p2 \<noteq> ps_cluster ready_plugin"
    using sample_configured by simp
  show ?thesis
    using cluster_changes_under_policy [OF conjunct1 [OF sample_configured] plugin_run.Start plugin_step.Create [OF create] changed]
      local_method local_parses [of sample_crypto]
    by (auto simp: parse_settings_def local_settings_def decode_seconds_def decode_methods_def supported_auth_methods_def)
qed

theorem configuration_all_or_nothing_witness:
  "ad_allowed (ps_deps ready_plugin) = [''Kubeconfig''] \<and> set (ad_allowed (ps_deps ready_plugin)) \<subseteq> set supported_auth_methods"
  using configuration_all_or_nothing [OF conjunct1 [OF sample_configured], where cy = undefined and regs = "[]"] plugin_run.Start
    sample_configured
  by (auto simp: supported_auth_methods_def)

theorem plugin_never_panics_witness:
  "\<exists>p2. plugin_step sample_crypto (sample_regs ''K8S::Core::Pod'') ready_plugin (Do_create local_target pod_request) True p2"
proof -
  obtain r p2 where create: "plugin_create sample_crypto (sample_regs ''K8S::Core::Pod'') sample_call local_target pod_request ready_plugin = (r, p2)"
    using sample_creates by blast
  have "configured_clients ready_plugin"
    using sample_configured by simp
  then have "returns r"
    using plugin_never_panics [OF sample_registered _ plugin_run.Start plugin_step.Create [OF create]] by blast
  then show ?thesis
    using plugin_step.Create [OF create] by auto
qed

theorem unsupported_types_never_reached_witness:
  "\<exists>p2 reason. plugin_create sample_crypto (sample_regs ''K8S::Autoscaling::HorizontalPodAutoscaler'') sample_call local_target
     \<lparr>cr_type = ''K8S::Autoscaling::HorizontalPodAutoscaler'', cr_properties = None\<rparr> ready_plugin =
       (Ret (None, Some (not_supported ''K8S::Autoscaling::HorizontalPodAutoscaler'' reason)), p2) \<and> ps_cluster p2 = False"
proof -
  let ?rt = "''K8S::Autoscaling::HorizontalPodAutoscaler''"
  obtain p1 where p1: "get_provisioner sample_crypto (sample_regs ?rt) sample_call ?rt local_target ready_plugin =
      (Inr (lifecycle_wrap sample_sdk sample_provisioner, 0), p1)" "cl_version (ps_clients p1 0) = None"
      "cl_config (ps_clients p1 0) = Some (local_config\<lparr>cf_deps := ps_deps ready_plugin\<rparr>)"
    using sample_provisioned by blast
  have v: "resolve_version (stage_context sample_call 2) (pc_version sample_call) (pc_server sample_call) (ps_clients p1 0) =
      (Inr ''1.19'', (ps_clients p1 0)\<lparr>cl_version := Some ''1.19''\<rparr>)"
    using sample_version [OF p1(3,2)] by (simp add: sample_call_fields)
  have "compare_k8s_versions ''1.19'' ''1.23'' < 0" by code_simp
  then have "\<exists>reason. type_supported ?rt ''1.19'' = (False, reason)"
    by (simp add: type_supported_def lookup_type_def type_registry_def)
  then obtain reason where "type_supported ?rt ''1.19'' = (False, reason)" ..
  then obtain p2 where "ps_cluster p2 = ps_cluster ready_plugin" and
      "plugin_create sample_crypto (sample_regs ?rt) sample_call local_target \<lparr>cr_type = ?rt, cr_properties = None\<rparr> ready_plugin =
        (Ret (None, Some (not_supported ?rt reason)), p2)"
    using unsupported_types_never_reached [OF p1(1) v, where props = None and nid = "[]" and rid = "[]" and extra = Map.empty]
    by blast
  then show ?thesis
    using sample_configured by blast
qed

lemma sample_inventory_for:
  "\<exists>cache. inventory_for cy sample_call (local_config\<lparr>cf_deps := ps_deps ready_plugin\<rparr>) \<lparr>ic_entries = [], ic_generation = 0\<rparr> =
     (Inr sample_inventory, cache)"
proof -
  let ?c = "local_config\<lparr>cf_deps := no_dependencies\<lparr>ad_allowed := [''Kubeconfig'']\<rparr>\<rparr>"
  obtain k where "auth_fingerprint cy ?c = Inr k"
    using local_fingerprint by blast
  moreover have "check_runtime ?c (stage_context sample_call 3) = None"
    using local_not_oidc local_method auth_method_deps [of "no_dependencies\<lparr>ad_allowed := [''Kubeconfig'']\<rparr>" local_config]
    by (simp add: check_runtime_def stage_context_def sample_call_fields new_operation_context_def validate_auth_policy_def
        set_auth_dependencies_def)
  ultimately show ?thesis
    using local_not_oidc sample_configured
    by (simp add: inventory_for_def sample_call_fields inventory_cache_key_def cached_inventory_def cache_lookup_def sample_built)
qed

theorem listing_hides_only_owned_witness:
  "\<exists>kept p2. plugin_list sample_crypto (sample_regs ''K8S::Core::ConfigMap'') sample_call local_target
     \<lparr>li_type = ''K8S::Core::ConfigMap'', li_additional = Map.empty\<rparr> ready_plugin = Some (Ret (Some kept, None), p2) \<and>
     set kept \<subseteq> {''apps/cm'', ''apps/p'', ''apps/q''}"
proof -
  let ?rt = "''K8S::Core::ConfigMap''" and ?q = "\<lparr>li_type = ''K8S::Core::ConfigMap'', li_additional = Map.empty\<rparr>"
  have supported: "fst (type_supported ?rt ''1.19'')" "?rt \<noteq> resource_type_release"
    by (simp_all add: type_supported_def lookup_type_def type_registry_def resource_type_release_def)
  obtain p1 reason where entry: "plugin_entry sample_crypto (sample_regs ?rt) sample_call ?rt local_target None ready_plugin =
     (Inr (lifecycle_wrap sample_sdk sample_provisioner, 0, False, reason), p1)"
     "cl_config (ps_clients p1 0) = Some (local_config\<lparr>cf_deps := ps_deps ready_plugin\<rparr>)"
     "ps_inventory p1 = \<lparr>ic_entries = [], ic_generation = 0\<rparr>" "cl_kinds (ps_clients p1 0) = None"
    using sample_entry [OF supported] by blast
  obtain cache where cache: "inventory_for sample_crypto sample_call (local_config\<lparr>cf_deps := ps_deps ready_plugin\<rparr>) (ps_inventory p1) =
      (Inr sample_inventory, cache)"
    using sample_inventory_for entry(3) by metis
  have lookup: "owner_lookup_of sample_call (ps_clients p1 0) kind ns name = Inr []" for kind ns name
    using entry(2,4) by (simp add: owner_lookup_of_def resolve_kind_def check_client_operation_def stage_context_def
        new_operation_context_def sample_call_fields split: option.split)
  have "kind_from_resource_type ?rt = ''ConfigMap''" by code_simp
  then have kind: "''ConfigMap'' = kind_from_resource_type (li_type ?q)" by simp
  have "p_list (lifecycle_wrap sample_sdk sample_provisioner) (Some ?q) (ps_cluster p1) =
      Some (Ret (Some [''apps/cm'', ''apps/p'', ''apps/q''], None), ps_cluster p1)"
    by (simp add: lifecycle_wrap_def lifecycle_list_def sample_provisioner_def fixed_provisioner_def)
  note listed = listing_hides_only_owned [where q = ?q, OF _ this entry(2) cache _ kind]
  have "plugin_entry sample_crypto (sample_regs ?rt) sample_call (li_type ?q) local_target None ready_plugin =
     (Inr (lifecycle_wrap sample_sdk sample_provisioner, 0, False, reason), p1)"
    using entry(1) by simp
  moreover have "slash_free_refs (owner_lookup_of sample_call (ps_clients p1 0))"
    by (simp add: slash_free_refs_def lookup)
  ultimately obtain kept p2 where
      "plugin_list sample_crypto (sample_regs ?rt) sample_call local_target ?q ready_plugin = Some (Ret (Some kept, None), p2)"
      and "set kept \<subseteq> set [''apps/cm'', ''apps/p'', ''apps/q'']"
    using listed by force
  then show ?thesis
    by auto
qed

end
