(* ===== verification/Cloud_Tokens.thy ===== *)
theory Cloud_Tokens
  imports Auth_Runtime
begin

text \<open>
  The token sources of broker-backed authentication: a direct identity token (\<open>pkg/auth/oidc\<close>), and its exchange
  for a cloud's token on AWS (\<open>pkg/auth/eks/oidc.go\<close>), Azure (\<open>pkg/auth/aks/oidc.go\<close>) and Google
  (\<open>pkg/auth/gke/oidc.go\<close>) over a client that talks to fixed endpoints only (\<open>pkg/auth/internal/federation\<close>). The
  broker, the clouds' SDKs, the JSON parser and the clock are parameters; \<open>ctx k\<close> is the context's error at the
  \<open>k\<close>-th place the code looks at it.
\<close>

subsection \<open>Unpadded URL-safe base64\<close>

text \<open>\<open>base64.RawURLEncoding\<close>: six bits a character; decoding skips line breaks and does not look at the bits left
  over at the end.\<close>

fun sextets :: "nat list \<Rightarrow> nat list" where
  "sextets [] = []"
| "sextets [a] = [a div 4, a mod 4 * 16]"
| "sextets [a, b] = [a div 4, a mod 4 * 16 + b div 16, b mod 16 * 4]"
| "sextets (a # b # c # bs) = a div 4 # (a mod 4 * 16 + b div 16) # (b mod 16 * 4 + c div 64) # c mod 64 # sextets bs"

fun octets :: "nat list \<Rightarrow> nat list option" where
  "octets [] = Some []"
| "octets [x] = None"
| "octets [x, y] = Some [x * 4 + y div 16]"
| "octets [x, y, z] = Some [x * 4 + y div 16, y mod 16 * 16 + z div 4]"
| "octets (x # y # z # w # ds) =
     map_option (\<lambda>bs. (x * 4 + y div 16) # (y mod 16 * 16 + z div 4) # (z mod 4 * 64 + w) # bs) (octets ds)"

definition url_digit :: "char \<Rightarrow> nat option" where
  "url_digit c =
     (let n = of_char c :: nat in
      if is_upper c then Some (n - 65)
      else if is_lower c then Some (n - 71)
      else if is_digit c then Some (n + 4)
      else if c = CHR ''-'' then Some 62
      else if c = CHR ''_'' then Some 63
      else None)"

definition url_char :: "nat \<Rightarrow> char" where
  "url_char n =
     (if n < 26 then char_of (n + 65)
      else if n < 52 then char_of (n + 71)
      else if n < 62 then char_of (n - 4)
      else if n = 62 then CHR ''-'' else CHR ''_'')"

definition url_encode :: "string \<Rightarrow> string" where
  "url_encode s = map url_char (sextets (map of_char s))"

definition url_decode :: "string \<Rightarrow> string option" where
  "url_decode s =
     (let ds = map url_digit (filter (\<lambda>c. c \<noteq> CHR 0x0A \<and> c \<noteq> CHR 0x0D) s) in
      if None \<in> set ds then None else map_option (map char_of) (octets (map the ds)))"

lemma url_digit_letters:
  "n < 26 \<Longrightarrow> url_digit (char_of (n + 65)) = Some n" "n < 26 \<Longrightarrow> url_digit (char_of (n + 97)) = Some (n + 26)"
  "n < 10 \<Longrightarrow> url_digit (char_of (n + 48)) = Some (n + 52)"
  by (simp_all add: url_digit_def is_upper_def is_lower_def is_digit_def code_in_def Let_def)

lemma url_digit_marks: "url_digit (CHR ''-'') = Some 62" "url_digit (CHR ''_'') = Some 63"
  "url_digit (CHR 0x0A) = None" "url_digit (CHR 0x0D) = None"
  by (simp_all add: url_digit_def is_upper_def is_lower_def is_digit_def code_in_def Let_def)

lemma url_digit_char:
  assumes "n < 64"
  shows "url_digit (url_char n) = Some n"
proof -
  consider "n < 26" | "26 \<le> n" "n < 52" | "52 \<le> n" "n < 62" | "n = 62" | "n = 63" using assms by linarith
  then show ?thesis
  proof cases
    case 2
    then have "n - 26 < 26" by linarith
    then show ?thesis using 2 url_digit_letters(2) [of "n - 26"] by (simp add: url_char_def add.commute)
  next
    case 3
    then have "n - 52 < 10" by linarith
    then show ?thesis using 3 url_digit_letters(3) [of "n - 52"] by (simp add: url_char_def)
  qed (simp_all add: url_char_def url_digit_letters(1) url_digit_marks)
qed

lemma sextets_bound: "\<forall>b \<in> set bs. b < 256 \<Longrightarrow> \<forall>d \<in> set (sextets bs). d < 64"
  by (induction bs rule: sextets.induct) auto

lemma octets_sextets: "\<forall>b \<in> set bs. b < 256 \<Longrightarrow> octets (sextets bs) = Some bs"
  by (induction bs rule: sextets.induct) auto

lemma url_decode_encode: "url_decode (url_encode s) = Some s"
proof -
  let ?ds = "sextets (map of_char s)"
  have "\<forall>b \<in> set (map of_char s). (b :: nat) < 256"
    by auto
  note ds = sextets_bound [OF this] octets_sextets [OF this]
  have digits: "map url_digit (url_encode s) = map Some ?ds"
    using ds(1) by (simp add: url_encode_def url_digit_char)
  have "filter (\<lambda>c. c \<noteq> CHR 0x0A \<and> c \<noteq> CHR 0x0D) (url_encode s) = url_encode s"
  proof (rule filter_True, rule ballI)
    fix c
    assume "c \<in> set (url_encode s)"
    then obtain d where "c = url_char d" "d \<in> set ?ds"
      by (auto simp: url_encode_def)
    then have "url_digit c = Some d"
      using ds(1) url_digit_char by blast
    then show "c \<noteq> CHR 0x0A \<and> c \<noteq> CHR 0x0D"
      using url_digit_marks(3,4) by force
  qed
  then show ?thesis
    using digits ds(2) by (simp add: url_decode_def Let_def comp_def)
qed

subsection \<open>Exchange endpoints\<close>

text \<open>A request of a credential exchange; \<open>xr_text\<close> is the whole URL as text. No URL is \<open>xr_scheme = None\<close>.\<close>

record exchange_request =
  xr_scheme :: "string option"
  xr_text :: string
  xr_has_user :: bool
  xr_fragment :: string
  xr_url_host :: string
  xr_host :: string
  xr_redirected :: bool

definition exchange_allowed :: "string list \<Rightarrow> exchange_request \<Rightarrow> bool" where
  "exchange_allowed urls r \<longleftrightarrow>
     \<not> (xr_scheme r = None \<or> xr_scheme r \<noteq> Some ''https'' \<or> xr_has_user r \<or> xr_fragment r \<noteq> [] \<or> xr_redirected r \<or>
        xr_host r \<noteq> [] \<and> xr_host r \<noteq> xr_url_host r \<or> trim_suffix (xr_text r) ''?'' \<notin> set urls)"

definition exchange_round_trip :: "string list \<Rightarrow> (exchange_request \<Rightarrow> 'a res) \<Rightarrow> exchange_request \<Rightarrow> 'a res" where
  "exchange_round_trip urls base r =
     (if \<not> exchange_allowed urls r then Inl (new_error ''credential exchange endpoint rejected'') else base r)"

text \<open>Every redirect ends the exchange.\<close>

definition exchange_redirect :: gerr where
  "exchange_redirect = new_error ''credential exchange redirect rejected''"

subsection \<open>Asking the broker\<close>

text \<open>What the sources share: the broker's answer, overridden by the context's error at \<open>k\<close>.\<close>

definition identity_assertion :: "gerr option \<Rightarrow> string res \<Rightarrow> string res" where
  "identity_assertion live answer = (case live of Some e \<Rightarrow> Inl e | None \<Rightarrow> answer)"

definition empty_assertion :: gerr where
  "empty_assertion = new_error ''empty identity assertion''"

subsection \<open>The identity token itself\<close>

definition malformed_token :: gerr where
  "malformed_token = new_error ''malformed or expired OIDC identity token''"

text \<open>\<open>parse\<close> is the JSON parser. A null in place of the number is zero; numbers are whole.\<close>

definition token_expiry :: "(string \<Rightarrow> json option) \<Rightarrow> string \<Rightarrow> instant \<Rightarrow> instant res" where
  "token_expiry parse token now =
     (case split_char CHR ''.'' token of
        [header, payload, signature] \<Rightarrow>
          if header = [] \<or> payload = [] \<or> signature = [] then Inl malformed_token
          else (case url_decode header of
             None \<Rightarrow> Inl malformed_token
           | Some h \<Rightarrow>
               if (case parse h of Some (JObj _) \<Rightarrow> False | _ \<Rightarrow> True) then Inl malformed_token
               else if url_decode signature = None then Inl malformed_token
               else (case url_decode payload of
                  None \<Rightarrow> Inl malformed_token
                | Some p \<Rightarrow>
                    (case parse p of
                       Some (JObj claims) \<Rightarrow>
                         (case map_of claims ''exp'' of
                            Some (JNum seconds) \<Rightarrow>
                              if seconds \<le> 0 \<or> seconds > 253402300799 then Inl malformed_token
                              else let expiry = seconds * second in
                                if \<not> now + 10 * second < expiry then Inl malformed_token else Inr expiry
                          | _ \<Rightarrow> Inl malformed_token)
                     | _ \<Rightarrow> Inl malformed_token)))
      | _ \<Rightarrow> Inl malformed_token)"

definition invalid_audience :: gerr where
  "invalid_audience = new_error ''invalid Kubernetes OIDC audience''"

definition direct_token ::
  "(nat \<Rightarrow> gerr option) \<Rightarrow> (string \<Rightarrow> string res) option \<Rightarrow> (string \<Rightarrow> json option) \<Rightarrow> instant \<Rightarrow> string \<Rightarrow> (string \<times> instant) res" where
  "direct_token ctx broker parse now audience =
     (case ctx 0 of
        Some e \<Rightarrow> Inl e
      | None \<Rightarrow>
          if \<not> valid_audience audience then Inl invalid_audience
          else (case broker of
             None \<Rightarrow> Inl no_oidc_broker
           | Some ask \<Rightarrow>
               (case identity_assertion (ctx 1) (ask audience) of
                  Inl e \<Rightarrow> Inl (redact_error e)
                | Inr token \<Rightarrow>
                    (case token_expiry parse token now of Inl e \<Rightarrow> Inl e | Inr expiry \<Rightarrow> Inr (token, expiry)))))"

subsection \<open>AWS\<close>

text \<open>Temporary credentials: absent texts are empty. \<open>aws_assume\<close> is \<open>AssumeRoleWithWebIdentity\<close> for a role,
  session name and assertion; \<open>aws_request\<close> the error of building a request for a URL, \<open>aws_presign\<close> the signer.\<close>

record aws_credentials =
  ac_key :: string
  ac_secret :: string
  ac_session :: string
  ac_expiration :: "instant option"

record aws_sdk =
  aws_assume :: "string \<Rightarrow> string \<Rightarrow> string \<Rightarrow> aws_credentials option res"
  aws_request :: "string \<Rightarrow> gerr option"
  aws_presign :: "aws_credentials \<Rightarrow> string \<Rightarrow> string \<Rightarrow> string \<Rightarrow> instant \<Rightarrow> string res"

definition sts_endpoint :: "string \<Rightarrow> string" where
  "sts_endpoint region = ''https://sts.'' @ region @ ''.amazonaws.com/''"

definition caller_identity_url :: "string \<Rightarrow> string" where
  "caller_identity_url region =
     sts_endpoint region @ ''?Action=GetCallerIdentity&Version=2011-06-15&X-Amz-Expires=60''"

definition eks_expiry :: "instant \<Rightarrow> instant \<Rightarrow> instant" where
  "eks_expiry signed_at expiration =
     (let expiry = signed_at + 14 * 60 * second; credential = expiration - 60 * second in
      if credential < expiry then credential else expiry)"

definition eks_signed ::
  "(nat \<Rightarrow> gerr option) \<Rightarrow> aws_sdk \<Rightarrow> string \<Rightarrow> string \<Rightarrow> instant \<Rightarrow> instant \<Rightarrow> aws_credentials \<Rightarrow> (string \<times> instant) res" where
  "eks_signed ctx aws region cluster signed_at expiry creds =
     (case aws_request aws (caller_identity_url region) of
        Some e \<Rightarrow> Inl (redact_error e)
      | None \<Rightarrow>
          (case (case ctx 3 of Some e \<Rightarrow> Inl e | None \<Rightarrow> aws_presign aws creds (caller_identity_url region) cluster region signed_at) of
             Inl e \<Rightarrow> Inl (redact_error e)
           | Inr url \<Rightarrow> Inr (''k8s-aws-v1.'' @ url_encode url, expiry)))"

definition eks_oidc_token ::
  "(nat \<Rightarrow> gerr option) \<Rightarrow> (string \<Rightarrow> string res) option \<Rightarrow> aws_sdk \<Rightarrow> instant \<Rightarrow> string \<Rightarrow> string \<Rightarrow> string \<Rightarrow> (string \<times> instant) res" where
  "eks_oidc_token ctx broker aws signed_at role region cluster =
     (case ctx 0 of
        Some e \<Rightarrow> Inl e
      | None \<Rightarrow>
          if \<not> is_commercial_region region then Inl (new_error ''invalid commercial AWS region'')
          else (case broker of
             None \<Rightarrow> Inl no_oidc_broker
           | Some ask \<Rightarrow>
               (case identity_assertion (ctx 1) (ask ''sts.amazonaws.com'') of
                  Inl e \<Rightarrow> Inl (redact_error e)
                | Inr assertion \<Rightarrow>
                    if assertion = [] then Inl empty_assertion
                    else (case (case ctx 2 of Some e \<Rightarrow> Inl e | None \<Rightarrow> aws_assume aws role ''formae-kubernetes'' assertion) of
                       Inl e \<Rightarrow> Inl (redact_error e)
                     | Inr result \<Rightarrow>
                         (case (case result of
                                  None \<Rightarrow> None
                                | Some c \<Rightarrow> if ac_key c = [] \<or> ac_secret c = [] \<or> ac_session c = [] then None
                                            else map_option (Pair c) (ac_expiration c)) of
                            None \<Rightarrow> Inl (new_error ''incomplete AWS temporary credentials'')
                          | Some (c, expiration) \<Rightarrow>
                              let expiry = eks_expiry signed_at expiration in
                              if \<not> signed_at + 10 * second < expiry then Inl (new_error ''AWS temporary credentials expire too soon'')
                              else eks_signed ctx aws region cluster signed_at expiry c)))))"

subsection \<open>Azure\<close>

definition azure_authority :: "string \<Rightarrow> string" where
  "azure_authority tenant = ''https://login.microsoftonline.com/'' @ tenant"

definition azure_urls :: "string \<Rightarrow> string list" where
  "azure_urls tenant =
     [azure_authority tenant @ ''/v2.0/.well-known/openid-configuration'', azure_authority tenant @ ''/oauth2/v2.0/token'']"

text \<open>The callback that yields the assertion; it reports its own failure unredacted and hands the SDK a redacted one.\<close>

definition azure_assertion :: "(nat \<Rightarrow> gerr option) \<Rightarrow> (string \<Rightarrow> string res) \<Rightarrow> string res" where
  "azure_assertion ctx ask =
     (case ctx 1 of
        Some e \<Rightarrow> Inl e
      | None \<Rightarrow>
          (case identity_assertion (ctx 2) (ask ''api://AzureADTokenExchange'') of
             Inl e \<Rightarrow> Inl e
           | Inr assertion \<Rightarrow> if assertion = [] then Inl empty_assertion else Inr assertion))"

text \<open>\<open>construct\<close>: the error of the credential's constructor. \<open>get_token\<close>: given what the callback returns, whether the
  SDK called it, and its answer.\<close>

definition aks_oidc_token ::
  "(nat \<Rightarrow> gerr option) \<Rightarrow> (string \<Rightarrow> string res) option \<Rightarrow> gerr option \<Rightarrow> (string res \<Rightarrow> bool \<times> (string \<times> instant) res) \<Rightarrow>
   instant \<Rightarrow> (string \<times> instant) res" where
  "aks_oidc_token ctx broker construct get_token now =
     (case ctx 0 of
        Some e \<Rightarrow> Inl e
      | None \<Rightarrow>
          (case broker of
             None \<Rightarrow> Inl no_oidc_broker
           | Some ask \<Rightarrow>
               (case construct of
                  Some e \<Rightarrow> Inl (redact_error e)
                | None \<Rightarrow>
                    (let assertion = azure_assertion ctx ask;
                         (called, answer) = get_token (map_sum redact_error id assertion);
                         answer = (case assertion of Inl e \<Rightarrow> if called then Inl e else answer | Inr _ \<Rightarrow> answer);
                         answer = (case ctx 3 of Some e \<Rightarrow> Inl e | None \<Rightarrow> answer) in
                     case answer of
                       Inl e \<Rightarrow> Inl (redact_error e)
                     | Inr (token, expires) \<Rightarrow>
                         if token = [] \<or> \<not> now + 10 * second < expires
                         then Inl (new_error ''empty or expired Azure access token'') else Inr (token, expires)))))"

subsection \<open>Google\<close>

definition impersonation_url :: "string \<Rightarrow> string" where
  "impersonation_url email =
     ''https://iamcredentials.googleapis.com/v1/projects/-/serviceAccounts/'' @ email @ '':generateAccessToken''"

definition google_urls :: "string \<Rightarrow> string list" where
  "google_urls email =
     ''https://sts.googleapis.com/v1/token'' # (if email \<noteq> [] then [impersonation_url email] else [])"

definition subject_token :: "(nat \<Rightarrow> gerr option) \<Rightarrow> (string \<Rightarrow> string res) option \<Rightarrow> string \<Rightarrow> string res" where
  "subject_token ctx broker audience =
     (case ctx 1 of
        Some e \<Rightarrow> Inl e
      | None \<Rightarrow>
          (case broker of
             None \<Rightarrow> Inl no_oidc_broker
           | Some ask \<Rightarrow>
               (case identity_assertion (ctx 2) (ask audience) of
                  Inl e \<Rightarrow> Inl (redact_error e)
                | Inr token \<Rightarrow> if token = [] then Inl empty_assertion else Inr token)))"

text \<open>The exchange as configured: audience, impersonation URL and scopes; \<open>exchange\<close> is Google's library, given what the
  supplier answers for the audience, and \<open>construct\<close> its constructor's error.\<close>

record google_config =
  go_audience :: string
  go_impersonation :: string
  go_scopes :: "string list"

definition google_config_for :: "string \<Rightarrow> string \<Rightarrow> google_config" where
  "google_config_for pool email =
     \<lparr>go_audience = pool, go_impersonation = (if email \<noteq> [] then impersonation_url email else []),
      go_scopes = ''https://www.googleapis.com/auth/cloud-platform'' #
        (if email \<noteq> [] then [''https://www.googleapis.com/auth/userinfo.email''] else [])\<rparr>"

definition gke_oidc_token ::
  "(nat \<Rightarrow> gerr option) \<Rightarrow> (string \<Rightarrow> string res) option \<Rightarrow> (google_config \<Rightarrow> gerr option) \<Rightarrow>
   (google_config \<Rightarrow> (string \<Rightarrow> string res) \<Rightarrow> (string \<times> instant) res) \<Rightarrow> instant \<Rightarrow> string \<Rightarrow> string \<Rightarrow> (string \<times> instant) res" where
  "gke_oidc_token ctx broker construct exchange now pool email =
     (case ctx 0 of
        Some e \<Rightarrow> Inl e
      | None \<Rightarrow>
          let config = google_config_for pool email in
          (case construct config of
             Some e \<Rightarrow> Inl (redact_error e)
           | None \<Rightarrow>
               (case (case ctx 3 of Some e \<Rightarrow> Inl e | None \<Rightarrow> exchange config (subject_token ctx broker)) of
                  Inl e \<Rightarrow> Inl (redact_error e)
                | Inr (token, expiry) \<Rightarrow>
                    if token = [] \<or> \<not> now + 10 * second < expiry
                    then Inl (new_error ''empty or expired Google access token'') else Inr (token, expiry))))"

subsection \<open>Properties\<close>

lemma token_expiry_bounds:
  assumes "token_expiry parse token now = Inr expiry"
  shows "now + 10 * second < expiry" and "0 < expiry" and "expiry < year_10000" and "token \<noteq> []"
  using assms
  by (auto simp: token_expiry_def Let_def year_10000_def second_def
      split: list.splits if_splits option.splits json.splits)

text \<open>The cache accepts every token the direct source mints: it was asked for under a canonical audience, has more than
  ten seconds left and ends before the year 10000.\<close>

theorem direct_tokens_cacheable:
  assumes "direct_token ctx broker parse now audience = Inr (token, expiry)"
  shows "valid_audience audience \<and> (\<exists>ask. broker = Some ask \<and> ask audience = Inr token) \<and> valid_bearer token expiry now"
proof -
  have exp: "token_expiry parse token now = Inr expiry" and rest: "valid_audience audience"
      "\<exists>ask. broker = Some ask \<and> ask audience = Inr token"
    using assms by (auto simp: direct_token_def identity_assertion_def split: option.splits sum.splits if_splits)
  show ?thesis
    using rest token_expiry_bounds [OF exp]
    by (simp add: valid_bearer_def is_zero_time_def zero_time_def token_safety_margin_def second_def)
qed

lemma eks_signed_success:
  "eks_signed ctx aws region cluster signed_at expiry c = Inr (token, expiry') \<Longrightarrow> expiry' = expiry \<and>
     (\<exists>url. aws_presign aws c (caller_identity_url region) cluster region signed_at = Inr url \<and> token = ''k8s-aws-v1.'' @ url_encode url)"
  by (auto simp: eks_signed_def split: option.splits sum.splits)

lemma eks_oidc_success:
  assumes "eks_oidc_token ctx broker aws signed_at role region cluster = Inr (token, expiry)"
  shows "is_commercial_region region \<and> signed_at + 10 * second < expiry \<and>
    (\<exists>c e url. ac_expiration c = Some e \<and> expiry = eks_expiry signed_at e \<and>
       aws_presign aws c (caller_identity_url region) cluster region signed_at = Inr url \<and> token = ''k8s-aws-v1.'' @ url_encode url)"
  using assms
  by (auto simp: eks_oidc_token_def Let_def dest!: eks_signed_success split: option.splits sum.splits if_splits) blast

text \<open>C36: A token exchanged with a cloud has more than ten seconds left when it is minted; one for AWS at most fourteen
  minutes, ends a minute before the credentials that signed it and carries the URL it signs.\<close>

theorem exchanged_tokens_bounded:
  "(eks_oidc_token ctx broker aws signed_at role region cluster = Inr (token, expiry) \<longrightarrow>
     is_commercial_region region \<and> signed_at + 10 * second < expiry \<and> expiry \<le> signed_at + 14 * 60 * second \<and>
     (\<exists>c e url. ac_expiration c = Some e \<and> expiry \<le> e - 60 * second \<and>
        aws_presign aws c (caller_identity_url region) cluster region signed_at = Inr url \<and>
        url_decode (drop 11 token) = Some url)) \<and>
   (aks_oidc_token ctx broker construct get_token now = Inr (token, expiry) \<longrightarrow> token \<noteq> [] \<and> now + 10 * second < expiry) \<and>
   (gke_oidc_token ctx broker construct' exchange now pool email = Inr (token, expiry) \<longrightarrow> token \<noteq> [] \<and> now + 10 * second < expiry)"
proof (intro conjI impI)
  assume "eks_oidc_token ctx broker aws signed_at role region cluster = Inr (token, expiry)"
  then obtain c e url where c: "is_commercial_region region" "signed_at + 10 * second < expiry" "ac_expiration c = Some e"
      "expiry = eks_expiry signed_at e" "token = ''k8s-aws-v1.'' @ url_encode url"
      "aws_presign aws c (caller_identity_url region) cluster region signed_at = Inr url"
    using eks_oidc_success by blast
  then have bounds: "expiry \<le> signed_at + 14 * 60 * second" "expiry \<le> e - 60 * second"
    by (auto simp: eks_expiry_def Let_def)
  have "url_decode (drop 11 token) = Some url"
    by (simp add: c(5) url_decode_encode)
  then show "\<exists>c e url. ac_expiration c = Some e \<and> expiry \<le> e - 60 * second \<and>
        aws_presign aws c (caller_identity_url region) cluster region signed_at = Inr url \<and> url_decode (drop 11 token) = Some url"
    using c bounds by blast
  show "is_commercial_region region" "signed_at + 10 * second < expiry" "expiry \<le> signed_at + 14 * 60 * second"
    using c bounds by blast+
qed (auto simp: aks_oidc_token_def gke_oidc_token_def Let_def split: option.splits sum.splits prod.splits if_splits)

text \<open>The errors that may leave a source: of the caller's context, of a fixed text, or redacted.\<close>

definition opaque_error :: "(nat \<Rightarrow> gerr option) \<Rightarrow> gerr \<Rightarrow> bool" where
  "opaque_error ctx e \<longleftrightarrow>
     ctx 0 = Some e \<or> (\<exists>cause. e = redact_error cause) \<or>
     e \<in> {no_oidc_broker, malformed_token, invalid_audience, empty_assertion,
       new_error ''invalid commercial AWS region'', new_error ''incomplete AWS temporary credentials'',
       new_error ''AWS temporary credentials expire too soon'', new_error ''empty or expired Azure access token'',
       new_error ''empty or expired Google access token''}"

lemma token_expiry_error: "token_expiry parse token now = Inl e \<Longrightarrow> e = malformed_token"
  by (auto simp: token_expiry_def Let_def split: list.splits if_splits option.splits json.splits)

text \<open>C30: No text of the broker, a cloud or a token appears in an error of a source: it is the context's own, one of nine
  fixed ones, or redacted.\<close>

theorem credential_errors_opaque:
  "(direct_token ctx broker parse now audience = Inl e \<longrightarrow> opaque_error ctx e) \<and>
   (eks_oidc_token ctx broker aws signed_at role region cluster = Inl e \<longrightarrow> opaque_error ctx e) \<and>
   (aks_oidc_token ctx broker construct get_token now = Inl e \<longrightarrow> opaque_error ctx e) \<and>
   (gke_oidc_token ctx broker construct' exchange now pool email = Inl e \<longrightarrow> opaque_error ctx e)"
proof (intro conjI impI)
  show "opaque_error ctx e" if "direct_token ctx broker parse now audience = Inl e"
    using that by (auto simp: direct_token_def opaque_error_def dest: token_expiry_error split: option.splits sum.splits if_splits)
  show "opaque_error ctx e" if "eks_oidc_token ctx broker aws signed_at role region cluster = Inl e"
    using that
    by (auto simp: eks_oidc_token_def eks_signed_def opaque_error_def Let_def split: option.splits sum.splits if_splits)
  show "opaque_error ctx e" if "aks_oidc_token ctx broker construct get_token now = Inl e"
    using that by (auto simp: aks_oidc_token_def opaque_error_def Let_def split: option.splits sum.splits prod.splits if_splits)
  show "opaque_error ctx e" if "gke_oidc_token ctx broker construct' exchange now pool email = Inl e"
    using that by (auto simp: gke_oidc_token_def opaque_error_def Let_def split: option.splits sum.splits prod.splits if_splits)
qed

text \<open>A credential exchange reaches the network only for an https URL that is one of those it was built for, up to
  an empty query, without user or fragment, under its own host and not as a redirect.\<close>

theorem exchange_confined:
  assumes "exchange_round_trip urls base r = Inr response"
  shows "base r = Inr response \<and> (xr_text r \<in> set urls \<or> (\<exists>u \<in> set urls. xr_text r = u @ ''?'')) \<and>
    xr_scheme r = Some ''https'' \<and> \<not> xr_has_user r \<and> xr_fragment r = [] \<and> \<not> xr_redirected r \<and> xr_host r \<in> {[], xr_url_host r}"
  using assms
  by (auto simp: exchange_round_trip_def exchange_allowed_def trim_suffix_def has_suffix_iff split: if_splits)

subsection \<open>Samples\<close>

definition sample_audience :: string where
  "sample_audience = ''urn:formae:kubernetes:12345678-1234-4234-8234-123456789abc''"

lemma sample_audience_valid: "valid_audience sample_audience"
  by code_simp

lemma sample_region: "is_commercial_region ''us-east-1''"
  by code_simp

definition sample_token :: string where
  "sample_token = ''e30.e30.AA''"

definition sample_parse :: "string \<Rightarrow> json option" where
  "sample_parse s = Some (JObj [(''exp'', JNum 100)])"

lemma sample_token_expiry: "token_expiry sample_parse sample_token 0 = Inr (100 * second)"
proof -
  have "split_char CHR ''.'' sample_token = [''e30'', ''e30'', ''AA'']" by code_simp
  moreover have "url_decode ''e30'' = Some ''{}''" by code_simp
  moreover have "url_decode ''AA'' \<noteq> None" by code_simp
  ultimately show ?thesis
    by (simp add: token_expiry_def sample_parse_def)
qed

theorem direct_tokens_cacheable_witness:
  "direct_token (\<lambda>_. None) (Some (\<lambda>_. Inr sample_token)) sample_parse 0 sample_audience = Inr (sample_token, 100 * second) \<and>
   valid_bearer sample_token (100 * second) 0"
proof -
  have "direct_token (\<lambda>_. None) (Some (\<lambda>_. Inr sample_token)) sample_parse 0 sample_audience = Inr (sample_token, 100 * second)"
    by (simp add: direct_token_def sample_audience_valid identity_assertion_def sample_token_expiry)
  then show ?thesis
    using direct_tokens_cacheable by blast
qed

definition sample_aws :: aws_sdk where
  "sample_aws = \<lparr>aws_assume = \<lambda>_ _ _. Inr (Some \<lparr>ac_key = ''k'', ac_secret = ''s'', ac_session = ''t'',
     ac_expiration = Some (3600 * second)\<rparr>), aws_request = \<lambda>_. None, aws_presign = \<lambda>_ _ _ _ _. Inr ''https://signed''\<rparr>"

theorem exchanged_tokens_bounded_witness:
  "\<exists>token expiry. eks_oidc_token (\<lambda>_. None) (Some (\<lambda>_. Inr ''a'')) sample_aws 0 ''role'' ''us-east-1'' ''c'' = Inr (token, expiry) \<and>
     expiry \<le> 14 * 60 * second \<and> url_decode (drop 11 token) = Some ''https://signed''"
proof -
  obtain token expiry where run:
      "eks_oidc_token (\<lambda>_. None) (Some (\<lambda>_. Inr ''a'')) sample_aws 0 ''role'' ''us-east-1'' ''c'' = Inr (token, expiry)"
    by (simp add: eks_oidc_token_def sample_region sample_aws_def identity_assertion_def eks_signed_def eks_expiry_def second_def)
  have "aws_presign sample_aws c u cl r t = Inr ''https://signed''" for c u cl r t
    by (simp add: sample_aws_def)
  with conjunct1 [OF exchanged_tokens_bounded, rule_format, OF run]
  have "expiry \<le> 14 * 60 * second \<and> url_decode (drop 11 token) = Some ''https://signed''"
    by auto
  then show ?thesis
    using run by blast
qed

theorem credential_errors_opaque_witness:
  "opaque_error (\<lambda>_. None) no_oidc_broker \<and> aks_oidc_token (\<lambda>_. None) None None (\<lambda>a. (True, Inl empty_assertion)) 0 = Inl no_oidc_broker"
proof -
  have "aks_oidc_token (\<lambda>_. None) None None (\<lambda>a. (True, Inl empty_assertion)) 0 = Inl no_oidc_broker"
    by (simp add: aks_oidc_token_def)
  then show ?thesis
    using credential_errors_opaque by blast
qed

definition sample_exchange :: exchange_request where
  "sample_exchange = \<lparr>xr_scheme = Some ''https'', xr_text = ''https://sts.googleapis.com/v1/token'', xr_has_user = False,
     xr_fragment = [], xr_url_host = ''sts.googleapis.com'', xr_host = [], xr_redirected = False\<rparr>"

theorem exchange_confined_witness:
  "exchange_round_trip (google_urls []) (\<lambda>_. Inr ()) sample_exchange = Inr () \<and>
   (xr_text sample_exchange \<in> set (google_urls []) \<or> (\<exists>u \<in> set (google_urls []). xr_text sample_exchange = u @ ''?''))"
proof -
  have "exchange_round_trip (google_urls []) (\<lambda>_. Inr ()) sample_exchange = Inr ()"
    by (simp add: exchange_round_trip_def exchange_allowed_def sample_exchange_def google_urls_def trim_suffix_def has_suffix_def
        has_prefix_def)
  with exchange_confined [OF this] show ?thesis
    by blast
qed

end
