(* ===== verification/Cloud_Providers.thy ===== *)
theory Cloud_Providers
  imports Cloud_Tokens
begin

text \<open>
  The token sources that use the agent's own cloud identity (\<open>pkg/auth/eks\<close>, \<open>gke\<close>, \<open>aks\<close>, \<open>oci\<close> and \<open>ovh\<close>,
  \<open>provider.go\<close>) and the lookup of an AKS cluster's connection details (\<open>aks/describe.go\<close>). Each runs under a deadline
  of its own, whose passing shows in the SDKs' answers; the SDKs, the signers and the clock are parameters. Logging
  is left out.
\<close>

subsection \<open>Padded base64 and query escaping\<close>

definition std_char :: "nat \<Rightarrow> char" where
  "std_char n = (if n = 62 then CHR ''+'' else if n = 63 then CHR ''/'' else url_char n)"

fun b64_encode_octets :: "nat list \<Rightarrow> string" where
  "b64_encode_octets [] = []"
| "b64_encode_octets [a] = [std_char (a div 4), std_char (a mod 4 * 16), CHR ''='', CHR ''='']"
| "b64_encode_octets [a, b] =
     [std_char (a div 4), std_char (a mod 4 * 16 + b div 16), std_char (b mod 16 * 4), CHR ''='']"
| "b64_encode_octets (a # b # c # bs) =
     [std_char (a div 4), std_char (a mod 4 * 16 + b div 16), std_char (b mod 16 * 4 + c div 64), std_char (c mod 64)] @
     b64_encode_octets bs"

definition b64_encode :: "string \<Rightarrow> string" where
  "b64_encode s = b64_encode_octets (map of_char s)"

text \<open>\<open>url.QueryEscape\<close>.\<close>

definition upper_hex :: "nat \<Rightarrow> char" where
  "upper_hex n = (if n < 10 then char_of (48 + n) else char_of (55 + n))"

definition unreserved :: "char \<Rightarrow> bool" where
  "unreserved c \<longleftrightarrow> is_lower c \<or> is_upper c \<or> is_digit c \<or> c \<in> set ''-_.~''"

definition escape_char :: "char \<Rightarrow> string" where
  "escape_char c =
     (if unreserved c then [c] else if c = CHR '' '' then ''+''
      else [CHR ''%'', upper_hex (of_char c div 16), upper_hex (of_char c mod 16)])"

definition query_escape :: "string \<Rightarrow> string" where
  "query_escape s = concat (map escape_char s)"

subsection \<open>EKS\<close>

definition eks_token_ttl :: int where
  "eks_token_ttl = 14 * 60 * second"

text \<open>\<open>load\<close> and \<open>retrieve\<close>: the default configuration for a region, if any, and its credentials.\<close>

definition eks_chain_token ::
  "(string option \<Rightarrow> gerr option) \<Rightarrow> (string option \<Rightarrow> aws_credentials res) \<Rightarrow> aws_sdk \<Rightarrow> instant \<Rightarrow> string \<Rightarrow> string \<Rightarrow>
   (string \<times> instant) res" where
  "eks_chain_token load retrieve aws signed_at cluster region =
     (let option = (if region \<noteq> [] then Some region else None) in
      case load option of
        Some e \<Rightarrow> Inl (wrap_error ''failed to load AWS config'' e)
      | None \<Rightarrow>
          (case retrieve option of
             Inl e \<Rightarrow> Inl (wrap_error ''failed to retrieve AWS credentials'' e)
           | Inr creds \<Rightarrow>
               (case aws_request aws (caller_identity_url region) of
                  Some e \<Rightarrow> Inl (wrap_error ''failed to create STS request'' e)
                | None \<Rightarrow>
                    (case aws_presign aws creds (caller_identity_url region) cluster region signed_at of
                       Inl e \<Rightarrow> Inl (wrap_error ''failed to presign STS request'' e)
                     | Inr url \<Rightarrow> Inr (''k8s-aws-v1.'' @ url_encode url, signed_at + eks_token_ttl)))))"

subsection \<open>GKE\<close>

definition em_dash :: string where
  "em_dash = [CHR 0xE2, CHR 0x80, CHR 0x94]"

text \<open>What comes first: the answer, or the deadline.\<close>

datatype 'a race = Finished "'a res" | Timed_out gerr

definition is_reauth_error :: "gerr option \<Rightarrow> bool" where
  "is_reauth_error err =
     (case err of
        None \<Rightarrow> False
      | Some e \<Rightarrow> contains (err_msg e) ''invalid_rapt'' \<or> contains (err_msg e) ''reauth related error'')"

definition gke_chain_token :: "gerr option \<Rightarrow> (string \<times> instant) race \<Rightarrow> (string \<times> instant) res" where
  "gke_chain_token lookup minted =
     (case lookup of
        Some e \<Rightarrow> Inl (wrap_error (''GCP credentials not found '' @ em_dash @ '' run `gcloud auth application-default login`, '' @
          ''or set GOOGLE_APPLICATION_CREDENTIALS to a service-account key file'') e)
      | None \<Rightarrow>
          (case minted of
             Timed_out e \<Rightarrow> Inl (wrap_error ''GCP token mint timed out'' e)
           | Finished (Inl e) \<Rightarrow>
               if is_reauth_error (Some e)
               then Inl (wrap_error (''GCP reauth required (org policy `invalid_rapt` expired the session) '' @ em_dash @
                 '' re-authenticate with `gcloud auth application-default login` or set '' @
                 ''GOOGLE_APPLICATION_CREDENTIALS to a service-account key'') e)
               else Inl (wrap_error ''failed to get GCP token'' e)
           | Finished (Inr token) \<Rightarrow> Inr token))"

subsection \<open>AKS\<close>

definition default_aks_scope :: string where
  "default_aks_scope = ''6dae42f8-4368-4678-94ff-3960e28e3630/.default''"

definition aks_scope :: "string \<Rightarrow> string" where
  "aks_scope scope = (if scope = [] then default_aks_scope else scope)"

definition aks_chain_token :: "gerr option \<Rightarrow> (string \<Rightarrow> (string \<times> instant) res) \<Rightarrow> string \<Rightarrow> (string \<times> instant) res" where
  "aks_chain_token construct get_token scope =
     (case construct of
        Some e \<Rightarrow> Inl (wrap_error ''failed to create Azure credential'' e)
      | None \<Rightarrow>
          (case get_token (aks_scope scope) of
             Inl e \<Rightarrow> Inl (wrap_error ''failed to get Azure token'' e)
           | Inr token \<Rightarrow> Inr token))"

text \<open>A kubeconfig of the credentials endpoints: nil, or its bytes; \<open>load\<close> yields host and certificates.\<close>

fun connection_from_kubeconfigs :: "(string \<Rightarrow> (string \<times> string) res) \<Rightarrow> string option list \<Rightarrow> (string \<times> string) option" where
  "connection_from_kubeconfigs load [] = None"
| "connection_from_kubeconfigs load (kc # kcs) =
     (case kc of
        None \<Rightarrow> connection_from_kubeconfigs load kcs
      | Some v \<Rightarrow>
          if v = [] then connection_from_kubeconfigs load kcs
          else (case load v of
             Inl e \<Rightarrow> connection_from_kubeconfigs load kcs
           | Inr (host, ca) \<Rightarrow>
               if host = [] \<or> ca = [] then connection_from_kubeconfigs load kcs else Some (host, ca)))"

definition credential_error :: "gerr option \<Rightarrow> string" where
  "credential_error err = (case err of None \<Rightarrow> ''returned no usable kubeconfig'' | Some e \<Rightarrow> err_msg e)"

record aks_cluster =
  kc_subscription :: string
  kc_resource_group :: string
  kc_cluster :: string

definition usable_connection :: "(string \<Rightarrow> (string \<times> string) res) \<Rightarrow> string option list res \<Rightarrow> (string \<times> string) option" where
  "usable_connection load listed = (case listed of Inl e \<Rightarrow> None | Inr kcs \<Rightarrow> connection_from_kubeconfigs load kcs)"

definition res_error :: "'a res \<Rightarrow> gerr option" where
  "res_error r = (case r of Inl e \<Rightarrow> Some e | Inr _ \<Rightarrow> None)"

text \<open>\<open>env\<close>: AZURE_SUBSCRIPTION_ID. \<open>user\<close> and \<open>admin\<close>: the two listings for a subscription.\<close>

definition aks_describe_cluster ::
  "string \<Rightarrow> gerr option \<Rightarrow> (string \<Rightarrow> gerr option) \<Rightarrow> (string \<Rightarrow> (string \<times> string) res) \<Rightarrow>
   (string \<Rightarrow> string option list res) \<Rightarrow> (string \<Rightarrow> string option list res) \<Rightarrow> aks_cluster \<Rightarrow> (string \<times> string) res" where
  "aks_describe_cluster env credential client load user admin p =
     (if kc_resource_group p = [] \<or> kc_cluster p = []
      then Inl (new_error (''AKS auth: ResourceGroup and ClusterName are required to look up the cluster'' @ [CHR 0x27] @
        ''s endpoint and CA '' @ em_dash @ '' set both, or set Endpoint and CertificateAuthority explicitly''))
      else let subscription = (if kc_subscription p = [] then env else kc_subscription p) in
        if subscription = []
        then Inl (new_error (''AKS auth: no subscription for cluster '' @ quoted (kc_cluster p) @ '' '' @ em_dash @
          '' set SubscriptionId on the target or AZURE_SUBSCRIPTION_ID on the agent''))
        else (case credential of
           Some e \<Rightarrow> Inl (wrap_error ''AKS auth: failed to create Azure credential'' e)
         | None \<Rightarrow>
             (case client subscription of
                Some e \<Rightarrow> Inl (wrap_error ''AKS auth: failed to create AKS client'' e)
              | None \<Rightarrow>
                  (case usable_connection load (user subscription) of
                     Some connection \<Rightarrow> Inr connection
                   | None \<Rightarrow>
                       (case usable_connection load (admin subscription) of
                          Some connection \<Rightarrow> Inr connection
                        | None \<Rightarrow> Inl (new_error (''AKS auth: could not read connection details for cluster '' @
                            quoted (kc_cluster p) @ '' in resource group '' @ quoted (kc_resource_group p) @
                            ''. listClusterUserCredential: '' @ credential_error (res_error (user subscription)) @
                            ''. listClusterAdminCredential: '' @ credential_error (res_error (admin subscription)) @
                            ''. Grant Microsoft.ContainerService/managedClusters/listClusterUserCredential/action, '' @
                            ''or set Endpoint and CertificateAuthority explicitly'')))))))"

subsection \<open>OCI\<close>

definition oci_token_ttl :: int where
  "oci_token_ttl = 5 * 60 * second"

definition oci_token_url :: "string \<Rightarrow> string \<Rightarrow> string" where
  "oci_token_url region cluster = ''https://containerengine.'' @ region @ ''.oraclecloud.com/cluster_request/'' @ cluster"

definition presigned_url :: "string \<Rightarrow> string \<Rightarrow> string \<Rightarrow> string" where
  "presigned_url base authorization date =
     base @ ''?authorization='' @ query_escape authorization @ ''&date='' @ query_escape date"

definition build_presigned_token :: "string \<Rightarrow> string \<Rightarrow> string \<Rightarrow> string" where
  "build_presigned_token base authorization date = b64_encode (presigned_url base authorization date)"

text \<open>\<open>request\<close> fails for a URL that does not parse; \<open>sign\<close> gives the authorization and date headers of the signed request.\<close>

definition oci_sign ::
  "string res \<Rightarrow> (string \<Rightarrow> gerr option) \<Rightarrow> (string \<Rightarrow> instant \<Rightarrow> (string \<times> string) res) \<Rightarrow> instant \<Rightarrow> string \<Rightarrow> string \<Rightarrow>
   (string \<times> instant) res" where
  "oci_sign provider_region request sign signed_at cluster region =
     (case (if region = [] then map_sum (wrap_error ''failed to determine OCI region'') id provider_region else Inr region) of
        Inl e \<Rightarrow> Inl e
      | Inr region \<Rightarrow>
          let base = oci_token_url region cluster in
          (case request base of
             Some e \<Rightarrow> Inl (wrap_error ''failed to create signing request'' e)
           | None \<Rightarrow>
               (case sign base signed_at of
                  Inl e \<Rightarrow> Inl (wrap_error ''failed to sign OKE token request'' e)
                | Inr (authorization, date) \<Rightarrow>
                    Inr (build_presigned_token base authorization date, signed_at + oci_token_ttl))))"

text \<open>The signature races the deadline.\<close>

definition oci_token :: "(string \<times> instant) race \<Rightarrow> (string \<times> instant) res" where
  "oci_token outcome =
     (case outcome of
        Finished r \<Rightarrow> r
      | Timed_out e \<Rightarrow> Inl (wrap_error ''OCI token mint timed out'' e))"

subsection \<open>OVH\<close>

definition ovh_endpoint :: "string \<Rightarrow> string \<Rightarrow> string" where
  "ovh_endpoint service cluster = ''/cloud/project/'' @ service @ ''/kube/'' @ cluster @ ''/kubeconfig''"

text \<open>\<open>load\<close> yields the bearer token of a kubeconfig; content that is not base64 is taken as it is.\<close>

definition ovh_token ::
  "gerr option \<Rightarrow> (string \<Rightarrow> string res) \<Rightarrow> (string \<Rightarrow> string res) \<Rightarrow> instant \<Rightarrow> string \<Rightarrow> string \<Rightarrow> (string \<times> instant) res" where
  "ovh_token construct post load now service cluster =
     (case construct of
        Some e \<Rightarrow> Inl (wrap_error ''failed to create OVH client'' e)
      | None \<Rightarrow>
          (case post (ovh_endpoint service cluster) of
             Inl e \<Rightarrow> Inl (wrap_error ''failed to get OVH kubeconfig'' e)
           | Inr content \<Rightarrow>
               (case load (case b64_decode content of Some d \<Rightarrow> d | None \<Rightarrow> content) of
                  Inl e \<Rightarrow> Inl (wrap_error ''failed to parse OVH kubeconfig'' e)
                | Inr bearer \<Rightarrow>
                    if bearer \<noteq> [] then Inr (bearer, now + 30 * 60 * second)
                    else Inl (new_error ''OVH kubeconfig does not contain a bearer token''))))"

subsection \<open>The presigned token can be read back\<close>

lemma std_digit_char:
  assumes "n < 64"
  shows "b64_digit (std_char n) = Some n" and "std_char n \<noteq> CHR ''=''" and "std_char n \<noteq> CHR 0x0A" and "std_char n \<noteq> CHR 0x0D"
proof -
  have letters: "m < 26 \<Longrightarrow> b64_digit (char_of (m + 65)) = Some m" "m < 26 \<Longrightarrow> b64_digit (char_of (m + 97)) = Some (m + 26)"
    "m < 10 \<Longrightarrow> b64_digit (char_of (m + 48)) = Some (m + 52)" for m :: nat
    by (simp_all add: b64_digit_def is_upper_def is_lower_def is_digit_def code_in_def Let_def)
  have marks: "b64_digit (CHR ''+'') = Some 62" "b64_digit (CHR ''/'') = Some 63" "b64_digit (CHR ''='') = None"
    "b64_digit (CHR 0x0A) = None" "b64_digit (CHR 0x0D) = None"
    by (simp_all add: b64_digit_def is_upper_def is_lower_def is_digit_def code_in_def Let_def)
  consider "n < 26" | "26 \<le> n" "n < 52" | "52 \<le> n" "n < 62" | "n = 62" | "n = 63" using assms by linarith
  then show digit: "b64_digit (std_char n) = Some n"
  proof cases
    case 2
    then have "n - 26 < 26" by linarith
    then show ?thesis using 2 letters(2) [of "n - 26"] by (simp add: std_char_def url_char_def add.commute)
  next
    case 3
    then have "n - 52 < 10" by linarith
    then show ?thesis using 3 letters(3) [of "n - 52"] by (simp add: std_char_def url_char_def)
  qed (simp_all add: std_char_def url_char_def letters(1) marks)
  show "std_char n \<noteq> CHR ''=''" "std_char n \<noteq> CHR 0x0A" "std_char n \<noteq> CHR 0x0D"
    using digit marks(3-5) by force+
qed

lemma b64_bits_std:
  assumes "list_all (\<lambda>d. d < 64) ds"
  shows "b64_bits (map std_char ds) = Some (foldl (\<lambda>acc d. acc * 64 + d) 0 ds)"
proof -
  have "foldl (\<lambda>acc c. acc * 64 + the (b64_digit c)) n (map std_char ds) = foldl (\<lambda>acc d. acc * 64 + d) n ds" for n
    using assms std_digit_char(1) by (induction ds arbitrary: n) auto
  moreover have "None \<notin> set (map b64_digit (map std_char ds))"
    using assms std_digit_char(1) by (induction ds) auto
  ultimately show ?thesis
    by (simp add: b64_bits_def)
qed

lemma octets_value:
  fixes a b c :: nat
  shows "((a div 4 * 64 + (a mod 4 * 16 + b div 16)) * 64 + (b mod 16 * 4 + c div 64)) * 64 + c mod 64 = a * 65536 + b * 256 + c"
proof -
  have "((q * 64 + (r * 16 + s)) * 64 + (t * 4 + u)) * 64 + v = (q * 4 + r) * 65536 + (s * 16 + t) * 256 + (u * 64 + v)"
    for q r s t u v :: nat by simp
  from this [of "a div 4" "a mod 4" "b div 16" "b mod 16" "c div 64" "c mod 64"] show ?thesis by simp
qed

lemma sextet_bounds:
  fixes a b c :: nat
  assumes "a < 256" "b < 256" "c < 256"
  shows "a div 4 < 64" "a mod 4 * 16 < 64" "a mod 4 * 16 + b div 16 < 64" "b mod 16 * 4 < 64" "b mod 16 * 4 + c div 64 < 64"
proof -
  have "a mod 4 \<le> 3" "b mod 16 \<le> 15" "b div 16 \<le> 15" "c div 64 \<le> 3" "a div 4 \<le> 63"
    using assms by linarith+
  then show "a div 4 < 64" "a mod 4 * 16 < 64" "a mod 4 * 16 + b div 16 < 64" "b mod 16 * 4 < 64" "b mod 16 * 4 + c div 64 < 64"
    by linarith+
qed

lemma b64_quantum:
  fixes a b c :: nat
  assumes "a < 256" "b < 256" "c < 256"
  shows "b64_bits [std_char (a div 4), std_char (a mod 4 * 16 + b div 16), std_char (b mod 16 * 4 + c div 64), std_char (c mod 64)] =
    Some (a * 65536 + b * 256 + c)"
    and "nth_byte 16 (a * 65536 + b * 256 + c) = char_of a" and "nth_byte 8 (a * 65536 + b * 256 + c) = char_of b"
    and "nth_byte 0 (a * 65536 + b * 256 + c) = char_of c"
proof -
  show "b64_bits [std_char (a div 4), std_char (a mod 4 * 16 + b div 16), std_char (b mod 16 * 4 + c div 64), std_char (c mod 64)] =
    Some (a * 65536 + b * 256 + c)"
    using b64_bits_std [of "[a div 4, a mod 4 * 16 + b div 16, b mod 16 * 4 + c div 64, c mod 64]"] sextet_bounds [OF assms] octets_value [of a b c]
    by (simp add: add.assoc)
  have "(a * 65536 + b * 256 + c) div 65536 = a" "(a * 65536 + b * 256 + c) div 256 = a * 256 + b"
    using assms by linarith+
  then show "nth_byte 16 (a * 65536 + b * 256 + c) = char_of a" "nth_byte 8 (a * 65536 + b * 256 + c) = char_of b"
    using assms by (simp_all add: nth_byte_def)
  have "a * 65536 + b * 256 + c = c + 256 * (a * 256 + b)" by simp
  then have "(a * 65536 + b * 256 + c) mod 256 = c"
    using assms(3) by (simp only: mod_mult_self2 mod_less)
  then show "nth_byte 0 (a * 65536 + b * 256 + c) = char_of c"
    by (simp add: nth_byte_def)
qed

lemma b64_quantum_two:
  fixes a b :: nat
  assumes "a < 256" "b < 256"
  shows "b64_bits [std_char (a div 4), std_char (a mod 4 * 16 + b div 16), std_char (b mod 16 * 4)] = Some (a * 1024 + b * 4)"
    and "nth_byte 10 (a * 1024 + b * 4) = char_of a" and "nth_byte 2 (a * 1024 + b * 4) = char_of b"
proof -
  have "(a div 4 * 64 + (a mod 4 * 16 + b div 16)) * 64 + b mod 16 * 4 = a * 1024 + b * 4"
    using octets_value [of a b 0] by simp
  then show "b64_bits [std_char (a div 4), std_char (a mod 4 * 16 + b div 16), std_char (b mod 16 * 4)] = Some (a * 1024 + b * 4)"
    using b64_bits_std [of "[a div 4, a mod 4 * 16 + b div 16, b mod 16 * 4]"] sextet_bounds [OF assms assms(2)] by simp
  have "(a * 1024 + b * 4) div 1024 = a" "(a * 1024 + b * 4) div 4 = a * 256 + b"
    using assms by linarith+
  then show "nth_byte 10 (a * 1024 + b * 4) = char_of a" "nth_byte 2 (a * 1024 + b * 4) = char_of b"
    using assms by (simp_all add: nth_byte_def)
qed

lemma b64_quantum_one:
  fixes a :: nat
  assumes "a < 256"
  shows "b64_bits [std_char (a div 4), std_char (a mod 4 * 16)] = Some (a * 16)" and "nth_byte 4 (a * 16) = char_of a"
proof -
  have "a div 4 * 64 + a mod 4 * 16 = a * 16"
    using div_mult_mod_eq [of a 4] by linarith
  then show "b64_bits [std_char (a div 4), std_char (a mod 4 * 16)] = Some (a * 16)"
    using b64_bits_std [of "[a div 4, a mod 4 * 16]"] assms by simp
  show "nth_byte 4 (a * 16) = char_of a"
    using assms by (simp add: nth_byte_def)
qed

lemma b64_quanta_encode: "list_all (\<lambda>b. b < 256) bs \<Longrightarrow> b64_quanta (b64_encode_octets bs) = Some (map char_of bs)"
proof (induction bs rule: b64_encode_octets.induct)
  case (4 a b c bs)
  have "std_char (c mod 64) \<noteq> CHR ''=''"
    by (rule std_digit_char) simp
  then show ?case
    using 4 b64_quantum [of a b c] by simp
next
  case (3 a b)
  have "std_char (b mod 16 * 4) \<noteq> CHR ''=''"
    using mod_less_divisor [of 16 b] by (intro std_digit_char) linarith
  then show ?case
    using 3 b64_quantum_two [of a b] by simp
qed (simp_all add: b64_quantum_one [simplified])

lemma b64_encode_no_breaks: "list_all (\<lambda>b. b < 256) bs \<Longrightarrow> c \<in> set (b64_encode_octets bs) \<Longrightarrow> c \<noteq> CHR 0x0A \<and> c \<noteq> CHR 0x0D"
proof (induction bs rule: b64_encode_octets.induct)
  case (4 x y z bs)
  then show ?case
    using sextet_bounds [of x y z] std_digit_char(3,4) by auto
next
  case (3 x y)
  then show ?case
    using sextet_bounds [of x y 0] std_digit_char(3,4) by auto
next
  case (2 x)
  then show ?case
    using sextet_bounds [of x 0 0] std_digit_char(3,4) by auto
qed simp

lemma b64_decode_encode: "b64_decode (b64_encode s) = Some s"
proof -
  have bytes: "list_all (\<lambda>b. b < 256) (map of_char s :: nat list)"
    by (simp add: list_all_iff)
  then have "filter (\<lambda>c. c \<noteq> CHR 0x0A \<and> c \<noteq> CHR 0x0D) (b64_encode s) = b64_encode s"
    unfolding b64_encode_def by (rule_tac filter_True) (use b64_encode_no_breaks in blast)
  then show ?thesis
    using b64_quanta_encode [OF bytes] by (simp add: b64_decode_def b64_encode_def comp_def)
qed

text \<open>What a reader of the query does.\<close>

fun query_unescape :: "string \<Rightarrow> string option" where
  "query_unescape [] = Some []"
| "query_unescape (c # cs) =
     (if c = CHR ''%'' then
        (case cs of
           h # l # rest \<Rightarrow>
             (case (hex_digit h, hex_digit l) of
                (Some x, Some y) \<Rightarrow> map_option (Cons (char_of (16 * x + y))) (query_unescape rest)
              | _ \<Rightarrow> None)
         | _ \<Rightarrow> None)
      else map_option (Cons (if c = CHR ''+'' then CHR '' '' else c)) (query_unescape cs))"

lemma hex_digit_upper: "n < 16 \<Longrightarrow> hex_digit (upper_hex n) = Some n"
  by (simp add: hex_digit_def upper_hex_def is_digit_def code_in_def Let_def)

lemma unreserved_plain: "unreserved c \<Longrightarrow> c \<noteq> CHR ''%'' \<and> c \<noteq> CHR ''+'' \<and> c \<noteq> CHR ''&''"
  by (auto simp: unreserved_def is_lower_def is_upper_def is_digit_def code_in_def)

lemma unescape_char: "query_unescape (escape_char c @ rest) = map_option (Cons c) (query_unescape rest)"
proof -
  have "(of_char c :: nat) < 256" by simp
  then have digits: "of_char c div 16 < (16 :: nat)" "of_char c mod 16 < (16 :: nat)"
    by (linarith, simp)
  have "16 * (of_char c div 16) + of_char c mod 16 = (of_char c :: nat)" by simp
  then show ?thesis
    using unreserved_plain [of c] by (simp add: escape_char_def hex_digit_upper [OF digits(1)] hex_digit_upper [OF digits(2)])
qed

lemma query_unescape_escape: "query_unescape (query_escape s) = Some s"
  by (induction s) (simp_all add: query_escape_def unescape_char)

lemma upper_hex_plain: "n < 16 \<Longrightarrow> upper_hex n \<noteq> CHR ''&''"
  using hex_digit_upper [of n] by (auto simp: hex_digit_def is_digit_def code_in_def Let_def)

lemma query_escape_no_ampersand: "CHR ''&'' \<notin> set (query_escape s)"
proof -
  have "CHR ''&'' \<notin> set (escape_char c)" for c
  proof -
    have "(of_char c :: nat) < 256" by simp
    then have "of_char c div 16 < (16 :: nat)" "of_char c mod 16 < (16 :: nat)"
      by (linarith, simp)
    then have "upper_hex (of_char c div 16) \<noteq> CHR ''&''" "upper_hex (of_char c mod 16) \<noteq> CHR ''&''"
      using upper_hex_plain by blast+
    then show ?thesis
      using unreserved_plain [of c] by (auto simp: escape_char_def)
  qed
  then show ?thesis
    by (simp add: query_escape_def)
qed

text \<open>The token for an OKE cluster is the presigned URL in base64: its two parameters can be told apart and read
  back as the headers the signer produced for that cluster and region, and it expires five minutes after the
  instant signed.\<close>

theorem oci_token_reads_back:
  assumes "oci_sign provider_region request sign signed_at cluster region = Inr (token, expiry)"
  shows "\<exists>r authorization date escaped_authorization escaped_date.
    (region \<noteq> [] \<longrightarrow> r = region) \<and> (region = [] \<longrightarrow> provider_region = Inr r) \<and>
    sign (oci_token_url r cluster) signed_at = Inr (authorization, date) \<and>
    b64_decode token = Some (oci_token_url r cluster @ ''?authorization='' @ escaped_authorization @ ''&date='' @ escaped_date) \<and>
    query_unescape escaped_authorization = Some authorization \<and> query_unescape escaped_date = Some date \<and>
    CHR ''&'' \<notin> set escaped_authorization \<and> expiry = signed_at + 5 * 60 * second"
proof -
  obtain r authorization date where r: "(region \<noteq> [] \<longrightarrow> r = region) \<and> (region = [] \<longrightarrow> provider_region = Inr r)"
      and "sign (oci_token_url r cluster) signed_at = Inr (authorization, date)"
      and "token = build_presigned_token (oci_token_url r cluster) authorization date" and "expiry = signed_at + oci_token_ttl"
    using assms
    by (cases "region = []"; cases provider_region)
      (auto simp: oci_sign_def Let_def split: option.splits sum.splits)
  then show ?thesis
    using query_unescape_escape query_escape_no_ampersand
    by (intro exI [of _ r] exI [of _ authorization] exI [of _ date] exI [of _ "query_escape authorization"]
        exI [of _ "query_escape date"])
      (simp add: build_presigned_token_def b64_decode_encode presigned_url_def oci_token_ttl_def)
qed

definition sample_sign :: "string \<Rightarrow> instant \<Rightarrow> (string \<times> string) res" where
  "sample_sign url at = Inr (''Signature a=b&c'', ''Mon, 01'')"

theorem oci_token_reads_back_witness:
  "\<exists>token expiry. oci_sign (Inr ''eu'') (\<lambda>_. None) sample_sign 0 ''ocid'' [] = Inr (token, expiry) \<and>
     b64_decode token \<noteq> None \<and> expiry = 5 * 60 * second"
proof -
  obtain token expiry where "oci_sign (Inr ''eu'') (\<lambda>_. None) sample_sign 0 ''ocid'' [] = Inr (token, expiry)"
    by (simp add: oci_sign_def sample_sign_def)
  with oci_token_reads_back [OF this] show ?thesis
    by auto
qed

subsection \<open>What an AKS lookup returns\<close>

definition usable :: "(string \<Rightarrow> (string \<times> string) res) \<Rightarrow> string option \<Rightarrow> (string \<times> string) option" where
  "usable load kc =
     (case kc of
        None \<Rightarrow> None
      | Some v \<Rightarrow>
          (case load v of
             Inl e \<Rightarrow> None
           | Inr (host, ca) \<Rightarrow> if v \<noteq> [] \<and> host \<noteq> [] \<and> ca \<noteq> [] then Some (host, ca) else None))"

lemma connection_first_usable:
  "connection_from_kubeconfigs load kcs = (case filter (\<lambda>kc. usable load kc \<noteq> None) kcs of [] \<Rightarrow> None | kc # _ \<Rightarrow> usable load kc)"
  by (induction kcs) (auto simp: usable_def split: option.splits sum.splits prod.splits)

lemma connection_complete: "connection_from_kubeconfigs load kcs = Some (host, ca) \<Longrightarrow> host \<noteq> [] \<and> ca \<noteq> []"
  by (induction kcs) (auto split: option.splits sum.splits prod.splits if_splits)

text \<open>The lookup returns a complete connection or an error: the first kubeconfig of the user's listing that names a host
  and certificates, and only when there is none the first such one of the administrator's; it never asks without a
  resource group, a cluster and a subscription.\<close>

theorem aks_lookup_exact:
  "aks_describe_cluster env credential client load user admin p = Inr connection \<longleftrightarrow>
     kc_resource_group p \<noteq> [] \<and> kc_cluster p \<noteq> [] \<and> credential = None \<and>
     (\<exists>subscription. subscription = (if kc_subscription p = [] then env else kc_subscription p) \<and> subscription \<noteq> [] \<and>
        client subscription = None \<and> fst connection \<noteq> [] \<and> snd connection \<noteq> [] \<and>
        (usable_connection load (user subscription) = Some connection \<or>
         usable_connection load (user subscription) = None \<and> usable_connection load (admin subscription) = Some connection))"
proof -
  have complete: "usable_connection load listed = Some c \<Longrightarrow> fst c \<noteq> [] \<and> snd c \<noteq> []" for listed c
    using connection_complete by (cases c) (auto simp: usable_connection_def split: sum.splits)
  show ?thesis
    using complete by (auto simp: aks_describe_cluster_def Let_def split: option.splits)
qed

end
