(* ===== verification/Chart_Retrieval.thy ===== *)
theory Chart_Retrieval
  imports Release_Ops Auth_Runtime
begin

text \<open>
  How a Helm callback gets its chart: the loader bounded by the callback's deadline and the older one
  (\<open>pkg/resources/helm/callback_budget.go\<close>, \<open>release.go\<close>), the wait for Helm's record that serves the
  worker's token requests, and the registry credentials with their native helpers
  (\<open>registry_credentials.go\<close>, \<open>registry_budget.go\<close>). Helm's downloader, the file system, helper processes and ORAS'
  file store are parameters; \<open>ctx k\<close> is the context's error at the \<open>k\<close>-th place the code looks at it.
\<close>

subsection \<open>Charts\<close>

record chart_sdk =
  cs_exists :: "string \<Rightarrow> bool"
  cs_load :: "string \<Rightarrow> chart res"
  cs_is_abs :: "string \<Rightarrow> bool"
  cs_authorizer :: "gerr option"
  cs_client :: "gerr option"
  cs_find :: "string \<Rightarrow> string \<Rightarrow> string \<Rightarrow> string res"
  cs_mkdir :: "gerr option"
  cs_is_oci :: "string \<Rightarrow> bool"
  cs_download :: "bool \<Rightarrow> string \<Rightarrow> string \<Rightarrow> string res"
  cs_locate :: "string \<Rightarrow> string \<Rightarrow> string \<Rightarrow> string res"

text \<open>The result of a step, unless the context has ended.\<close>

definition unless_done :: "gerr option \<Rightarrow> 'a res \<Rightarrow> 'a res" where
  "unless_done live r = (case live of Some e \<Rightarrow> Inl e | None \<Rightarrow> r)"

definition bounded_get :: "gerr option \<Rightarrow> instant option \<Rightarrow> instant \<Rightarrow> (int \<Rightarrow> 'a res) \<Rightarrow> 'a res" where
  "bounded_get live deadline now fetch =
     (case live of
        Some e \<Rightarrow> Inl e
      | None \<Rightarrow>
          (case deadline of
             None \<Rightarrow> Inl (new_error ''chart retrieval requires a callback deadline'')
           | Some d \<Rightarrow>
               let remaining = time_sub d now in
               if remaining \<le> 0 then Inl (sentinel_error CtxDeadlineExceeded ''context deadline exceeded'') else fetch remaining))"

definition download_chart :: "(nat \<Rightarrow> gerr option) \<Rightarrow> chart_sdk \<Rightarrow> string \<Rightarrow> string \<Rightarrow> chart res" where
  "download_chart ctx sdk version ref =
     (case cs_mkdir sdk of
        Some e \<Rightarrow> Inl e
      | None \<Rightarrow>
          (case cs_download sdk (cs_is_oci sdk ref) ref version of
             Inl e \<Rightarrow> Inl e
           | Inr path \<Rightarrow> unless_done (ctx 3) (unless_done (ctx 4) (cs_load sdk path))))"

definition load_chart_within :: "(nat \<Rightarrow> gerr option) \<Rightarrow> chart_sdk \<Rightarrow> release_properties \<Rightarrow> chart res" where
  "load_chart_within ctx sdk props =
     (case ctx 0 of
        Some e \<Rightarrow> Inl e
      | None \<Rightarrow>
          (case validate_chart_ref (rp_chart props) (rp_repo_url props) of
             Some e \<Rightarrow> Inl e
           | None \<Rightarrow>
               if cs_exists sdk (rp_chart props) then unless_done (ctx 1) (cs_load sdk (rp_chart props))
               else if cs_is_abs sdk (rp_chart props) \<or> has_prefix (rp_chart props) ''.''
               then Inl (new_error ''chart path does not exist'')
               else (case resolve_chart_ref (rp_chart props) (rp_repo_url props) of
                  (ref, repo) \<Rightarrow>
                    (case cs_authorizer sdk of
                       Some e \<Rightarrow> Inl e
                     | None \<Rightarrow>
                         (case cs_client sdk of
                            Some e \<Rightarrow> Inl e
                          | None \<Rightarrow>
                              (case ctx 2 of
                                 Some e \<Rightarrow> Inl e
                               | None \<Rightarrow>
                                   (case (if repo \<noteq> [] then cs_find sdk repo ref (rp_version props) else Inr ref) of
                                      Inl e \<Rightarrow> Inl e
                                    | Inr ref \<Rightarrow> download_chart ctx sdk (rp_version props) ref)))))))"

definition load_chart :: "chart_sdk \<Rightarrow> release_properties \<Rightarrow> chart res" where
  "load_chart sdk props =
     (if rp_chart props = [] then Inl (new_error (resource_type_release @ '': chart is required''))
      else (case validate_chart_ref (rp_chart props) (rp_repo_url props) of
         Some e \<Rightarrow> Inl e
       | None \<Rightarrow>
           (case resolve_chart_ref (rp_chart props) (rp_repo_url props) of
              (ref, repo) \<Rightarrow>
                (case cs_locate sdk repo ref (rp_version props) of
                   Inl e \<Rightarrow> Inl (wrap_error (''locate chart '' @ quoted ref) e)
                 | Inr path \<Rightarrow> map_sum (wrap_error (''load chart '' @ quoted ref)) id (cs_load sdk path)))))"

text \<open>The wait of a callback that serves its worker's bridge; it has no timer of its own, so a schedule
  that lists one is not one it sees.\<close>

fun await_recorded_with_service :: "string \<Rightarrow> int \<Rightarrow> await_event list \<Rightarrow> gerr option option" where
  "await_recorded_with_service name target [] = None"
| "await_recorded_with_service name target (Await_context e # evs) = Some (Some e)"
| "await_recorded_with_service name target (Await_done err # evs) = Some err"
| "await_recorded_with_service name target (Await_request err # evs) =
     (case err of Some e \<Rightarrow> Some (Some e) | None \<Rightarrow> await_recorded_with_service name target evs)"
| "await_recorded_with_service name target (Await_tick storage # evs) =
     (case last_release name storage of
        Inl e \<Rightarrow> Some (Some e)
      | Inr (Some r) \<Rightarrow> if rel_version r \<ge> target then Some None else await_recorded_with_service name target evs
      | Inr None \<Rightarrow> await_recorded_with_service name target evs)"
| "await_recorded_with_service name target (Await_deadline # evs) = await_recorded_with_service name target evs"

subsection \<open>Registry credentials\<close>

record registry_credential =
  rc_username :: string
  rc_password :: string
  rc_refresh :: string
  rc_access :: string

definition empty_credential :: registry_credential where
  "empty_credential = \<lparr>rc_username = [], rc_password = [], rc_refresh = [], rc_access = []\<rparr>"

record credential_store =
  ct_file :: "string \<Rightarrow> registry_credential res"
  ct_helpers :: "(string \<times> string) list"
  ct_helper :: string

record docker_settings =
  ds_helpers :: "(string \<times> string) list"
  ds_helper :: string
  ds_auths :: "(string \<times> json) list"

definition no_docker_settings :: docker_settings where
  "no_docker_settings = \<lparr>ds_helpers = [], ds_helper = [], ds_auths = []\<rparr>"

definition string_map :: "string \<Rightarrow> json option \<Rightarrow> (string \<times> string) list res" where
  "string_map field j =
     (case j of
        None \<Rightarrow> Inr []
      | Some JNull \<Rightarrow> Inr []
      | Some (JObj kvs) \<Rightarrow>
          if list_all (\<lambda>(k, v). v = JNull \<or> is_string (Some v)) kvs then Inr (map (\<lambda>(k, v). (k, as_string (Some v))) kvs)
          else Inl (json_type_error field)
      | _ \<Rightarrow> Inl (json_type_error field))"

definition raw_map :: "string \<Rightarrow> json option \<Rightarrow> (string \<times> json) list res" where
  "raw_map field j =
     (case j of
        None \<Rightarrow> Inr []
      | Some JNull \<Rightarrow> Inr []
      | Some (JObj kvs) \<Rightarrow> Inr kvs
      | _ \<Rightarrow> Inl (json_type_error field))"

text \<open>No document, at the end of the file, is no settings.\<close>

definition decode_docker_settings :: "raw \<Rightarrow> docker_settings res" where
  "decode_docker_settings data =
     (case data of
        None \<Rightarrow> Inr no_docker_settings
      | Some (Inl e) \<Rightarrow> Inl e
      | Some (Inr JNull) \<Rightarrow> Inr no_docker_settings
      | Some (Inr doc) \<Rightarrow>
          bind_res (unmarshal_strings [''credsStore''] id doc) (\<lambda>kvs.
          bind_res (string_map ''credHelpers'' (map_of kvs ''credHelpers'')) (\<lambda>helpers.
          bind_res (raw_map ''auths'' (map_of kvs ''auths'')) (\<lambda>auths.
            Inr \<lparr>ds_helpers = helpers, ds_helper = text_at kvs ''credsStore'', ds_auths = auths\<rparr>))))"

definition native_helper :: "string \<Rightarrow> (string \<Rightarrow> bool) \<Rightarrow> string" where
  "native_helper goos look_path =
     (let helper =
        (if goos = ''linux'' then (if look_path ''pass'' then ''pass'' else ''secretservice'')
         else if goos = ''darwin'' then ''osxkeychain''
         else if goos = ''windows'' then ''wincred''
         else []) in
      if helper \<noteq> [] \<and> \<not> look_path (''docker-credential-'' @ helper) then [] else helper)"

text \<open>\<open>file\<close>: ORAS' store for the path; \<open>contents\<close>: what reading it gives, nothing for a missing file.\<close>

definition new_registry_credential_store ::
  "(string \<Rightarrow> registry_credential res) res \<Rightarrow> raw res \<Rightarrow> string \<Rightarrow> (string \<Rightarrow> bool) \<Rightarrow> credential_store res" where
  "new_registry_credential_store file contents goos look_path =
     (case file of
        Inl e \<Rightarrow> Inl (redact_error e)
      | Inr store \<Rightarrow>
          (case contents of
             Inl e \<Rightarrow> Inl (redact_error e)
           | Inr data \<Rightarrow>
               (case decode_docker_settings data of
                  Inl e \<Rightarrow> Inl (redact_error e)
                | Inr settings \<Rightarrow>
                    Inr \<lparr>ct_file = store, ct_helpers = ds_helpers settings,
                      ct_helper = (if ds_helper settings = [] \<and> ds_helpers settings = [] \<and> ds_auths settings = []
                        then native_helper goos look_path else ds_helper settings)\<rparr>)))"

text \<open>A helper process: its output and error, after which the context may have ended.\<close>

definition run_registry_helper :: "gerr option \<Rightarrow> (string \<times> gerr option) \<Rightarrow> (string \<Rightarrow> json res) \<Rightarrow> registry_credential res" where
  "run_registry_helper live outcome parse =
     (case live of
        Some e \<Rightarrow> Inl e
      | None \<Rightarrow>
          (case outcome of
             (output, Some e) \<Rightarrow>
               if trim_space output = ''credentials not found in native keychain'' then Inr empty_credential
               else Inl (redact_error e)
           | (output, None) \<Rightarrow>
               (case bind_res (parse output) (unmarshal_strings [''Username'', ''Secret'']
                        (\<lambda>kvs. (text_at kvs ''Username'', text_at kvs ''Secret''))) of
                  Inl e \<Rightarrow> Inl (redact_error e)
                | Inr (username, secret) \<Rightarrow>
                    if username = ''<token>'' then Inr (empty_credential\<lparr>rc_refresh := secret\<rparr>)
                    else Inr (empty_credential\<lparr>rc_username := username, rc_password := secret\<rparr>))))"

text \<open>\<open>run\<close>: a helper's answer for a host.\<close>

definition store_get ::
  "gerr option \<Rightarrow> (string \<Rightarrow> string \<Rightarrow> registry_credential res) \<Rightarrow> credential_store \<Rightarrow> string \<Rightarrow> registry_credential res" where
  "store_get live run store host =
     (case live of
        Some e \<Rightarrow> Inl e
      | None \<Rightarrow>
          let own = (case map_of (ct_helpers store) host of Some h \<Rightarrow> h | None \<Rightarrow> []);
              helper = (if own = [] then ct_helper store else own) in
          if helper \<noteq> [] then run helper host else map_sum redact_error id (ct_file store host))"

fun first_credential ::
  "gerr option \<Rightarrow> (string \<Rightarrow> string \<Rightarrow> registry_credential res) \<Rightarrow> credential_store list \<Rightarrow> string \<Rightarrow> registry_credential res" where
  "first_credential live run [] host = Inr empty_credential"
| "first_credential live run (store # stores) host =
     (case store_get live run store host of
        Inl e \<Rightarrow> Inl e
      | Inr cred \<Rightarrow> if cred \<noteq> empty_credential then Inr cred else first_credential live run stores host)"

text \<open>\<open>open\<close>: the store at a path; \<open>env\<close>: DOCKER_CONFIG; \<open>home\<close>: the home directory, if known.\<close>

definition credential_stores ::
  "(string \<Rightarrow> credential_store res) \<Rightarrow> (string \<Rightarrow> string \<Rightarrow> string) \<Rightarrow> string \<Rightarrow> string option \<Rightarrow> string \<Rightarrow> credential_store list res" where
  "credential_stores open_store join env home helm_path =
     (case open_store helm_path of
        Inl e \<Rightarrow> Inl e
      | Inr primary \<Rightarrow>
          let dir = (if env = [] then (case home of Some h \<Rightarrow> join h ''.docker'' | None \<Rightarrow> []) else env) in
          Inr (primary # (if dir = [] then []
                          else (case open_store (join dir ''config.json'') of Inl e \<Rightarrow> [] | Inr fallback \<Rightarrow> [fallback]))))"

definition registry_credential_lookup ::
  "gerr option \<Rightarrow> (string \<Rightarrow> string \<Rightarrow> registry_credential res) \<Rightarrow> (string \<Rightarrow> string) \<Rightarrow> credential_store list \<Rightarrow> string \<Rightarrow>
   registry_credential res" where
  "registry_credential_lookup live run server_address stores host =
     (let host = server_address host in
      if host = [] then Inr empty_credential else first_credential live run stores host)"

text \<open>The authorizer's lookup, under the request's context and one that ends with it or with the callback's.\<close>

definition bounded_credential ::
  "gerr option \<Rightarrow> gerr option \<Rightarrow> (string \<Rightarrow> registry_credential res) \<Rightarrow> string \<Rightarrow> registry_credential res" where
  "bounded_credential request live lookup host =
     (case request of
        Some e \<Rightarrow> Inl e
      | None \<Rightarrow> (case live of Some e \<Rightarrow> Inl e | None \<Rightarrow> lookup host))"

subsection \<open>Properties\<close>

text \<open>The waits with and without a bridge differ only in the timer.\<close>

lemma await_with_service: "list_all (\<lambda>e. e \<noteq> Await_deadline) evs \<Longrightarrow>
    await_recorded_with_service name target evs = await_recorded name target evs"
  by (induction evs rule: await_recorded.induct) (auto split: sum.split option.split)

lemma unless_done_Inr: "unless_done live r = Inr c \<longleftrightarrow> live = None \<and> r = Inr c"
  by (auto simp: unless_done_def split: option.splits)

text \<open>A chart is handed out only while the callback lives: from a local path that exists, or, for a reference that is
  not a path, from what was downloaded for it, every step of which found the context live.\<close>

theorem chart_only_while_callback_lives:
  assumes "load_chart_within ctx sdk props = Inr c"
  shows "ctx 0 = None \<and> validate_chart_ref (rp_chart props) (rp_repo_url props) = None \<and>
    (if cs_exists sdk (rp_chart props) then ctx 1 = None \<and> cs_load sdk (rp_chart props) = Inr c
     else \<not> cs_is_abs sdk (rp_chart props) \<and> \<not> has_prefix (rp_chart props) ''.'' \<and>
       ctx 2 = None \<and> ctx 3 = None \<and> ctx 4 = None \<and>
       (\<exists>ref repo found path. resolve_chart_ref (rp_chart props) (rp_repo_url props) = (ref, repo) \<and>
          (if repo = [] then found = ref else cs_find sdk repo ref (rp_version props) = Inr found) \<and>
          cs_download sdk (cs_is_oci sdk found) found (rp_version props) = Inr path \<and> cs_load sdk path = Inr c))"
proof -
  have down: "download_chart ctx sdk v found = Inr c \<Longrightarrow> ctx 3 = None \<and> ctx 4 = None \<and>
      (\<exists>path. cs_download sdk (cs_is_oci sdk found) found v = Inr path \<and> cs_load sdk path = Inr c)" for v found
    by (auto simp: download_chart_def unless_done_Inr split: option.splits sum.splits)
  show ?thesis
    using assms down
    by (auto simp: load_chart_within_def unless_done_Inr split: option.splits prod.splits sum.splits if_splits)
qed

definition sample_chart :: chart where
  "sample_chart = \<lparr>ch_metadata = None, ch_dependencies = 0\<rparr>"

definition sample_chart_sdk :: chart_sdk where
  "sample_chart_sdk = \<lparr>cs_exists = \<lambda>_. False, cs_load = \<lambda>p. if p = ''/cache/web.tgz'' then Inr sample_chart else Inl (new_error ''no''),
     cs_is_abs = \<lambda>_. False, cs_authorizer = None, cs_client = None, cs_find = \<lambda>_ _ _. Inl (new_error ''no index''), cs_mkdir = None,
     cs_is_oci = \<lambda>r. has_prefix r ''oci://'', cs_download = \<lambda>oci ref v. if oci \<and> ref = ''oci://reg/web'' then Inr ''/cache/web.tgz'' else Inl (new_error ''no''),
     cs_locate = \<lambda>_ _ _. Inl (new_error ''no'')\<rparr>"

definition chart_request :: "string \<Rightarrow> release_properties" where
  "chart_request name = \<lparr>rp_metadata = \<lparr>rm_name = ''web'', rm_namespace = ''apps'', rm_labels = [], rm_annotations = []\<rparr>, rp_chart = name, rp_repo_url = ''oci://reg/'',
     rp_version = [], rp_values = [], rp_create_namespace = False, rp_skip_crds = False, rp_disable_hooks = False, rp_atomic = False,
     rp_timeout_seconds = 0, rp_revision = 0, rp_status = [], rp_app_version = [], rp_resource_names = []\<rparr>"

lemma sample_chart_loads: "load_chart_within (\<lambda>_. None) sample_chart_sdk (chart_request ''web'') = Inr sample_chart"
  by (simp add: load_chart_within_def sample_chart_sdk_def chart_request_def validate_chart_ref_def oci_scheme_def has_prefix_def
      has_suffix_def resolve_chart_ref_def trim_suffix_def download_chart_def unless_done_def)

theorem chart_only_while_callback_lives_witness:
  "load_chart_within (\<lambda>_. None) sample_chart_sdk (chart_request ''web'') = Inr sample_chart \<and>
   (\<exists>path. cs_load sample_chart_sdk path = Inr sample_chart)"
  using chart_only_while_callback_lives [OF sample_chart_loads] sample_chart_loads by (auto split: if_splits)

text \<open>The older loader insists on a chart; the bounded one asks a registry for the reference that ends in a slash.\<close>

lemma empty_chart_not_rejected:
  "load_chart sdk (chart_request []) = Inl (new_error (resource_type_release @ '': chart is required'')) \<and>
   load_chart_within (\<lambda>_. None) (sample_chart_sdk\<lparr>cs_download := \<lambda>oci ref v. Inl (new_error ref)\<rparr>) (chart_request []) =
     Inl (new_error ''oci://reg/'')"
  by (simp add: load_chart_def load_chart_within_def sample_chart_sdk_def chart_request_def validate_chart_ref_def oci_scheme_def
      has_prefix_def has_suffix_def resolve_chart_ref_def trim_suffix_def download_chart_def unless_done_def)

lemma helper_error: "run_registry_helper live outcome parse = Inl e \<Longrightarrow> live = Some e \<or> (\<exists>cause. e = redact_error cause)"
  by (auto simp: run_registry_helper_def split: option.splits sum.splits prod.splits if_splits)

lemma map_sum_Inl: "map_sum f g r = Inl e \<longleftrightarrow> (\<exists>cause. r = Inl cause \<and> e = f cause)"
  by (cases r) auto

text \<open>The credentials of a registry are those of the first store, Helm's and then Docker's, that has any or
  fails; a failing store ends the search, and no text of a helper, of a store or of a file is in the error.\<close>

theorem registry_lookup_first_answer:
  assumes "run = (\<lambda>helper h. run_registry_helper live (outcome helper h) parse)" and "server_address host \<noteq> []"
  shows "registry_credential_lookup live run server_address stores host =
      (case find (\<lambda>s. store_get live run s (server_address host) \<noteq> Inr empty_credential) stores of
         None \<Rightarrow> Inr empty_credential
       | Some s \<Rightarrow> store_get live run s (server_address host)) \<and>
    (\<forall>e. registry_credential_lookup live run server_address stores host = Inl e \<longrightarrow> live = Some e \<or> (\<exists>cause. e = redact_error cause))"
proof -
  let ?host = "server_address host"
  have first: "first_credential live run ss ?host =
      (case find (\<lambda>s. store_get live run s ?host \<noteq> Inr empty_credential) ss of
         None \<Rightarrow> Inr empty_credential | Some s \<Rightarrow> store_get live run s ?host)" for ss
    by (induction ss) (auto split: sum.splits)
  have "live = Some e \<or> (\<exists>cause. e = redact_error cause)" if "store_get live run s h = Inl e" for s h e
    using that unfolding assms(1)
    by (auto simp: store_get_def map_sum_Inl Let_def dest!: helper_error split: option.splits if_splits)
  then show ?thesis
    using assms(2) by (auto simp: registry_credential_lookup_def first split: option.splits)
qed

theorem registry_lookup_first_answer_witness:
  "registry_credential_lookup None (\<lambda>helper h. run_registry_helper None ((''secret'', Some (new_error ''exit 1'')) :: string \<times> gerr option) (\<lambda>_. Inr JNull))
     id [\<lparr>ct_file = \<lambda>_. Inr empty_credential, ct_helpers = [], ct_helper = []\<rparr>,
         \<lparr>ct_file = \<lambda>_. Inr empty_credential, ct_helpers = [(''reg'', ''pass'')], ct_helper = []\<rparr>] ''reg'' =
     Inl (redact_error (new_error ''exit 1''))"
  using registry_lookup_first_answer [where live = None and outcome = "\<lambda>_ _. (''secret'', Some (new_error ''exit 1''))" and
      parse = "\<lambda>_. Inr JNull" and server_address = id and host = "''reg''" and
      stores = "[\<lparr>ct_file = \<lambda>_. Inr empty_credential, ct_helpers = [], ct_helper = []\<rparr>,
         \<lparr>ct_file = \<lambda>_. Inr empty_credential, ct_helpers = [(''reg'', ''pass'')], ct_helper = []\<rparr>]"]
  by (simp add: store_get_def run_registry_helper_def trim_space_def is_space_def)

end
