(* ===== verification/Helm_Config.thy ===== *)
theory Helm_Config
  imports Release_Ops Client_Cache
begin

text \<open>
  Helm's action configurations (\<open>pkg/resources/helm/actioncfg.go\<close>) and the REST getter Helm asks for its clients
  (\<open>kubeconfig.go\<close>). Helm's \<open>Init\<close>, its registry client and client-go's discovery are parameters; a configuration is
  what the code sets of it.
\<close>

subsection \<open>Action configurations\<close>

text \<open>\<open>hr_timeout\<close> is \<open>None\<close> when the code leaves it, \<open>hr_bound\<close> whether requests are bound to the operation's context.\<close>

record helm_rest =
  hr_rest :: rest_config
  hr_timeout :: "int option"
  hr_dialer :: bool
  hr_bound :: bool

record action_config =
  ac_rest :: helm_rest
  ac_namespace :: string
  ac_driver :: string
  ac_registry :: bool

record helm_init =
  hi_init :: "helm_rest \<Rightarrow> string \<Rightarrow> gerr option"
  hi_registry :: "gerr option"

definition helm_driver :: string where
  "helm_driver = ''secret''"

definition plain_rest :: "rest_config \<Rightarrow> helm_rest" where
  "plain_rest rc = \<lparr>hr_rest = rc, hr_timeout = None, hr_dialer = False, hr_bound = False\<rparr>"

definition bind_context :: "helm_rest \<Rightarrow> helm_rest" where
  "bind_context r = r\<lparr>hr_bound := True\<rparr>"

definition action_config_from_rest :: "helm_init \<Rightarrow> helm_rest \<Rightarrow> string \<Rightarrow> action_config res" where
  "action_config_from_rest hi r namespace =
     (case hi_init hi r namespace of
        Some e \<Rightarrow> Inl (wrap_error ''init helm action config'' e)
      | None \<Rightarrow>
          (case hi_registry hi of
             Some e \<Rightarrow> Inl (wrap_error ''init helm registry client'' e)
           | None \<Rightarrow> Inr \<lparr>ac_rest = r, ac_namespace = namespace, ac_driver = helm_driver, ac_registry = True\<rparr>))"

definition build_action_config :: "helm_init \<Rightarrow> auth_host \<Rightarrow> config \<Rightarrow> string \<Rightarrow> bool \<Rightarrow> action_config res" where
  "build_action_config hi ah c namespace bound =
     (case to_k8s_config ah c of
        Inl e \<Rightarrow> Inl (wrap_error ''build rest config'' e)
      | Inr rc \<Rightarrow> action_config_from_rest hi (if bound then bind_context (plain_rest rc) else plain_rest rc) namespace)"

definition new_action_config :: "helm_init \<Rightarrow> auth_host \<Rightarrow> config \<Rightarrow> string \<Rightarrow> action_config res" where
  "new_action_config hi ah c namespace = build_action_config hi ah c namespace True"

definition new_async_action_config :: "helm_init \<Rightarrow> auth_host \<Rightarrow> config \<Rightarrow> string \<Rightarrow> action_config res" where
  "new_async_action_config hi ah c namespace =
     (if uses_oidc c then Inl (new_error ''OIDC Helm workers require the credential bridge'')
      else build_action_config hi ah c namespace False)"

definition new_bridge_action_config ::
  "helm_init \<Rightarrow> instant \<Rightarrow> rest_config \<Rightarrow> string \<Rightarrow> auth_bridge \<Rightarrow> action_config res" where
  "new_bridge_action_config hi now rc namespace b =
     (let timeout = min (sint (ab_window b + word_of_int (30 * second))) (time_sub (ab_deadline b) now) in
      action_config_from_rest hi
        (bind_context ((plain_rest rc)\<lparr>hr_timeout := Some timeout, hr_dialer := True\<rparr>)) namespace)"

definition callback_action_config ::
  "helm_init \<Rightarrow> config \<Rightarrow> op_context \<Rightarrow> rest_config \<Rightarrow> 'g cluster_client \<Rightarrow> string \<Rightarrow> action_config res" where
  "callback_action_config hi c ctx rc cl namespace =
     (case check_runtime c ctx of
        Some e \<Rightarrow> Inl e
      | None \<Rightarrow>
          (case callback_rest_config rc ctx cl of
             Inl e \<Rightarrow> Inl e
           | Inr rc \<Rightarrow> action_config_from_rest hi (bind_context (plain_rest rc)) namespace))"

lemma action_config_Inr:
  "action_config_from_rest hi r namespace = Inr ac \<Longrightarrow> ac_rest ac = r \<and> ac_namespace ac = namespace \<and> ac_driver ac = helm_driver"
  by (auto simp: action_config_from_rest_def split: option.splits)


definition ready_init :: helm_init where
  "ready_init = \<lparr>hi_init = \<lambda>_ _. None, hi_registry = None\<rparr>"


text \<open>A target with a broker never gives a worker a configuration of its own credentials, and configurations of
  callbacks are bound to the operation.\<close>

lemma broker_workers_need_the_bridge: "uses_oidc c \<Longrightarrow> \<exists>e. new_async_action_config hi ah c namespace = Inl e"
  by (simp add: new_async_action_config_def)

lemma callback_requests_bound:
  assumes "callback_action_config hi c ctx rc cl namespace = Inr ac"
  shows "hr_bound (ac_rest ac) \<and> ox_err ctx = None"
  using assms action_config_Inr
  by (fastforce simp: callback_action_config_def bind_context_def check_runtime_def split: option.splits sum.splits)

subsection \<open>The REST getter\<close>

text \<open>Clients are known by address. \<open>ToRESTMapper\<close> locks twice, with \<open>ToDiscoveryClient\<close> in between.\<close>

record rest_getter =
  gt_cfg :: helm_rest
  gt_namespace :: string
  gt_discovery :: "nat option"
  gt_mapper :: "nat option"

definition new_rest_getter :: "helm_rest \<Rightarrow> string \<Rightarrow> rest_getter" where
  "new_rest_getter r namespace = \<lparr>gt_cfg = r, gt_namespace = namespace, gt_discovery = None, gt_mapper = None\<rparr>"

definition to_rest_config :: "rest_getter \<Rightarrow> helm_rest" where
  "to_rest_config g = gt_cfg g"

definition to_discovery_client :: "nat res \<Rightarrow> rest_getter \<Rightarrow> nat res \<times> rest_getter" where
  "to_discovery_client made g =
     (case gt_discovery g of
        Some dc \<Rightarrow> (Inr dc, g)
      | None \<Rightarrow> (case made of Inl e \<Rightarrow> (Inl e, g) | Inr dc \<Rightarrow> (Inr dc, g\<lparr>gt_discovery := Some dc\<rparr>)))"

definition mapper_begin :: "rest_getter \<Rightarrow> nat option" where
  "mapper_begin g = gt_mapper g"

definition mapper_end :: "nat \<Rightarrow> rest_getter \<Rightarrow> nat \<times> rest_getter" where
  "mapper_end made g = (made, g\<lparr>gt_mapper := Some made\<rparr>)"

text \<open>\<open>ToRawKubeConfigLoader\<close>: an empty kubeconfig with the namespace as its override.\<close>

definition raw_kubeconfig_namespace :: "rest_getter \<Rightarrow> string" where
  "raw_kubeconfig_namespace g = gt_namespace g"

text \<open>What the callers of a getter do, in any order.\<close>

inductive getter_step :: "rest_getter \<Rightarrow> rest_getter \<Rightarrow> bool" where
  Discovered: "to_discovery_client made g = (r, g') \<Longrightarrow> getter_step g g'"
| Mapped: "\<lbrakk>mapper_begin before = None; gt_discovery g \<noteq> None; mapper_end made g = (m, g')\<rbrakk> \<Longrightarrow> getter_step g g'"

text \<open>However callers interleave, they share the first discovery client, and a mapper always has one behind it.\<close>

lemma getter_shares_discovery:
  assumes "getter_step\<^sup>*\<^sup>* g g'"
  shows "(gt_discovery g \<noteq> None \<longrightarrow> gt_discovery g' = gt_discovery g) \<and>
    ((gt_mapper g \<noteq> None \<longrightarrow> gt_discovery g \<noteq> None) \<longrightarrow> gt_mapper g' \<noteq> None \<longrightarrow> gt_discovery g' \<noteq> None)"
  using assms
proof (induction rule: rtranclp_induct)
  case (step y z)
  then show ?case
    by (auto elim!: getter_step.cases simp: to_discovery_client_def mapper_end_def split: option.splits sum.splits)
qed simp

end
