(* ===== verification/Pkl_Text.thy ===== *)
theory Pkl_Text
  imports Go_Strings
begin

text \<open>
  What the schema and fixture generators (\<open>src/tools\<close>) use of Go's \<open>regexp\<close> and \<open>path/filepath\<close>. A regular
  expression is a scanner: it answers the text it matches at the start of its input and what is left. The
  expressions of the generators never need to give back a character they have taken, apart from the optional
  modifiers before a declaration, which are alternatives in the order the expression prefers.
\<close>

subsection \<open>Scanners\<close>

type_synonym scan = "string \<Rightarrow> (string \<times> string) option"

text \<open>The classes \<open>\s\<close> and \<open>\w\<close> of RE2.\<close>

definition re_space :: "char \<Rightarrow> bool" where
  "re_space c \<longleftrightarrow> c \<in> {CHR '' '', CHR 0x09, CHR 0x0A, CHR 0x0C, CHR 0x0D}"

definition char_in :: "char \<Rightarrow> char \<Rightarrow> char \<Rightarrow> bool" where
  "char_in lo hi c \<longleftrightarrow> (of_char lo :: nat) \<le> of_char c \<and> (of_char c :: nat) \<le> of_char hi"

definition re_word :: "char \<Rightarrow> bool" where
  "re_word c \<longleftrightarrow> char_in CHR ''a'' CHR ''z'' c \<or> char_in CHR ''A'' CHR ''Z'' c \<or> char_in CHR ''0'' CHR ''9'' c \<or> c = CHR ''_''"

definition lit :: "string \<Rightarrow> scan" where
  "lit p s = (if has_prefix s p then Some (p, drop (length p) s) else None)"

definition many :: "(char \<Rightarrow> bool) \<Rightarrow> scan" where
  "many P s = Some (takeWhile P s, dropWhile P s)"

definition some :: "(char \<Rightarrow> bool) \<Rightarrow> scan" where
  "some P s = (if takeWhile P s = [] then None else many P s)"

definition one :: "(char \<Rightarrow> bool) \<Rightarrow> scan" where
  "one P s = (case s of [] \<Rightarrow> None | c # r \<Rightarrow> if P c then Some ([c], r) else None)"

text \<open>\<open>$\<close>: the end of the text.\<close>

definition eot :: scan where
  "eot s = (if s = [] then Some ([], []) else None)"

definition orelse :: "scan \<Rightarrow> scan \<Rightarrow> scan" where
  "orelse a b s = (case a s of None \<Rightarrow> b s | Some r \<Rightarrow> Some r)"

fun seq :: "scan list \<Rightarrow> scan" where
  "seq [] s = Some ([], s)"
| "seq (a # as) s =
     (case a s of
        None \<Rightarrow> None
      | Some (x, r) \<Rightarrow> (case seq as r of None \<Rightarrow> None | Some (y, t) \<Rightarrow> Some (x @ y, t)))"

definition matches :: "scan \<Rightarrow> string \<Rightarrow> bool" where
  "matches a s \<longleftrightarrow> a s \<noteq> None"

abbreviation spaces :: scan where "spaces \<equiv> many re_space"
abbreviation blanks :: scan where "blanks \<equiv> some re_space"

text \<open>\<open>"[^"]*"\<close>.\<close>

definition quoted_text :: scan where
  "quoted_text = seq [lit [CHR 0x22], many (\<lambda>c. c \<noteq> CHR 0x22), lit [CHR 0x22]]"

text \<open>A scanner takes a prefix of its input.\<close>

locale scanner =
  fixes a :: scan
  assumes takes_prefix: "a s = Some (x, r) \<Longrightarrow> s = x @ r"
begin

lemma rest_length: "a s = Some (x, r) \<Longrightarrow> length r + length x = length s"
  using takes_prefix by fastforce

lemma rest_drop: "a s = Some (x, r) \<Longrightarrow> r = drop (length x) s"
  using takes_prefix by fastforce

end

lemma scanner_lit: "scanner (lit p)"
  by unfold_locales (auto simp: lit_def has_prefix_iff split: if_splits)

lemma scanner_many: "scanner (many P)"
  by unfold_locales (auto simp: many_def)

lemma scanner_some: "scanner (some P)"
  by unfold_locales (auto simp: some_def many_def split: if_splits)

lemma scanner_one: "scanner (one P)"
  by unfold_locales (auto simp: one_def split: list.splits if_splits)

lemma scanner_orelse: "\<lbrakk>scanner a; scanner b\<rbrakk> \<Longrightarrow> scanner (orelse a b)"
  by (auto simp: scanner_def orelse_def split: option.splits)

lemma scanner_seq: "(\<And>a. a \<in> set as \<Longrightarrow> scanner a) \<Longrightarrow> scanner (seq as)"
proof (induction as)
  case Nil
  then show ?case
    by (simp add: scanner_def)
next
  case (Cons a as)
  then have "scanner a" "scanner (seq as)"
    by simp_all
  then show ?case
    unfolding scanner_def seq.simps
    by (auto split: option.splits)
qed

interpretation literal: scanner "lit p" for p
  by (rule scanner_lit)

interpretation repeated: scanner "many P" for P
  by (rule scanner_many)

interpretation nonempty: scanner "some P" for P
  by (rule scanner_some)

interpretation single: scanner "one P" for P
  by (rule scanner_one)

lemmas scanner_rules = scanner_lit scanner_many scanner_some scanner_one scanner_orelse scanner_seq

subsection \<open>Replacing every match\<close>

text \<open>\<open>ReplaceAll\<close>: from left to right, each match that starts where the last one ended or later. The expressions
  never match the empty text.\<close>

function replace_all :: "scan \<Rightarrow> (string \<Rightarrow> string) \<Rightarrow> string \<Rightarrow> string" where
  "replace_all a f [] = []"
| "replace_all a f (c # s) =
     (case a (c # s) of
        None \<Rightarrow> c # replace_all a f s
      | Some (x, r) \<Rightarrow> f x @ replace_all a f (drop (length x - 1) s))"
  by pat_completeness auto

termination
  by (relation "measure (\<lambda>(a, f, s). length s)") auto

definition literally :: "string \<Rightarrow> string \<Rightarrow> string \<Rightarrow> string" where
  "literally old new s = replace_all (lit old) (\<lambda>_. new) s"

text \<open>Text in which no match starts is left as it is, and a match is replaced as a whole.\<close>

lemma replace_all_skip:
  "(\<And>p q. \<lbrakk>u = p @ q; q \<noteq> []\<rbrakk> \<Longrightarrow> a (q @ s) = None) \<Longrightarrow> replace_all a f (u @ s) = u @ replace_all a f s"
proof (induction u)
  case (Cons c u)
  have "a ((c # u) @ s) = None"
    using Cons.prems [of "[]" "c # u"] by simp
  moreover have "replace_all a f (u @ s) = u @ replace_all a f s"
    by (rule Cons.IH) (use Cons.prems in \<open>auto intro: Cons.prems [of "c # p" for p]\<close>)
  ultimately show ?case
    by simp
qed simp

lemma replace_all_hit:
  assumes "a (x @ s) = Some (x, s)" "x \<noteq> []"
  shows "replace_all a f (x @ s) = f x @ replace_all a f s"
  using assms by (cases x) auto

subsection \<open>Paths\<close>

text \<open>\<open>filepath.Clean\<close> and \<open>Join\<close>. A step keeps the components in reverse.\<close>

definition clean_step :: "bool \<Rightarrow> string \<Rightarrow> string list \<Rightarrow> string list" where
  "clean_step rooted c st =
     (if c = [] \<or> c = ''.'' then st
      else if c = ''..'' then
        (case st of
           [] \<Rightarrow> if rooted then [] else [''..'']
         | x # xs \<Rightarrow> if x = ''..'' then ''..'' # st else xs)
      else c # st)"

definition path_clean :: "string \<Rightarrow> string" where
  "path_clean s =
     (let rooted = has_prefix s ''/'';
          body = join_with ''/'' (rev (fold (clean_step rooted) (split_char CHR ''/'' s) []))
      in if rooted then ''/'' @ body else if body = [] then ''.'' else body)"

definition path_join :: "string \<Rightarrow> string \<Rightarrow> string" where
  "path_join a b =
     (if a = [] then (if b = [] then [] else path_clean b) else path_clean (a @ ''/'' @ b))"

text \<open>\<open>filepath.Base\<close> of the path of a file, and whether \<open>filepath.Dir\<close> of a relative one is \<open>"."\<close>.\<close>

definition path_base :: "string \<Rightarrow> string" where
  "path_base s = last (split_char CHR ''/'' s)"

definition in_root :: "string \<Rightarrow> bool" where
  "in_root rel \<longleftrightarrow> CHR ''/'' \<notin> set rel"

text \<open>What is under a directory, and the relative path of it.\<close>

definition dir_prefix :: "string \<Rightarrow> string" where
  "dir_prefix root = (let r = path_clean root in if r = ''.'' then [] else if r = ''/'' then r else r @ ''/'')"

definition beneath :: "string \<Rightarrow> string \<Rightarrow> bool" where
  "beneath root p \<longleftrightarrow> has_prefix p (dir_prefix root) \<and> p \<noteq> dir_prefix root"

definition rel_path :: "string \<Rightarrow> string \<Rightarrow> string" where
  "rel_path root p = drop (length (dir_prefix root)) p"

text \<open>A path in its shortest form: nothing to clean.\<close>

definition path_name :: "string \<Rightarrow> bool" where
  "path_name c \<longleftrightarrow> c \<noteq> [] \<and> c \<noteq> ''.'' \<and> c \<noteq> ''..''"

definition plain_path :: "string \<Rightarrow> bool" where
  "plain_path p \<longleftrightarrow> list_all path_name (split_char CHR ''/'' p)"

lemma clean_step_name: "path_name c \<Longrightarrow> clean_step rooted c st = c # st"
  by (simp add: clean_step_def path_name_def)

lemma clean_plain: "list_all path_name cs \<Longrightarrow> fold (clean_step rooted) cs st = rev cs @ st"
  by (induction cs arbitrary: st) (simp_all add: clean_step_name)

lemma path_name_Nil [simp]: "\<not> path_name []"
  by (simp add: path_name_def)

lemma plain_path_nonempty: "plain_path p \<Longrightarrow> p \<noteq> []"
  by (auto simp: plain_path_def)

lemma plain_not_rooted: "plain_path p \<Longrightarrow> \<not> has_prefix p ''/''"
  by (auto simp: plain_path_def has_prefix_iff)

lemma path_clean_plain: "plain_path p \<Longrightarrow> path_clean p = p"
  using plain_not_rooted [of p] plain_path_nonempty [of p] join_split_char [of "CHR ''/''" p]
    clean_plain [of "split_char CHR ''/'' p" False "[]"]
  unfolding path_clean_def plain_path_def by simp

lemma plain_path_join: "plain_path (a @ CHR ''/'' # b) \<longleftrightarrow> plain_path a \<and> plain_path b"
  by (simp add: plain_path_def split_char_append)

lemma path_join_plain:
  assumes "plain_path a" "plain_path b"
  shows "path_join a b = a @ CHR ''/'' # b"
proof -
  have "plain_path (a @ CHR ''/'' # b)"
    using assms by (simp add: plain_path_join)
  then show ?thesis
    using plain_path_nonempty [OF assms(1)] path_clean_plain [of "a @ CHR ''/'' # b"]
    by (simp add: path_join_def)
qed

lemma dir_prefix_plain:
  assumes "plain_path r"
  shows "dir_prefix r = r @ ''/''"
proof -
  have "r \<noteq> ''.''"
    using assms by (auto simp: plain_path_def path_name_def)
  moreover have "r \<noteq> ''/''"
    using plain_not_rooted [OF assms] by (auto simp: has_prefix_def)
  ultimately show ?thesis
    using assms by (simp add: dir_prefix_def path_clean_plain)
qed

lemma beneath_plain: "plain_path r \<Longrightarrow> beneath r p \<longleftrightarrow> (\<exists>q. q \<noteq> [] \<and> p = r @ CHR ''/'' # q)"
  by (auto simp: beneath_def dir_prefix_plain has_prefix_iff)

lemma rel_path_plain: "plain_path r \<Longrightarrow> rel_path r (r @ CHR ''/'' # q) = q"
  by (simp add: rel_path_def dir_prefix_plain)

end
