(* ===== verification/Gen_Disk.thy ===== *)
theory Gen_Disk
  imports Pkl_Text
begin

text \<open>
  The files a generator (\<open>src/tools\<close>) reads and writes. A disk lists the files by path; a directory exists when it
  holds a file, and walks and listings follow the order of the disk. Which calls of \<open>os\<close> fail is a parameter.
\<close>

type_synonym disk = "(string \<times> string) list"

text \<open>\<open>gh_shown\<close> is a path relative to the working directory, as far as that can be found.\<close>

record gen_host =
  gh_read :: "string \<Rightarrow> gerr option"
  gh_write :: "string \<Rightarrow> gerr option"
  gh_remove :: "string \<Rightarrow> gerr option"
  gh_list :: "string \<Rightarrow> gerr option"
  gh_shown :: "string \<Rightarrow> string"

type_synonym 'a task = "disk \<Rightarrow> 'a res \<times> disk"

definition done_with :: "'a \<Rightarrow> 'a task" where
  "done_with x d = (Inr x, d)"

definition fail_with :: "gerr \<Rightarrow> 'a task" where
  "fail_with e d = (Inl e, d)"

definition and_then :: "'a task \<Rightarrow> ('a \<Rightarrow> 'b task) \<Rightarrow> 'b task" where
  "and_then m f d = (case m d of (Inl e, d') \<Rightarrow> (Inl e, d') | (Inr x, d') \<Rightarrow> f x d')"

definition labelled :: "string \<Rightarrow> 'a task \<Rightarrow> 'a task" where
  "labelled msg m d = (case m d of (Inl e, d') \<Rightarrow> (Inl (wrap_error msg e), d') | r \<Rightarrow> r)"

fun each :: "('a \<Rightarrow> unit task) \<Rightarrow> 'a list \<Rightarrow> unit task" where
  "each f [] = done_with ()"
| "each f (x # xs) = and_then (f x) (\<lambda>_. each f xs)"

subsection \<open>Files\<close>

definition not_found :: "string \<Rightarrow> gerr" where
  "not_found p = new_error (p @ '': no such file or directory'')"

definition missing :: "gen_host \<Rightarrow> string \<Rightarrow> disk \<Rightarrow> bool" where
  "missing h p d \<longleftrightarrow> gh_read h p = None \<and> map_of d p = None"

definition read_file :: "gen_host \<Rightarrow> string \<Rightarrow> string task" where
  "read_file h p d =
     (case gh_read h p of
        Some e \<Rightarrow> (Inl e, d)
      | None \<Rightarrow> (case map_of d p of None \<Rightarrow> (Inl (not_found p), d) | Some c \<Rightarrow> (Inr c, d)))"

text \<open>\<open>MkdirAll\<close> of the directory and \<open>WriteFile\<close>.\<close>

definition write_file :: "gen_host \<Rightarrow> string \<Rightarrow> string \<Rightarrow> unit task" where
  "write_file h p c d =
     (case gh_write h p of Some e \<Rightarrow> (Inl e, d) | None \<Rightarrow> (Inr (), AList.update p c d))"

definition mkdir_all :: "gen_host \<Rightarrow> string \<Rightarrow> unit task" where
  "mkdir_all h p d = (case gh_write h p of Some e \<Rightarrow> (Inl e, d) | None \<Rightarrow> (Inr (), d))"

definition remove_all :: "gen_host \<Rightarrow> string \<Rightarrow> unit task" where
  "remove_all h p d =
     (case gh_remove h p of
        Some e \<Rightarrow> (Inl e, d)
      | None \<Rightarrow> (Inr (), filter (\<lambda>kv. fst kv \<noteq> path_clean p \<and> \<not> beneath p (fst kv)) d))"

definition dir_exists :: "string \<Rightarrow> disk \<Rightarrow> bool" where
  "dir_exists root d \<longleftrightarrow> (\<exists>p \<in> set (map fst d). beneath root p)"

text \<open>The files \<open>filepath.Walk\<close> visits below a directory.\<close>

definition walk :: "gen_host \<Rightarrow> string \<Rightarrow> string list task" where
  "walk h root d =
     (case gh_list h root of
        Some e \<Rightarrow> (Inl e, d)
      | None \<Rightarrow>
          if dir_exists root d then (Inr (filter (beneath root) (map fst d)), d) else (Inl (not_found root), d))"

text \<open>The names \<open>ReadDir\<close> lists, each with whether it is a directory.\<close>

definition entries :: "string \<Rightarrow> disk \<Rightarrow> (string \<times> bool) list" where
  "entries root d =
     remdups (map (\<lambda>p. let parts = split_char CHR ''/'' (rel_path root p) in (hd parts, tl parts \<noteq> []))
       (filter (beneath root) (map fst d)))"

definition copy_file :: "gen_host \<Rightarrow> string \<Rightarrow> string \<Rightarrow> unit task" where
  "copy_file h src dst = and_then (read_file h src) (write_file h dst)"

text \<open>The paths of a disk are plain, and the master tree is not where a generated one goes.\<close>

definition apart_from :: "string \<Rightarrow> string \<Rightarrow> disk \<Rightarrow> bool" where
  "apart_from in_dir vdir d \<longleftrightarrow>
     list_all (\<lambda>p. plain_path p \<and> (beneath in_dir p \<longrightarrow> p \<noteq> vdir \<and> \<not> beneath vdir p)) (map fst d)"

subsection \<open>Laws\<close>

lemma and_then_Inr:
  "and_then m f d = (Inr y, d'') \<longleftrightarrow> (\<exists>x d'. m d = (Inr x, d') \<and> f x d' = (Inr y, d''))"
  by (auto simp: and_then_def split: prod.splits sum.splits)

lemma labelled_Inr [simp]: "labelled msg m d = (Inr y, d') \<longleftrightarrow> m d = (Inr y, d')"
  by (auto simp: labelled_def split: prod.splits sum.splits)

lemma done_with_Inr [simp]: "done_with x d = (r, d') \<longleftrightarrow> r = Inr x \<and> d' = d"
  by (auto simp: done_with_def)

lemma read_file_Inr: "read_file h p d = (Inr c, d') \<longleftrightarrow> gh_read h p = None \<and> map_of d p = Some c \<and> d' = d"
  by (auto simp: read_file_def split: option.splits)

lemma write_file_Inr: "write_file h p c d = (Inr y, d') \<longleftrightarrow> gh_write h p = None \<and> d' = AList.update p c d"
  by (auto simp: write_file_def split: option.splits)

lemma copy_file_Inr:
  "copy_file h src dst d = (Inr y, d') \<longleftrightarrow>
     gh_read h src = None \<and> gh_write h dst = None \<and> (\<exists>c. map_of d src = Some c \<and> d' = AList.update dst c d)"
  by (auto simp: copy_file_def and_then_Inr read_file_Inr write_file_Inr)

lemmas task_rules = and_then_Inr read_file_Inr write_file_Inr copy_file_Inr

text \<open>A task that changes files only in a set of paths, whatever its outcome.\<close>

definition confined :: "string set \<Rightarrow> 'a task \<Rightarrow> bool" where
  "confined ps m \<longleftrightarrow> (\<forall>d p. p \<notin> ps \<longrightarrow> map_of (snd (m d)) p = map_of d p)"

lemma confinedD: "\<lbrakk>confined ps m; m d = (r, d'); p \<notin> ps\<rbrakk> \<Longrightarrow> map_of d' p = map_of d p"
  by (metis confined_def snd_conv)

lemma confined_done [simp]: "confined ps (done_with x)"
  by (simp add: confined_def done_with_def)

lemma confined_fail [simp]: "confined ps (fail_with e)"
  by (simp add: confined_def fail_with_def)

lemma confined_read [simp]: "confined ps (read_file h p)"
  by (simp add: confined_def read_file_def split: option.splits)

lemma confined_write: "p \<in> ps \<Longrightarrow> confined ps (write_file h p c)"
  by (auto simp: confined_def write_file_def update_conv' split: option.splits)

lemma confined_walk [simp]: "confined ps (walk h root)"
  by (simp add: confined_def walk_def split: option.splits)

lemma confined_and_then: "\<lbrakk>confined ps m; \<And>x. confined ps (f x)\<rbrakk> \<Longrightarrow> confined ps (and_then m f)"
  by (auto simp: confined_def and_then_def split: prod.splits sum.splits) (metis snd_conv)+

lemma confined_labelled: "confined ps m \<Longrightarrow> confined ps (labelled msg m)"
  by (auto simp: confined_def labelled_def split: prod.splits sum.splits) (metis snd_conv)+

lemma confined_each: "(\<And>x. x \<in> set xs \<Longrightarrow> confined ps (f x)) \<Longrightarrow> confined ps (each f xs)"
  by (induction xs) (auto intro: confined_and_then)

lemma confined_copy: "dst \<in> ps \<Longrightarrow> confined ps (copy_file h src dst)"
  by (auto simp: copy_file_def intro: confined_and_then confined_write)

lemma confined_remove:
  assumes "\<And>p. p = path_clean root \<or> beneath root p \<Longrightarrow> p \<in> ps"
  shows "confined ps (remove_all h root)"
proof -
  have "map_of (filter (\<lambda>kv. fst kv \<noteq> path_clean root \<and> \<not> beneath root (fst kv)) d) p = map_of d p"
    if "p \<notin> ps" for d :: disk and p
    using map_of_filter_key [of "\<lambda>k. k \<noteq> path_clean root \<and> \<not> beneath root k" d p] assms [of p] that by auto
  then show ?thesis
    by (auto simp: confined_def remove_all_def split: option.splits)
qed

end
