(* ===== verification/Schema_Gen.thy ===== *)
theory Schema_Gen
  imports Gen_Disk K8s_Version
begin

text \<open>
  The generator of the schemas per Kubernetes version (\<open>src/tools/gen-versioned-reflect/main.go\<close>): the gates
  that \<open>discover.pkl\<close> reports, the plan they give for one version, the rewriting of a module line by line, and the
  tree it writes. Running \<open>pkl\<close> and decoding its output are parameters; what is printed is left out.
\<close>

subsection \<open>Gates and the plan\<close>

record schema_gate =
  sg_introduced_in :: string
  sg_removed_in :: string
  sg_deprecated_in :: string
  sg_reference :: string

record named_gate = schema_gate +
  sg_class_name :: string
  sg_property_name :: string

record discovered_file =
  df_path :: string
  df_module_name :: string
  df_module_gate :: "schema_gate option"
  df_class_gates :: "named_gate list"
  df_property_gates :: "named_gate list"

definition gen_split_minor :: "string \<Rightarrow> int \<times> int" where
  "gen_split_minor v =
     (case splitn_char 1 CHR ''.'' v of
        [a, b] \<Rightarrow> (atoi_value a, atoi_value b)
      | _ \<Rightarrow> (0, 0))"

definition cmp_minor :: "string \<Rightarrow> string \<Rightarrow> int" where
  "cmp_minor a b =
     (let (am, an) = gen_split_minor a; (bm, bn) = gen_split_minor b in
      if am < bm then -1 else if am > bm then 1 else if an < bn then -1 else if an > bn then 1 else 0)"

definition gate_satisfied :: "'a schema_gate_scheme \<Rightarrow> string \<Rightarrow> bool" where
  "gate_satisfied g target \<longleftrightarrow>
     (if sg_introduced_in g \<noteq> [] \<and> cmp_minor target (sg_introduced_in g) < 0 then False
      else if sg_removed_in g \<noteq> [] \<and> cmp_minor target (sg_removed_in g) \<ge> 0 then False
      else True)"

definition key_for :: "string \<Rightarrow> string" where
  "key_for uri = (if has_prefix uri ''../../'' then trim_prefix uri ''../../'' else uri)"

text \<open>The nested map of dropped properties is the list of the pairs it holds.\<close>

record file_transform =
  ft_skip :: bool
  ft_drop_properties :: "(string \<times> string) list"
  ft_drop_classes :: "string list"

definition no_transform :: file_transform where
  "no_transform = \<lparr>ft_skip = False, ft_drop_properties = [], ft_drop_classes = []\<rparr>"

definition plan_file :: "string \<Rightarrow> discovered_file \<Rightarrow> file_transform" where
  "plan_file target f =
     (case df_module_gate f of
        Some g \<Rightarrow> if \<not> gate_satisfied g target then no_transform\<lparr>ft_skip := True\<rparr>
                  else no_transform\<lparr>
                    ft_drop_properties := map (\<lambda>g. (sg_class_name g, sg_property_name g))
                      (filter (\<lambda>g. \<not> gate_satisfied g target) (df_property_gates f)),
                    ft_drop_classes := map sg_class_name (filter (\<lambda>g. \<not> gate_satisfied g target) (df_class_gates f))\<rparr>
      | None \<Rightarrow> no_transform\<lparr>
          ft_drop_properties := map (\<lambda>g. (sg_class_name g, sg_property_name g))
            (filter (\<lambda>g. \<not> gate_satisfied g target) (df_property_gates f)),
          ft_drop_classes := map sg_class_name (filter (\<lambda>g. \<not> gate_satisfied g target) (df_class_gates f))\<rparr>)"

definition plan_transforms :: "discovered_file list \<Rightarrow> string \<Rightarrow> (string \<times> file_transform) list" where
  "plan_transforms files target =
     fold (\<lambda>f plan. AList.update (key_for (df_path f)) (plan_file target f) plan) files []"

subsection \<open>Lines of a module\<close>

definition class_decl :: "string \<Rightarrow> string option" where
  "class_decl line =
     (case orelse (seq [spaces, lit ''open'', blanks, lit ''class'', blanks, some re_word])
         (orelse (seq [spaces, lit ''abstract'', blanks, lit ''class'', blanks, some re_word])
            (seq [spaces, lit ''class'', blanks, some re_word])) line of
        None \<Rightarrow> None
      | Some (x, _) \<Rightarrow> Some (rev (takeWhile re_word (rev x))))"

text \<open>The scanners of a declaration end with its name and the colon, so that the name is what stands before the
  spaces in front of the colon.\<close>

definition prop_after :: "scan list \<Rightarrow> string \<Rightarrow> string option" where
  "prop_after modifier line =
     (case seq modifier line of
        None \<Rightarrow> None
      | Some (_, r) \<Rightarrow>
          if matches (seq [some re_word, spaces, lit '':'']) r then Some (takeWhile re_word r) else None)"

definition prop_decl :: "string \<Rightarrow> string option" where
  "prop_decl line =
     (case prop_after [spaces, lit ''hidden'', blanks] line of
        Some p \<Rightarrow> Some p
      | None \<Rightarrow>
          (case prop_after [spaces, lit ''fixed'', blanks] line of
             Some p \<Rightarrow> Some p
           | None \<Rightarrow> prop_after [spaces] line))"

definition doc_comment :: "string \<Rightarrow> bool" where
  "doc_comment = matches (seq [spaces, lit ''///''])"

definition other_annotation :: "string \<Rightarrow> bool" where
  "other_annotation = matches (seq [spaces, lit ''@'', some re_word])"

definition k8s_annotation :: "string \<Rightarrow> bool" where
  "k8s_annotation line \<longleftrightarrow>
     (let body = [lit ''K8sVersion'', spaces, lit ''{'', many (\<lambda>c. c \<noteq> CHR ''}''), lit ''}'', spaces, eot] in
      matches (orelse (seq ([spaces, lit ''@'', some re_word, lit ''.''] @ body)) (seq ([spaces, lit ''@''] @ body))) line)"

definition open_brace :: "string \<Rightarrow> bool" where
  "open_brace line \<longleftrightarrow> has_prefix (dropWhile re_space (rev line)) ''{''"

definition blank_line :: "string \<Rightarrow> bool" where
  "blank_line line \<longleftrightarrow> list_all re_space line"

definition braces :: "string \<Rightarrow> int" where
  "braces line = int (count_list line CHR ''{'') - int (count_list line CHR ''}'')"

fun trim_rev :: "string list \<Rightarrow> string list" where
  "trim_rev [] = []"
| "trim_rev (l # ls) =
     (if blank_line l then ls
      else if doc_comment l \<or> other_annotation l \<or> k8s_annotation l then trim_rev ls
      else l # ls)"

definition trim_trailing_block :: "string list \<Rightarrow> string list" where
  "trim_trailing_block out = rev (trim_rev (rev out))"

text \<open>The loop of \<open>rewriteFile\<close>: the class the lines are in, the depth of braces, the depth below which a dropped
  class ends (0 outside of one) and the lines kept so far.\<close>

fun rewrite_loop :: "file_transform \<Rightarrow> string \<Rightarrow> int \<Rightarrow> int \<Rightarrow> string list \<Rightarrow> string list \<Rightarrow> string list" where
  "rewrite_loop t cls depth close out [] = out"
| "rewrite_loop t cls depth close out (line # lines) =
     (let depth' = depth + braces line in
      if close > 0 then
        (if depth' < close then rewrite_loop t [] depth' 0 out lines
         else rewrite_loop t cls depth' close out lines)
      else
        let cls' = (case class_decl line of Some c \<Rightarrow> c | None \<Rightarrow> cls) in
        if class_decl line \<noteq> None \<and> cls' \<in> set (ft_drop_classes t) then
          rewrite_loop t cls' depth' (if open_brace line then depth' else 0) (trim_trailing_block out) lines
        else if (case prop_decl line of None \<Rightarrow> False
                 | Some p \<Rightarrow> cls' \<noteq> [] \<and> (cls', p) \<in> set (ft_drop_properties t)) then
          rewrite_loop t cls' depth' 0 (trim_trailing_block out) lines
        else if k8s_annotation line then rewrite_loop t cls' depth' 0 out lines
        else rewrite_loop t (if cls' \<noteq> [] \<and> depth' = 0 then [] else cls') depth' 0 (out @ [line]) lines)"

definition rewrite_lines :: "file_transform \<Rightarrow> string list \<Rightarrow> string list" where
  "rewrite_lines t lines = rewrite_loop (t\<lparr>ft_drop_classes := ''K8sVersion'' # ft_drop_classes t\<rparr>) [] 0 0 [] lines"

subsection \<open>Files\<close>

definition banner :: "string \<Rightarrow> string" where
  "banner shown =
     ''// AUTO-GENERATED '' @ [CHR 0xE2, CHR 0x80, CHR 0x94] @ '' DO NOT EDIT.'' @ [CHR 0x0A] @
     ''// Source: '' @ shown @ [CHR 0x0A] @
     ''// Regenerate via: make generate-versioned-schemas'' @ [CHR 0x0A] @
     ''// Edits made directly to this file will be lost on the next regen.'' @ [CHR 0x0A] @ [CHR 0x0A]"

definition write_pkl_with_banner :: "gen_host \<Rightarrow> string \<Rightarrow> string \<Rightarrow> string \<Rightarrow> unit task" where
  "write_pkl_with_banner h dst src body = write_file h dst (banner (gh_shown h src) @ body)"

definition rewrite_text :: "file_transform \<Rightarrow> string \<Rightarrow> string" where
  "rewrite_text t body = join_with [CHR 0x0A] (rewrite_lines t (split_char CHR 0x0A body))"

definition rewrite_file :: "gen_host \<Rightarrow> string \<Rightarrow> string \<Rightarrow> file_transform option \<Rightarrow> unit task" where
  "rewrite_file h src dst t =
     (if t \<noteq> None \<and> ft_skip (the t) then done_with ()
      else let t' = (case t of None \<Rightarrow> no_transform | Some t \<Rightarrow> t) in
        and_then (read_file h src) (\<lambda>body. write_pkl_with_banner h dst src (rewrite_text t' body)))"

text \<open>The two substitutions of \<open>rewriteImports\<close>.\<close>

definition subresources_rename :: "string \<Rightarrow> string" where
  "subresources_rename =
     (let target = [CHR 0x22] @ ''../k8s-subresources.pkl'' @ [CHR 0x22] in
      replace_all
        (orelse (seq [lit ''import'', blanks, lit target]) (seq [lit ''extends'', blanks, lit target]))
        (\<lambda>x. take (length x - length target) x @ quoted ''../k8s.pkl''))"

definition target_climb :: "string \<Rightarrow> string" where
  "target_climb =
     (let target = quoted ''target.pkl'' in
      replace_all (seq [lit ''extends'', blanks, lit target])
        (\<lambda>x. take (length x - length target) x @ quoted ''../target.pkl''))"

definition rewrite_imports :: "gen_host \<Rightarrow> string \<Rightarrow> unit task" where
  "rewrite_imports h path =
     and_then (read_file h path) (\<lambda>body.
       let body' = target_climb (subresources_rename body) in
       if body' = body then done_with () else write_file h path body')"

definition version_independent :: "string \<Rightarrow> bool" where
  "version_independent d \<longleftrightarrow> d = ''helm''"

definition top_dir :: "string \<Rightarrow> string" where
  "top_dir rel = (let parts = split_char CHR ''/'' rel in if length parts < 2 then [] else hd parts)"

definition subresources :: string where
  "subresources = ''k8s-subresources.pkl''"

definition emit_module ::
  "gen_host \<Rightarrow> (string \<times> file_transform) list \<Rightarrow> string \<Rightarrow> string \<Rightarrow> string \<Rightarrow> unit task" where
  "emit_module h plan in_dir version_dir path =
     (let plan_rel = rel_path in_dir path;
          rel = (if in_root plan_rel then ''k8s.pkl'' else plan_rel);
          dst = path_join version_dir rel in
      if version_independent (top_dir plan_rel) then done_with ()
      else if in_root plan_rel \<and> plan_rel \<noteq> subresources then done_with ()
      else if \<not> has_suffix path ''.pkl'' then labelled (''copy '' @ rel) (copy_file h path dst)
      else
        let t = map_option snd (find (\<lambda>(k, _). has_suffix k (path_join in_dir plan_rel)) plan) in
        and_then (labelled (''rewrite '' @ rel) (rewrite_file h path dst t)) (\<lambda>_.
          if t \<noteq> None \<and> ft_skip (the t) then done_with ()
          else labelled (''rewrite imports '' @ rel) (rewrite_imports h dst)))"

definition process_target :: "gen_host \<Rightarrow> discovered_file list \<Rightarrow> string \<Rightarrow> string \<Rightarrow> string \<Rightarrow> unit task" where
  "process_target h files target in_dir out =
     (let plan = plan_transforms files target; version_dir = path_join out (''v'' @ target) in
      and_then (labelled (''clean '' @ version_dir) (remove_all h version_dir)) (\<lambda>_.
        and_then (walk h in_dir) (each (emit_module h plan in_dir version_dir))))"

subsection \<open>The rest of the tree\<close>

definition generated_version_expr :: string where
  "generated_version_expr = ''version = read?('' @ quoted ''VERSION'' @ '')?.text?.trim() ?? '' @ quoted ''0.999.0''"

definition stamp_version :: "string \<Rightarrow> string" where
  "stamp_version =
     replace_all (seq [lit ''version'', spaces, lit ''='', spaces, quoted_text]) (\<lambda>_. generated_version_expr)"

definition write_root_files :: "gen_host \<Rightarrow> string \<Rightarrow> string \<Rightarrow> unit task" where
  "write_root_files h in_dir out =
     and_then (mkdir_all h out) (\<lambda>_.
     and_then (labelled ''read master PklProject'' (read_file h (path_join in_dir ''PklProject''))) (\<lambda>body.
     and_then (labelled ''write PklProject'' (write_file h (path_join out ''PklProject'') (stamp_version body))) (\<lambda>_.
       (\<lambda>d. case gh_list h in_dir of
          Some e \<Rightarrow> (Inl e, d)
        | None \<Rightarrow>
            each (\<lambda>(name, is_dir).
                if is_dir \<or> \<not> has_suffix name ''.pkl'' \<or> name = subresources then done_with ()
                else labelled (''copy '' @ name) (copy_file h (path_join in_dir name) (path_join out name)))
              (entries in_dir d) d))))"

text \<open>The relative path after the last occurrence of the input directory in a path of \<open>discover.pkl\<close>.\<close>

fun after_last :: "string \<Rightarrow> string \<Rightarrow> string option" where
  "after_last m [] = (if m = [] then Some [] else None)"
| "after_last m (c # s) =
     (case after_last m s of
        Some r \<Rightarrow> Some r
      | None \<Rightarrow> if has_prefix (c # s) m then Some (drop (length m) (c # s)) else None)"

definition master_rel :: "string \<Rightarrow> string \<Rightarrow> string" where
  "master_rel path in_dir = (case after_last (in_dir @ ''/'') path of None \<Rightarrow> [] | Some r \<Rightarrow> r)"

definition carries_gates :: "discovered_file \<Rightarrow> bool" where
  "carries_gates f \<longleftrightarrow> df_module_gate f \<noteq> None \<or> df_class_gates f \<noteq> [] \<or> df_property_gates f \<noteq> []"

definition gated_independent :: "string \<Rightarrow> discovered_file \<Rightarrow> bool" where
  "gated_independent in_dir f \<longleftrightarrow>
     (let rel = master_rel (df_path f) in_dir in
      rel \<noteq> [] \<and> version_independent (top_dir rel) \<and> carries_gates f)"

definition emit_independent :: "gen_host \<Rightarrow> string \<Rightarrow> string \<Rightarrow> string \<Rightarrow> unit task" where
  "emit_independent h in_dir out path =
     (let dst = path_join out (rel_path in_dir path) in
      if \<not> has_suffix path ''.pkl'' then copy_file h path dst
      else and_then (read_file h path) (write_pkl_with_banner h dst path))"

definition write_version_independent_dirs :: "gen_host \<Rightarrow> discovered_file list \<Rightarrow> string \<Rightarrow> string \<Rightarrow> unit task" where
  "write_version_independent_dirs h files in_dir out =
     (case find (gated_independent in_dir) files of
        Some f \<Rightarrow> fail_with (new_error (master_rel (df_path f) in_dir @
          '' is in a version-independent dir but carries @K8sVersion gates; move it into an api-group dir (per-version) or drop the gates''))
      | None \<Rightarrow>
          (let src = path_join in_dir ''helm'' in
           (\<lambda>d. if gh_read h src = None \<and> \<not> dir_exists src d then (Inr (), d)
                else (case gh_read h src of
                  Some e \<Rightarrow> (Inl e, d)
                | None \<Rightarrow> labelled (''version-independent dir helm'')
                    (and_then (walk h src) (each (emit_independent h in_dir out))) d))))"

text \<open>The whole run. What \<open>pkl eval\<close> answers is an error with the text it printed, if it ran at all, or its output.\<close>

definition run_discover ::
  "(string option \<times> gerr) + 'o \<Rightarrow> ('o \<Rightarrow> discovered_file list res) \<Rightarrow> discovered_file list res" where
  "run_discover answer decode =
     (case answer of
        Inl (Some stderr, _) \<Rightarrow> Inl (new_error (''pkl discover failed: '' @ stderr))
      | Inl (None, e) \<Rightarrow> Inl (wrap_error ''pkl discover failed'' e)
      | Inr out \<Rightarrow> (case decode out of Inl e \<Rightarrow> Inl (wrap_error ''decode discover output'' e) | Inr fs \<Rightarrow> Inr fs))"

definition wipe :: "gen_host \<Rightarrow> string \<Rightarrow> unit task" where
  "wipe h out d =
     (case gh_list h out of
        Some e \<Rightarrow> (Inl (wrap_error (''read '' @ out) e), d)
      | None \<Rightarrow>
          each (\<lambda>(name, _). if name = ''VERSION'' then done_with ()
                else labelled (''clean '' @ out @ ''/'' @ name) (remove_all h (path_join out name)))
            (entries out d) d)"

definition generate ::
  "gen_host \<Rightarrow> discovered_file list res \<Rightarrow> string list \<Rightarrow> string \<Rightarrow> string \<Rightarrow> unit task" where
  "generate h discovered targets in_dir out =
     (if targets = [] then fail_with (new_error ''usage'')
      else case discovered of
        Inl e \<Rightarrow> fail_with (wrap_error ''discover'' e)
      | Inr files \<Rightarrow>
          and_then (wipe h out) (\<lambda>_.
          and_then (labelled (''create '' @ out) (mkdir_all h out)) (\<lambda>_.
          and_then (labelled ''root files'' (write_root_files h in_dir out)) (\<lambda>_.
          and_then (labelled ''version-independent dirs'' (write_version_independent_dirs h files in_dir out)) (\<lambda>_.
            each (\<lambda>target. labelled (''target '' @ target) (process_target h files target in_dir out)) targets)))))"

end
