(* ===== verification/Schema_Modules.thy ===== *)
theory Schema_Modules
  imports Schema_Gen "HOL-Library.Sublist"
begin

text \<open>
  What the line-by-line rewriting of \<open>Schema_Gen\<close> does to a module, told on its declarations: the module is a tree of
  classes with their members, each with the blank line and the one-line comments and annotations in front of it, and
  rewriting the printed tree prints the pruned one.
\<close>

subsection \<open>Modules\<close>

text \<open>A property or a class has its gap (a blank line or none), its comments and annotations, and its line.
  Everything else is lines.\<close>

datatype member =
    Other_lines "string list"
  | Property_decl "string list" "string list" string

datatype item =
    Top_lines "string list"
  | Class_decl "string list" "string list" string "member list" string

fun member_lines :: "member \<Rightarrow> string list" where
  "member_lines (Other_lines ls) = ls"
| "member_lines (Property_decl gap docs decl) = gap @ docs @ [decl]"

fun item_lines :: "item \<Rightarrow> string list" where
  "item_lines (Top_lines ls) = ls"
| "item_lines (Class_decl gap docs head ms close) =
     gap @ docs @ [head] @ concat (map member_lines ms) @ [close]"

definition module_lines :: "item list \<Rightarrow> string list" where
  "module_lines m = concat (map item_lines m)"

definition ungated :: "string list \<Rightarrow> string list" where
  "ungated = filter (\<lambda>l. \<not> k8s_annotation l)"

definition drops_property :: "file_transform \<Rightarrow> string \<Rightarrow> string \<Rightarrow> bool" where
  "drops_property t c decl \<longleftrightarrow>
     (case prop_decl decl of None \<Rightarrow> False | Some p \<Rightarrow> (c, p) \<in> set (ft_drop_properties t))"

definition drops_class :: "file_transform \<Rightarrow> string \<Rightarrow> bool" where
  "drops_class t head \<longleftrightarrow>
     (case class_decl head of None \<Rightarrow> False | Some c \<Rightarrow> c = ''K8sVersion'' \<or> c \<in> set (ft_drop_classes t))"

fun prune_member :: "file_transform \<Rightarrow> string \<Rightarrow> member \<Rightarrow> member list" where
  "prune_member t c (Other_lines ls) = [Other_lines (ungated ls)]"
| "prune_member t c (Property_decl gap docs decl) =
     (if drops_property t c decl then [] else [Property_decl gap (ungated docs) decl])"

fun prune_item :: "file_transform \<Rightarrow> item \<Rightarrow> item list" where
  "prune_item t (Top_lines ls) = [Top_lines (ungated ls)]"
| "prune_item t (Class_decl gap docs head ms close) =
     (if drops_class t head then []
      else [Class_decl gap (ungated docs) head
              (concat (map (prune_member t (the (class_decl head))) ms)) close])"

definition prune_module :: "file_transform \<Rightarrow> item list \<Rightarrow> item list" where
  "prune_module t m = concat (map (prune_item t) m)"

subsection \<open>Well-formed modules\<close>

definition doc_line :: "string \<Rightarrow> bool" where
  "doc_line l \<longleftrightarrow> doc_comment l \<or> other_annotation l \<or> k8s_annotation l"

definition solid :: "string \<Rightarrow> bool" where
  "solid l \<longleftrightarrow> \<not> blank_line l \<and> \<not> doc_line l"

text \<open>Lines that no rule drops; in a class, lines that keep the depth positive.\<close>

definition inert :: "file_transform \<Rightarrow> string \<Rightarrow> string \<Rightarrow> bool" where
  "inert t c l \<longleftrightarrow> class_decl l = None \<and> (c = [] \<or> \<not> drops_property t c l)"

fun stays_inside :: "int \<Rightarrow> string list \<Rightarrow> bool" where
  "stays_inside d [] = True"
| "stays_inside d (l # ls) = (0 < d + braces l \<and> stays_inside (d + braces l) ls)"

definition depth_of :: "string list \<Rightarrow> int" where
  "depth_of ls = (\<Sum>l\<leftarrow>ls. braces l)"

text \<open>The preamble of a declaration that may be dropped: without a gap it must follow a solid line (or nothing).\<close>

definition wf_preamble :: "bool \<Rightarrow> bool \<Rightarrow> string list \<Rightarrow> string list \<Rightarrow> bool" where
  "wf_preamble dropped after_solid gap docs \<longleftrightarrow>
     length gap \<le> 1 \<and> list_all blank_line gap \<and> list_all (\<lambda>l. doc_line l \<and> braces l = 0) docs \<and>
     (dropped \<longrightarrow> gap \<noteq> [] \<or> after_solid)"

definition solid_end :: "bool \<Rightarrow> string list \<Rightarrow> bool" where
  "solid_end after_solid ls = (if ls = [] then after_solid else solid (last ls))"

fun wf_members :: "file_transform \<Rightarrow> string \<Rightarrow> bool \<Rightarrow> member list \<Rightarrow> bool" where
  "wf_members t c s [] = True"
| "wf_members t c s (Other_lines ls # ms) =
     (list_all (inert t c) ls \<and> stays_inside 1 ls \<and> depth_of ls = 0 \<and> wf_members t c (solid_end s (ungated ls)) ms)"
| "wf_members t c s (Property_decl gap docs decl # ms) =
     (wf_preamble (drops_property t c decl) s gap docs \<and>
      prop_decl decl \<noteq> None \<and> class_decl decl = None \<and> braces decl = 0 \<and>
      wf_members t c (if drops_property t c decl then s else True) ms)"

fun wf_items :: "file_transform \<Rightarrow> bool \<Rightarrow> item list \<Rightarrow> bool" where
  "wf_items t s [] = True"
| "wf_items t s (Top_lines ls # m) =
     (list_all (\<lambda>l. class_decl l = None) ls \<and> depth_of ls = 0 \<and> wf_items t (solid_end s (ungated ls)) m)"
| "wf_items t s (Class_decl gap docs head ms close # m) =
     (wf_preamble (drops_class t head) s gap docs \<and>
      class_decl head \<noteq> None \<and> prop_decl head = None \<and> open_brace head \<and> braces head = 1 \<and>
      wf_members t (the (class_decl head)) True ms \<and>
      inert t (the (class_decl head)) close \<and> solid close \<and> braces close = -1 \<and>
      wf_items t (if drops_class t head then s else True) m)"

definition wf_module :: "file_transform \<Rightarrow> item list \<Rightarrow> bool" where
  "wf_module t m \<longleftrightarrow> wf_items t True m"

subsection \<open>Kinds of lines\<close>

text \<open>What a line is, shows in its first character that is not a space.\<close>

definition first_char :: "string \<Rightarrow> char option" where
  "first_char l = (case dropWhile re_space l of [] \<Rightarrow> None | c # _ \<Rightarrow> Some c)"

lemma seq_spaces:
  "seq (spaces # as) l =
     (case seq as (dropWhile re_space l) of None \<Rightarrow> None | Some (y, t) \<Rightarrow> Some (takeWhile re_space l @ y, t))"
  by (simp add: many_def)

lemma seq_lit_first:
  "seq (spaces # lit (c # p) # as) l \<noteq> None \<Longrightarrow> first_char l = Some c"
  unfolding seq_spaces
  by (auto simp: lit_def has_prefix_iff first_char_def split: if_splits option.splits)

lemma blank_first: "blank_line l \<longleftrightarrow> first_char l = None"
proof -
  have "blank_line l \<longleftrightarrow> dropWhile re_space l = []"
    by (simp add: blank_line_def list_all_iff)
  then show ?thesis
    by (cases "dropWhile re_space l") (simp_all only: first_char_def list.case list.distinct option.distinct simp_thms)
qed

lemma matches_first: "matches (seq (spaces # lit (c # p) # as)) l \<Longrightarrow> first_char l = Some c"
  unfolding matches_def by (rule seq_lit_first)

lemma matches_orelse: "matches (orelse a b) l \<longleftrightarrow> matches a l \<or> matches b l"
  by (simp add: matches_def orelse_def split: option.splits)

lemma doc_first:
  assumes "doc_line l"
  shows "first_char l = Some CHR ''/'' \<or> first_char l = Some CHR ''@''"
proof -
  have "first_char l = Some CHR ''/''" if "doc_comment l"
    using that unfolding doc_comment_def by (rule matches_first)
  moreover have "first_char l = Some CHR ''@''" if "other_annotation l"
    using that unfolding other_annotation_def by (rule matches_first)
  moreover have "first_char l = Some CHR ''@''" if "k8s_annotation l"
    using that matches_first unfolding k8s_annotation_def Let_def matches_orelse append_Cons append_Nil
    by blast
  ultimately show ?thesis
    using assms doc_line_def by blast
qed

lemma doc_not_blank: "doc_line l \<Longrightarrow> \<not> blank_line l"
  using doc_first blank_first by fastforce

lemma class_first:
  assumes "class_decl l = Some c"
  shows "\<exists>x. first_char l = Some x \<and> re_word x"
proof -
  from assms have "matches (seq [spaces, lit ''open'', blanks, lit ''class'', blanks, some re_word]) l \<or>
      matches (seq [spaces, lit ''abstract'', blanks, lit ''class'', blanks, some re_word]) l \<or>
      matches (seq [spaces, lit ''class'', blanks, some re_word]) l"
    by (auto simp: class_decl_def matches_def orelse_def simp del: seq.simps split: option.splits)
  then have "first_char l = Some CHR ''o'' \<or> first_char l = Some CHR ''a'' \<or> first_char l = Some CHR ''c''"
    using matches_first by blast
  then show ?thesis
    by (auto simp: re_word_def char_in_def)
qed

lemma prop_after_first:
  assumes "prop_after (spaces # lit (c # p) # as) l = Some q"
  shows "first_char l = Some c"
  using assms seq_lit_first [of c p as l] by (auto simp: prop_after_def simp del: seq.simps split: option.splits)

lemma prop_first:
  assumes "prop_decl l = Some q"
  shows "\<exists>x. first_char l = Some x \<and> re_word x"
proof -
  consider "prop_after [spaces, lit ''hidden'', blanks] l = Some q" | "prop_after [spaces, lit ''fixed'', blanks] l = Some q"
    | "prop_after [spaces] l = Some q"
    using assms by (auto simp: prop_decl_def split: option.splits)
  then show ?thesis
  proof cases
    case 3
    then have "takeWhile re_word (dropWhile re_space l) \<noteq> []"
      by (auto simp: prop_after_def matches_def many_def some_def split: if_splits)
    then show ?thesis
      by (cases "dropWhile re_space l") (simp_all add: first_char_def split: if_splits)
  qed (auto dest!: prop_after_first simp: re_word_def char_in_def)
qed

lemma not_word_first: "\<not> re_word CHR ''/''" "\<not> re_word CHR ''@''"
  by (simp_all add: re_word_def char_in_def)

lemma doc_no_decl:
  assumes "doc_line l"
  shows "class_decl l = None" "prop_decl l = None"
  using doc_first [OF assms] class_first [of l] prop_first [of l] not_word_first by fastforce+

lemma blank_no_decl:
  assumes "blank_line l"
  shows "class_decl l = None" "prop_decl l = None" "\<not> doc_line l"
  using assms class_first [of l] prop_first [of l] doc_first [of l] by (fastforce simp: blank_first)+

lemma decl_solid:
  assumes "class_decl l \<noteq> None \<or> prop_decl l \<noteq> None"
  shows "solid l"
  using assms doc_no_decl [of l] blank_no_decl [of l] by (auto simp: solid_def)

lemma solid_not_k8s: "solid l \<Longrightarrow> \<not> k8s_annotation l"
  by (simp add: solid_def doc_line_def)

lemma blank_not_k8s: "blank_line l \<Longrightarrow> \<not> k8s_annotation l"
  using blank_no_decl(3) by (auto simp: doc_line_def)

lemma blank_braces: "blank_line l \<Longrightarrow> braces l = 0"
  by (induction l) (auto simp: blank_line_def braces_def re_space_def)

subsection \<open>Runs of lines\<close>

abbreviation with_annotation_class :: "file_transform \<Rightarrow> file_transform" where
  "with_annotation_class t \<equiv> t\<lparr>ft_drop_classes := ''K8sVersion'' # ft_drop_classes t\<rparr>"

lemma inert_step:
  assumes "inert t c l" "c \<noteq> [] \<Longrightarrow> 0 < d + braces l"
  shows "rewrite_loop (with_annotation_class t) c d 0 out (l # ls) =
     rewrite_loop (with_annotation_class t) c (d + braces l) 0 (out @ ungated [l]) ls"
proof -
  have kept: "\<not> (case prop_decl l of None \<Rightarrow> False
      | Some p \<Rightarrow> c \<noteq> [] \<and> (c, p) \<in> set (ft_drop_properties (with_annotation_class t)))"
    using assms(1) by (auto simp: inert_def drops_property_def split: option.splits)
  have "class_decl l = None" "\<not> (c \<noteq> [] \<and> d + braces l = 0)"
    using assms by (auto simp: inert_def)
  with kept show ?thesis
    by (simp only: rewrite_loop.simps Let_def option.case ungated_def filter.simps append_Nil2 if_True if_False
        simp_thms less_irrefl split: if_split) simp
qed

lemma inert_lines:
  assumes "list_all (inert t c) ls" "c \<noteq> [] \<Longrightarrow> stays_inside d ls"
  shows "rewrite_loop (with_annotation_class t) c d 0 out (ls @ rest) =
     rewrite_loop (with_annotation_class t) c (d + depth_of ls) 0 (out @ ungated ls) rest"
  using assms
proof (induction ls arbitrary: d out)
  case Nil
  then show ?case
    by (simp add: depth_of_def ungated_def)
next
  case (Cons l ls)
  have "rewrite_loop (with_annotation_class t) c d 0 out ((l # ls) @ rest) =
      rewrite_loop (with_annotation_class t) c (d + braces l) 0 (out @ ungated [l]) (ls @ rest)"
    unfolding append_Cons by (rule inert_step) (use Cons.prems in auto)
  also have "\<dots> = rewrite_loop (with_annotation_class t) c (d + braces l + depth_of ls) 0 ((out @ ungated [l]) @ ungated ls) rest"
    by (rule Cons.IH) (use Cons.prems in auto)
  finally show ?case
    by (simp add: depth_of_def ungated_def add.assoc)
qed

lemma skipped_lines:
  "stays_inside d ls \<Longrightarrow>
   rewrite_loop t c d 1 out (ls @ rest) = rewrite_loop t c (d + depth_of ls) 1 out rest"
  by (induction ls arbitrary: d) (auto simp: depth_of_def Let_def add.assoc)

lemma stays_append: "stays_inside d (ls @ ms) \<longleftrightarrow> stays_inside d ls \<and> stays_inside (d + depth_of ls) ms"
  by (induction ls arbitrary: d) (auto simp: depth_of_def add.assoc)

lemma depth_append: "depth_of (ls @ ms) = depth_of ls + depth_of ms"
  by (simp add: depth_of_def)

lemma stays_balanced: "list_all (\<lambda>l. braces l = 0) ls \<Longrightarrow> 0 < d \<Longrightarrow> stays_inside d ls"
  by (induction ls) auto

lemma depth_balanced: "list_all (\<lambda>l. braces l = 0) ls \<Longrightarrow> depth_of ls = 0"
  by (induction ls) (auto simp: depth_of_def)

lemma preamble_lines:
  assumes "wf_preamble dropped s gap docs"
  shows "list_all (\<lambda>l. braces l = 0) (gap @ docs)" "list_all (inert t c) (gap @ docs)"
    "ungated gap = gap"
  using assms blank_braces doc_no_decl blank_no_decl blank_not_k8s
  by (auto simp: wf_preamble_def list_all_iff inert_def drops_property_def ungated_def filter_id_conv)

lemma preamble_run:
  assumes "wf_preamble dropped s gap docs" "c \<noteq> [] \<Longrightarrow> 0 < d"
  shows "rewrite_loop (with_annotation_class t) c d 0 out (gap @ docs @ rest) =
     rewrite_loop (with_annotation_class t) c d 0 (out @ gap @ ungated docs) rest"
proof -
  note lines = preamble_lines [OF assms(1)]
  have "rewrite_loop (with_annotation_class t) c d 0 out ((gap @ docs) @ rest) =
      rewrite_loop (with_annotation_class t) c (d + depth_of (gap @ docs)) 0 (out @ ungated (gap @ docs)) rest"
    by (rule inert_lines) (use lines assms(2) stays_balanced in auto)
  then show ?thesis
    using depth_balanced [OF lines(1)] lines(3) by (simp add: ungated_def)
qed

definition solid_out :: "string list \<Rightarrow> bool" where
  "solid_out out \<longleftrightarrow> out = [] \<or> solid (last out)"

lemma trim_docs: "list_all doc_line ds \<Longrightarrow> trim_rev (ds @ ls) = trim_rev ls"
  using doc_not_blank by (induction ds) (auto simp: doc_line_def)

lemma trim_solid: "solid_out out \<Longrightarrow> trim_rev (rev out) = rev out"
  by (cases out rule: rev_cases) (auto simp: solid_out_def solid_def doc_line_def)

lemma trim_preamble:
  assumes "wf_preamble True s gap docs" "s \<Longrightarrow> solid_out out"
  shows "trim_trailing_block (out @ gap @ ungated docs) = out"
proof -
  have docs: "list_all doc_line (rev (ungated docs))"
    using assms(1) by (auto simp: wf_preamble_def list_all_iff ungated_def)
  show ?thesis
  proof (cases gap)
    case Nil
    with assms have "solid_out out"
      by (simp add: wf_preamble_def)
    with Nil show ?thesis
      by (simp add: trim_trailing_block_def trim_docs [OF docs] trim_solid)
  next
    case (Cons b bs)
    with assms(1) have "bs = []" "blank_line b"
      by (auto simp: wf_preamble_def)
    with Cons show ?thesis
      by (simp add: trim_trailing_block_def trim_docs [OF docs])
  qed
qed

lemma solid_out_end:
  "(s \<Longrightarrow> solid_out out) \<Longrightarrow> solid_end s (ungated ls) \<Longrightarrow> solid_out (out @ ungated ls)"
  by (auto simp: solid_out_def solid_end_def split: if_splits)

lemma solid_out_snoc: "solid l \<Longrightarrow> solid_out (out @ ls @ [l])"
  by (simp add: solid_out_def)

subsection \<open>Members, classes and modules\<close>

lemma member_stays:
  assumes "wf_members t c s (m # ms)"
  shows "stays_inside 1 (member_lines m)" "depth_of (member_lines m) = 0" "\<exists>s'. wf_members t c s' ms"
proof -
  have "stays_inside 1 (member_lines m) \<and> depth_of (member_lines m) = 0"
  proof (cases m)
    case (Property_decl gap docs decl)
    with assms have "list_all (\<lambda>l. braces l = 0) (member_lines m)"
      using preamble_lines(1) by auto
    then show ?thesis
      using stays_balanced depth_balanced by simp
  qed (use assms in auto)
  then show "stays_inside 1 (member_lines m)" "depth_of (member_lines m) = 0"
    by simp_all
  show "\<exists>s'. wf_members t c s' ms"
    using assms by (cases m) auto
qed

lemma members_stay:
  "wf_members t c s ms \<Longrightarrow>
   stays_inside 1 (concat (map member_lines ms)) \<and> depth_of (concat (map member_lines ms)) = 0"
proof (induction ms arbitrary: s)
  case Nil
  then show ?case
    by (simp add: depth_of_def)
next
  case (Cons m ms)
  then show ?case
    using member_stays [OF Cons.prems] by (auto simp: stays_append depth_append)
qed

lemma property_step:
  assumes "prop_decl decl \<noteq> None" "class_decl decl = None" "braces decl = 0" "c \<noteq> []"
  shows "rewrite_loop (with_annotation_class t) c 1 0 out (decl # ls) =
    (if drops_property t c decl then rewrite_loop (with_annotation_class t) c 1 0 (trim_trailing_block out) ls
     else rewrite_loop (with_annotation_class t) c 1 0 (out @ [decl]) ls)"
  using assms solid_not_k8s [OF decl_solid [of decl]] by (auto simp: drops_property_def Let_def)

declare rewrite_loop.simps(2) [simp del]

lemma members_run:
  assumes "wf_members t c s ms" "c \<noteq> []" "s \<Longrightarrow> solid_out out"
  shows "rewrite_loop (with_annotation_class t) c 1 0 out (concat (map member_lines ms) @ rest) =
     rewrite_loop (with_annotation_class t) c 1 0
       (out @ concat (map member_lines (concat (map (prune_member t c) ms)))) rest"
  using assms
proof (induction ms arbitrary: s out)
  case (Cons m ms)
  show ?case
  proof (cases m)
    case (Other_lines ls)
    have "rewrite_loop (with_annotation_class t) c 1 0 out (ls @ concat (map member_lines ms) @ rest) =
        rewrite_loop (with_annotation_class t) c (1 + depth_of ls) 0 (out @ ungated ls) (concat (map member_lines ms) @ rest)"
      by (rule inert_lines) (use Cons.prems Other_lines in auto)
    also have "\<dots> = rewrite_loop (with_annotation_class t) c 1 0 (out @ ungated ls) (concat (map member_lines ms) @ rest)"
      using Cons.prems Other_lines by simp
    also have "\<dots> = rewrite_loop (with_annotation_class t) c 1 0
        ((out @ ungated ls) @ concat (map member_lines (concat (map (prune_member t c) ms)))) rest"
      by (rule Cons.IH [of "solid_end s (ungated ls)"])
         (use Cons.prems Other_lines solid_out_end [of s out ls] in auto)
    finally show ?thesis
      using Other_lines by simp
  next
    case (Property_decl gap docs decl)
    let ?pre = "out @ gap @ ungated docs"
    note wf = Cons.prems(1) [unfolded Property_decl wf_members.simps]
    have "rewrite_loop (with_annotation_class t) c 1 0 out (gap @ docs @ decl # concat (map member_lines ms) @ rest) =
        rewrite_loop (with_annotation_class t) c 1 0 ?pre (decl # concat (map member_lines ms) @ rest)"
      by (rule preamble_run) (use wf in auto)
    also have "\<dots> = rewrite_loop (with_annotation_class t) c 1 0
        (out @ concat (map member_lines (concat (map (prune_member t c) (m # ms))))) rest"
    proof (cases "drops_property t c decl")
      case True
      then have "trim_trailing_block ?pre = out"
        using wf Cons.prems(3) by (intro trim_preamble [of s]) auto
      then show ?thesis
        using Cons.IH [of s out] Cons.prems True wf Property_decl by (simp add: property_step)
    next
      case False
      then show ?thesis
        using Cons.IH [of True "?pre @ [decl]"] Cons.prems(2) wf Property_decl decl_solid [of decl]
        by (simp add: property_step solid_out_def)
    qed
    finally show ?thesis
      using Property_decl by simp
  qed
qed simp

lemma class_name_nonempty:
  assumes "class_decl l = Some c"
  shows "c \<noteq> []"
proof -
  have last_word: "takeWhile re_word (rev x) \<noteq> []" if "seq as l = Some (x, r)" "last as = some re_word" "as \<noteq> []"
    for as l x r
    using that
  proof (induction as arbitrary: l x)
    case (Cons a as)
    then show ?case
    proof (cases "as = []")
      case True
      with Cons.prems have x: "x \<noteq> []" "\<forall>c \<in> set x. re_word c"
        by (auto simp: some_def many_def dest: set_takeWhileD split: if_splits)
      then show ?thesis
        by (cases x rule: rev_cases) auto
    next
      case False
      with Cons.prems obtain y z where "seq as y = Some (z, r)" "\<exists>u. x = u @ z"
        by (auto split: option.splits)
      with Cons False have "takeWhile re_word (rev z) \<noteq> []" "\<exists>u. rev x = rev z @ u"
        by auto
      then show ?thesis
        by (cases "rev z") (auto split: if_splits)
    qed
  qed simp
  from assms obtain as x r where "seq as l = Some (x, r)" "last as = some re_word" "as \<noteq> []"
      "c = rev (takeWhile re_word (rev x))"
    by (auto simp: class_decl_def orelse_def simp del: seq.simps split: option.splits)
  then show ?thesis
    using last_word by simp
qed

lemma head_step:
  assumes "class_decl head = Some c" "prop_decl head = None" "open_brace head" "braces head = 1"
  shows "rewrite_loop (with_annotation_class t) [] 0 0 out (head # ls) =
    (if drops_class t head then rewrite_loop (with_annotation_class t) c 1 1 (trim_trailing_block out) ls
     else rewrite_loop (with_annotation_class t) c 1 0 (out @ [head]) ls)"
  using assms solid_not_k8s [OF decl_solid [of head]] by (simp add: drops_class_def rewrite_loop.simps(2))

lemma close_step:
  assumes "inert t c close" "solid close" "braces close = -1" "c \<noteq> []"
  shows "rewrite_loop (with_annotation_class t) c 1 0 out (close # ls) =
    rewrite_loop (with_annotation_class t) [] 0 0 (out @ [close]) ls"
proof -
  have kept: "\<not> (case prop_decl close of None \<Rightarrow> False
      | Some p \<Rightarrow> c \<noteq> [] \<and> (c, p) \<in> set (ft_drop_properties (with_annotation_class t)))"
    using assms(1,4) by (auto simp: inert_def drops_property_def split: option.splits)
  have "class_decl close = None" "\<not> k8s_annotation close"
    using assms by (simp_all add: inert_def solid_not_k8s)
  with kept assms(3,4) show ?thesis
    by (simp only: rewrite_loop.simps Let_def option.case if_True if_False simp_thms less_irrefl split: if_split) simp
qed

lemma dropped_body:
  assumes "wf_members t' c' s ms" "braces close = -1"
  shows "rewrite_loop t c 1 1 out (concat (map member_lines ms) @ close # rest) = rewrite_loop t [] 0 0 out rest"
  using skipped_lines [of 1 "concat (map member_lines ms)" t c out "close # rest"] members_stay [OF assms(1)] assms(2)
  by (simp add: rewrite_loop.simps(2))

lemma class_run:
  assumes "wf_items t s (Class_decl gap docs head ms close # m)" "s \<Longrightarrow> solid_out out"
  shows "rewrite_loop (with_annotation_class t) [] 0 0 out (item_lines (Class_decl gap docs head ms close) @ rest) =
     rewrite_loop (with_annotation_class t) [] 0 0
       (out @ concat (map item_lines (prune_item t (Class_decl gap docs head ms close)))) rest"
proof -
  let ?pre = "out @ gap @ ungated docs"
  from assms(1) obtain c where wf: "wf_preamble (drops_class t head) s gap docs" "class_decl head = Some c"
      "prop_decl head = None" "open_brace head" "braces head = 1" "wf_members t c True ms"
      "inert t c close" "solid close" "braces close = -1"
    by auto
  note c = class_name_nonempty [OF wf(2)]
  have "rewrite_loop (with_annotation_class t) [] 0 0 out (gap @ docs @ head # concat (map member_lines ms) @ close # rest) =
      rewrite_loop (with_annotation_class t) [] 0 0 ?pre (head # concat (map member_lines ms) @ close # rest)"
    by (rule preamble_run) (use wf in auto)
  also have "\<dots> = rewrite_loop (with_annotation_class t) [] 0 0
      (out @ concat (map item_lines (prune_item t (Class_decl gap docs head ms close)))) rest"
  proof (cases "drops_class t head")
    case True
    then have "trim_trailing_block ?pre = out"
      using wf(1) assms(2) by (intro trim_preamble [of s]) auto
    then show ?thesis
      using True by (simp add: head_step [OF wf(2-5)] dropped_body [OF wf(6,9)])
  next
    case False
    then show ?thesis
      using members_run [OF wf(6) c, of "?pre @ [head]" "close # rest"] decl_solid [of head] wf(2)
      by (simp add: head_step [OF wf(2-5)] close_step [OF wf(7-9) c] solid_out_def)
  qed
  finally show ?thesis
    by simp
qed

lemma items_run:
  assumes "wf_items t s m" "s \<Longrightarrow> solid_out out"
  shows "rewrite_loop (with_annotation_class t) [] 0 0 out (module_lines m) = out @ module_lines (prune_module t m)"
  using assms
proof (induction m arbitrary: s out)
  case Nil
  then show ?case
    by (simp add: module_lines_def prune_module_def)
next
  case (Cons i m)
  show ?case
  proof (cases i)
    case (Top_lines ls)
    have "rewrite_loop (with_annotation_class t) [] 0 0 out (ls @ module_lines m) =
        rewrite_loop (with_annotation_class t) [] (0 + depth_of ls) 0 (out @ ungated ls) (module_lines m)"
      by (rule inert_lines) (use Cons.prems Top_lines in \<open>auto simp: list_all_iff inert_def\<close>)
    also have "\<dots> = rewrite_loop (with_annotation_class t) [] 0 0 (out @ ungated ls) (module_lines m)"
      using Cons.prems Top_lines by simp
    also have "\<dots> = (out @ ungated ls) @ module_lines (prune_module t m)"
      by (rule Cons.IH [of "solid_end s (ungated ls)"])
         (use Cons.prems Top_lines solid_out_end [of s out ls] in auto)
    finally show ?thesis
      using Top_lines by (simp add: module_lines_def prune_module_def)
  next
    case (Class_decl gap docs head ms close)
    let ?s = "if drops_class t head then s else True"
    let ?out = "out @ concat (map item_lines (prune_item t i))"
    have "rewrite_loop (with_annotation_class t) [] 0 0 out (item_lines i @ module_lines m) =
        rewrite_loop (with_annotation_class t) [] 0 0 ?out (module_lines m)"
      unfolding Class_decl by (rule class_run [OF Cons.prems(1) [unfolded Class_decl]]) (rule Cons.prems(2))
    also have "\<dots> = ?out @ module_lines (prune_module t m)"
      by (rule Cons.IH [of ?s]) (use Cons.prems Class_decl in \<open>auto simp: solid_out_def\<close>)
    finally show ?thesis
      by (simp add: module_lines_def prune_module_def)
  qed
qed

text \<open>C37: Rewriting a well-formed module for a version prints the module without the declarations the plan drops:
  a dropped property or class goes with its gap, its comments and annotations and, for a class, its body; the version
  annotations of the rest go too, and nothing else.\<close>

theorem rewriting_prunes_modules:
  assumes "wf_module t m"
  shows "rewrite_lines t (module_lines m) = module_lines (prune_module t m)"
  using items_run [of t True m "[]"] assms by (simp add: rewrite_lines_def wf_module_def solid_out_def)

definition sample_module :: "item list" where
  "sample_module =
    [Top_lines [''module m''],
     Class_decl [''''] [''/// Doc''] ''class P {''
       [Property_decl [] [] '' a: T'',
        Property_decl [''''] ['' /// b'', '' @K8sVersion {x}''] '' b: T'',
        Other_lines ['' c = new {'', '' }'']]
       ''}'',
     Class_decl [''''] [''@k.K8sVersion {y}''] ''class G {''
       [Property_decl [] [] '' k: T'']
       ''}'']"

definition sample_transform :: file_transform where
  "sample_transform = no_transform\<lparr>ft_drop_properties := [(''P'', ''b'')], ft_drop_classes := [''G'']\<rparr>"

theorem rewriting_prunes_modules_witness:
  "wf_module sample_transform sample_module \<and>
   rewrite_lines sample_transform (module_lines sample_module) =
     [''module m'', '''', ''/// Doc'', ''class P {'', '' a: T'', '' c = new {'', '' }'', ''}'']"
proof -
  have "wf_module sample_transform sample_module"
    by code_simp
  moreover have "module_lines (prune_module sample_transform sample_module) =
     [''module m'', '''', ''/// Doc'', ''class P {'', '' a: T'', '' c = new {'', '' }'', ''}'']"
    by code_simp
  ultimately show ?thesis
    using rewriting_prunes_modules [of sample_transform sample_module] by (simp only:)
qed

subsection \<open>Any text\<close>

lemma trim_rev_suffix: "suffix (trim_rev ls) ls"
  by (induction ls) (auto intro: suffix_ConsI)

lemma trim_prefix_of: "prefix (trim_trailing_block out) out"
  using trim_rev_suffix [of "rev out"] by (simp add: trim_trailing_block_def suffix_to_prefix)

definition kept_line :: "file_transform \<Rightarrow> string \<Rightarrow> bool" where
  "kept_line t l \<longleftrightarrow> \<not> k8s_annotation l \<and> (case class_decl l of None \<Rightarrow> True | Some c \<Rightarrow> c \<notin> set (ft_drop_classes t))"

definition keeps :: "file_transform \<Rightarrow> string list \<Rightarrow> string list \<Rightarrow> bool" where
  "keeps t all kept \<longleftrightarrow> subseq kept all \<and> list_all (kept_line t) kept"

lemma subseq_trim: "subseq (trim_trailing_block out @ ls) (out @ ls)"
  using prefix_imp_subseq [OF trim_prefix_of] by (simp add: list_emb_append_mono)

lemma kept_trim: "list_all (kept_line t) out \<Longrightarrow> list_all (kept_line t) (trim_trailing_block out)"
  using set_mono_prefix [OF trim_prefix_of] by (auto simp: list_all_iff)

lemma keeps_more: "\<lbrakk>keeps t xs kept; subseq xs ys\<rbrakk> \<Longrightarrow> keeps t ys kept"
  using subseq_order.order_trans by (auto simp: keeps_def)

lemma skip_line: "keeps t (out @ ls) kept \<Longrightarrow> keeps t (out @ l # ls) kept"
  by (rule keeps_more, assumption) (simp add: list_emb_append_mono list_emb_Cons)

lemma trim_line: "keeps t (trim_trailing_block out @ ls) kept \<Longrightarrow> keeps t (out @ l # ls) kept"
  by (rule skip_line, rule keeps_more, assumption, rule subseq_trim)

lemma loop_keeps:
  "list_all (kept_line t) out \<Longrightarrow> keeps t (out @ ls) (rewrite_loop t c d k out ls)"
proof (induction t c d k out ls rule: rewrite_loop.induct)
  case (1 t c d k out)
  then show ?case
    by (simp add: keeps_def)
next
  case (2 t c d k out l ls)
  let ?d = "d + braces l" and ?c = "case class_decl l of Some c' \<Rightarrow> c' | None \<Rightarrow> c"
  let ?gone = "class_decl l \<noteq> None \<and> ?c \<in> set (ft_drop_classes t)"
  let ?gated = "case prop_decl l of None \<Rightarrow> False | Some p \<Rightarrow> ?c \<noteq> [] \<and> (?c, p) \<in> set (ft_drop_properties t)"
  consider (skip) "0 < k" | (cls) "\<not> 0 < k" ?gone | (gated) "\<not> 0 < k" "\<not> ?gone" ?gated
    | (ann) "\<not> 0 < k" "\<not> ?gone" "\<not> ?gated" "k8s_annotation l"
    | (keep) "\<not> 0 < k" "\<not> ?gone" "\<not> ?gated" "\<not> k8s_annotation l"
    by blast
  then show ?case
  proof cases
    case skip
    then have "rewrite_loop t c d k out (l # ls) =
        (if ?d < k then rewrite_loop t [] ?d 0 out ls else rewrite_loop t c ?d k out ls)"
      by (simp add: rewrite_loop.simps(2) Let_def)
    with 2(1,2) [OF refl skip] 2(7) show ?thesis
      by (simp add: skip_line)
  next
    case cls
    note step = rewrite_loop.simps(2) [of t c d k out l ls, unfolded Let_def if_not_P [OF cls(1)] if_P [OF cls(2)]]
    show ?thesis
      unfolding step using 2(3) [OF refl cls(1) refl cls(2)] 2(7) kept_trim by (intro trim_line) simp
  next
    case gated
    note step = rewrite_loop.simps(2) [of t c d k out l ls, unfolded Let_def if_not_P [OF gated(1)] if_not_P [OF gated(2)] if_P [OF gated(3)]]
    show ?thesis
      unfolding step using 2(4) [OF refl gated(1) refl gated(2,3)] 2(7) kept_trim by (intro trim_line) simp
  next
    case ann
    note step = rewrite_loop.simps(2) [of t c d k out l ls,
        unfolded Let_def if_not_P [OF ann(1)] if_not_P [OF ann(2)] if_not_P [OF ann(3)] if_P [OF ann(4)]]
    show ?thesis
      unfolding step using 2(5) [OF refl ann(1) refl ann(2,3,4)] 2(7) by (intro skip_line) simp
  next
    case keep
    note step = rewrite_loop.simps(2) [of t c d k out l ls,
        unfolded Let_def if_not_P [OF keep(1)] if_not_P [OF keep(2)] if_not_P [OF keep(3)] if_not_P [OF keep(4)]]
    have "kept_line t l"
      using keep by (auto simp: kept_line_def split: option.splits)
    then show ?thesis
      unfolding step using 2(6) [OF refl keep(1) refl keep(2,3,4)] 2(7) by simp
  qed
qed

text \<open>Whatever the text, rewriting only removes lines, and leaves neither a version annotation nor the head of a
  dropped class.\<close>

lemma rewriting_only_removes:
  "subseq (rewrite_lines t ls) ls \<and> list_all (\<lambda>l. \<not> k8s_annotation l \<and> \<not> drops_class t l) (rewrite_lines t ls)"
  using loop_keeps [of "with_annotation_class t" "[]" ls "[]" 0 0]
  by (auto simp: rewrite_lines_def keeps_def kept_line_def drops_class_def list_all_iff split: option.splits)

text \<open>A comment of the code says that a dropped declaration goes with its annotations. An annotation of several lines
  stays, and is then read as one of the next declaration; so does the rest of a property of several lines.\<close>

lemma long_annotation_survives:
  "rewrite_lines sample_transform [''@k.Hint {'', '' x'', ''}'', ''class G {'', ''}'', ''class P {'', ''}''] =
   [''@k.Hint {'', '' x'', ''}'', ''class P {'', ''}''] \<and>
   rewrite_lines sample_transform [''class P {'', '' b: T = new {'', ''  y'', '' }'', ''}''] =
   [''class P {'', ''  y'', '' }'', ''}'']"
  by code_simp

end
