(* ===== verification/Schema_Tree.thy ===== *)
theory Schema_Tree
  imports Schema_Modules
begin

text \<open>
  What the generator of \<open>Schema_Gen\<close> promises: its gates are the plugin's own, the plan for a version drops exactly
  what is gated out of it, and a version's subtree holds exactly the rewritten modules of the master tree.
\<close>

subsection \<open>Gates\<close>

lemma cmp_minor_compare: "cmp_minor a b = compare_k8s_versions a b"
proof -
  have "gen_split_minor v = split_minor v" for v
  proof (cases "cut_char CHR ''.'' v")
    case None
    then show ?thesis
      by (simp add: gen_split_minor_def split_minor_def)
  next
    case (Some p)
    then show ?thesis
      by (cases p) (simp add: gen_split_minor_def split_minor_def)
  qed
  then show ?thesis
    by (simp add: cmp_minor_def compare_k8s_versions_def)
qed

text \<open>A field or a type is in the schema of a version exactly when the plugin accepts it on a cluster of that
  version, given that the schema's annotation and the plugin's registry state the same versions.\<close>

theorem schema_gates_agree_with_plugin:
  assumes "sg_introduced_in g = introduced_in r" "sg_removed_in g = removed_in r"
  shows "(lookup_gate rtype field = Some r \<longrightarrow> (gate_satisfied g v \<longleftrightarrow> check_field rtype field v = None)) \<and>
         (lookup_type rtype = Some r \<longrightarrow> (gate_satisfied g v \<longleftrightarrow> fst (type_supported rtype v)))"
  using assms by (simp add: gate_satisfied_def check_field_def type_supported_def cmp_minor_compare)

theorem schema_gates_agree_with_plugin_witness:
  "\<exists>(g :: schema_gate) r. sg_introduced_in g = introduced_in r \<and> lookup_gate ''K8S::Core::Pod'' ''spec.hostUsers'' = Some r \<and>
     \<not> gate_satisfied g ''1.24'' \<and> check_field ''K8S::Core::Pod'' ''spec.hostUsers'' ''1.24'' \<noteq> None"
proof -
  let ?g = "\<lparr>sg_introduced_in = ''1.25'', sg_removed_in = [], sg_deprecated_in = [], sg_reference = []\<rparr>"
  obtain r where r: "lookup_gate ''K8S::Core::Pod'' ''spec.hostUsers'' = Some r" "introduced_in r = ''1.25''" "removed_in r = []"
    by (simp add: lookup_gate_def registry_def)
  have "\<not> gate_satisfied ?g ''1.24''"
    by code_simp
  with schema_gates_agree_with_plugin [of ?g r "''K8S::Core::Pod''" "''spec.hostUsers''" "''1.24''"] r show ?thesis
    by (intro exI [of _ ?g] exI [of _ r]) simp
qed

text \<open>The plan for one file.\<close>

lemma plan_drops:
  assumes "df_module_gate f = None \<or> gate_satisfied (the (df_module_gate f)) target"
  shows "ft_skip (plan_file target f) = False"
    "(c, p) \<in> set (ft_drop_properties (plan_file target f)) \<longleftrightarrow>
       (\<exists>g \<in> set (df_property_gates f). sg_class_name g = c \<and> sg_property_name g = p \<and> \<not> gate_satisfied g target)"
    "c \<in> set (ft_drop_classes (plan_file target f)) \<longleftrightarrow>
       (\<exists>g \<in> set (df_class_gates f). sg_class_name g = c \<and> \<not> gate_satisfied g target)"
  using assms by (auto simp: plan_file_def no_transform_def split: option.splits)

lemma plan_skips: "ft_skip (plan_file target f) \<longleftrightarrow> (\<exists>g. df_module_gate f = Some g \<and> \<not> gate_satisfied g target)"
  by (auto simp: plan_file_def no_transform_def split: option.splits)

lemma gate_window:
  "gate_satisfied g target \<longleftrightarrow>
     (sg_introduced_in g = [] \<or> cmp_minor (sg_introduced_in g) target \<le> 0) \<and>
     (sg_removed_in g = [] \<or> cmp_minor target (sg_removed_in g) < 0)"
  by (auto simp: gate_satisfied_def cmp_minor_def Let_def split: prod.splits if_splits)

text \<open>What was introduced and never removed stays in the schemas of all later versions.\<close>

lemma cmp_minor_trans: "\<lbrakk>cmp_minor a b \<le> 0; cmp_minor b c \<le> 0\<rbrakk> \<Longrightarrow> cmp_minor a c \<le> 0"
  by (auto simp: cmp_minor_def Let_def split: prod.splits if_splits)

lemma schemas_grow:
  "\<lbrakk>sg_removed_in g = []; gate_satisfied g v; cmp_minor v w \<le> 0\<rbrakk> \<Longrightarrow> gate_satisfied g w"
  using cmp_minor_trans by (auto simp: gate_window)

lemma map_of_plan:
  assumes "f \<in> set files" "\<And>f'. f' \<in> set files \<Longrightarrow> key_for (df_path f') = key_for (df_path f) \<Longrightarrow> f' = f"
  shows "map_of (plan_transforms files target) (key_for (df_path f)) = Some (plan_file target f)"
proof -
  have "map_of (fold (\<lambda>f plan. AList.update (key_for (df_path f)) (plan_file target f) plan) fs plan) (key_for (df_path f)) =
      (if f \<in> set fs then Some (plan_file target f) else map_of plan (key_for (df_path f)))"
    if "set fs \<subseteq> set files" for fs plan
    using that
  proof (induction fs arbitrary: plan)
    case (Cons f' fs)
    then have "key_for (df_path f') = key_for (df_path f) \<Longrightarrow> f' = f"
      using assms(2) by simp
    with Cons show ?case
      by (auto simp: update_conv')
  qed simp
  then show ?thesis
    using assms(1) by (simp add: plan_transforms_def)
qed

subsection \<open>The subtree of a version\<close>

definition transform_at :: "(string \<times> file_transform) list \<Rightarrow> string \<Rightarrow> string \<Rightarrow> file_transform option" where
  "transform_at plan in_dir path =
     map_option snd (find (\<lambda>(k, _). has_suffix k (path_join in_dir (rel_path in_dir path))) plan)"

text \<open>Where a master file goes, if anywhere, and what is written there.\<close>

definition destination :: "(string \<times> file_transform) list \<Rightarrow> string \<Rightarrow> string \<Rightarrow> string \<Rightarrow> string option" where
  "destination plan in_dir version_dir path =
     (let rel = rel_path in_dir path in
      if version_independent (top_dir rel) \<or> in_root rel \<and> rel \<noteq> subresources then None
      else if has_suffix path ''.pkl'' \<and> (case transform_at plan in_dir path of None \<Rightarrow> False | Some t \<Rightarrow> ft_skip t) then None
      else Some (path_join version_dir (if in_root rel then ''k8s.pkl'' else rel)))"

definition emitted_text :: "gen_host \<Rightarrow> (string \<times> file_transform) list \<Rightarrow> string \<Rightarrow> string \<Rightarrow> string \<Rightarrow> string" where
  "emitted_text h plan in_dir path body =
     (if \<not> has_suffix path ''.pkl'' then body
      else target_climb (subresources_rename (banner (gh_shown h path) @
        rewrite_text (case transform_at plan in_dir path of None \<Rightarrow> no_transform | Some t \<Rightarrow> t) body)))"

lemma rewrite_imports_Inr:
  assumes "rewrite_imports h p (AList.update p c d) = (Inr (), d')"
  shows "map_of d' = (map_of d)(p \<mapsto> target_climb (subresources_rename c))"
  using assms by (auto simp: rewrite_imports_def task_rules update_conv Let_def split: if_splits)

lemma emit_module_cases:
  "emit_module h plan in_dir vdir path =
     (let plan_rel = rel_path in_dir path;
          rel = (if in_root plan_rel then ''k8s.pkl'' else plan_rel);
          dst = path_join vdir rel; t = transform_at plan in_dir path in
      if version_independent (top_dir plan_rel) \<or> in_root plan_rel \<and> plan_rel \<noteq> subresources then done_with ()
      else if \<not> has_suffix path ''.pkl'' then labelled (''copy '' @ rel) (copy_file h path dst)
      else and_then (labelled (''rewrite '' @ rel) (rewrite_file h path dst t)) (\<lambda>_.
          if t \<noteq> None \<and> ft_skip (the t) then done_with ()
          else labelled (''rewrite imports '' @ rel) (rewrite_imports h dst)))"
  unfolding emit_module_def transform_at_def Let_def
  by (cases "version_independent (top_dir (rel_path in_dir path))") (simp_all only: if_True if_False simp_thms)

lemma emit_module_Inr:
  assumes "emit_module h plan in_dir vdir path d = (Inr (), d')"
  shows "case destination plan in_dir vdir path of
           None \<Rightarrow> d' = d
         | Some dst \<Rightarrow> \<exists>body. map_of d path = Some body \<and>
             map_of d' = (map_of d)(dst \<mapsto> emitted_text h plan in_dir path body)"
proof -
  let ?rel = "rel_path in_dir path"
  let ?t = "transform_at plan in_dir path"
  let ?out = "version_independent (top_dir ?rel) \<or> in_root ?rel \<and> ?rel \<noteq> subresources"
  let ?dst = "path_join vdir (if in_root ?rel then ''k8s.pkl'' else ?rel)"
  note run = assms [unfolded emit_module_cases Let_def]
  consider (out) ?out | (copy) "\<not> ?out" "\<not> has_suffix path ''.pkl''"
    | (skip) t where "\<not> ?out" "has_suffix path ''.pkl''" "?t = Some t" "ft_skip t"
    | (emit) "\<not> ?out" "has_suffix path ''.pkl''" "\<not> (?t \<noteq> None \<and> ft_skip (the ?t))"
    by (cases ?t) auto
  then show ?thesis
  proof cases
    case out
    then have "destination plan in_dir vdir path = None"
      unfolding destination_def Let_def by (rule if_P)
    with run [unfolded if_P [OF out]] show ?thesis
      by simp
  next
    case copy
    then have "destination plan in_dir vdir path = Some ?dst"
      unfolding destination_def Let_def by (simp only: if_False simp_thms)
    with run [unfolded if_not_P [OF copy(1)] if_P [OF copy(2)]] copy(2) show ?thesis
      by (auto simp: emitted_text_def task_rules update_conv simp del: if_split_asm)
  next
    case skip
    then have "destination plan in_dir vdir path = None"
      unfolding destination_def Let_def by (simp only: if_False if_True simp_thms option.case)
    with run [unfolded if_not_P [OF skip(1)]] skip(2-4) show ?thesis
      by (simp add: and_then_Inr rewrite_file_def)
  next
    case emit
    let ?tr = "case ?t of None \<Rightarrow> no_transform | Some t \<Rightarrow> t"
    have dst: "destination plan in_dir vdir path = Some ?dst"
      unfolding destination_def Let_def if_not_P [OF emit(1)] using emit(3) by (auto split: option.splits)
    from run [unfolded if_not_P [OF emit(1)]] emit(2,3) obtain d1 where d1:
      "rewrite_file h path ?dst ?t d = (Inr (), d1)" "rewrite_imports h ?dst d1 = (Inr (), d')"
      by (auto simp: and_then_Inr simp del: if_split_asm)
    from d1(1) emit(3) obtain body where body: "map_of d path = Some body"
      "d1 = AList.update ?dst (banner (gh_shown h path) @ rewrite_text ?tr body) d"
      unfolding rewrite_file_def if_not_P [OF emit(3)] Let_def write_pkl_with_banner_def
      by (auto simp: task_rules)
    have "map_of d' = (map_of d)(?dst \<mapsto> emitted_text h plan in_dir path body)"
      using rewrite_imports_Inr [of h ?dst _ d d'] d1(2) emit(2) unfolding body(2) emitted_text_def by simp
    then show ?thesis
      using dst body(1) by auto
  qed
qed

lemma each_emit:
  assumes "each (emit_module h plan in_dir vdir) qs d = (Inr (), d')" "distinct qs"
    and inj: "\<And>q q' p. \<lbrakk>q \<in> set qs; q' \<in> set qs; destination plan in_dir vdir q = Some p;
      destination plan in_dir vdir q' = Some p\<rbrakk> \<Longrightarrow> q = q'"
    and apart: "\<And>q p. q \<in> set qs \<Longrightarrow> destination plan in_dir vdir q = Some p \<Longrightarrow> p \<notin> set qs"
  shows "(\<forall>q \<in> set qs. \<forall>p. destination plan in_dir vdir q = Some p \<longrightarrow>
            (\<exists>body. map_of d q = Some body \<and> map_of d' p = Some (emitted_text h plan in_dir q body))) \<and>
         (\<forall>p. (\<forall>q \<in> set qs. destination plan in_dir vdir q \<noteq> Some p) \<longrightarrow> map_of d' p = map_of d p)"
  using assms
proof (induction qs arbitrary: d)
  case (Cons q qs)
  from Cons.prems(1) obtain d1 where d1: "emit_module h plan in_dir vdir q d = (Inr (), d1)"
      "each (emit_module h plan in_dir vdir) qs d1 = (Inr (), d')"
    by (auto simp: and_then_Inr)
  have IH: "(\<forall>q \<in> set qs. \<forall>p. destination plan in_dir vdir q = Some p \<longrightarrow>
        (\<exists>body. map_of d1 q = Some body \<and> map_of d' p = Some (emitted_text h plan in_dir q body))) \<and>
      (\<forall>p. (\<forall>q \<in> set qs. destination plan in_dir vdir q \<noteq> Some p) \<longrightarrow> map_of d' p = map_of d1 p)"
  proof (rule Cons.IH [OF d1(2)])
    show "distinct qs"
      using Cons.prems(2) by simp
    show "a = b" if "a \<in> set qs" "b \<in> set qs" "destination plan in_dir vdir a = Some p"
        "destination plan in_dir vdir b = Some p" for a b p
      using Cons.prems(3) [of a b p] that by simp
    show "p \<notin> set qs" if "a \<in> set qs" "destination plan in_dir vdir a = Some p" for a p
      using Cons.prems(4) [of a p] that by simp
  qed
  show ?case
  proof (cases "destination plan in_dir vdir q")
    case None
    with emit_module_Inr [OF d1(1)] IH show ?thesis
      by auto
  next
    case (Some dst)
    with emit_module_Inr [OF d1(1)] obtain body where body: "map_of d q = Some body"
        "map_of d1 = (map_of d)(dst \<mapsto> emitted_text h plan in_dir q body)"
      by auto
    have "destination plan in_dir vdir q' \<noteq> Some dst" if "q' \<in> set qs" for q'
      using Cons.prems(2) Cons.prems(3) [of q q' dst] Some that by auto
    then have "map_of d' dst = Some (emitted_text h plan in_dir q body)"
      using IH body(2) by auto
    moreover have "dst \<notin> set qs"
      using Cons.prems(4) [of q dst] Some by simp
    ultimately show ?thesis
      using IH body Some by (auto simp: fun_upd_apply split: if_splits)
  qed
qed simp

lemma destination_plain:
  assumes "destination plan in_dir vdir q = Some p" "plain_path vdir" "plain_path in_dir"
    "plain_path q" "beneath in_dir q"
  obtains "in_root (rel_path in_dir q)" "q = in_dir @ CHR ''/'' # subresources" "p = vdir @ CHR ''/'' # ''k8s.pkl''"
  | r where "\<not> in_root r" "q = in_dir @ CHR ''/'' # r" "p = vdir @ CHR ''/'' # r"
proof -
  obtain r where r: "q = in_dir @ CHR ''/'' # r" "rel_path in_dir q = r" "plain_path r"
    using assms(3-5) by (auto simp: beneath_plain rel_path_plain plain_path_join)
  have p: "p = path_join vdir (if in_root r then ''k8s.pkl'' else r)" "in_root r \<Longrightarrow> r = subresources"
    using assms(1) unfolding destination_def r(2) Let_def by (auto split: if_splits)
  have "plain_path ''k8s.pkl''"
    by code_simp
  with p(1) r(3) assms(2) have "p = vdir @ CHR ''/'' # (if in_root r then ''k8s.pkl'' else r)"
    by (simp add: path_join_plain split del: if_split split: if_split_asm)
  with p(2) r that show ?thesis
    by (cases "in_root r") simp_all
qed

text \<open>The disk without a version's old subtree, and the master files that are left on it.\<close>

definition cleared :: "string \<Rightarrow> disk \<Rightarrow> disk" where
  "cleared vdir d = filter (\<lambda>kv. fst kv \<noteq> path_clean vdir \<and> \<not> beneath vdir (fst kv)) d"

definition masters :: "string \<Rightarrow> string \<Rightarrow> disk \<Rightarrow> string list" where
  "masters in_dir vdir d = filter (beneath in_dir) (map fst (cleared vdir d))"

lemma map_of_cleared:
  "plain_path vdir \<Longrightarrow> map_of (cleared vdir d) p = (if p \<noteq> vdir \<and> \<not> beneath vdir p then map_of d p else None)"
  using map_of_filter_key [of "\<lambda>k. k \<noteq> vdir \<and> \<not> beneath vdir k" d p] by (simp add: cleared_def path_clean_plain)

lemma process_target_Inr:
  assumes "process_target h files target in_dir out d = (Inr (), d')" "vdir = path_join out (''v'' @ target)"
    and "plan = plan_transforms files target"
  shows "each (emit_module h plan in_dir vdir) (masters in_dir vdir d) (cleared vdir d) = (Inr (), d')"
  using assms(1) [unfolded process_target_def Let_def, folded assms(2,3)]
  by (auto simp: and_then_Inr remove_all_def walk_def masters_def cleared_def split: option.splits if_splits)

lemma masters_apart:
  "\<lbrakk>apart_from in_dir vdir d; q \<in> set (masters in_dir vdir d)\<rbrakk> \<Longrightarrow>
   plain_path q \<and> beneath in_dir q \<and> q \<noteq> vdir \<and> \<not> beneath vdir q"
  by (auto simp: masters_def cleared_def apart_from_def list_all_iff)

lemma master_found:
  assumes "apart_from in_dir vdir d" "plain_path vdir" "beneath in_dir q" "map_of d q = Some body"
  shows "q \<in> set (masters in_dir vdir d)" "map_of (cleared vdir d) q = Some body"
proof -
  have "q \<in> set (map fst d)"
    using map_of_SomeD [OF assms(4)] by force
  with assms show "map_of (cleared vdir d) q = Some body"
    by (auto simp: map_of_cleared apart_from_def list_all_iff)
  then show "q \<in> set (masters in_dir vdir d)"
    using assms(3) map_of_SomeD [of "cleared vdir d" q body] by (force simp: masters_def)
qed

lemma destination_form:
  assumes "destination plan in_dir vdir q = Some p" "plain_path vdir" "plain_path in_dir" "plain_path q" "beneath in_dir q"
  shows "beneath vdir p \<and>
    (q = in_dir @ CHR ''/'' # subresources \<and> p = vdir @ CHR ''/'' # ''k8s.pkl'' \<or>
     (\<exists>r. CHR ''/'' \<in> set r \<and> q = in_dir @ CHR ''/'' # r \<and> p = vdir @ CHR ''/'' # r))"
  using destination_plain [OF assms] by cases (use assms(2) in \<open>auto simp: beneath_plain in_root_def\<close>)

lemma destination_inj:
  assumes "destination plan in_dir vdir q = Some p" "destination plan in_dir vdir q' = Some p"
    and "plain_path vdir" "plain_path in_dir" "plain_path q" "beneath in_dir q" "plain_path q'" "beneath in_dir q'"
  shows "q = q'"
  using destination_form [OF assms(1,3-6)] destination_form [OF assms(2-4,7,8)] by (elim conjE disjE exE) simp_all

lemma masters_emitted:
  assumes "each (emit_module h plan in_dir vdir) (masters in_dir vdir d) (cleared vdir d) = (Inr (), d')"
    and "distinct (map fst d)" "apart_from in_dir vdir d" "plain_path vdir" "plain_path in_dir"
  shows "(\<forall>q \<in> set (masters in_dir vdir d). \<forall>p. destination plan in_dir vdir q = Some p \<longrightarrow>
            (\<exists>body. map_of (cleared vdir d) q = Some body \<and> map_of d' p = Some (emitted_text h plan in_dir q body))) \<and>
         (\<forall>p. (\<forall>q \<in> set (masters in_dir vdir d). destination plan in_dir vdir q \<noteq> Some p) \<longrightarrow>
            map_of d' p = map_of (cleared vdir d) p)"
proof (rule each_emit [OF assms(1)])
  show "distinct (masters in_dir vdir d)"
    using assms(2) by (simp add: masters_def cleared_def distinct_map_filter)
  show "q = q'" if "q \<in> set (masters in_dir vdir d)" "q' \<in> set (masters in_dir vdir d)"
      "destination plan in_dir vdir q = Some p" "destination plan in_dir vdir q' = Some p" for q q' p
    using destination_inj [OF that(3,4) assms(4,5)] masters_apart [OF assms(3)] that(1,2) by blast
  show "p \<notin> set (masters in_dir vdir d)" if "q \<in> set (masters in_dir vdir d)" "destination plan in_dir vdir q = Some p" for q p
    using destination_form [OF that(2) assms(4,5)] masters_apart [OF assms(3)] that(1) by blast
qed

text \<open>C38: After a version has been processed its subtree holds, for every file of the master tree that is emitted, the
  rewritten text of that file, and nothing else, whatever it held before; and no other file has changed.\<close>

theorem version_subtree_exact:
  assumes run: "process_target h files target in_dir out d = (Inr (), d')"
    and vdir: "vdir = path_join out (''v'' @ target)" and plan: "plan = plan_transforms files target"
    and plain: "plain_path in_dir" "plain_path out" "plain_path (''v'' @ target)"
    and d: "distinct (map fst d)" "apart_from in_dir vdir d"
  shows "(\<forall>q body p. beneath in_dir q \<and> map_of d q = Some body \<and> destination plan in_dir vdir q = Some p \<longrightarrow>
            map_of d' p = Some (emitted_text h plan in_dir q body)) \<and>
         (\<forall>p. beneath vdir p \<and> map_of d' p \<noteq> None \<longrightarrow>
            (\<exists>q. beneath in_dir q \<and> map_of d q \<noteq> None \<and> destination plan in_dir vdir q = Some p)) \<and>
         (\<forall>p. p \<noteq> vdir \<and> \<not> beneath vdir p \<longrightarrow> map_of d' p = map_of d p)"
proof -
  have vdir_plain: "plain_path vdir"
    using plain vdir path_join_plain [of out "''v'' @ target"] plain_path_join [of out "''v'' @ target"] by simp
  note emitted = masters_emitted [OF process_target_Inr [OF run vdir plan] d vdir_plain plain(1)]
  have "map_of d' p = Some (emitted_text h plan in_dir q body)"
    if "beneath in_dir q" "map_of d q = Some body" "destination plan in_dir vdir q = Some p" for q body p
    using emitted master_found [OF d(2) vdir_plain that(1,2)] that(3) by auto
  moreover have "\<exists>q. beneath in_dir q \<and> map_of d q \<noteq> None \<and> destination plan in_dir vdir q = Some p"
    if "beneath vdir p" "map_of d' p \<noteq> None" for p
  proof -
    have "map_of (cleared vdir d) p = None"
      using that(1) by (simp add: map_of_cleared vdir_plain)
    with emitted that(2) obtain q where q: "q \<in> set (masters in_dir vdir d)" "destination plan in_dir vdir q = Some p"
      by metis
    then have "map_of (cleared vdir d) q \<noteq> None"
      using emitted by fastforce
    then show ?thesis
      using q masters_apart [OF d(2) q(1)] map_of_cleared [OF vdir_plain, of d q] by (auto split: if_splits)
  qed
  moreover have "map_of d' p = map_of d p" if "p \<noteq> vdir" "\<not> beneath vdir p" for p
  proof -
    have "\<forall>q \<in> set (masters in_dir vdir d). destination plan in_dir vdir q \<noteq> Some p"
      using destination_form [OF _ vdir_plain plain(1)] masters_apart [OF d(2)] that(2) by blast
    then show ?thesis
      using emitted that by (simp add: map_of_cleared vdir_plain)
  qed
  ultimately show ?thesis
    by blast
qed

definition sample_host :: gen_host where
  "sample_host = \<lparr>gh_read = \<lambda>_. None, gh_write = \<lambda>_. None, gh_remove = \<lambda>_. None, gh_list = \<lambda>_. None, gh_shown = \<lambda>p. p\<rparr>"

definition sample_disk :: disk where
  "sample_disk = [(''m/a/P.pkl'', ''x''), (''m/a/Q.pkl'', ''y''), (''o/v1/a/R.pkl'', ''z'')]"

definition sample_files :: "discovered_file list" where
  "sample_files =
    [\<lparr>df_path = ''../../m/a/Q.pkl'', df_module_name = ''q'',
      df_module_gate = Some \<lparr>sg_introduced_in = ''1.2'', sg_removed_in = [], sg_deprecated_in = [], sg_reference = []\<rparr>,
      df_class_gates = [], df_property_gates = []\<rparr>]"

theorem version_subtree_exact_witness:
  "\<exists>d'. process_target sample_host sample_files ''1'' ''m'' ''o'' sample_disk = (Inr (), d') \<and>
     map_of d' ''o/v1/a/P.pkl'' \<noteq> None \<and> map_of d' ''o/v1/a/R.pkl'' = None \<and> map_of d' ''m/a/Q.pkl'' = Some ''y''"
proof -
  have vdir: "''o/v1'' = path_join ''o'' (''v'' @ ''1'')"
    by code_simp
  have ok: "fst (process_target sample_host sample_files ''1'' ''m'' ''o'' sample_disk) = Inr ()"
    by code_simp
  obtain d' where run: "process_target sample_host sample_files ''1'' ''m'' ''o'' sample_disk = (Inr (), d')"
    using ok by (metis prod.collapse)
  have plain: "plain_path ''m''" "plain_path ''o''" "plain_path (''v'' @ ''1'')" "distinct (map fst sample_disk)"
      "apart_from ''m'' ''o/v1'' sample_disk"
    by code_simp+
  from version_subtree_exact [OF run vdir refl plain]
  have exact: "\<And>q body p. \<lbrakk>beneath ''m'' q; map_of sample_disk q = Some body;
        destination (plan_transforms sample_files ''1'') ''m'' ''o/v1'' q = Some p\<rbrakk> \<Longrightarrow> map_of d' p \<noteq> None"
    and stale: "\<And>p. \<lbrakk>beneath ''o/v1'' p; map_of d' p \<noteq> None\<rbrakk> \<Longrightarrow> \<exists>q. beneath ''m'' q \<and> map_of sample_disk q \<noteq> None \<and>
        destination (plan_transforms sample_files ''1'') ''m'' ''o/v1'' q = Some p"
    and same: "\<And>p. \<lbrakk>p \<noteq> ''o/v1''; \<not> beneath ''o/v1'' p\<rbrakk> \<Longrightarrow> map_of d' p = map_of sample_disk p"
    by blast+
  have P: "beneath ''m'' ''m/a/P.pkl''" "map_of sample_disk ''m/a/P.pkl'' = Some ''x''"
      "destination (plan_transforms sample_files ''1'') ''m'' ''o/v1'' ''m/a/P.pkl'' = Some ''o/v1/a/P.pkl''"
    by code_simp+
  have R: "beneath ''o/v1'' ''o/v1/a/R.pkl''"
      "list_all (\<lambda>q. beneath ''m'' q \<longrightarrow> destination (plan_transforms sample_files ''1'') ''m'' ''o/v1'' q \<noteq> Some ''o/v1/a/R.pkl'')
         (map fst sample_disk)"
    by code_simp+
  have Q: "''m/a/Q.pkl'' \<noteq> ''o/v1''" "\<not> beneath ''o/v1'' ''m/a/Q.pkl''" "map_of sample_disk ''m/a/Q.pkl'' = Some ''y''"
    by code_simp+
  have "map_of d' ''o/v1/a/P.pkl'' \<noteq> None"
    by (rule exact [OF P])
  moreover have "map_of d' ''o/v1/a/R.pkl'' = None"
  proof (rule ccontr)
    assume "map_of d' ''o/v1/a/R.pkl'' \<noteq> None"
    from stale [OF R(1) this] obtain q where q: "beneath ''m'' q" "map_of sample_disk q \<noteq> None"
        "destination (plan_transforms sample_files ''1'') ''m'' ''o/v1'' q = Some ''o/v1/a/R.pkl''"
      by blast
    from q(2) have "q \<in> set (map fst sample_disk)"
      using map_of_eq_None_iff [of sample_disk q] by (simp only: set_map not_not)
    with R(2) q show False
      by (simp only: list_all_iff)
  qed
  moreover have "map_of d' ''m/a/Q.pkl'' = Some ''y''"
    using same [OF Q(1,2)] Q(3) by (simp only:)
  ultimately show ?thesis
    using run by blast
qed

text \<open>A module that a version does not have is not emitted, and modules that are shared by all versions carry no gates,
  or nothing is generated.\<close>

lemma gated_module_not_emitted:
  assumes "transform_at plan in_dir path = Some (plan_file target f)" "has_suffix path ''.pkl''"
    and "df_module_gate f = Some g" "\<not> gate_satisfied g target"
  shows "destination plan in_dir vdir path = None"
  using assms plan_skips [of target f] by (simp add: destination_def Let_def)

lemma shared_modules_ungated:
  assumes "write_version_independent_dirs h files in_dir out d = (Inr (), d')"
  shows "list_all (\<lambda>f. \<not> gated_independent in_dir f) files"
  using assms by (auto simp: write_version_independent_dirs_def fail_with_def list_all_iff find_None_iff split: option.splits)

end
