(* ===== verification/Fixture_Gen.thy ===== *)
theory Fixture_Gen
  imports Schema_Gen
begin

text \<open>
  The generator of the conformance fixtures per Kubernetes version (\<open>src/tools/gen-versioned-testdata/main.go\<close>):
  which fixtures a version gets, and how their imports are rewritten. What \<open>pkl\<close> answers is a parameter; in a run it
  is asked about every fixture once, and about a project it answers the same twice. What is printed is left out, and
  versions hold no dollar sign.
\<close>

subsection \<open>Rewriting\<close>

definition pkl_project_rewrites :: "(string \<times> string) list" where
  "pkl_project_rewrites = [
     (''import('' @ quoted ''../../schema/pkl-main/PklProject'' @ '')'',
      ''import('' @ quoted ''../../../schema/pkl/PklProject'' @ '')''),
     (''import('' @ quoted ''../../examples/formations/PklProject'' @ '')'',
      ''import('' @ quoted ''../../../examples/formations/PklProject'' @ '')'')]"

definition fixture_independent :: "string \<Rightarrow> bool" where
  "fixture_independent d \<longleftrightarrow> d = ''helm''"

definition k8s_import :: "scan list" where
  "k8s_import = [lit ''import'', blanks, lit ([CHR 0x22] @ ''@k8s/'')]"

definition group_char :: "char \<Rightarrow> bool" where
  "group_char c \<longleftrightarrow> char_in CHR ''a'' CHR ''z'' c \<or> char_in CHR ''0'' CHR ''9'' c \<or> c = CHR ''_'' \<or> c = CHR ''-''"

definition fixture_schema_import :: scan where
  "fixture_schema_import = seq (k8s_import @ [one (char_in CHR ''a'' CHR ''z''), many group_char, lit ''/''])"

definition fixture_subresources_import :: scan where
  "fixture_subresources_import = seq (k8s_import @ [lit (''k8s-subresources.pkl'' @ [CHR 0x22])])"

definition fixture_root_import_alias :: scan where
  "fixture_root_import_alias =
     seq (k8s_import @ [lit (''k8s.pkl'' @ [CHR 0x22]), blanks, lit ''as'', blanks, some re_word])"

definition fixture_root_import :: scan where
  "fixture_root_import = seq (k8s_import @ [lit (''k8s.pkl'' @ [CHR 0x22])])"

text \<open>A match is cut after \<open>import "@k8s/\<close>, which holds its first slash.\<close>

definition at_version :: "string \<Rightarrow> (string \<Rightarrow> string) \<Rightarrow> string \<Rightarrow> string" where
  "at_version version f x =
     (case cut_char CHR ''/'' x of None \<Rightarrow> x | Some (a, b) \<Rightarrow> a @ ''/v'' @ version @ ''/'' @ f b)"

definition import_group :: "string \<Rightarrow> string" where
  "import_group x = (case cut_char CHR ''/'' x of None \<Rightarrow> [] | Some (_, b) \<Rightarrow> butlast b)"

definition rewrite_fixture_text :: "string \<Rightarrow> string \<Rightarrow> string" where
  "rewrite_fixture_text version s =
     replace_all fixture_root_import (at_version version id)
       (replace_all fixture_root_import_alias (at_version version id)
         (replace_all fixture_subresources_import (at_version version (\<lambda>_. ''k8s.pkl'' @ [CHR 0x22]))
           (replace_all fixture_schema_import
             (\<lambda>x. if fixture_independent (import_group x) then x else at_version version id x) s)))"

definition rewrite_fixture_schema_imports :: "gen_host \<Rightarrow> string \<Rightarrow> string \<Rightarrow> unit task" where
  "rewrite_fixture_schema_imports h version path =
     and_then (read_file h path) (\<lambda>body.
       let body' = rewrite_fixture_text version body in
       if body' = body then done_with () else write_file h path body')"

definition k8s_version_env_read :: scan where
  "k8s_version_env_read =
     seq [lit (''read?('' @ quoted ''env:FORMAE_K8S_VERSION'' @ '')''), spaces, lit ''??'', spaces, quoted_text]"

fun contains_match :: "scan \<Rightarrow> string \<Rightarrow> bool" where
  "contains_match a [] = matches a []"
| "contains_match a (c # s) = (matches a (c # s) \<or> contains_match a s)"

definition bake_kubernetes_version :: "gen_host \<Rightarrow> string \<Rightarrow> string \<Rightarrow> unit task" where
  "bake_kubernetes_version h path target d =
     (if missing h path d then (Inr (), d)
      else and_then (read_file h path) (\<lambda>body.
        if \<not> contains_match k8s_version_env_read body then done_with ()
        else write_file h path (replace_all k8s_version_env_read (\<lambda>_. quoted target) body)) d)"

definition walk_rewrite_fixtures :: "gen_host \<Rightarrow> string \<Rightarrow> string \<Rightarrow> unit task" where
  "walk_rewrite_fixtures h root version =
     and_then (walk h root) (each (\<lambda>path.
       if \<not> has_suffix path ''.pkl'' then done_with () else rewrite_fixture_schema_imports h version path))"

subsection \<open>Which fixtures a version gets\<close>

record fixture_meta =
  fm_min :: string
  fm_max :: string
  fm_description :: string

definition fixture_split_minor :: "string \<Rightarrow> int \<times> int" where
  "fixture_split_minor v =
     (case splitn_char 1 CHR ''.'' v of
        [a, b] \<Rightarrow> (atoi_value a, atoi_value b)
      | _ \<Rightarrow> (0, 0))"

definition fixture_cmp_minor :: "string \<Rightarrow> string \<Rightarrow> int" where
  "fixture_cmp_minor a b =
     (let (am, an) = fixture_split_minor a; (bm, bn) = fixture_split_minor b in
      if am < bm then -1 else if am > bm then 1 else if an < bn then -1 else if an > bn then 1 else 0)"

definition meta_compatible :: "fixture_meta \<Rightarrow> string \<Rightarrow> bool" where
  "meta_compatible m target \<longleftrightarrow>
     (if fm_min m \<noteq> [] \<and> fixture_cmp_minor target (fm_min m) < 0 then False
      else if fm_max m \<noteq> [] \<and> fixture_cmp_minor target (fm_max m) \<ge> 0 then False
      else True)"

definition shared_fixture_gates :: "(string \<times> fixture_meta) list" where
  "shared_fixture_gates =
     [(''helmrelease'', \<lparr>fm_min = ''1.23'', fm_max = [], fm_description = []\<rparr>),
      (''helmrelease-oci'', \<lparr>fm_min = ''1.23'', fm_max = [], fm_description = []\<rparr>)]"

definition shared_fixture_compatible :: "string \<Rightarrow> string \<Rightarrow> bool" where
  "shared_fixture_compatible file target \<longleftrightarrow>
     (let base = trim_suffix (trim_suffix (trim_suffix file ''.pkl'') ''-update'') ''-replace'' in
      case map_of shared_fixture_gates base of None \<Rightarrow> True | Some m \<Rightarrow> meta_compatible m target)"

subsection \<open>A version's tree\<close>

text \<open>\<open>pk_eval\<close> is what \<open>pkl eval\<close> printed about a fixture when it failed, \<open>pk_meta\<close> its JSON of a \<open>meta.pkl\<close> and
  \<open>pk_resolve\<close> the dependencies \<open>pkl project resolve\<close> writes.\<close>

record pkl =
  pk_eval :: "string \<Rightarrow> string option"
  pk_meta :: "string \<Rightarrow> string res"
  pk_parse :: "string \<Rightarrow> fixture_meta res"
  pk_resolve :: "string \<Rightarrow> string res"

definition read_meta :: "pkl \<Rightarrow> string \<Rightarrow> fixture_meta res" where
  "read_meta pk path =
     (case pk_meta pk path of
        Inl e \<Rightarrow> Inl (wrap_error (''pkl eval '' @ path) e)
      | Inr out \<Rightarrow> (case pk_parse pk out of Inl e \<Rightarrow> Inl (wrap_error (''parse meta '' @ path) e) | Inr m \<Rightarrow> Inr m))"

definition resolve_project :: "pkl \<Rightarrow> string \<Rightarrow> unit task" where
  "resolve_project pk dir d =
     (case pk_resolve pk dir of
        Inl e \<Rightarrow> (Inl e, d)
      | Inr deps \<Rightarrow> (Inr (), AList.update (path_join dir ''PklProject.deps.json'') deps d))"

definition copy_tree :: "gen_host \<Rightarrow> string \<Rightarrow> string \<Rightarrow> unit task" where
  "copy_tree h src dst =
     and_then (walk h src) (each (\<lambda>path.
       if path_base path = ''meta.pkl'' then done_with ()
       else copy_file h path (path_join dst (rel_path src path))))"

definition write_pkl_project :: "gen_host \<Rightarrow> string \<Rightarrow> string \<Rightarrow> unit task" where
  "write_pkl_project h src dst =
     and_then (read_file h src) (\<lambda>body.
       write_file h dst (fold (\<lambda>(old, new) s. literally old new s) pkl_project_rewrites body))"

definition remove_file :: "gen_host \<Rightarrow> string \<Rightarrow> unit task" where
  "remove_file h p d = (case gh_remove h p of Some e \<Rightarrow> (Inl e, d) | None \<Rightarrow> (Inr (), del_key p d))"

definition missing_import :: "string \<Rightarrow> bool" where
  "missing_import out \<longleftrightarrow> contains out ''Cannot find module'' \<or> contains out ''Cannot resolve resource''"

definition stat_dir :: "gen_host \<Rightarrow> string \<Rightarrow> disk \<Rightarrow> bool" where
  "stat_dir h root d \<longleftrightarrow> gh_read h root = None \<and> dir_exists root d"

definition add_shared :: "gen_host \<Rightarrow> string \<Rightarrow> string \<Rightarrow> string \<Rightarrow> unit task" where
  "add_shared h master dst target d =
     (let shared = path_join dst ''shared'' in
      if \<not> stat_dir h (path_join master ''shared'') d then (Inr (), d)
      else and_then (labelled ''copy shared'' (copy_tree h (path_join master ''shared'') shared)) (\<lambda>_.
        and_then (labelled ''rewrite shared fixture imports'' (walk_rewrite_fixtures h shared target)) (\<lambda>_.
          labelled ''bake kubernetesVersion in vars.pkl''
            (bake_kubernetes_version h (path_join shared ''config/vars.pkl'') target))) d)"

definition drop_shared :: "gen_host \<Rightarrow> pkl \<Rightarrow> string \<Rightarrow> string \<Rightarrow> unit task" where
  "drop_shared h pk shared target d =
     (if gh_list h shared \<noteq> None then (Inr (), d)
      else each (\<lambda>(name, is_dir).
          let path = path_join shared name in
          if is_dir \<or> \<not> has_suffix name ''.pkl'' then done_with ()
          else if \<not> shared_fixture_compatible name target then
            labelled (''drop gated fixture '' @ path) (remove_file h path)
          else (case pk_eval pk path of
                  None \<Rightarrow> done_with ()
                | Some out \<Rightarrow> if \<not> missing_import out then done_with ()
                    else labelled (''drop incompatible fixture '' @ path) (remove_file h path)))
        (entries shared d) d)"

definition add_feature :: "gen_host \<Rightarrow> pkl \<Rightarrow> string \<Rightarrow> string \<Rightarrow> string \<Rightarrow> string \<Rightarrow> unit task" where
  "add_feature h pk master dst target name d =
     (let dir = path_join (path_join master ''features'') name; meta = path_join dir ''meta.pkl'' in
      if gh_read h meta \<noteq> None then (Inl (wrap_error (''missing meta.pkl in '' @ dir) (the (gh_read h meta))), d)
      else if missing h meta d then (Inl (wrap_error (''missing meta.pkl in '' @ dir) (not_found meta)), d)
      else case read_meta pk meta of
        Inl e \<Rightarrow> (Inl (wrap_error (''read meta '' @ meta) e), d)
      | Inr m \<Rightarrow>
          if \<not> meta_compatible m target then (Inr (), d)
          else let feature = path_join (path_join dst ''features'') name in
            and_then (labelled (''copy feature '' @ name) (copy_tree h dir feature)) (\<lambda>_.
              labelled (''rewrite feature fixture imports '' @ name) (walk_rewrite_fixtures h feature target)) d)"

definition add_features :: "gen_host \<Rightarrow> pkl \<Rightarrow> string \<Rightarrow> string \<Rightarrow> string \<Rightarrow> unit task" where
  "add_features h pk master dst target d =
     (let src = path_join master ''features'' in
      if gh_list h src \<noteq> None then (Inr (), d)
      else each (\<lambda>(name, is_dir). if \<not> is_dir then done_with () else add_feature h pk master dst target name)
        (entries src d) d)"

definition fixture_target :: "gen_host \<Rightarrow> pkl \<Rightarrow> string \<Rightarrow> string \<Rightarrow> string \<Rightarrow> unit task" where
  "fixture_target h pk master out target =
     (let dst = path_join out (''v'' @ target) in
      and_then (labelled (''clean '' @ dst) (remove_all h dst)) (\<lambda>_.
      and_then (mkdir_all h dst) (\<lambda>_.
      and_then (labelled ''PklProject rewrite''
        (write_pkl_project h (path_join master ''PklProject'') (path_join dst ''PklProject''))) (\<lambda>_.
      and_then (add_shared h master dst target) (\<lambda>_.
      and_then (labelled (''pkl project resolve '' @ dst) (resolve_project pk dst)) (\<lambda>_.
      and_then (drop_shared h pk (path_join dst ''shared'') target) (\<lambda>_.
        add_features h pk master dst target)))))))"

definition generate_fixtures :: "gen_host \<Rightarrow> pkl \<Rightarrow> bool \<Rightarrow> string list \<Rightarrow> string \<Rightarrow> string \<Rightarrow> unit task" where
  "generate_fixtures h pk resolve targets master out =
     (if targets = [] then fail_with (new_error ''usage'')
      else each (\<lambda>target.
        and_then (labelled (''target '' @ target) (fixture_target h pk master out target)) (\<lambda>_.
          if resolve then labelled (''resolve '' @ target) (resolve_project pk (path_join out (''v'' @ target)))
          else done_with ())) targets)"

text \<open>The shapes the code documents for the rewriting of imports; what has been rewritten stays.\<close>

lemma documented_imports:
  "rewrite_fixture_text ''1.30'' (''import '' @ quoted ''@k8s/core/Pod.pkl'') = ''import '' @ quoted ''@k8s/v1.30/core/Pod.pkl''"
  "rewrite_fixture_text ''1.30'' (''import '' @ quoted ''@k8s/helm/Release.pkl'') = ''import '' @ quoted ''@k8s/helm/Release.pkl''"
  "rewrite_fixture_text ''1.30'' (''import '' @ quoted ''@k8s/k8s-subresources.pkl'' @ '' as k'') = ''import '' @ quoted ''@k8s/v1.30/k8s.pkl'' @ '' as k''"
  "rewrite_fixture_text ''1.30'' (''import '' @ quoted ''@k8s/k8s.pkl'' @ '' as k'') = ''import '' @ quoted ''@k8s/v1.30/k8s.pkl'' @ '' as k''"
  "rewrite_fixture_text ''1.30'' (''import '' @ quoted ''@k8s/v1.30/k8s.pkl'' @ '' as k'') = ''import '' @ quoted ''@k8s/v1.30/k8s.pkl'' @ '' as k''"
  by code_simp+

lemma documented_climbs:
  "target_climb (subresources_rename (''import '' @ quoted ''../k8s-subresources.pkl'' @ '' as k'')) = ''import '' @ quoted ''../k8s.pkl'' @ '' as k''"
  "target_climb (subresources_rename (''module m extends '' @ quoted ''target.pkl'')) = ''module m extends '' @ quoted ''../target.pkl''"
  "target_climb (subresources_rename (''module m extends '' @ quoted ''../target.pkl'')) = ''module m extends '' @ quoted ''../target.pkl''"
  by code_simp+

end
