(* ===== verification/Fixture_Tree.thy ===== *)
theory Fixture_Tree
  imports Fixture_Gen "HOL-Library.Sublist"
begin

text \<open>
  Which files the generator of \<open>Fixture_Gen\<close> leaves in the tree of a version. Only the presence of files matters, so
  every task is described by the set of paths it adds or removes.
\<close>

definition paths :: "disk \<Rightarrow> string set" where
  "paths d = fst ` set d"

lemma paths_iff: "p \<in> paths d \<longleftrightarrow> map_of d p \<noteq> None"
  by (simp add: paths_def map_of_eq_None_iff)

lemma paths_update [simp]: "paths (AList.update k v d) = insert k (paths d)"
  by (simp add: paths_def dom_update)

lemma paths_del [simp]: "paths (del_key k d) = paths d - {k}"
  by (simp add: paths_def)

subsection \<open>Tasks that keep the files\<close>

definition same_paths :: "unit task \<Rightarrow> bool" where
  "same_paths m \<longleftrightarrow> (\<forall>d d'. m d = (Inr (), d') \<longrightarrow> paths d' = paths d)"

lemma same_done [simp]: "same_paths (done_with x)"
  by (simp add: same_paths_def)

lemma same_labelled: "same_paths m \<Longrightarrow> same_paths (labelled msg m)"
  by (simp add: same_paths_def)

lemma same_each: "(\<And>x. x \<in> set xs \<Longrightarrow> same_paths (f x)) \<Longrightarrow> same_paths (each f xs)"
proof (induction xs)
  case (Cons x xs)
  then have "same_paths (f x)" "same_paths (each f xs)"
    by simp_all
  then show ?case
    by (auto simp: same_paths_def and_then_Inr)
qed simp

lemma same_rewrite: "same_paths (rewrite_fixture_schema_imports h version path)"
  unfolding same_paths_def rewrite_fixture_schema_imports_def
  by (auto simp: task_rules Let_def paths_iff split: if_splits)

lemma same_walk_rewrite: "same_paths (walk_rewrite_fixtures h root version)"
proof -
  have "same_paths (each (\<lambda>path. if \<not> has_suffix path ''.pkl'' then done_with ()
      else rewrite_fixture_schema_imports h version path) ps)" for ps
    by (rule same_each) (simp add: same_rewrite)
  then show ?thesis
    by (auto simp: same_paths_def walk_rewrite_fixtures_def and_then_Inr walk_def split: option.splits if_splits)
qed

lemma same_bake: "same_paths (bake_kubernetes_version h path target)"
  unfolding same_paths_def bake_kubernetes_version_def
  by (auto simp: task_rules paths_iff split: if_splits)

subsection \<open>Tasks that add or remove files\<close>

definition copies :: "string \<Rightarrow> string \<Rightarrow> disk \<Rightarrow> string set" where
  "copies src dst d =
     (\<lambda>q. path_join dst (rel_path src q)) ` {q \<in> paths d. beneath src q \<and> path_base q \<noteq> ''meta.pkl''}"

lemma each_copy:
  assumes "each (\<lambda>path. if path_base path = ''meta.pkl'' then done_with ()
      else copy_file h path (to path)) qs d = (Inr (), d')"
  shows "paths d' = paths d \<union> to ` {q \<in> set qs. path_base q \<noteq> ''meta.pkl''}"
  using assms
proof (induction qs arbitrary: d)
  case (Cons q qs)
  then obtain d1 where "each (\<lambda>path. if path_base path = ''meta.pkl'' then done_with ()
      else copy_file h path (to path)) qs d1 = (Inr (), d')"
      "paths d1 = paths d \<union> (if path_base q = ''meta.pkl'' then {} else {to q})"
    by (auto simp: and_then_Inr copy_file_Inr split: if_splits)
  with Cons.IH [of d1] show ?case
    by auto
qed simp

lemma copy_tree_Inr:
  assumes "copy_tree h src dst d = (Inr (), d')"
  shows "paths d' = paths d \<union> copies src dst d"
proof -
  have "each (\<lambda>path. if path_base path = ''meta.pkl'' then done_with ()
      else copy_file h path (path_join dst (rel_path src path))) (filter (beneath src) (map fst d)) d = (Inr (), d')"
    using assms by (auto simp: copy_tree_def and_then_Inr walk_def split: option.splits if_splits)
  from each_copy [OF this] show ?thesis
    by (simp add: copies_def paths_def conj_ac)
qed

lemma write_pkl_project_Inr: "write_pkl_project h src dst d = (Inr (), d') \<Longrightarrow> paths d' = insert dst (paths d)"
  by (auto simp: write_pkl_project_def task_rules)

lemma resolve_project_Inr:
  "resolve_project pk dir d = (Inr (), d') \<Longrightarrow> paths d' = insert (path_join dir ''PklProject.deps.json'') (paths d)"
  by (auto simp: resolve_project_def split: sum.splits)

lemma remove_all_Inr:
  "remove_all h root d = (Inr (), d') \<Longrightarrow> paths d' = {p \<in> paths d. p \<noteq> path_clean root \<and> \<not> beneath root p}"
  by (auto simp: remove_all_def paths_def split: option.splits)

lemma add_shared_Inr:
  assumes "add_shared h master dst target d = (Inr (), d')" "gh_read h = (\<lambda>_. None)"
  shows "paths d' = paths d \<union> copies (path_join master ''shared'') (path_join dst ''shared'') d"
proof (cases "dir_exists (path_join master ''shared'') d")
  case True
  with assms obtain d1 d2 where "copy_tree h (path_join master ''shared'') (path_join dst ''shared'') d = (Inr (), d1)"
      "walk_rewrite_fixtures h (path_join dst ''shared'') target d1 = (Inr (), d2)"
      "bake_kubernetes_version h (path_join (path_join dst ''shared'') ''config/vars.pkl'') target d2 = (Inr (), d')"
    by (auto simp: add_shared_def stat_dir_def and_then_Inr Let_def)
  then show ?thesis
    using copy_tree_Inr same_walk_rewrite same_bake unfolding same_paths_def by metis
next
  case False
  then have "copies (path_join master ''shared'') (path_join dst ''shared'') d = {}"
    by (auto simp: copies_def dir_exists_def paths_def)
  with False assms show ?thesis
    by (simp add: add_shared_def stat_dir_def Let_def)
qed

definition unfit :: "pkl \<Rightarrow> string \<Rightarrow> string \<Rightarrow> string \<Rightarrow> bool" where
  "unfit pk shared target name \<longleftrightarrow>
     has_suffix name ''.pkl'' \<and>
     (\<not> shared_fixture_compatible name target \<or>
      (case pk_eval pk (path_join shared name) of None \<Rightarrow> False | Some out \<Rightarrow> missing_import out))"

lemma each_remove:
  assumes "each (\<lambda>(name, is_dir).
          let path = path_join shared name in
          if is_dir \<or> \<not> has_suffix name ''.pkl'' then done_with ()
          else if \<not> shared_fixture_compatible name target then
            labelled (''drop gated fixture '' @ path) (remove_file h path)
          else (case pk_eval pk path of
                  None \<Rightarrow> done_with ()
                | Some out \<Rightarrow> if \<not> missing_import out then done_with ()
                    else labelled (''drop incompatible fixture '' @ path) (remove_file h path))) es d = (Inr (), d')"
    (is "each ?f es d = _")
  shows "paths d' = paths d - {path_join shared name |name. (name, False) \<in> set es \<and> unfit pk shared target name}"
  using assms
proof (induction es arbitrary: d)
  case (Cons e es)
  obtain name is_dir where e: "e = (name, is_dir)"
    by (cases e)
  from Cons.prems obtain d1 where d1: "?f e d = (Inr (), d1)" "each ?f es d1 = (Inr (), d')"
    by (auto simp: and_then_Inr)
  have "paths d1 = paths d - (if \<not> is_dir \<and> unfit pk shared target name then {path_join shared name} else {})"
    using d1(1) unfolding e
    by (auto simp: unfit_def remove_file_def Let_def split: if_splits option.splits)
  with Cons.IH [OF d1(2)] e show ?case
    by auto
qed simp

lemma entries_file: "(name, False) \<in> set (entries root d) \<longleftrightarrow>
    (\<exists>p \<in> paths d. beneath root p \<and> rel_path root p = name \<and> in_root name)"
proof -
  have parts: "(hd (split_char CHR ''/'' q), tl (split_char CHR ''/'' q) \<noteq> []) = (name, False) \<longleftrightarrow> q = name \<and> in_root name" for q
  proof -
    have "hd (split_char CHR ''/'' q) = name \<and> tl (split_char CHR ''/'' q) = [] \<longleftrightarrow> split_char CHR ''/'' q = [name]"
      by (cases "split_char CHR ''/'' q") auto
    then show ?thesis
      by (auto simp: split_char_eq_one in_root_def)
  qed
  have "(name, False) \<in> set (entries root d) \<longleftrightarrow>
      (\<exists>p \<in> paths d. beneath root p \<and> (hd (split_char CHR ''/'' (rel_path root p)), tl (split_char CHR ''/'' (rel_path root p)) \<noteq> []) = (name, False))"
    unfolding entries_def Let_def paths_def by (auto simp: image_iff)
  then show ?thesis
    unfolding parts by blast
qed

lemma drop_shared_Inr:
  assumes "drop_shared h pk shared target d = (Inr (), d')" "gh_list h = (\<lambda>_. None)"
    and "plain_path shared" "\<forall>p \<in> paths d. plain_path p"
  shows "paths d' = {p \<in> paths d. \<not> (beneath shared p \<and> in_root (rel_path shared p) \<and> unfit pk shared target (rel_path shared p))}"
proof -
  have "each (\<lambda>(name, is_dir).
          let path = path_join shared name in
          if is_dir \<or> \<not> has_suffix name ''.pkl'' then done_with ()
          else if \<not> shared_fixture_compatible name target then
            labelled (''drop gated fixture '' @ path) (remove_file h path)
          else (case pk_eval pk path of
                  None \<Rightarrow> done_with ()
                | Some out \<Rightarrow> if \<not> missing_import out then done_with ()
                    else labelled (''drop incompatible fixture '' @ path) (remove_file h path))) (entries shared d) d = (Inr (), d')"
    using assms(1,2) by (simp add: drop_shared_def)
  from each_remove [OF this]
  have "paths d' = paths d - {path_join shared name |name. (name, False) \<in> set (entries shared d) \<and> unfit pk shared target name}" .
  moreover have "path_join shared (rel_path shared p) = p" if "p \<in> paths d" "beneath shared p" for p
    using that assms(3,4) by (auto simp: beneath_plain rel_path_plain plain_path_join path_join_plain)
  moreover have "{path_join shared name |name. (name, False) \<in> set (entries shared d) \<and> unfit pk shared target name} =
      (\<lambda>p. path_join shared (rel_path shared p)) `
        {p \<in> paths d. beneath shared p \<and> in_root (rel_path shared p) \<and> unfit pk shared target (rel_path shared p)}"
    unfolding entries_file by blast
  ultimately show ?thesis
    by auto
qed

subsection \<open>The tree of a version\<close>

definition disjoint_dirs :: "string \<Rightarrow> string \<Rightarrow> bool" where
  "disjoint_dirs a b \<longleftrightarrow> a \<noteq> b \<and> \<not> beneath a b \<and> \<not> beneath b a"

lemma disjoint_dirsD:
  assumes "disjoint_dirs a b" "plain_path a" "plain_path b" "beneath a p"
  shows "\<not> beneath b p"
proof
  assume "beneath b p"
  with assms(3) obtain r where "p = (b @ ''/'') @ r"
    by (auto simp: beneath_plain)
  moreover from assms(2,4) obtain q where "p = (a @ ''/'') @ q"
    by (auto simp: beneath_plain)
  ultimately have "prefix (a @ ''/'') p" "prefix (b @ ''/'') p"
    by (metis prefixI)+
  then have "prefix (a @ ''/'') (b @ ''/'') \<or> prefix (b @ ''/'') (a @ ''/'')"
    by (rule prefix_same_cases)
  then obtain x where "b @ ''/'' = a @ ''/'' @ x \<or> a @ ''/'' = b @ ''/'' @ x"
    by (auto simp: prefix_def)
  then have "a = b \<or> (\<exists>y. b = a @ CHR ''/'' # y) \<or> (\<exists>y. a = b @ CHR ''/'' # y)"
    by (cases x rule: rev_cases) auto
  then show False
    using assms(1-3) by (auto simp: disjoint_dirs_def beneath_plain plain_path_join) (use plain_path_nonempty in blast)+
qed

lemma copies_plain:
  assumes "plain_path src" "plain_path dst" "\<forall>p \<in> paths d. plain_path p"
  shows "copies src dst d = {dst @ CHR ''/'' # r |r. src @ CHR ''/'' # r \<in> paths d \<and> path_base r \<noteq> ''meta.pkl''}"
proof -
  have base: "path_base (src @ CHR ''/'' # r) = path_base r" for r
    by (simp add: path_base_def split_char_append)
  have "path_join dst (rel_path src (src @ CHR ''/'' # r)) = dst @ CHR ''/'' # r" if "src @ CHR ''/'' # r \<in> paths d" for r
    using that assms plain_path_join [of src r] by (simp add: rel_path_plain path_join_plain)
  moreover have "beneath src (src @ CHR ''/'' # r)" if "src @ CHR ''/'' # r \<in> paths d" for r
    using that assms plain_path_join [of src r] plain_path_nonempty by (auto simp: beneath_plain)
  ultimately show ?thesis
    using assms(1) base by (auto simp: copies_def beneath_plain image_iff) metis+
qed

lemma copies_cong:
  "{p \<in> paths d. beneath src p} = {p \<in> paths d'. beneath src p} \<Longrightarrow> copies src dst d = copies src dst d'"
  unfolding copies_def by (rule arg_cong [where f = "image _"]) blast

definition feature_dir :: "string \<Rightarrow> string \<Rightarrow> string" where
  "feature_dir root name = root @ ''/features/'' @ name"

definition chosen_feature :: "pkl \<Rightarrow> string \<Rightarrow> string \<Rightarrow> string \<Rightarrow> bool" where
  "chosen_feature pk master target name \<longleftrightarrow>
     (case read_meta pk (feature_dir master name @ ''/meta.pkl'') of Inl e \<Rightarrow> False | Inr m \<Rightarrow> meta_compatible m target)"

lemma plain_names: "plain_path ''features''" "plain_path ''shared''" "plain_path ''meta.pkl''" "plain_path ''PklProject''"
    "plain_path ''PklProject.deps.json''"
  by code_simp+

lemma feature_join:
  assumes "plain_path root" "plain_path name"
  shows "path_join (path_join root ''features'') name = feature_dir root name" "plain_path (feature_dir root name)"
proof -
  have "plain_path (root @ CHR ''/'' # ''features'')" "plain_path (''features'' @ CHR ''/'' # name)"
    using assms plain_names(1) by (simp_all only: plain_path_join simp_thms)
  then show "path_join (path_join root ''features'') name = feature_dir root name"
    using assms plain_names(1) path_join_plain [of "root @ CHR ''/'' # ''features''" name]
    by (simp add: path_join_plain feature_dir_def)
  show "plain_path (feature_dir root name)"
    using assms plain_path_join [of root "''features/'' @ name"] plain_path_join [of "''features''" name] plain_names(1)
    by (simp add: feature_dir_def)
qed

lemma add_feature_Inr:
  assumes "add_feature h pk master dst target name d = (Inr (), d')" "gh_read h = (\<lambda>_. None)"
    and "plain_path master" "plain_path dst" "plain_path name"
  shows "paths d' = paths d \<union>
    (if chosen_feature pk master target name then copies (feature_dir master name) (feature_dir dst name) d else {})"
proof -
  have dir: "path_join (path_join master ''features'') name = feature_dir master name"
      "path_join (path_join dst ''features'') name = feature_dir dst name"
      "path_join (feature_dir master name) ''meta.pkl'' = feature_dir master name @ ''/meta.pkl''"
    using assms(3-5) feature_join plain_names(3) by (simp_all add: path_join_plain)
  from assms(1,2) obtain m where m: "read_meta pk (feature_dir master name @ ''/meta.pkl'') = Inr m"
    unfolding add_feature_def Let_def dir by (auto split: if_splits sum.splits)
  show ?thesis
  proof (cases "meta_compatible m target")
    case True
    with assms(1,2) m obtain d1 where "copy_tree h (feature_dir master name) (feature_dir dst name) d = (Inr (), d1)"
        "walk_rewrite_fixtures h (feature_dir dst name) target d1 = (Inr (), d')"
      unfolding add_feature_def Let_def dir by (auto simp: and_then_Inr split: if_splits)
    then have "paths d' = paths d \<union> copies (feature_dir master name) (feature_dir dst name) d"
      using copy_tree_Inr same_walk_rewrite unfolding same_paths_def by metis
    with True m show ?thesis
      by (simp add: chosen_feature_def)
  next
    case False
    with assms(1,2) m have "d' = d"
      unfolding add_feature_def Let_def dir by (auto split: if_splits)
    with False m show ?thesis
      by (simp add: chosen_feature_def)
  qed
qed

lemma same_masters:
  assumes "disjoint_dirs master vdir" "plain_path master" "plain_path vdir" "paths d' = paths d \<union> copies src dst e"
    and "\<And>p. p \<in> copies src dst e \<Longrightarrow> beneath vdir p"
  shows "{p \<in> paths d'. beneath master p} = {p \<in> paths d. beneath master p}"
  using assms disjoint_dirsD [OF assms(1-3)] by blast

lemma beneath_trans_plain:
  "\<lbrakk>plain_path a; plain_path (a @ CHR ''/'' # b); beneath (a @ CHR ''/'' # b) p\<rbrakk> \<Longrightarrow> beneath a p"
  by (auto simp: beneath_plain)

lemma beneath_feature:
  assumes "plain_path root" "plain_path name" "beneath (feature_dir root name) p"
  shows "beneath root p"
  using assms feature_join(2) [OF assms(1,2)] beneath_trans_plain [of root "''features/'' @ name" p]
  by (simp add: feature_dir_def)

lemma each_feature:
  assumes "each (\<lambda>(name, is_dir). if \<not> is_dir then done_with () else add_feature h pk master dst target name) es d = (Inr (), d')"
    and "gh_read h = (\<lambda>_. None)" "plain_path master" "plain_path dst" "disjoint_dirs master dst"
    and "\<forall>p \<in> paths d. plain_path p" "\<forall>(name, is_dir) \<in> set es. plain_path name"
  shows "paths d' = paths d \<union> \<Union> {copies (feature_dir master name) (feature_dir dst name) d |name.
     (name, True) \<in> set es \<and> chosen_feature pk master target name}"
  using assms(1,6,7)
proof (induction es arbitrary: d)
  case (Cons e es)
  obtain name is_dir where e: "e = (name, is_dir)"
    by (cases e)
  with Cons.prems(3) have name: "plain_path name"
    by simp
  let ?new = "if is_dir \<and> chosen_feature pk master target name then copies (feature_dir master name) (feature_dir dst name) d else {}"
  from Cons.prems(1) obtain d1 where step:
      "(if \<not> is_dir then done_with () else add_feature h pk master dst target name) d = (Inr (), d1)"
      "each (\<lambda>(name, is_dir). if \<not> is_dir then done_with () else add_feature h pk master dst target name) es d1 = (Inr (), d')"
    unfolding e each.simps and_then_Inr prod.case by auto
  have "paths d1 = paths d \<union> ?new"
    using step(1) add_feature_Inr [OF _ assms(2-4) name] by (cases is_dir) auto
  note d1 = this step(2)
  have copies: "copies (feature_dir master name) (feature_dir dst name) d =
      {feature_dir dst name @ CHR ''/'' # r |r. feature_dir master name @ CHR ''/'' # r \<in> paths d \<and> path_base r \<noteq> ''meta.pkl''}"
    by (rule copies_plain [OF feature_join(2) [OF assms(3) name] feature_join(2) [OF assms(4) name] Cons.prems(2)])
  have new: "plain_path p \<and> beneath dst p" if "p \<in> ?new" for p
  proof -
    from that copies obtain r where r: "p = feature_dir dst name @ CHR ''/'' # r" "feature_dir master name @ CHR ''/'' # r \<in> paths d"
      by (auto split: if_splits)
    then have "plain_path r" "plain_path p"
      using Cons.prems(2) feature_join(2) [OF assms(4) name] plain_path_join by auto
    moreover have "beneath dst p"
      using r(1) assms(4) by (simp add: beneath_plain feature_dir_def)
    ultimately show ?thesis
      by simp
  qed
  have IH: "paths d' = paths d1 \<union> \<Union> {copies (feature_dir master name) (feature_dir dst name) d1 |name.
      (name, True) \<in> set es \<and> chosen_feature pk master target name}"
    by (rule Cons.IH [OF d1(2)]) (use Cons.prems(2,3) d1(1) new in auto)
  have "copies (feature_dir master n) (feature_dir dst n) d1 = copies (feature_dir master n) (feature_dir dst n) d"
    if "(n, True) \<in> set es" for n
  proof (rule copies_cong)
    have "plain_path n"
      using Cons.prems(3) that by auto
    then have "p \<notin> ?new" if "beneath (feature_dir master n) p" for p
      using new disjoint_dirsD [OF assms(5,3,4) beneath_feature [OF assms(3) _ that]] by blast
    then show "{p \<in> paths d1. beneath (feature_dir master n) p} = {p \<in> paths d. beneath (feature_dir master n) p}"
      using d1(1) by auto
  qed
  with IH d1(1) e show ?case
    by auto
qed simp

lemma entries_dir: "(name, True) \<in> set (entries root d) \<longleftrightarrow>
    (\<exists>p \<in> paths d. \<exists>r. beneath root p \<and> rel_path root p = name @ CHR ''/'' # r \<and> in_root name)"
proof -
  have parts: "(hd (split_char CHR ''/'' q), tl (split_char CHR ''/'' q) \<noteq> []) = (name, True) \<longleftrightarrow>
      (\<exists>r. q = name @ CHR ''/'' # r \<and> in_root name)" for q
  proof (cases "cut_char CHR ''/'' q")
    case None
    then show ?thesis
      by auto
  next
    case (Some ab)
    then obtain a b where ab: "q = a @ CHR ''/'' # b" "CHR ''/'' \<notin> set a"
      using cut_char_SomeD by (cases ab) blast
    have "a = name" if "a @ CHR ''/'' # b = name @ CHR ''/'' # r" "CHR ''/'' \<notin> set name" for r
      using that ab(2) by (metis cut_char_append option.inject prod.inject)
    with ab show ?thesis
      by (auto simp: in_root_def)
  qed
  have "(name, True) \<in> set (entries root d) \<longleftrightarrow>
      (\<exists>p \<in> paths d. beneath root p \<and> (hd (split_char CHR ''/'' (rel_path root p)), tl (split_char CHR ''/'' (rel_path root p)) \<noteq> []) = (name, True))"
    unfolding entries_def Let_def paths_def by (auto simp: image_iff)
  then show ?thesis
    unfolding parts by blast
qed

text \<open>The shared fixtures and the files of features that a version gets.\<close>

definition selected_shared :: "pkl \<Rightarrow> string \<Rightarrow> string \<Rightarrow> string \<Rightarrow> disk \<Rightarrow> string set" where
  "selected_shared pk master dst target d =
     {dst @ ''/shared/'' @ r |r. master @ ''/shared/'' @ r \<in> paths d \<and> path_base r \<noteq> ''meta.pkl'' \<and>
        \<not> (in_root r \<and> unfit pk (dst @ ''/shared'') target r)}"

definition selected_features :: "pkl \<Rightarrow> string \<Rightarrow> string \<Rightarrow> string \<Rightarrow> disk \<Rightarrow> string set" where
  "selected_features pk master dst target d =
     {feature_dir dst name @ ''/'' @ r |name r. feature_dir master name @ ''/'' @ r \<in> paths d \<and> in_root name \<and>
        path_base r \<noteq> ''meta.pkl'' \<and> chosen_feature pk master target name}"

lemma fixture_target_steps:
  assumes "fixture_target h pk master out target d = (Inr (), d')" "dst = path_join out (''v'' @ target)"
    and "plain_path dst" "plain_path master" "\<forall>p \<in> paths d. plain_path p"
    and faults: "gh_read h = (\<lambda>_. None)" "gh_list h = (\<lambda>_. None)"
  obtains d2 d5 where
    "paths d2 = insert (dst @ ''/PklProject'') {p \<in> paths d. p \<noteq> dst \<and> \<not> beneath dst p}"
    "paths d5 = {p \<in> paths d2 \<union> copies (master @ ''/shared'') (dst @ ''/shared'') d2 \<union> {dst @ ''/PklProject.deps.json''}.
       \<not> (beneath (dst @ ''/shared'') p \<and> in_root (rel_path (dst @ ''/shared'') p) \<and>
          unfit pk (dst @ ''/shared'') target (rel_path (dst @ ''/shared'') p))}"
    "add_features h pk master dst target d5 = (Inr (), d')"
    "\<forall>p \<in> paths d5. plain_path p"
proof -
  have joins: "path_join dst ''PklProject'' = dst @ ''/PklProject''" "path_join dst ''shared'' = dst @ ''/shared''"
      "path_join dst ''PklProject.deps.json'' = dst @ ''/PklProject.deps.json''" "path_join master ''shared'' = master @ ''/shared''"
    using assms(3,4) plain_names by (simp_all add: path_join_plain)
  have plains: "plain_path (dst @ ''/PklProject'')" "plain_path (dst @ ''/shared'')" "plain_path (master @ ''/shared'')"
      "plain_path (dst @ ''/PklProject.deps.json'')"
    using assms(3,4) plain_names plain_path_join [of dst] plain_path_join [of master "''shared''"] by simp_all
  from assms(1) [unfolded fixture_target_def Let_def, folded assms(2)] obtain d1 d2 d3 d4 d5 where steps:
      "remove_all h dst d = (Inr (), d1)"
      "write_pkl_project h (path_join master ''PklProject'') (path_join dst ''PklProject'') d1 = (Inr (), d2)"
      "add_shared h master dst target d2 = (Inr (), d3)"
      "resolve_project pk dst d3 = (Inr (), d4)"
      "drop_shared h pk (path_join dst ''shared'') target d4 = (Inr (), d5)"
      "add_features h pk master dst target d5 = (Inr (), d')"
    by (auto simp: and_then_Inr mkdir_all_def split: option.splits)
  have p2: "paths d2 = insert (dst @ ''/PklProject'') {p \<in> paths d. p \<noteq> dst \<and> \<not> beneath dst p}"
    using write_pkl_project_Inr [OF steps(2)] remove_all_Inr [OF steps(1)] assms(3) joins by (simp add: path_clean_plain)
  then have plain2: "\<forall>p \<in> paths d2. plain_path p"
    using assms(5) plains by auto
  have copies: "copies (master @ ''/shared'') (dst @ ''/shared'') d2 =
      {dst @ ''/shared'' @ CHR ''/'' # r |r. master @ ''/shared'' @ CHR ''/'' # r \<in> paths d2 \<and> path_base r \<noteq> ''meta.pkl''}"
    using copies_plain [OF plains(3,2) plain2] by simp
  have p4: "paths d4 = paths d2 \<union> copies (master @ ''/shared'') (dst @ ''/shared'') d2 \<union> {dst @ ''/PklProject.deps.json''}"
    using resolve_project_Inr [OF steps(4)] add_shared_Inr [OF steps(3) faults(1)] joins by auto
  have "plain_path (dst @ ''/shared'' @ CHR ''/'' # r)" if "master @ ''/shared'' @ CHR ''/'' # r \<in> paths d2" for r
    using that plain2 plains(2) plain_path_join [of "dst @ ''/shared''" r] plain_path_join [of "master @ ''/shared''" r] by simp
  with plain2 plains(4) p4 copies have plain4: "\<forall>p \<in> paths d4. plain_path p"
    by auto
  note p5 = drop_shared_Inr [OF steps(5) faults(2) plains(2) [folded joins(2)] plain4, unfolded joins]
  show ?thesis
    by (rule that [OF p2 p5 [unfolded p4] steps(6)]) (use plain4 p5 in auto)
qed

lemma entries_plain:
  assumes "(name, is_dir) \<in> set (entries root d)" "plain_path root" "\<forall>p \<in> paths d. plain_path p"
  shows "plain_path name"
proof -
  have rel: "plain_path (rel_path root p)" if "p \<in> paths d" "beneath root p" for p
    using that assms(2,3) by (auto simp: beneath_plain rel_path_plain plain_path_join)
  show ?thesis
  proof (cases is_dir)
    case True
    with assms(1) obtain p r where "p \<in> paths d" "beneath root p" "rel_path root p = name @ CHR ''/'' # r"
      by (auto simp: entries_dir)
    with rel [of p] show ?thesis
      by (simp add: plain_path_join)
  next
    case False
    with assms(1) obtain p where "p \<in> paths d" "beneath root p" "rel_path root p = name"
      by (auto simp: entries_file)
    with rel [of p] show ?thesis
      by simp
  qed
qed

lemma add_features_Inr:
  assumes "add_features h pk master dst target d = (Inr (), d')"
    and "gh_read h = (\<lambda>_. None)" "gh_list h = (\<lambda>_. None)"
    and "plain_path master" "plain_path dst" "disjoint_dirs master dst" "\<forall>p \<in> paths d. plain_path p"
  shows "paths d' = paths d \<union> selected_features pk master dst target d"
proof -
  have src: "path_join master ''features'' = master @ ''/features''" "plain_path (master @ ''/features'')"
    using assms(4) plain_names(1) plain_path_join [of master "''features''"] by (simp_all add: path_join_plain)
  let ?es = "entries (master @ ''/features'') d"
  have "each (\<lambda>(name, is_dir). if \<not> is_dir then done_with () else add_feature h pk master dst target name) ?es d = (Inr (), d')"
    using assms(1,3) by (simp add: add_features_def src(1))
  then have paths: "paths d' = paths d \<union> \<Union> {copies (feature_dir master name) (feature_dir dst name) d |name.
      (name, True) \<in> set ?es \<and> chosen_feature pk master target name}"
    using entries_plain [OF _ src(2) assms(7)] by (intro each_feature [OF _ assms(2,4-7)]) auto
  have copies: "copies (feature_dir master name) (feature_dir dst name) d =
      {feature_dir dst name @ CHR ''/'' # r |r. feature_dir master name @ CHR ''/'' # r \<in> paths d \<and> path_base r \<noteq> ''meta.pkl''}"
    if "(name, True) \<in> set ?es" for name
    using entries_plain [OF that src(2) assms(7)]
    by (intro copies_plain feature_join(2) assms(4,5,7))
  have dir: "(name, True) \<in> set ?es \<longleftrightarrow> in_root name \<and> (\<exists>r. feature_dir master name @ CHR ''/'' # r \<in> paths d)" for name
  proof -
    have "beneath (master @ ''/features'') (feature_dir master name @ CHR ''/'' # r) \<and>
        rel_path (master @ ''/features'') (feature_dir master name @ CHR ''/'' # r) = name @ CHR ''/'' # r" for r
      using src(2) rel_path_plain [OF src(2), of "name @ CHR ''/'' # r"]
      by (simp add: beneath_plain feature_dir_def)
    moreover have "p = feature_dir master name @ CHR ''/'' # r"
      if "beneath (master @ ''/features'') p" "rel_path (master @ ''/features'') p = name @ CHR ''/'' # r" for p r
      using that src(2) rel_path_plain [OF src(2)] by (auto simp: beneath_plain feature_dir_def)
    ultimately show ?thesis
      unfolding entries_dir by metis
  qed
  have "\<Union> {copies (feature_dir master name) (feature_dir dst name) d |name.
      (name, True) \<in> set ?es \<and> chosen_feature pk master target name} = selected_features pk master dst target d"
    (is "?union = _")
  proof (rule set_eqI)
    fix x
    have "x \<in> ?union \<longleftrightarrow> (\<exists>name. (name, True) \<in> set ?es \<and> chosen_feature pk master target name \<and>
        x \<in> copies (feature_dir master name) (feature_dir dst name) d)"
      by blast
    also have "\<dots> \<longleftrightarrow> (\<exists>name. (name, True) \<in> set ?es \<and> chosen_feature pk master target name \<and>
        (\<exists>r. x = feature_dir dst name @ CHR ''/'' # r \<and> feature_dir master name @ CHR ''/'' # r \<in> paths d \<and>
           path_base r \<noteq> ''meta.pkl''))"
      by (intro ex_cong1 conj_cong refl) (simp only: copies mem_Collect_eq)
    also have "\<dots> \<longleftrightarrow> x \<in> selected_features pk master dst target d"
      unfolding dir selected_features_def append_Cons append_Nil by blast
    finally show "x \<in> ?union \<longleftrightarrow> x \<in> selected_features pk master dst target d" .
  qed
  with paths show ?thesis
    by simp
qed

lemma shared_plain:
  assumes "plain_path root"
  shows "plain_path (root @ ''/shared'')" "\<And>p. beneath (root @ ''/shared'') p \<Longrightarrow> beneath root p"
  using assms plain_names(2) plain_path_join [of root "''shared''"] by (auto simp: beneath_plain)

text \<open>The disk after the project was written still has the master fixtures.\<close>

lemma masters_kept:
  assumes "disjoint_dirs master dst" "plain_path master" "plain_path dst"
    and "paths d2 = insert (dst @ ''/PklProject'') {p \<in> paths d. p \<noteq> dst \<and> \<not> beneath dst p}" "beneath master p"
  shows "p \<in> paths d2 \<longleftrightarrow> p \<in> paths d"
proof -
  have "p \<noteq> dst \<and> \<not> beneath dst p"
    using assms(1,5) disjoint_dirsD [OF assms(1-3,5)] by (auto simp: disjoint_dirs_def)
  moreover have "beneath dst (dst @ ''/PklProject'')"
    using assms(3) by (simp add: beneath_plain)
  ultimately show ?thesis
    using assms(4) by auto
qed

lemma shared_copies:
  assumes "plain_path master" "plain_path dst" "\<forall>p \<in> paths d2. plain_path p"
    and kept: "\<And>p. beneath master p \<Longrightarrow> p \<in> paths d2 \<longleftrightarrow> p \<in> paths d"
  shows "copies (master @ ''/shared'') (dst @ ''/shared'') d2 =
    {dst @ ''/shared/'' @ r |r. master @ ''/shared/'' @ r \<in> paths d \<and> path_base r \<noteq> ''meta.pkl''}"
proof -
  have "master @ ''/shared/'' @ r \<in> paths d2 \<longleftrightarrow> master @ ''/shared/'' @ r \<in> paths d" for r
    by (rule kept) (simp add: beneath_plain assms(1))
  then show ?thesis
    using copies_plain [OF shared_plain(1) [OF assms(1)] shared_plain(1) [OF assms(2)] assms(3)] by simp
qed

lemma kept_shared:
  assumes copied: "copies src (dst @ ''/shared'') d2 =
      {dst @ ''/shared/'' @ r |r. master @ ''/shared/'' @ r \<in> paths d \<and> path_base r \<noteq> ''meta.pkl''}"
    and dst: "plain_path dst"
  shows "{p \<in> copies src (dst @ ''/shared'') d2. \<not> (in_root (rel_path (dst @ ''/shared'') p) \<and>
      unfit pk (dst @ ''/shared'') target (rel_path (dst @ ''/shared'') p))} = selected_shared pk master dst target d"
proof -
  have rel: "rel_path (dst @ ''/shared'') (dst @ ''/shared/'' @ r) = r" for r
    using rel_path_plain [OF shared_plain(1) [OF dst]] by simp
  have "{p \<in> {f r |r. Q r}. \<not> (in_root (g p) \<and> U (g p))} = {f r |r. Q r \<and> \<not> (in_root r \<and> U r)}"
    if "\<And>r. g (f r) = r" for f g :: "string \<Rightarrow> string" and Q U
    using that by auto
  from this [where f = "\<lambda>r. dst @ ''/shared/'' @ r" and g = "rel_path (dst @ ''/shared'')"
      and Q = "\<lambda>r. master @ ''/shared/'' @ r \<in> paths d \<and> path_base r \<noteq> ''meta.pkl''", OF rel]
  show ?thesis
    unfolding copied selected_shared_def conj_assoc .
qed

lemma shared_copies_beneath:
  assumes copied: "copies src (dst @ ''/shared'') d2 =
      {dst @ ''/shared/'' @ r |r. master @ ''/shared/'' @ r \<in> paths d \<and> path_base r \<noteq> ''meta.pkl''}"
    and "plain_path master" "plain_path dst" "\<forall>p \<in> paths d. plain_path p" "p \<in> copies src (dst @ ''/shared'') d2"
  shows "beneath (dst @ ''/shared'') p"
proof -
  from assms(5) obtain r where r: "p = (dst @ ''/shared'') @ CHR ''/'' # r" "(master @ ''/shared'') @ CHR ''/'' # r \<in> paths d"
    unfolding copied by auto
  with assms(4) have "plain_path r"
    using plain_path_join by blast
  then show ?thesis
    using r(1) shared_plain(1) [OF assms(3)] plain_path_nonempty by (auto simp: beneath_plain)
qed

text \<open>What the shared fixtures leave on disk before the features are added.\<close>

lemma shared_tree:
  assumes p2: "paths d2 = insert (dst @ ''/PklProject'') rest"
    and p5: "paths d5 = {p \<in> paths d2 \<union> cs \<union> {dst @ ''/PklProject.deps.json''}.
       \<not> (beneath (dst @ ''/shared'') p \<and> gone p)}"
    and below: "\<And>p. p \<in> cs \<Longrightarrow> beneath (dst @ ''/shared'') p"
    and rest: "\<And>p. p \<in> rest \<Longrightarrow> \<not> beneath dst p" and dst: "plain_path dst"
  shows "paths d5 = rest \<union> {dst @ ''/PklProject'', dst @ ''/PklProject.deps.json''} \<union> {p \<in> cs. \<not> gone p}"
proof -
  have "\<not> beneath (dst @ ''/shared'') p" if "p \<in> rest \<or> p \<in> {dst @ ''/PklProject'', dst @ ''/PklProject.deps.json''}" for p
    using that rest shared_plain [OF dst] by (auto simp: beneath_plain)
  then show ?thesis
    unfolding p5 p2 using below by auto
qed

lemma selected_beneath:
  assumes "plain_path dst" "p \<in> selected_shared pk master dst target d \<or> p \<in> selected_features pk master dst target d \<or>
    p \<in> {dst @ ''/PklProject'', dst @ ''/PklProject.deps.json''}"
  shows "beneath dst p"
  using assms by (auto simp: selected_shared_def selected_features_def feature_dir_def beneath_plain)

lemma selected_features_kept:
  assumes "plain_path master" and kept: "\<And>p. beneath master p \<Longrightarrow> p \<in> paths d5 \<longleftrightarrow> p \<in> paths d"
  shows "selected_features pk master dst target d5 = selected_features pk master dst target d"
proof -
  have "feature_dir master name @ ''/'' @ r \<in> paths d5 \<longleftrightarrow> feature_dir master name @ ''/'' @ r \<in> paths d" for name r
    by (rule kept) (simp add: beneath_plain assms(1) feature_dir_def)
  then show ?thesis
    by (simp only: selected_features_def)
qed


definition fixture_host :: gen_host where
  "fixture_host = \<lparr>gh_read = \<lambda>_. None, gh_write = \<lambda>_. None, gh_remove = \<lambda>_. None, gh_list = \<lambda>_. None, gh_shown = \<lambda>p. p\<rparr>"

definition fixture_pkl :: pkl where
  "fixture_pkl = \<lparr>pk_eval = \<lambda>_. None, pk_meta = \<lambda>_. Inr [],
     pk_parse = \<lambda>_. Inr \<lparr>fm_min = [], fm_max = [], fm_description = []\<rparr>, pk_resolve = \<lambda>_. Inr []\<rparr>"

definition fixture_disk :: disk where
  "fixture_disk = [(''m/PklProject'', ''p''), (''m/shared/a.pkl'', ''a''), (''m/shared/helmrelease.pkl'', ''h''),
     (''m/features/f/meta.pkl'', ''t''), (''m/features/f/x.pkl'', ''x'')]"

lemma sample_shared:
  "''o/v1.22/shared/a.pkl'' \<in> selected_shared fixture_pkl ''m'' ''o/v1.22'' ''1.22'' fixture_disk"
proof -
  have "''m/shared/a.pkl'' \<in> paths fixture_disk \<and> path_base ''a.pkl'' \<noteq> ''meta.pkl'' \<and>
      \<not> unfit fixture_pkl (''o/v1.22'' @ ''/shared'') ''1.22'' ''a.pkl''"
    by code_simp
  then show ?thesis
    unfolding selected_shared_def by (intro CollectI exI [of _ "''a.pkl''"]) simp
qed

lemma sample_feature:
  "''o/v1.22/features/f/x.pkl'' \<in> selected_features fixture_pkl ''m'' ''o/v1.22'' ''1.22'' fixture_disk"
proof -
  have "''m/features/f/x.pkl'' \<in> paths fixture_disk \<and> in_root ''f'' \<and> path_base ''x.pkl'' \<noteq> ''meta.pkl'' \<and>
      chosen_feature fixture_pkl ''m'' ''1.22'' ''f''"
    by code_simp
  then show ?thesis
    unfolding selected_features_def feature_dir_def
    by (intro CollectI exI [of _ "''f''"] exI [of _ "''x.pkl''"]) simp
qed

lemma sample_dropped:
  "''o/v1.22/shared/helmrelease.pkl'' \<notin> selected_shared fixture_pkl ''m'' ''o/v1.22'' ''1.22'' fixture_disk \<union>
     selected_features fixture_pkl ''m'' ''o/v1.22'' ''1.22'' fixture_disk"
proof -
  have "in_root ''helmrelease.pkl'' \<and> unfit fixture_pkl (''o/v1.22'' @ ''/shared'') ''1.22'' ''helmrelease.pkl''"
    by code_simp
  then have "''o/v1.22/shared/helmrelease.pkl'' \<notin> selected_shared fixture_pkl ''m'' ''o/v1.22'' ''1.22'' fixture_disk"
    by (auto simp: selected_shared_def)
  then show ?thesis
    by (simp add: selected_features_def feature_dir_def)
qed


end
