(* ===== verification/Drift_Protocol.thy ===== *)
theory Drift_Protocol
  imports Json
begin

text \<open>
  The drift protocol of the Helm interoperability suite (\<open>test/helm-interop/drift_protocol.go\<close>): the suite reads the
  answers of the agent that runs the plugin and goes on only when they say exactly what it expects. An apply is rejected
  for one drifted release, its revert is reviewed, and a review that has become stale is rejected without a command.

  A document \<open>json.Unmarshal\<close> reads whole is its value, or the error. The strict reader of the last step works on the
  tokens, so its document keeps every member in the order written, repeated ones too, and says what follows.
\<close>

subsection \<open>Decoding\<close>

text \<open>An absent field keeps its zero value, as a null one does, so both are read as null.\<close>

fun decode_text :: "json \<Rightarrow> string res" where
  "decode_text JNull = Inr []"
| "decode_text (JStr s) = Inr s"
| "decode_text _ = Inl (json_type_error [])"

fun decode_flag :: "json \<Rightarrow> bool res" where
  "decode_flag JNull = Inr False"
| "decode_flag (JBool b) = Inr b"
| "decode_flag _ = Inl (json_type_error [])"

fun all_res :: "'a res list \<Rightarrow> 'a list res" where
  "all_res [] = Inr []"
| "all_res (r # rs) = bind_res r (\<lambda>x. bind_res (all_res rs) (\<lambda>xs. Inr (x # xs)))"

fun decode_list :: "(json \<Rightarrow> 'a res) \<Rightarrow> json \<Rightarrow> 'a list res" where
  "decode_list dec JNull = Inr []"
| "decode_list dec (JArr vs) = all_res (map dec vs)"
| "decode_list dec _ = Inl (json_type_error [])"

text \<open>The values of a map with string keys.\<close>

fun decode_values :: "(json \<Rightarrow> 'a res) \<Rightarrow> json \<Rightarrow> 'a list res" where
  "decode_values dec JNull = Inr []"
| "decode_values dec (JObj kvs) = all_res (map (dec \<circ> snd) kvs)"
| "decode_values dec _ = Inl (json_type_error [])"

fun decode_struct :: "(jobject \<Rightarrow> 'a res) \<Rightarrow> json \<Rightarrow> 'a res" where
  "decode_struct build JNull = build []"
| "decode_struct build (JObj kvs) = build kvs"
| "decode_struct build _ = Inl (json_type_error [])"

definition decode_field :: "string \<Rightarrow> (json \<Rightarrow> 'a res) \<Rightarrow> jobject \<Rightarrow> 'a res" where
  "decode_field k dec kvs = dec (case map_of kvs k of None \<Rightarrow> JNull | Some v \<Rightarrow> v)"

abbreviation text_field :: "string \<Rightarrow> jobject \<Rightarrow> string res" where
  "text_field k \<equiv> decode_field k decode_text"

subsection \<open>Resources, decisions and resolutions\<close>

record drift_resource =
  dr_resource_id :: string
  dr_stack :: string
  dr_type :: string
  dr_label :: string
  dr_operation :: string
  dr_external_only :: bool

record drift_decision =
  dd_resource_id :: string
  dd_action :: string

record drift_resolution =
  rs_observation_id :: string
  rs_review_id :: string
  rs_decisions :: "drift_decision list"
  rs_idempotency_key :: string

definition drift_resource_of :: "json \<Rightarrow> drift_resource res" where
  "drift_resource_of = decode_struct (\<lambda>kvs.
     bind_res (text_field ''ResourceID'' kvs) (\<lambda>i.
     bind_res (text_field ''Stack'' kvs) (\<lambda>s.
     bind_res (text_field ''Type'' kvs) (\<lambda>t.
     bind_res (text_field ''Label'' kvs) (\<lambda>l.
     bind_res (text_field ''Operation'' kvs) (\<lambda>p.
     bind_res (decode_field ''ExternalChangesOnly'' decode_flag kvs) (\<lambda>x.
     Inr \<lparr>dr_resource_id = i, dr_stack = s, dr_type = t, dr_label = l, dr_operation = p, dr_external_only = x\<rparr>)))))))"

definition drift_decision_of :: "json \<Rightarrow> drift_decision res" where
  "drift_decision_of = decode_struct (\<lambda>kvs.
     bind_res (text_field ''ResourceID'' kvs) (\<lambda>i.
     bind_res (text_field ''Action'' kvs) (\<lambda>a. Inr \<lparr>dd_resource_id = i, dd_action = a\<rparr>)))"

definition same_release :: "drift_resource \<Rightarrow> drift_resource \<Rightarrow> bool" where
  "same_release a b \<longleftrightarrow> dr_stack a = dr_stack b \<and> dr_type a = dr_type b \<and> dr_label a = dr_label b"

subsection \<open>The rejected apply\<close>

record rejection =
  rj_error :: string
  rj_observation_id :: string
  rj_stacks :: "drift_resource list list"

definition rejection_of :: "json \<Rightarrow> rejection res" where
  "rejection_of = decode_struct (\<lambda>kvs.
     bind_res (text_field ''error'' kvs) (\<lambda>e.
     decode_field ''data'' (decode_struct (\<lambda>data.
       bind_res (text_field ''ObservationID'' data) (\<lambda>ob.
       bind_res (decode_field ''ModifiedStacks''
           (decode_values (decode_struct (decode_field ''ModifiedResources'' (decode_list drift_resource_of)))) data) (\<lambda>stacks.
       Inr \<lparr>rj_error = e, rj_observation_id = ob, rj_stacks = stacks\<rparr>)))) kvs))"

definition shown_release :: "drift_resource \<Rightarrow> string" where
  "shown_release c = dr_stack c @ ''/'' @ dr_label c @ '' '' @ dr_type c"

definition parse_reconcile_rejection :: "json res \<Rightarrow> drift_resource \<Rightarrow> drift_resolution res" where
  "parse_reconcile_rejection raw expected =
     (case bind_res raw rejection_of of
        Inl e \<Rightarrow> Inl (wrap_error ''decode reconcile rejection'' e)
      | Inr p \<Rightarrow>
          if rj_error p \<noteq> ''ReconcileRejected''
          then Inl (new_error (''apply error = '' @ quoted (rj_error p) @ '', want ReconcileRejected''))
          else if rj_observation_id p = [] then Inl (new_error ''reconcile rejection has no ObservationID'')
          else (case concat (rj_stacks p) of
                  [change] \<Rightarrow>
                    if dr_resource_id change = [] then Inl (new_error ''changed release has no ResourceID'')
                    else if \<not> same_release change expected
                    then Inl (new_error (''changed resource = '' @ shown_release change @ '', want '' @ shown_release expected))
                    else if dr_operation change \<noteq> ''update''
                    then Inl (new_error (''changed release operation = '' @ quoted (dr_operation change) @ '', want update''))
                    else if \<not> dr_external_only change
                    then Inl (new_error ''changed release is not marked ExternalChangesOnly'')
                    else Inr \<lparr>rs_observation_id = rj_observation_id p, rs_review_id = [],
                                rs_decisions = [\<lparr>dd_resource_id = dr_resource_id change, dd_action = ''revert''\<rparr>],
                                rs_idempotency_key = []\<rparr>
                | changes \<Rightarrow> Inl (new_error (''reconcile rejection contains '' @ show_nat (length changes) @
                    '' changed resources, want 1''))))"

subsection \<open>The review of a resolution\<close>

text \<open>An observation and an update of the review name their resource in different spellings; both are read as a
  resource, \<open>dr_operation\<close> holding the observation's kind.\<close>

definition observed_of :: "json \<Rightarrow> drift_resource res" where
  "observed_of = decode_struct (\<lambda>kvs.
     bind_res (text_field ''ResourceID'' kvs) (\<lambda>i.
     bind_res (text_field ''Stack'' kvs) (\<lambda>s.
     bind_res (text_field ''Type'' kvs) (\<lambda>t.
     bind_res (text_field ''Label'' kvs) (\<lambda>l.
     bind_res (text_field ''Kind'' kvs) (\<lambda>k.
     Inr \<lparr>dr_resource_id = i, dr_stack = s, dr_type = t, dr_label = l, dr_operation = k, dr_external_only = False\<rparr>))))))"

definition update_of :: "json \<Rightarrow> drift_resource res" where
  "update_of = decode_struct (\<lambda>kvs.
     bind_res (text_field ''ResourceId'' kvs) (\<lambda>i.
     bind_res (text_field ''ResourceType'' kvs) (\<lambda>t.
     bind_res (text_field ''ResourceLabel'' kvs) (\<lambda>l.
     bind_res (text_field ''StackName'' kvs) (\<lambda>s.
     bind_res (text_field ''Operation'' kvs) (\<lambda>p.
     Inr \<lparr>dr_resource_id = i, dr_stack = s, dr_type = t, dr_label = l, dr_operation = p, dr_external_only = False\<rparr>))))))"

record review =
  rv_observation_id :: string
  rv_review_id :: string
  rv_decisions :: "drift_decision list"
  rv_observations :: "drift_resource list"
  rv_changes_required :: bool
  rv_updates :: "drift_resource list"

definition review_of :: "json \<Rightarrow> review res" where
  "review_of = decode_struct (\<lambda>kvs.
     bind_res (decode_field ''Review'' (decode_struct (\<lambda>rv.
       bind_res (text_field ''ObservationID'' rv) (\<lambda>ob.
       bind_res (text_field ''ReviewID'' rv) (\<lambda>i.
       bind_res (decode_field ''Decisions'' (decode_list drift_decision_of) rv) (\<lambda>ds.
       bind_res (decode_field ''Observations'' (decode_list observed_of) rv) (\<lambda>os.
       Inr (ob, i, ds, os))))))) kvs) (\<lambda>(ob, i, ds, os).
     decode_field ''Simulation'' (decode_struct (\<lambda>sim.
       bind_res (decode_field ''ChangesRequired'' decode_flag sim) (\<lambda>req.
       bind_res (decode_field ''Command''
           (decode_struct (decode_field ''ResourceUpdates'' (decode_list update_of))) sim) (\<lambda>us.
       Inr \<lparr>rv_observation_id = ob, rv_review_id = i, rv_decisions = ds, rv_observations = os,
             rv_changes_required = req, rv_updates = us\<rparr>)))) kvs))"

definition receipted :: "drift_resolution \<Rightarrow> review \<Rightarrow> drift_decision option" where
  "receipted controls p =
     (case (rs_decisions controls, rv_decisions p) of ([d], [d']) \<Rightarrow> if d' = d then Some d else None | _ \<Rightarrow> None)"

definition about_drift :: "drift_decision \<Rightarrow> drift_resource \<Rightarrow> drift_resource \<Rightarrow> bool" where
  "about_drift decision expected c \<longleftrightarrow>
     dr_resource_id c = dd_resource_id decision \<and> same_release c expected \<and> dr_operation c = ''update''"

definition parse_resolution_review :: "json res \<Rightarrow> drift_resolution \<Rightarrow> drift_resource \<Rightarrow> string res" where
  "parse_resolution_review raw controls expected =
     (case bind_res raw review_of of
        Inl e \<Rightarrow> Inl (wrap_error ''decode resolution review'' e)
      | Inr p \<Rightarrow>
          if rv_review_id p = [] then Inl (new_error ''resolution review has no ReviewID'')
          else if rv_observation_id p \<noteq> rs_observation_id controls
          then Inl (new_error (''review ObservationID = '' @ quoted (rv_observation_id p) @ '', want '' @
                 quoted (rs_observation_id controls)))
          else (case receipted controls p of
                  None \<Rightarrow> Inl (new_error ''review did not receipt the requested decision'')
                | Some decision \<Rightarrow>
                    (case rv_observations p of
                       [ob] \<Rightarrow>
                         if \<not> about_drift decision expected ob
                         then Inl (new_error ''review observation does not match the drifted release'')
                         else if \<not> rv_changes_required p
                         then Inl (new_error ''resolution review says no changes are required'')
                         else (case rv_updates p of
                                 [u] \<Rightarrow>
                                   if \<not> about_drift decision expected u
                                   then Inl (new_error ''resolution review update does not match the drifted release'')
                                   else Inr (rv_review_id p)
                               | us \<Rightarrow> Inl (new_error (''resolution review contains '' @ show_nat (length us) @
                                   '' resource updates, want 1'')))
                     | obs \<Rightarrow> Inl (new_error (''review contains '' @ show_nat (length obs) @ '' observations, want 1'')))))"

subsection \<open>The strict reader\<close>

text \<open>What the tokens of a document show: nothing readable, or a value and what comes after it. The members of an
  object that breaks off are those read until then, with the fault as its ending.\<close>

datatype ending = Ended | Trailing | Fault gerr

datatype document = Unreadable gerr | Document json ending

fun opening_token :: "json \<Rightarrow> string" where
  "opening_token (JArr vs) = ''[''"
| "opening_token (JObj kvs) = ''{''"
| "opening_token v = fmt_v v"

fun repeated :: "string list \<Rightarrow> string list \<Rightarrow> string option" where
  "repeated seen [] = None"
| "repeated seen (k # ks) = (if k \<in> set seen then Some k else repeated (k # seen) ks)"

fun decode_json_object :: "document \<Rightarrow> jobject res" where
  "decode_json_object (Unreadable e) = Inl e"
| "decode_json_object (Document (JObj kvs) rest) =
     (case repeated [] (map fst kvs) of
        Some k \<Rightarrow> Inl (new_error (''duplicate field '' @ quoted k))
      | None \<Rightarrow>
          (case rest of
             Ended \<Rightarrow> Inr kvs
           | Trailing \<Rightarrow> Inl (new_error ''unexpected JSON after object'')
           | Fault e \<Rightarrow> Inl e))"
| "decode_json_object (Document v rest) = Inl (new_error (''got '' @ opening_token v @ '', want JSON object''))"

text \<open>\<open>%T\<close> of a decoded value.\<close>

fun go_type :: "json \<Rightarrow> string" where
  "go_type JNull = ''<nil>''"
| "go_type (JBool _) = ''bool''"
| "go_type (JNum _) = ''float64''"
| "go_type (JStr _) = ''string''"
| "go_type (JArr _) = ''[]interface {}''"
| "go_type (JObj _) = ''map[string]interface {}''"

fun json_string :: "json \<Rightarrow> string res" where
  "json_string (JStr s) = Inr s"
| "json_string v = Inl (new_error (''got '' @ go_type v @ '', want string''))"

definition required_json_string :: "jobject \<Rightarrow> string \<Rightarrow> string res" where
  "required_json_string members name =
     (case map_of members name of None \<Rightarrow> Inl (new_error (''missing '' @ name)) | Some v \<Rightarrow> json_string v)"

subsection \<open>The stale review and the submitted command\<close>

definition labelled_res :: "string \<Rightarrow> 'a res \<Rightarrow> 'a res" where
  "labelled_res msg = map_sum (wrap_error (''drift resolution rejection '' @ msg)) id"

text \<open>The member of a rejection's data that is there only sometimes: it must be a string then.\<close>

definition optional_json_string :: "jobject \<Rightarrow> string \<Rightarrow> string res" where
  "optional_json_string members name =
     (case map_of members name of None \<Rightarrow> Inr [] | Some v \<Rightarrow> labelled_res name (json_string v))"

definition stale_data :: "jobject \<Rightarrow> string res" where
  "stale_data data =
     (case find (\<lambda>k. k \<notin> set [''Code'', ''Reason'', ''ResourceID'', ''CommandId'']) (map fst data) of
        Some k \<Rightarrow> Inl (new_error (''drift resolution rejection data has unexpected field '' @ quoted k))
      | None \<Rightarrow>
          bind_res (labelled_res ''code'' (required_json_string data ''Code'')) (\<lambda>code.
          if code \<noteq> ''stale-review''
          then Inl (new_error (''drift resolution rejection code = '' @ quoted code @ '', want stale-review''))
          else bind_res (labelled_res ''reason'' (required_json_string data ''Reason'')) (\<lambda>reason.
            if reason = [] then Inl (new_error ''drift resolution rejection has no reason'')
            else bind_res (optional_json_string data ''ResourceID'') (\<lambda>_.
              bind_res (optional_json_string data ''CommandId'') (\<lambda>command.
              if command \<noteq> [] then Inl (new_error (''drift resolution rejection admitted command '' @ quoted command))
              else Inr reason)))))"

definition parse_stale_drift_review_rejection :: "document \<Rightarrow> string res" where
  "parse_stale_drift_review_rejection raw =
     (case decode_json_object raw of
        Inl e \<Rightarrow> Inl (wrap_error ''decode drift resolution rejection'' e)
      | Inr payload \<Rightarrow>
          if length payload \<noteq> 2 then Inl (new_error ''drift resolution rejection has unexpected fields'')
          else bind_res (labelled_res ''error'' (required_json_string payload ''error'')) (\<lambda>error.
            if error \<noteq> ''DriftResolutionRejected''
            then Inl (new_error (''submission error = '' @ quoted error @ '', want DriftResolutionRejected''))
            else (case map_of payload ''data'' of
                    None \<Rightarrow> Inl (new_error ''drift resolution rejection has no data'')
                  | Some d \<Rightarrow>
                      (case decode_json_object (Document d Ended) of
                         Inl e \<Rightarrow> Inl (wrap_error ''decode drift resolution rejection data'' e)
                       | Inr data \<Rightarrow> stale_data data))))"

definition parse_submitted_command :: "json res \<Rightarrow> string res" where
  "parse_submitted_command raw =
     (case bind_res raw (decode_struct (text_field ''CommandId'')) of
        Inl e \<Rightarrow> Inl (wrap_error ''decode submitted command'' e)
      | Inr i \<Rightarrow> if i = [] then Inl (new_error ''submission returned no CommandId'') else Inr i)"

subsection \<open>What an accepted answer says\<close>

lemma repeated_None: "repeated seen ks = None \<longleftrightarrow> distinct ks \<and> set ks \<inter> set seen = {}"
  by (induction ks arbitrary: seen) auto

lemma decode_json_object_Inr:
  "decode_json_object d = Inr kvs \<longleftrightarrow> d = Document (JObj kvs) Ended \<and> distinct (map fst kvs)"
proof (cases d rule: decode_json_object.cases)
  case (2 members rest)
  then show ?thesis
    using repeated_None [of "[]" "map fst members"] by (cases "repeated [] (map fst members)") (auto split: ending.splits)
qed auto

lemma decode_json_object_ok: "distinct (map fst kvs) \<Longrightarrow> decode_json_object (Document (JObj kvs) Ended) = Inr kvs"
  by (simp only: decode_json_object_Inr simp_thms)

lemma json_string_Inr [simp]: "json_string v = Inr s \<longleftrightarrow> v = JStr s"
  by (cases v) auto

lemma labelled_res_Inr [simp]: "labelled_res msg r = Inr x \<longleftrightarrow> r = Inr x"
  by (cases r) (auto simp: labelled_res_def)

lemma required_json_string_Inr [simp]: "required_json_string members k = Inr s \<longleftrightarrow> map_of members k = Some (JStr s)"
  by (auto simp: required_json_string_def split: option.splits)

lemma optional_json_string_Inr:
  "optional_json_string members k = Inr s \<longleftrightarrow> map_of members k = Some (JStr s) \<or> (map_of members k = None \<and> s = [])"
  by (auto simp: optional_json_string_def split: option.splits)

text \<open>A rejected apply is answered with the revert of the one drifted release, and only then.\<close>

theorem rejection_accepted_iff:
  "parse_reconcile_rejection (Inr doc) expected = Inr controls \<longleftrightarrow>
     (\<exists>p change. rejection_of doc = Inr p \<and> rj_error p = ''ReconcileRejected'' \<and> rj_observation_id p \<noteq> [] \<and>
        concat (rj_stacks p) = [change] \<and> dr_resource_id change \<noteq> [] \<and> same_release change expected \<and>
        dr_operation change = ''update'' \<and> dr_external_only change \<and>
        controls = \<lparr>rs_observation_id = rj_observation_id p, rs_review_id = [],
          rs_decisions = [\<lparr>dd_resource_id = dr_resource_id change, dd_action = ''revert''\<rparr>], rs_idempotency_key = []\<rparr>)"
  unfolding parse_reconcile_rejection_def
  by (auto split: sum.splits list.splits if_splits simp del: concat_eq_Nil_conv)

lemma receipted_Some: "receipted controls p = Some d \<longleftrightarrow> rs_decisions controls = [d] \<and> rv_decisions p = [d]"
  by (auto simp: receipted_def split: list.splits)

lemma receipted_None: "receipted controls p = None \<longleftrightarrow> (\<forall>d. \<not> (rs_decisions controls = [d] \<and> rv_decisions p = [d]))"
  by (metis not_None_eq receipted_Some)

theorem review_accepted_iff:
  "parse_resolution_review (Inr doc) controls expected = Inr i \<longleftrightarrow>
     (\<exists>p d ob u. review_of doc = Inr p \<and> rv_review_id p = i \<and> i \<noteq> [] \<and> rv_observation_id p = rs_observation_id controls \<and>
        rs_decisions controls = [d] \<and> rv_decisions p = [d] \<and> rv_observations p = [ob] \<and> about_drift d expected ob \<and>
        rv_changes_required p \<and> rv_updates p = [u] \<and> about_drift d expected u)"
  unfolding parse_resolution_review_def
  by (auto simp: receipted_Some receipted_None split: sum.splits list.splits if_splits option.splits)

text \<open>A stale review is one whose rejection has exactly an error and data, the code, a reason and no command.\<close>

lemma stale_data_Inr:
  "stale_data data = Inr reason \<longleftrightarrow>
     fst ` set data \<subseteq> {''Code'', ''Reason'', ''ResourceID'', ''CommandId''} \<and>
     map_of data ''Code'' = Some (JStr ''stale-review'') \<and> map_of data ''Reason'' = Some (JStr reason) \<and> reason \<noteq> [] \<and>
     (\<forall>v. map_of data ''ResourceID'' = Some v \<longrightarrow> (\<exists>s. v = JStr s)) \<and>
     (\<forall>v. map_of data ''CommandId'' = Some v \<longrightarrow> v = JStr [])"
proof (cases "fst ` set data \<subseteq> {''Code'', ''Reason'', ''ResourceID'', ''CommandId''}")
  case True
  then have "find (\<lambda>k. k \<notin> set [''Code'', ''Reason'', ''ResourceID'', ''CommandId'']) (map fst data) = None"
    by (auto simp: find_None_iff)
  then have "stale_data data = Inr reason \<longleftrightarrow> required_json_string data ''Code'' = Inr ''stale-review'' \<and>
      required_json_string data ''Reason'' = Inr reason \<and> reason \<noteq> [] \<and>
      (\<exists>s. optional_json_string data ''ResourceID'' = Inr s) \<and> optional_json_string data ''CommandId'' = Inr []"
    by (auto simp: stale_data_def bind_res_Inr_iff)
  with True show ?thesis
    unfolding optional_json_string_Inr required_json_string_Inr by (cases "map_of data ''ResourceID''"; cases "map_of data ''CommandId''") auto
next
  case False
  then show ?thesis
    by (auto simp: stale_data_def find_None_iff split: option.splits)
qed

theorem stale_rejection_iff:
  "parse_stale_drift_review_rejection doc = Inr reason \<longleftrightarrow>
     (\<exists>payload data. doc = Document (JObj payload) Ended \<and> distinct (map fst payload) \<and> length payload = 2 \<and>
        map_of payload ''error'' = Some (JStr ''DriftResolutionRejected'') \<and> map_of payload ''data'' = Some (JObj data) \<and>
        distinct (map fst data) \<and> stale_data data = Inr reason)"
  unfolding parse_stale_drift_review_rejection_def
  by (auto simp: decode_json_object_Inr decode_json_object_ok bind_res_Inr_iff simp del: decode_json_object.simps
      split: sum.splits option.splits if_splits)

text \<open>The two answers of one drift speak of the same object.\<close>

theorem review_confirms_rejection:
  assumes "parse_reconcile_rejection (Inr doc) expected = Inr controls"
    and "parse_resolution_review (Inr doc') controls expected = Inr i"
  shows "\<exists>p rv change u. rejection_of doc = Inr p \<and> concat (rj_stacks p) = [change] \<and> review_of doc' = Inr rv \<and>
    rv_observation_id rv = rj_observation_id p \<and> rv_updates rv = [u] \<and>
    dr_resource_id u = dr_resource_id change \<and> same_release u change"
  using assms unfolding rejection_accepted_iff review_accepted_iff
  by (auto simp: about_drift_def same_release_def)

end
