(* ===== verification/Spec2Isabelle.thy ===== *)
theory Spec2Isabelle
  imports Kinds Release_Safety Custom Plugin_Safety Cloud_Providers Chart_Retrieval Helm_Config Schema_Tree Fixture_Tree Drift_Protocol
begin

text \<open>
  A model of formae's Kubernetes plugin. The program is a set of resource provisioners behind one plugin object. The
  host asks the plugin to create, read, update, delete, list or poll one resource; the plugin parses the target of
  the request, checks the operator's policy, takes a client for the cluster from a cache, asks whether the cluster's
  version serves the type, and hands the request to the provisioner the type registered. Provisioners of built-in
  kinds share one pattern; custom resources go through a dynamic client; Helm releases are worked on by background
  goroutines that outlive the request, which the host then polls. Credentials come from kubeconfig files, from the
  agent's own cloud identity, or from a broker of identity tokens, through a coalescing cache and a transport that
  adds them to requests.

  \<^bold>\<open>How the code is read.\<close> A Go function is a HOL function of the same name. A struct is a record, an embedded struct the
  record it extends; an error is a \<open>gerr\<close>, which holds what \<open>errors.Is\<close>, \<open>errors.As\<close> and the predicates of
  \<open>apierrors\<close> can observe of the chain; a result with an error is a \<open>res\<close> (\<open>Inl\<close> the error), a call that can panic
  returns \<open>Ret\<close> or \<open>Panic\<close>. A Go map is an association list with distinct keys in some iteration order. Mutexes cut
  a concurrent component into critical sections; each section is a function of the component's state, and an inductive step
  relation interleaves them with the callers, the workers and the clock. Code outside the repository
  (client-go, Helm, the clouds' SDKs, parsers of URLs, YAML and certificates, SHA-256) is a parameter, most often a
  record of functions over a state \<open>'s\<close> of the cluster. A context is the error it has at the \<open>k\<close>-th place the code looks at it.

  \<^bold>\<open>Shared theories.\<close>
  \<^item> \<open>Prelude\<close>: errors, results, association lists, the collections of rewrite rules.
  \<^item> \<open>Go_Strings\<close>, \<open>Go_Time\<close>: what is used of \<open>strings\<close>, \<open>strconv\<close> and \<open>time\<close>. Durations are 64-bit words where
    they can overflow.
  \<^item> \<open>Json\<close>, \<open>Json_Canon\<close>: decoded JSON, and the order in which \<open>json.Marshal\<close> prints it, compared with
    JSON trees whose objects are finite maps.
  \<^item> \<open>Fences\<close>: the locale \<open>generation_fence\<close>, work that reports back late and may touch an entry only while the entry
    has the generation the work started under. It is interpreted for the token cache (a refresh), the auth bridge (a
    service), the flight registry (a completion, a timer, a released reader) and the inventory (a build).

  \<^bold>\<open>Typed resources\<close> (\<open>src/pkg/resources/prov\<close> and the directories of kinds).
  \<^item> \<open>Native_Id\<close> (\<open>nativeid.go\<close>, \<open>customid.go\<close>, \<open>namespace.go\<close>): identifiers; building and parsing are inverse.
  \<^item> \<open>K8s_Version\<close> (\<open>src/pkg/config/version.go\<close>, \<open>src/pkg/k8sversion\<close>, \<open>version_check.go\<close>): versions and the gates of fields and types.
  \<^item> \<open>Metadata\<close> (\<open>normalize.go\<close>, \<open>ownership.go\<close>): dot-expanded maps; the patch that removes exactly the undeclared keys.
  \<^item> \<open>Live_State\<close> (\<open>livestate.go\<close>, \<open>customlivestate.go\<close>, \<open>replicaownership.go\<close>): what is shown of a live object;
    server fields are hidden, the user's are kept.
  \<^item> \<open>Errors\<close> (\<open>errors.go\<close>, \<open>src/pkg/auth/transient.go\<close>): classification of failures.
  \<^item> \<open>Lifecycle\<close> (\<open>lifecycle.go\<close>, \<open>provisioner.go\<close>): the decorator of every provisioner; no panic leaves it, and a deletion that
    succeeds was verified by a Read.
  \<^item> \<open>Paging\<close> (\<open>pagination.go\<close>): listing page by page; it returns every page when the server's tokens end.
  \<^item> \<open>Kind_Provisioner\<close>, \<open>Workloads\<close>, \<open>Kinds\<close>: the operations the kinds share, each kind's reading of its rollout (with
    32-bit counts), one definition per kind, and the namespace with its stuck finalizers.
  \<^item> \<open>Custom\<close> (\<open>src/pkg/resources/custom\<close>): custom resources; the wait for a kind ends by its deadline, and an apply
    converges.

  \<^bold>\<open>Authentication\<close> (\<open>src/pkg/config\<close>, \<open>src/pkg/auth\<close>, \<open>src/pkg/internal\<close>).
  \<^item> \<open>Auth_Formats\<close>, \<open>Auth_Config\<close>: the formats in a target's authentication block, its parsing and validation, the
    operator's policy, the reference guard.
  \<^item> \<open>Auth_Runtime\<close>, \<open>Auth_Identity\<close>: the checks before a connection, the source each method uses; the fingerprint
    separates identities.
  \<^item> \<open>Token_Cache\<close> (\<open>cache.go\<close>), \<open>Transport\<close> (\<open>transport.go\<close>, \<open>context_transport.go\<close>): served tokens are current and
    stay on the target's origin.
  \<^item> \<open>Cloud_Tokens\<close> (\<open>oidc\<close>, \<open>eks/oidc.go\<close>, \<open>aks/oidc.go\<close>, \<open>gke/oidc.go\<close>, \<open>internal/federation\<close>),
    \<open>Cloud_Providers\<close> (\<open>eks\<close>, \<open>gke\<close>, \<open>aks\<close>, \<open>oci\<close>, \<open>ovh\<close>): the sources of tokens, their expiry, and what their errors reveal.
  \<^item> \<open>Client_Cache\<close> (\<open>src/pkg/transport\<close>): cluster clients and their cache; a caller gets a client of its own identity.

  \<^bold>\<open>Helm releases\<close> (\<open>src/pkg/resources/helm\<close>).
  \<^item> \<open>Auth_Bridge\<close> (\<open>auth_bridge.go\<close>): how callbacks lend their credentials to a worker; no token outlives what the
    window allows.
  \<^item> \<open>Flights\<close> (\<open>inflight.go\<close>, \<open>flight_lifecycle.go\<close>): the registry of running operations and its state machine; one
    worker per release, a failure stays until it is delivered, a drained flight never starts.
  \<^item> \<open>Release_Record\<close>, \<open>Release_Plan\<close>, \<open>Release_Status\<close>, \<open>Release_Ops\<close> (\<open>release.go\<close>, \<open>callback_budget.go\<close>,
    \<open>cluster_identity.go\<close>): the data of a release, the plan of an operation, the verdict of a poll, whole handlers.
  \<^item> \<open>Release_Refinement\<close>, \<open>Release_Safety\<close>: every handler is a run of the state machine; what the handlers promise.
  \<^item> \<open>Inventory\<close> (\<open>inventory.go\<close>, \<open>owners.go\<close>): which objects belong to releases.
  \<^item> \<open>Helm_Config\<close> (\<open>actioncfg.go\<close>, \<open>kubeconfig.go\<close>): the configurations Helm runs with, and the time bound of a
    worker's requests.
  \<^item> \<open>Chart_Retrieval\<close> (\<open>release.go\<close>, \<open>callback_budget.go\<close>, \<open>registry_credentials.go\<close>, \<open>registry_budget.go\<close>): charts within
    the time of a callback, and registry credentials.

  \<^bold>\<open>The plugin\<close> (\<open>src/k8s.go\<close>, \<open>src/pkg/resources/registry\<close>).
  \<^item> \<open>Discovery\<close>: the table of types and the filters of discovery.
  \<^item> \<open>Plugin\<close>, \<open>Plugin_Safety\<close>: the operations and what holds of all of them. The locale \<open>guarded_operation\<close> is their common
    contract (where the type and the properties of a request are, and that the cluster is touched only behind the
    gates), interpreted for each of the six.

  \<^bold>\<open>The generators\<close> (\<open>src/tools\<close>), which write the schemas and the conformance fixtures of each Kubernetes version.
  \<^item> \<open>Pkl_Text\<close>, \<open>Gen_Disk\<close>: regular expressions as scanners, paths, and the files on disk.
  \<^item> \<open>Schema_Gen\<close> (\<open>gen-versioned-reflect/main.go\<close>): gates, the plan for a version, the rewriting of a module line by line.
  \<^item> \<open>Schema_Modules\<close>: on well-formed modules the rewriting prunes the tree of declarations.
  \<^item> \<open>Schema_Tree\<close>: the gates are those the plugin checks; the subtree of a version is exact.
  \<^item> \<open>Fixture_Gen\<close>, \<open>Fixture_Tree\<close> (\<open>gen-versioned-testdata/main.go\<close>): the fixtures a version gets, and no others.

  \<^bold>\<open>The interoperability suite.\<close>
  \<^item> \<open>Drift_Protocol\<close> (\<open>src/test/helm-interop/drift_protocol.go\<close>): which answers of the agent it accepts.

  \<^bold>\<open>Loops and bounds.\<close> Four loops depend on somebody else to end: \<open>ListAll\<close> and \<open>EachPage\<close> on the server's tokens,
  the wait for a kind on clock and context, \<open>installStatus\<close> on the cluster's record. They are partial functions in
  the option monad, and the theorems about them state that they return. All other functions are total; the recursions on
  JSON values end by the size of the value. \<open>visited\<close> in \<open>Paging\<close> and \<open>certificates\<close> in \<open>Auth_Formats\<close> have
  fuel: the first is only a reference, to which the loop is compared; the second gets the length of the text, and every
  turn consumes a block of it (\<open>certificates_fuel\<close>). Walks up owner references end at the code's own depth
  limit, \<open>max_owner_depth\<close>.

  \<^bold>\<open>Assumptions\<close>, each a named hypothesis where it is used: \<open>collision_free\<close> (SHA-256 is injective on what is hashed),
  \<open>hex_digests\<close> (a digest has no bar), \<open>reads_fields\<close> (the accessors of an unstructured object read the fields of the
  object), \<open>slash_free_refs\<close> (kinds have no slash). The model itself fixes that JSON numbers are integers,
  that the keys of JSON documents are spelled as in the Go structs, that text is ASCII where
  Go folds case or trims space, and that a document handed over as bytes is its value.

  \<^bold>\<open>Not modelled.\<close> \<open>main.go\<close> (it starts the SDK and drains the flights, and the drain is modelled); the process groups
  of credential helpers (\<open>registry_helper_unix.go\<close>), which only call the operating system; logging and printing; the
  tests with their fixtures and helpers (\<open>src/pkg/resources/testutil\<close> and the rest of \<open>src/test\<close>).
\<close>

end
